(* ===== verification/Prelude.thy ===== *)
theory Prelude
  imports Complex_Main "HOL-Library.Word"
begin

text \<open>
  Shared vocabulary of the development: the machine types of the firmware, the byte and bit
  primitives every decoder uses, and the generic facts about lists and exclusive-or sums the
  component theories share.

  The C types are kept at their width where the code depends on it: \<open>uint8_t\<close> is \<^typ>\<open>8 word\<close>,
  \<open>uint16_t\<close> is \<^typ>\<open>16 word\<close>, \<open>uint32_t\<close> and (on the 32-bit RISC-V target) \<open>unsigned long\<close>
  are \<^typ>\<open>32 word\<close>, \<open>uint64_t\<close> is \<^typ>\<open>64 word\<close>. A C \<open>int\<close> whose values the code keeps small is an
  \<^typ>\<open>int\<close>.
\<close>

unbundle bit_operations_syntax

type_synonym u8 = "8 word"
type_synonym u16 = "16 word"
type_synonym u32 = "32 word"
type_synonym u64 = "64 word"

named_theorems bounds_intros \<open>range facts of decoded fields\<close>

lemma bit_unat_odd: "bit w k \<longleftrightarrow> odd (unat w div 2 ^ k)"
  by (simp flip: bit_iff_odd add: bit_unsigned_iff)

section \<open>Message bytes and bits\<close>

text \<open>
  A message is a list of bytes. Bit \<open>j\<close> of a message is counted from the most significant bit
  of its first byte, as everywhere in the decoder (\<open>byte = j / 8\<close>, \<open>bitmask = 1 << (7 - j % 8)\<close>).
\<close>

definition bitmask :: "nat \<Rightarrow> u8" where
  "bitmask j = push_bit (7 - j mod 8) 1"

definition msg_bit :: "u8 list \<Rightarrow> nat \<Rightarrow> bool" where
  "msg_bit m j = (m ! (j div 8) AND bitmask j \<noteq> 0)"

definition flip_msg_bit :: "nat \<Rightarrow> u8 list \<Rightarrow> u8 list" where
  "flip_msg_bit j m = m[j div 8 := m ! (j div 8) XOR bitmask j]"

lemma bit_bitmask [bit_simps]: "bit (bitmask j) n \<longleftrightarrow> n = 7 - j mod 8"
proof -
  have "7 - j mod 8 < 8" by simp
  then show ?thesis
    unfolding bitmask_def by (auto simp: bit_simps)
qed

lemma and_bitmask_neq_0: "(w AND bitmask j \<noteq> 0) \<longleftrightarrow> bit w (7 - j mod 8)"
proof -
  let ?k = "7 - j mod 8"
  have "w AND bitmask j = (if bit w ?k then bitmask j else 0)"
    by (rule bit_word_eqI) (auto simp: bit_simps)
  moreover have "bitmask j \<noteq> 0"
    using bit_bitmask[of j ?k] by auto
  ultimately show ?thesis by simp
qed

lemma msg_bit_iff: "msg_bit m j \<longleftrightarrow> bit (m ! (j div 8)) (7 - j mod 8)"
  by (simp add: msg_bit_def and_bitmask_neq_0)

lemma length_flip_msg_bit [simp]: "length (flip_msg_bit j m) = length m"
  by (simp add: flip_msg_bit_def)

lemma same_byte_bit: "i div 8 = j div 8 \<Longrightarrow> 7 - i mod 8 = 7 - j mod 8 \<Longrightarrow> i = (j::nat)"
proof -
  assume a: "i div 8 = j div 8" and b: "7 - i mod 8 = 7 - j mod 8"
  have "i mod 8 < 8" "j mod 8 < 8" by simp_all
  with b have "i mod 8 = j mod 8" by linarith
  with a show ?thesis by (metis div_mult_mod_eq)
qed

lemma msg_bit_flip:
  assumes "j < 8 * length m"
  shows "msg_bit (flip_msg_bit j m) i = (msg_bit m i \<noteq> (i = j))"
proof -
  have len: "j div 8 < length m" using assms by (simp add: div_less_iff_less_mult mult.commute)
  show ?thesis
  proof (cases "i div 8 = j div 8")
    case True
    then show ?thesis
      using len same_byte_bit[OF True]
      by (auto simp: msg_bit_iff flip_msg_bit_def bit_simps)
  next
    case False
    then show ?thesis by (auto simp: msg_bit_iff flip_msg_bit_def)
  qed
qed

lemma flip_msg_bit_same [simp]: "j < 8 * length m \<Longrightarrow> flip_msg_bit j (flip_msg_bit j m) = m"
  by (simp add: flip_msg_bit_def div_less_iff_less_mult mult.commute xor.assoc)

lemma byte_bit_of_msg_bit:
  assumes "n < 8" shows "bit (m ! k) n = msg_bit m (8 * k + (7 - n))"
proof -
  have "(8 * k + (7 - n)) div 8 = k" "(8 * k + (7 - n)) mod 8 = 7 - n"
    by (simp_all add: div_mult_self4 mod_mult_self4)
  then show ?thesis using assms by (simp add: msg_bit_iff)
qed

lemma msg_eqI:
  assumes "length m = length m'" and "\<And>j. j < 8 * length m \<Longrightarrow> msg_bit m j = msg_bit m' j"
  shows "m = m'"
proof (rule nth_equalityI)
  fix k assume k: "k < length m"
  show "m ! k = m' ! k"
  proof (rule bit_word_eqI)
    fix n assume "n < LENGTH(8)"
    then have n: "n < 8" by simp
    then have "8 * k + (7 - n) < 8 * length m" using k by linarith
    from assms(2)[OF this] show "bit (m ! k) n = bit (m' ! k) n"
      by (simp add: byte_bit_of_msg_bit[OF n])
  qed
qed (rule assms(1))

lemma flip_neq: "j < 8 * length m \<Longrightarrow> flip_msg_bit j m \<noteq> m"
  using msg_bit_flip[of j m j] by metis

lemma take_flip:
  assumes "j < 8 * n" shows "take n (flip_msg_bit j m) = flip_msg_bit j (take n m)"
proof -
  have "j div 8 < n" using assms by (simp add: div_less_iff_less_mult mult.commute)
  then show ?thesis by (simp add: flip_msg_bit_def take_update_swap)
qed

section \<open>Three-byte numbers\<close>

text \<open>A 24-bit number and the three bytes that carry it, most significant byte first.\<close>

lemma bytes3_eqI:
  fixes b1 b2 b3 :: u8 and a :: u32
  assumes "\<And>k. bit b3 k \<longleftrightarrow> k < 8 \<and> bit a k" "\<And>k. bit b2 k \<longleftrightarrow> k < 8 \<and> bit a (8 + k)"
    "\<And>k. bit b1 k \<longleftrightarrow> k < 8 \<and> bit a (16 + k)" "\<And>k. 24 \<le> k \<Longrightarrow> \<not> bit a k"
  shows "ucast b3 OR push_bit 8 (ucast b2) OR push_bit 16 (ucast b1) = a"
proof (rule bit_word_eqI)
  fix n assume n: "n < LENGTH(32)"
  consider "n < 8" | "8 \<le> n" "n < 16" | "16 \<le> n" "n < 24" | "24 \<le> n" by linarith
  then show "bit (ucast b3 OR push_bit 8 (ucast b2) OR push_bit 16 (ucast b1) :: u32) n = bit a n"
    by cases (use n assms(4)[of n] in \<open>simp_all add: bit_or_iff bit_push_bit_iff bit_ucast_iff assms(1,2,3),
        (arith+)?\<close>)
qed

lemma bytes3_split:
  fixes b1 b2 b3 :: u8 and a :: u32
  assumes "\<And>k. bit b3 k \<longleftrightarrow> k < 8 \<and> bit a k" "\<And>k. bit b2 k \<longleftrightarrow> k < 8 \<and> bit a (8 + k)"
    "\<And>k. bit b1 k \<longleftrightarrow> k < 8 \<and> bit a (16 + k)"
  shows "ucast (drop_bit 16 a) = b1" "ucast (drop_bit 8 a) = b2" "ucast a = b3"
  by (rule bit_word_eqI, simp add: bit_ucast_iff bit_drop_bit_eq assms)+

section \<open>Exclusive-or sums\<close>

text \<open>The checksum loops accumulate with \<open>^=\<close>; their value is the exclusive-or sum of a list.\<close>

primrec xsum :: "'a::len word list \<Rightarrow> 'a word" where
  "xsum [] = 0"
| "xsum (x # xs) = x XOR xsum xs"

lemma xor_eq_0: "a XOR b = 0 \<longleftrightarrow> a = (b :: 'a::len word)"
proof
  assume "a XOR b = 0"
  then have "(a XOR b) XOR b = 0 XOR b" by simp
  then show "a = b" by (simp add: xor.assoc)
qed simp

lemma xor_cancel_right: "a XOR c = b XOR c \<longleftrightarrow> a = (b :: 'a::len word)"
proof
  assume "a XOR c = b XOR c"
  then have "(a XOR c) XOR c = (b XOR c) XOR c" by simp
  then show "a = b" by (simp add: xor.assoc)
qed simp

lemma xsum_append [simp]: "xsum (xs @ ys) = xsum xs XOR xsum ys"
  by (induction xs) (simp_all add: xor.assoc)

lemma xsum_zeros [simp]: "xsum (map (\<lambda>_. 0) xs) = 0"
  by (induction xs) simp_all

lemma xsum_rev [simp]: "xsum (rev xs) = xsum xs"
  by (induction xs) (simp_all add: xor.commute)

lemma xsum_bits: "xsum (map (\<lambda>k. if bit w k then push_bit k 1 else 0) [0..<n]) = take_bit n (w :: 'a::len word)"
proof (induction n)
  case (Suc n)
  have "take_bit (Suc n) w = take_bit n w XOR (if bit w n then push_bit n 1 else 0)"
    by (rule bit_word_eqI) (auto simp: bit_simps less_Suc_eq)
  with Suc show ?case by simp
qed simp

lemma fold_xor_eq: "fold (\<lambda>j c. if P j then c XOR f j else c) js c =
    c XOR xsum (map (\<lambda>j. if P j then f j else 0) js)"
  by (induction js arbitrary: c) (simp_all add: xor.assoc)

lemma xsum_change:
  assumes "distinct js" and "j \<in> set js" and "\<And>i. i \<in> set js \<Longrightarrow> i \<noteq> j \<Longrightarrow> g i = f i"
  shows "xsum (map g js) = xsum (map f js) XOR (f j XOR g j)"
  using assms
proof (induction js)
  case Nil
  then show ?case by simp
next
  case (Cons i js)
  show ?case
  proof (cases "i = j")
    case True
    with Cons.prems have "map g js = map f js" by (auto intro: map_cong)
    then have "xsum (map g js) = xsum (map f js)" by (rule arg_cong)
    with True show ?thesis
      by (simp add: ac_simps)
  next
    case False
    with Cons have "xsum (map g js) = xsum (map f js) XOR (f j XOR g j)" by auto
    moreover have "g i = f i" using Cons.prems False by auto
    ultimately show ?thesis by (simp add: xor.assoc)
  qed
qed

lemma xsum_xor: "xsum (map (\<lambda>j. f j XOR g j) js) = xsum (map f js) XOR xsum (map g js)"
  by (induction js) (simp_all add: xor.assoc xor.left_commute)

section \<open>First match\<close>

text \<open>The search loops of the firmware stop at the first index that passes a test.\<close>

lemma find_upt_SomeD:
  "find P [0..<n] = Some j \<Longrightarrow> j < n \<and> P j \<and> (\<forall>i<j. \<not> P i)"
  by (auto simp: find_Some_iff)

lemma find_upt_unique:
  assumes "j < n" "P j" "\<And>i. i < n \<Longrightarrow> P i \<Longrightarrow> i = j"
  shows "find P [0..<n] = Some j"
proof (cases "find P [0..<n]")
  case None
  with assms(1,2) show ?thesis by (auto simp: find_None_iff)
next
  case (Some i)
  with find_upt_SomeD[OF this] assms(3) show ?thesis by auto
qed

lemma find_upt_None: "find P [0..<n] = None \<longleftrightarrow> (\<forall>j<n. \<not> P j)"
  by (auto simp: find_None_iff)

end
