(* ===== verification/CrcErrors.thy ===== *)
theory CrcErrors
  imports Crc
begin

text \<open>
  What the parity code of \<open>Crc\<close> detects and what its correctors repair: the table-driven checksum
  equals the bitwise register of the generator, every error of one or two bits and every error of
  an odd number of bits leaves a non-zero residual, and the correctors are sound and (for one bit)
  complete.
\<close>

section \<open>The reference register\<close>

lemma crc24_append: "crc24 (bs @ cs) =
    foldl (\<lambda>r b. if b then crc_shift r XOR 0xFFF409 else crc_shift r) (crc24 bs) cs"
  by (simp add: crc24_def)

lemma generator_24: "(crc_shift ^^ 24) 1 = 0xFFF409"
  using table_87 by (simp add: mode_s_checksum_table_def del: funpow.simps)

text \<open>Every bit that has entered the register contributes its shifted generator.\<close>

lemma crc24_xsum:
  "crc24 (map f [0..<n]) =
    xsum (map (\<lambda>j. if f j then (crc_shift ^^ (n - 1 - j)) 0xFFF409 else 0) [0..<n])"
proof (induction n)
  case (Suc n)
  have shift: "crc_shift (xsum (map h js)) = xsum (map (\<lambda>j. crc_shift (h j)) js)" for h and js :: "nat list"
    by (induction js) (simp_all add: crc_shift_xor)
  have "crc_shift (crc24 (map f [0..<n])) =
      xsum (map (\<lambda>j. if f j then (crc_shift ^^ (n - j)) 0xFFF409 else 0) [0..<n])"
    unfolding Suc.IH shift
  proof (intro arg_cong[of _ _ xsum] map_cong refl)
    fix j assume "j \<in> set [0..<n]"
    then have "n - j = Suc (n - 1 - j)" by auto
    then show "crc_shift (if f j then (crc_shift ^^ (n - 1 - j)) 0xFFF409 else 0) =
        (if f j then (crc_shift ^^ (n - j)) 0xFFF409 else 0)" by simp
  qed
  then show ?case unfolding diff_Suc_1 by (simp add: crc24_append)
qed (simp add: crc24_def)

text \<open>
  C13: the table-driven checksum of a 56-bit or 112-bit frame is the remainder the 24-bit shift
  register of the generator polynomial computes, bit by bit, over the data bits of the frame: the
  table, its offset for short frames and the loop are an exact optimisation of polynomial division.
\<close>

theorem checksum_is_crc24:
  assumes "frame_bits bits"
  shows "mode_s_checksum m bits = crc24 (map (msg_bit m) [0..<bits - 24])"
  unfolding checksum_xsum[OF assms] crc24_xsum
proof (intro arg_cong[of _ _ xsum] map_cong refl)
  fix j assume "j \<in> set [0..<bits - 24]"
  then have "bits - 1 - j = (bits - 24 - 1 - j) + 24" using frame_bits_cases[OF assms] by auto
  then show "(if msg_bit m j then syndrome bits j else 0) =
      (if msg_bit m j then (crc_shift ^^ (bits - 24 - 1 - j)) 0xFFF409 else 0)"
    by (simp only: syndrome_def funpow_add comp_apply generator_24)
qed

section \<open>Weights\<close>

primrec parity :: "bool list \<Rightarrow> bool" where
  "parity [] = False"
| "parity (b # bs) = (b \<noteq> parity bs)"

lemma parity_count: "parity bs \<longleftrightarrow> odd (length (filter id bs))"
  by (induction bs) auto

lemma parity_xor: "parity (map (\<lambda>x. f x \<noteq> g x) xs) = (parity (map f xs) \<noteq> parity (map g xs))"
  by (induction xs) auto

lemma parity_append: "parity (xs @ ys) = (parity xs \<noteq> parity ys)"
  by (induction xs) auto

definition odd_weight :: "u32 \<Rightarrow> bool" where
  "odd_weight w = parity (map (bit w) [0..<24])"

lemma odd_weight_xor: "odd_weight (a XOR b) = (odd_weight a \<noteq> odd_weight b)"
proof -
  have "map (bit (a XOR b)) [0..<24] = map (\<lambda>n. bit a n \<noteq> bit b n) [0..<24]"
    by (rule map_cong) (auto simp: bit_xor_iff)
  then show ?thesis unfolding odd_weight_def parity_xor [symmetric] by (rule arg_cong)
qed

lemma odd_weight_0 [simp]: "\<not> odd_weight 0" and odd_weight_1 [simp]: "odd_weight 1"
  by code_simp+

lemma odd_weight_generator [simp]: "odd_weight 0xFFF409"
  by code_simp

lemma odd_weight_double: "odd_weight (take_bit 24 (2 * r)) = (odd_weight r \<noteq> bit r 23)"
proof -
  have "map (bit (take_bit 24 (2 * r))) [0..<24] = False # map (bit r) [0..<23]"
    by (rule nth_equalityI) (auto simp: bit_simps nth_Cons split: nat.splits)
  moreover have "map (bit r) [0..<24] = map (bit r) [0..<23] @ [bit r 23]"
    using upt_Suc_append[of 0 23] by simp
  ultimately show ?thesis unfolding odd_weight_def by (simp only: parity_append parity.simps) auto
qed

lemma odd_weight_shift: "odd_weight (crc_shift r) = odd_weight r"
  by (simp add: crc_shift_def Let_def odd_weight_xor odd_weight_double)

lemma odd_weight_syndrome [simp]: "odd_weight (syndrome bits j)"
proof -
  have "odd_weight ((crc_shift ^^ n) 1)" for n by (induction n) (simp_all add: odd_weight_shift)
  then show ?thesis by (simp add: syndrome_def)
qed

section \<open>Errors\<close>

definition flip_bits :: "nat list \<Rightarrow> u8 list \<Rightarrow> u8 list" where
  "flip_bits js m = fold flip_msg_bit js m"

lemma length_flip_bits [simp]: "length (flip_bits js m) = length m"
  by (induction js arbitrary: m) (simp_all add: flip_bits_def)

lemma residual_flips:
  assumes "frame_bits bits" "set js \<subseteq> {..<bits}" "bits \<le> 8 * length m"
  shows "residual (flip_bits js m) bits = residual m bits XOR xsum (map (syndrome bits) js)"
  using assms(2,3)
proof (induction js arbitrary: m)
  case Nil
  then show ?case by (simp add: flip_bits_def)
next
  case (Cons j js)
  then have "residual (flip_bits js (flip_msg_bit j m)) bits =
      residual (flip_msg_bit j m) bits XOR xsum (map (syndrome bits) js)" by simp
  with Cons.prems show ?case
    by (simp add: flip_bits_def residual_flip[OF assms(1)] xor.assoc)
qed

lemma odd_weight_xsum: "odd_weight (xsum (map (syndrome bits) js)) = odd (length js)"
  by (induction js) (simp_all add: odd_weight_xor)

lemma flips_detected:
  assumes "frame_bits bits" "bits \<le> 8 * length m" "crc_passes m bits"
    and "distinct js" "set js \<subseteq> {..<bits}" "length js = 2 \<or> odd (length js)"
  shows "\<not> crc_passes (flip_bits js m) bits"
proof -
  have "xsum (map (syndrome bits) js) \<noteq> 0"
    using assms(6)
  proof
    assume "length js = 2"
    then obtain i j where "js = [i, j]" by (auto simp: numeral_2_eq_2 length_Suc_conv)
    with assms(4,5) syndrome_inject[OF assms(1), of i j] show ?thesis by (simp add: xor_eq_0)
  next
    assume "odd (length js)"
    then show ?thesis using odd_weight_xsum[of bits js] odd_weight_0 by metis
  qed
  moreover have "residual m bits = 0" using assms(3) by (simp add: crc_passes_residual)
  ultimately show ?thesis
    by (simp add: crc_passes_residual residual_flips[OF assms(1,5,2)])
qed

text \<open>
  C23: no transmission error of one bit, of two bits, or of any odd number of bits turns a frame
  that passes the parity check into another frame that passes it.
\<close>

theorem crc_detects_errors:
  assumes "frame_bits bits" "bits \<le> 8 * length m" "crc_passes m bits"
    and "distinct js" "set js \<subseteq> {..<bits}" "length js = 2 \<or> odd (length js)"
  shows "\<not> crc_passes (flip_bits js m) bits"
  using assms by (rule flips_detected)

text \<open>A valid frame with one bit wrong, two bits wrong and three bits wrong.\<close>

definition sample_frame :: "u8 list" where
  "sample_frame = [0x8D, 0x48, 0x40, 0xD6, 0x20, 0x2C, 0xC3, 0x71, 0xC3, 0x2C, 0xE0, 0x57, 0x60, 0x98]"

lemma sample_frame_ok: "frame_bits 112" "112 \<le> 8 * length sample_frame" "crc_passes sample_frame 112"
  by code_simp+

lemma crc_detects_errors_witness: "\<not> crc_passes (flip_bits [5, 40, 99] sample_frame) 112"
  by (rule crc_detects_errors[OF sample_frame_ok]) simp_all

lemma checksum_is_crc24_witness:
  "mode_s_checksum sample_frame 112 = crc24 (map (msg_bit sample_frame) [0..<88])"
  using checksum_is_crc24[OF sample_frame_ok(1), of sample_frame] by simp

section \<open>The correctors\<close>

lemma msg_bit_take: "frame_bits bits \<Longrightarrow> j < bits \<Longrightarrow> msg_bit (take (bits div 8) m) j = msg_bit m j"
  by (auto dest!: frame_bits_cases simp: msg_bit_def)

lemma checksum_take:
  assumes "frame_bits bits" shows "mode_s_checksum (take (bits div 8) m) bits = mode_s_checksum m bits"
  unfolding checksum_xsum[OF assms]
  by (intro arg_cong[of _ _ xsum] map_cong) (auto simp: msg_bit_take[OF assms])

lemma crc_passes_take:
  assumes "frame_bits bits"
  shows "crc_passes (take (bits div 8) m) bits = crc_passes m bits"
proof -
  have "residual (take (bits div 8) m) bits = residual m bits"
    unfolding residual_xsum[OF assms]
    by (intro arg_cong[of _ _ xsum] map_cong) (auto simp: msg_bit_take[OF assms])
  then show ?thesis by (simp add: crc_passes_residual)
qed

lemma checksum_24:
  assumes "frame_bits bits" shows "take_bit 24 (mode_s_checksum m bits) = mode_s_checksum m bits"
proof -
  have "take_bit 24 (xsum (map f js)) = xsum (map f js)" if "\<And>j. take_bit 24 (f j) = f j"
    for f :: "nat \<Rightarrow> u32" and js
    by (induction js) (simp_all add: that take_bit_xor)
  then show ?thesis unfolding checksum_xsum[OF assms] by (simp split: if_splits)
qed

lemma frame_bits_8: "frame_bits bits \<Longrightarrow> 8 dvd bits"
  by (auto dest: frame_bits_cases)

lemma flip_take:
  assumes "frame_bits bits" "j < bits"
  shows "flip_msg_bit j (take (bits div 8) m) = take (bits div 8) (flip_msg_bit j m)"
  using take_flip[of j "bits div 8" m] assms frame_bits_8[OF assms(1)] by simp

lemma drop_flip:
  assumes "frame_bits bits" "j < bits"
  shows "drop (bits div 8) (flip_msg_bit j m) = drop (bits div 8) m"
proof -
  have "j div 8 < bits div 8"
    using assms(2) frame_bits_8[OF assms(1)] by (auto elim!: dvdE simp: div_less_iff_less_mult mult.commute)
  then show ?thesis by (simp add: flip_msg_bit_def drop_update_cancel)
qed

lemma flip_take_drop:
  assumes "frame_bits bits" "j < bits"
  shows "flip_msg_bit j (take (bits div 8) m) @ drop (bits div 8) m = flip_msg_bit j m"
  using append_take_drop_id[of "bits div 8" "flip_msg_bit j m"] assms
  by (simp add: flip_take drop_flip)

text \<open>The corrector tries the single flips of the message itself.\<close>

lemma fix_single_find:
  assumes "frame_bits bits" "bits \<le> 8 * length m"
  shows "fix_single_bit_errors m bits =
    (case find (\<lambda>j. crc_passes (flip_msg_bit j m) bits) [0..<bits] of
       None \<Rightarrow> (m, -1) | Some j \<Rightarrow> (flip_msg_bit j m, int j))"
proof -
  have "find (\<lambda>j. crc_passes (flip_msg_bit j (take (bits div 8) m)) bits) [0..<bits]
      = find (\<lambda>j. crc_passes (flip_msg_bit j m) bits) [0..<bits]"
    by (rule find_cong) (use assms in \<open>auto simp: flip_take crc_passes_take\<close>)
  then show ?thesis
    unfolding fix_single_bit_errors_def Let_def
    by (auto split: option.splits dest!: find_upt_SomeD simp: flip_take_drop frame_bits_8 assms)
qed

lemma fix_single_flip:
  assumes "frame_bits bits" "bits \<le> 8 * length m" "crc_passes m bits" "j < bits"
  shows "fix_single_bit_errors (flip_msg_bit j m) bits = (m, int j)"
proof -
  have len: "j < 8 * length m" using assms(2,4) by simp
  have ok: "crc_passes (flip_msg_bit i (flip_msg_bit j m)) bits \<longleftrightarrow> i = j" if "i < bits" for i
    using that assms syndrome_inject[OF assms(1) that assms(4)]
    by (simp add: crc_passes_residual residual_flip xor_eq_0 xor.commute)
  then have "find (\<lambda>i. crc_passes (flip_msg_bit i (flip_msg_bit j m)) bits) [0..<bits] = Some j"
    using assms(4) by (intro find_upt_unique) auto
  then show ?thesis using assms len by (simp add: fix_single_find)
qed

text \<open>
  C14: the one-bit corrector is exact on every frame: if some single flip makes the frame pass, that
  flip is unique and the corrector returns the frame so repaired with the position of the flip;
  otherwise it returns the frame untouched and \<open>-1\<close>. In particular a valid frame damaged in one
  bit, whichever it is, comes back as it was sent.
\<close>

theorem fix_single_exact:
  assumes "frame_bits bits" "bits \<le> 8 * length m"
  shows "(\<forall>j<bits. crc_passes (flip_msg_bit j m) bits \<longrightarrow>
            fix_single_bit_errors m bits = (flip_msg_bit j m, int j)) \<and>
         ((\<forall>j<bits. \<not> crc_passes (flip_msg_bit j m) bits) \<longrightarrow> fix_single_bit_errors m bits = (m, -1))"
proof (intro conjI allI impI)
  fix j assume "j < bits" "crc_passes (flip_msg_bit j m) bits"
  then show "fix_single_bit_errors m bits = (flip_msg_bit j m, int j)"
    using fix_single_flip[of bits "flip_msg_bit j m" j] assms by simp
next
  assume "\<forall>j<bits. \<not> crc_passes (flip_msg_bit j m) bits"
  then show "fix_single_bit_errors m bits = (m, -1)"
    using assms by (simp add: fix_single_find find_upt_None [THEN iffD2])
qed

lemma fix_single_exact_witness:
  "fix_single_bit_errors (flip_msg_bit 17 sample_frame) 112 = (sample_frame, 17)"
proof -
  have "112 \<le> 8 * length (flip_msg_bit 17 sample_frame)" "17 < 8 * length sample_frame"
    using sample_frame_ok(2) by simp_all
  with fix_single_exact[OF sample_frame_ok(1), of "flip_msg_bit 17 sample_frame"] sample_frame_ok(3)
  show ?thesis by (auto dest!: spec[of _ 17])
qed

lemma set_two_bit_pairs: "(j, i) \<in> set (two_bit_pairs bits) \<longleftrightarrow> j < i \<and> i < bits"
  by (auto simp: two_bit_pairs_def image_iff)

lemma find_pair_Some:
  "find P (two_bit_pairs bits) = Some (j, i) \<Longrightarrow> j < i \<and> i < bits \<and> P (j, i)"
  using set_two_bit_pairs[of j i bits] by (auto simp: find_Some_iff dest: nth_mem)

lemma fix_two_find:
  assumes "frame_bits bits" "bits \<le> 8 * length m"
  shows "fix_two_bits_errors m bits =
    (case find (\<lambda>(j, i). crc_passes (flip_bits [j, i] m) bits) (two_bit_pairs bits) of
       None \<Rightarrow> (m, -1)
     | Some (j, i) \<Rightarrow> (flip_bits [j, i] m, or (int j) (push_bit 8 (int i))))"
proof -
  have flips: "flip_msg_bit i (flip_msg_bit j (take (bits div 8) m)) = take (bits div 8) (flip_bits [j, i] m)"
    if "j < i" "i < bits" for i j
    using that assms by (simp add: flip_bits_def flip_take)
  have "find (\<lambda>(j, i). crc_passes (flip_msg_bit i (flip_msg_bit j (take (bits div 8) m))) bits) (two_bit_pairs bits)
      = find (\<lambda>(j, i). crc_passes (flip_bits [j, i] m) bits) (two_bit_pairs bits)"
    by (rule find_cong) (use assms in \<open>auto simp: set_two_bit_pairs flips crc_passes_take\<close>)
  moreover have "take (bits div 8) (flip_bits [j, i] m) @ drop (bits div 8) m = flip_bits [j, i] m"
    if "j < i" "i < bits" for i j
  proof -
    have "drop (bits div 8) (flip_bits [j, i] m) = drop (bits div 8) m"
      using that assms(1) by (simp add: flip_bits_def drop_flip)
    then show ?thesis using append_take_drop_id[of "bits div 8" "flip_bits [j, i] m"] by simp
  qed
  ultimately show ?thesis
    unfolding fix_two_bits_errors_def Let_def
    by (auto split: option.splits dest!: find_pair_Some simp: flips)
qed

lemma or_push_8: "j < 256 \<Longrightarrow> or (int j) (push_bit 8 (int i)) = int j + 256 * int i"
  using concat_bit_def[of 8 "int j" "int i"] concat_bit_eq[of 8 "int j" "int i"]
  by (simp add: take_bit_int_eq_self push_bit_eq_mult mult.commute)

text \<open>
  C24: the two-bit corrector is sound and complete: it gives up, leaving the message alone, exactly
  when no two flips make the frame pass, and otherwise returns a frame that passes, which differs
  from the message in the two distinct positions its result packs as \<open>j | i << 8\<close>.
\<close>

theorem fix_two_spec:
  assumes "frame_bits bits" "bits \<le> 8 * length m"
  shows "case fix_two_bits_errors m bits of (m', e) \<Rightarrow>
    if e = -1 then m' = m \<and> (\<forall>i<bits. \<forall>j<i. \<not> crc_passes (flip_bits [j, i] m) bits)
    else nat (e mod 256) < nat (e div 256) \<and> nat (e div 256) < bits \<and>
      m' = flip_bits [nat (e mod 256), nat (e div 256)] m \<and> crc_passes m' bits"
proof (cases "find (\<lambda>(j, i). crc_passes (flip_bits [j, i] m) bits) (two_bit_pairs bits)")
  case None
  then have "\<not> crc_passes (flip_bits [j, i] m) bits" if "j < i" "i < bits" for i j
    using that set_two_bit_pairs[of j i bits] by (auto simp: find_None_iff)
  then show ?thesis using None by (simp add: fix_two_find[OF assms])
next
  case (Some p)
  obtain j i where p: "p = (j, i)" by (cases p)
  with Some have ji: "j < i" "i < bits" "crc_passes (flip_bits [j, i] m) bits"
    using find_pair_Some[of _ bits j i] by fastforce+
  then have small: "j < 256" using frame_bits_cases[OF assms(1)] by auto
  then have "(int j + 256 * int i) mod 256 = int j" "(int j + 256 * int i) div 256 = int i" by simp_all
  moreover have "int j + 256 * int i \<noteq> -1" by linarith
  ultimately show ?thesis
    using Some p ji by (simp add: fix_two_find[OF assms] or_push_8[OF small])
qed

lemma fix_two_spec_witness:
  "case fix_two_bits_errors (flip_bits [3, 70] sample_frame) 112 of (m', e) \<Rightarrow>
    if e = -1 then m' = flip_bits [3, 70] sample_frame \<and>
      (\<forall>i<112. \<forall>j<i. \<not> crc_passes (flip_bits [j, i] (flip_bits [3, 70] sample_frame)) 112)
    else nat (e mod 256) < nat (e div 256) \<and> nat (e div 256) < 112 \<and>
      m' = flip_bits [nat (e mod 256), nat (e div 256)] (flip_bits [3, 70] sample_frame) \<and> crc_passes m' 112"
  by (rule fix_two_spec) (use sample_frame_ok in simp_all)

end
