(* ===== verification/MsgRec.thy ===== *)
theory MsgRec
  imports Prelude
begin

text \<open>
  The decoded message, \<open>struct mode_s_msg\<close> of \<open>main/mode-s.h\<close>, field by field. The struct is
  flat; the record is built in the struct's order as a chain of extensions, one for each comment
  group of the header. A C \<open>int\<close> that only ever holds a truth value is a \<^typ>\<open>bool\<close>; a
  \<open>float\<close> is the rational number it represents.

  \<open>mm_zero\<close> is the record after \<open>memset(mm, 0, sizeof *mm)\<close>.
\<close>

section \<open>The constants of the header\<close>

definition MODE_S_ICAO_CACHE_LEN :: nat where "MODE_S_ICAO_CACHE_LEN = 1024"
definition MODE_S_LONG_MSG_BYTES :: nat where "MODE_S_LONG_MSG_BYTES = 112 div 8"

datatype altitude_unit = UNIT_FEET | UNIT_METERS

definition NAV_HAVE_MCP :: u32 where "NAV_HAVE_MCP = 1"
definition NAV_HAVE_FMS :: u32 where "NAV_HAVE_FMS = 2"
definition NAV_HAVE_QNH :: u32 where "NAV_HAVE_QNH = 4"
definition NAV_HAVE_HEADING :: u32 where "NAV_HAVE_HEADING = 8"
definition NAV_HAVE_MODES :: u32 where "NAV_HAVE_MODES = 16"

definition NAV_MODE_AUTOPILOT :: u32 where "NAV_MODE_AUTOPILOT = 1"
definition NAV_MODE_VNAV :: u32 where "NAV_MODE_VNAV = 2"
definition NAV_MODE_ALT_HOLD :: u32 where "NAV_MODE_ALT_HOLD = 4"
definition NAV_MODE_APPROACH :: u32 where "NAV_MODE_APPROACH = 8"
definition NAV_MODE_LNAV :: u32 where "NAV_MODE_LNAV = 16"
definition NAV_MODE_TCAS :: u32 where "NAV_MODE_TCAS = 32"

section \<open>The record\<close>

record msg_generic =
  mm_msg :: "u8 list"
  msgbits :: nat
  msgtype :: nat
  crcok :: bool
  crc :: u32
  errorbit :: int
  aa1 :: u8
  aa2 :: u8
  aa3 :: u8
  phase_corrected :: bool

record msg_es = msg_generic +
  ca :: nat
  metype :: nat
  mesub :: nat
  heading_is_valid :: bool
  heading :: int
  aircraft_type :: nat
  fflag :: bool
  tflag :: bool
  raw_latitude :: nat
  raw_longitude :: nat
  flight :: string
  ew_dir :: bool
  ew_velocity :: int
  ns_dir :: bool
  ns_velocity :: int
  vert_rate_source :: bool
  vert_rate_sign :: bool
  vert_rate :: int
  velocity :: int

record msg_es2 = msg_es +
  gs_valid :: bool
  cpr_valid :: bool
  cpr_surface :: bool
  alt_geom :: bool
  emergency_valid :: bool
  emergency :: nat
  category :: nat
  acas_ra_valid :: bool
  iid :: nat
  commb_bds :: nat

record msg_intent = msg_es2 +
  nav_have :: u32
  nav_alt_mcp :: int
  nav_alt_fms :: int
  nav_qnh :: rat
  nav_heading :: rat
  nav_modes :: u32

record msg_speeds = msg_intent +
  ias_valid :: bool
  ias :: int
  tas_valid :: bool
  tas :: int
  mach_valid :: bool
  mach :: rat
  roll_valid :: bool
  roll :: rat
  track_rate_valid :: bool
  track_rate :: rat
  mag_heading_valid :: bool
  mag_heading :: rat
  baro_rate_valid :: bool
  baro_rate :: int
  geom_rate_valid :: bool
  geom_rate :: int
  geom_delta_valid :: bool
  geom_delta :: int

record msg_accuracy = msg_speeds +
  nic_b_valid :: bool
  nic_b :: bool
  nac_v_valid :: bool
  nac_v :: nat
  nac_p_valid :: bool
  nac_p :: nat
  sil_valid :: bool
  sil :: nat
  sil_type :: nat
  nic_baro_valid :: bool
  nic_baro :: bool
  gva_valid :: bool
  gva :: nat
  sda_valid :: bool
  sda :: nat
  opstatus_valid :: bool
  version :: nat
  nic_a :: bool
  nic_c :: bool
  om_ident :: bool
  om_acas_ra :: bool
  cc_acas :: bool

record mode_s_msg = msg_accuracy +
  airground :: nat
  alert_valid :: bool
  alert :: bool
  spi_valid :: bool
  spi :: bool
  fs :: nat
  dr :: nat
  um :: nat
  identity :: nat
  squawk_valid :: bool
  altitude :: int
  unit_of :: altitude_unit
  timestamp_12mhz :: u64
  signal_level :: nat

end
