(* ===== verification/IcaoCache.thy ===== *)
theory IcaoCache
  imports CrcErrors MsgRec
begin

text \<open>
  The decoder state \<open>mode_s_t\<close> and its cache of recently seen ICAO addresses
  (\<open>main/mode-s.c\<close>: \<open>mode_s_init\<close>, \<open>icao_cache_has_addr\<close>, \<open>add_recently_seen_icao_addr\<close>,
  \<open>icao_addr_was_recently_seen\<close>, \<open>brute_force_ap\<close>).

  \<open>time(NULL)\<close> is an argument of the operations that read the clock. The cache stores it in a
  \<open>uint32_t\<close> and reads it back as an \<open>int32_t\<close>; both conversions are kept.

  The locale \<open>addr_cache\<close> is what the decoder relies on: an address counts as seen only when it
  was added at most 60 seconds ago.
\<close>

section \<open>State\<close>

record mode_s_t =
  icao_cache :: "u32 list"
  fix_errors :: bool
  aggressive :: bool
  check_crc :: bool
  stat_goodcrc :: u32
  stat_badcrc :: u32
  stat_fixed :: u32

definition mode_s_init :: mode_s_t where
  "mode_s_init = \<lparr> icao_cache = replicate (MODE_S_ICAO_CACHE_LEN * 2) 0,
     fix_errors = True, aggressive = False, check_crc = True,
     stat_goodcrc = 0, stat_badcrc = 0, stat_fixed = 0 \<rparr>"

definition MODE_S_ICAO_CACHE_TTL :: int where "MODE_S_ICAO_CACHE_TTL = 60"

section \<open>Operations\<close>

definition icao_cache_has_addr :: "u32 \<Rightarrow> nat" where
  "icao_cache_has_addr a =
     (let a = (drop_bit 16 a XOR a) * 0x45d9f3b;
          a = (drop_bit 16 a XOR a) * 0x45d9f3b;
          a = drop_bit 16 a XOR a
      in unat (a AND (of_nat MODE_S_ICAO_CACHE_LEN - 1)))"

definition add_recently_seen_icao_addr :: "int \<Rightarrow> u32 \<Rightarrow> mode_s_t \<Rightarrow> mode_s_t" where
  "add_recently_seen_icao_addr now addr self =
     (let h = icao_cache_has_addr addr
      in self\<lparr>icao_cache := (icao_cache self)[h * 2 := addr, h * 2 + 1 := word_of_int now]\<rparr>)"

definition icao_addr_was_recently_seen :: "int \<Rightarrow> u32 \<Rightarrow> mode_s_t \<Rightarrow> bool" where
  "icao_addr_was_recently_seen now addr self =
     (let h = icao_cache_has_addr addr;
          a = icao_cache self ! (h * 2);
          t = sint (icao_cache self ! (h * 2 + 1))
      in a \<noteq> 0 \<and> a = addr \<and> now - t \<le> MODE_S_ICAO_CACHE_TTL)"

text \<open>
  The formats whose parity field carries the address: the recovered address is the parity field
  exclusive-or the checksum. The result is the three address bytes, when the address is known.
\<close>

definition ap_format :: "nat \<Rightarrow> bool" where
  "ap_format ty \<longleftrightarrow> ty = 0 \<or> ty = 4 \<or> ty = 5 \<or> ty = 16 \<or> ty = 20 \<or> ty = 21 \<or> 24 \<le> ty"

definition brute_force_ap :: "int \<Rightarrow> mode_s_t \<Rightarrow> u8 list \<Rightarrow> nat \<Rightarrow> nat \<Rightarrow> (u8 \<times> u8 \<times> u8) option" where
  "brute_force_ap now self msg ty bits =
     (if ap_format ty
      then
        let lastbyte = bits div 8 - 1;
            aux = take (bits div 8) msg;
            c = mode_s_checksum aux bits;
            b3 = aux ! lastbyte XOR ucast (c AND 0xff);
            b2 = aux ! (lastbyte - 1) XOR ucast (drop_bit 8 c AND 0xff);
            b1 = aux ! (lastbyte - 2) XOR ucast (drop_bit 16 c AND 0xff);
            addr = ucast b3 OR push_bit 8 (ucast b2) OR push_bit 16 (ucast b1)
        in if icao_addr_was_recently_seen now addr self then Some (b1, b2, b3) else None
      else None)"

section \<open>The cache as an interface\<close>

text \<open>
  \<open>add s (a, t)\<close> records address \<open>a\<close> at time \<open>t\<close>; \<open>seen s a now\<close> is the query. Times are those a
  32-bit signed clock can hold.
\<close>

definition clock_ok :: "int \<Rightarrow> bool" where
  "clock_ok t \<longleftrightarrow> 0 \<le> t \<and> t < 2 ^ 31"

locale addr_cache =
  fixes init :: 's
    and add :: "int \<Rightarrow> u32 \<Rightarrow> 's \<Rightarrow> 's"
    and seen :: "int \<Rightarrow> u32 \<Rightarrow> 's \<Rightarrow> bool"
    and invar :: "'s \<Rightarrow> bool"
    and ttl :: int
  assumes invar_init: "invar init"
    and invar_add: "invar s \<Longrightarrow> invar (add t a s)"
    and seen_init: "\<not> seen now a init"
    and seen_nonzero: "seen now a s \<Longrightarrow> a \<noteq> 0"
    and seen_add_same: "invar s \<Longrightarrow> clock_ok t \<Longrightarrow> a \<noteq> 0 \<Longrightarrow> seen now a (add t a s) \<longleftrightarrow> now - t \<le> ttl"
    and seen_add_other: "invar s \<Longrightarrow> a \<noteq> b \<Longrightarrow> seen now b (add t a s) \<Longrightarrow> seen now b s"
begin

definition add_all :: "(int \<times> u32) list \<Rightarrow> 's \<Rightarrow> 's" where
  "add_all hist s = fold (\<lambda>(t, a). add t a) hist s"

lemma invar_add_all: "invar s \<Longrightarrow> invar (add_all hist s)"
  by (induction hist arbitrary: s) (auto simp: add_all_def invar_add)

text \<open>Everything the cache vouches for was put there, and not longer than the limit ago.\<close>

lemma seen_history:
  assumes "invar s" "\<And>t a. (t, a) \<in> set hist \<Longrightarrow> clock_ok t"
    and "seen now a (add_all hist s)" "\<not> seen now a s"
  shows "\<exists>t. (t, a) \<in> set hist \<and> now - t \<le> ttl"
  using assms
proof (induction hist arbitrary: s)
  case Nil
  then show ?case by (simp add: add_all_def)
next
  case (Cons h hist)
  obtain t b where h: "h = (t, b)" by (cases h)
  have rest: "seen now a (add_all hist (add t b s))" using Cons.prems(3) h by (simp add: add_all_def)
  show ?case
  proof (cases "seen now a (add t b s)")
    case True
    then have "a = b" using seen_add_other[of s b a now t] Cons.prems(1,4) by blast
    moreover have "now - t \<le> ttl"
      using True seen_add_same[of s t a now] seen_nonzero[OF True] Cons.prems(1) Cons.prems(2)[of t b] h
        \<open>a = b\<close> by simp
    ultimately show ?thesis using h by auto
  next
    case False
    then show ?thesis using Cons.IH[OF _ _ rest] Cons.prems invar_add by fastforce
  qed
qed

lemma seen_history_init:
  assumes "\<And>t a. (t, a) \<in> set hist \<Longrightarrow> clock_ok t" and "seen now a (add_all hist init)"
  shows "\<exists>t. (t, a) \<in> set hist \<and> now - t \<le> ttl"
  using seen_history[OF invar_init] assms seen_init by blast

end

section \<open>The cache provides the interface\<close>

definition cache_ok :: "mode_s_t \<Rightarrow> bool" where
  "cache_ok self \<longleftrightarrow> length (icao_cache self) = MODE_S_ICAO_CACHE_LEN * 2"

lemma hash_bound: "icao_cache_has_addr a < 1024"
proof -
  have "w AND 1023 = take_bit 10 w" for w :: u32
    by (simp add: take_bit_eq_mask mask_eq_exp_minus_1)
  then show ?thesis
    using take_bit_nat_less_exp[of 10]
    by (simp add: icao_cache_has_addr_def Let_def MODE_S_ICAO_CACHE_LEN_def unsigned_take_bit_eq)
qed

lemma cache_ok_init [simp]: "cache_ok mode_s_init"
  by (simp add: cache_ok_def mode_s_init_def)

lemma cache_ok_add [simp]: "cache_ok (add_recently_seen_icao_addr t a s) = cache_ok s"
  by (simp add: cache_ok_def add_recently_seen_icao_addr_def Let_def)

lemma sint_clock: "clock_ok t \<Longrightarrow> sint (word_of_int t :: u32) = t"
  by (simp add: clock_ok_def signed_of_int signed_take_bit_int_eq_self)

lemma slot_reads:
  assumes "cache_ok s"
  shows "icao_cache (add_recently_seen_icao_addr t a s) ! (icao_cache_has_addr a * 2) = a"
    "icao_cache (add_recently_seen_icao_addr t a s) ! (icao_cache_has_addr a * 2 + 1) = word_of_int t"
    "icao_cache_has_addr b \<noteq> icao_cache_has_addr a \<Longrightarrow> e < 2 \<Longrightarrow>
      icao_cache (add_recently_seen_icao_addr t a s) ! (icao_cache_has_addr b * 2 + e)
      = icao_cache s ! (icao_cache_has_addr b * 2 + e)"
proof -
  have len: "icao_cache_has_addr a * 2 + 1 < length (icao_cache s)"
    using assms hash_bound[of a] by (simp add: cache_ok_def MODE_S_ICAO_CACHE_LEN_def)
  show "icao_cache (add_recently_seen_icao_addr t a s) ! (icao_cache_has_addr a * 2) = a"
    "icao_cache (add_recently_seen_icao_addr t a s) ! (icao_cache_has_addr a * 2 + 1) = word_of_int t"
    using len by (simp_all add: add_recently_seen_icao_addr_def Let_def)
  show "icao_cache (add_recently_seen_icao_addr t a s) ! (icao_cache_has_addr b * 2 + e)
      = icao_cache s ! (icao_cache_has_addr b * 2 + e)"
    if "icao_cache_has_addr b \<noteq> icao_cache_has_addr a" "e < 2"
  proof -
    have "icao_cache_has_addr b * 2 + e \<noteq> icao_cache_has_addr a * 2"
      "icao_cache_has_addr b * 2 + e \<noteq> icao_cache_has_addr a * 2 + 1"
      using that by presburger+
    then show ?thesis by (simp add: add_recently_seen_icao_addr_def Let_def)
  qed
qed

lemma seen_same:
  assumes "cache_ok s" "clock_ok t" "a \<noteq> 0"
  shows "icao_addr_was_recently_seen now a (add_recently_seen_icao_addr t a s)
    \<longleftrightarrow> now - t \<le> MODE_S_ICAO_CACHE_TTL"
  unfolding icao_addr_was_recently_seen_def Let_def slot_reads(1,2)[OF assms(1)]
  by (simp add: sint_clock assms)

lemma seen_other:
  assumes "cache_ok s" "a \<noteq> b" "icao_addr_was_recently_seen now b (add_recently_seen_icao_addr t a s)"
  shows "icao_addr_was_recently_seen now b s"
proof (cases "icao_cache_has_addr b = icao_cache_has_addr a")
  case True
  then show ?thesis
    using assms(3) slot_reads(1)[OF assms(1), of t a] assms(2)
    by (simp add: icao_addr_was_recently_seen_def Let_def)
next
  case False
  then show ?thesis
    using assms(3) slot_reads(3)[OF assms(1) False, of 0 t] slot_reads(3)[OF assms(1) False, of 1 t]
    unfolding icao_addr_was_recently_seen_def Let_def by (simp only: add_0_right) auto
qed

lemma not_seen_init: "\<not> icao_addr_was_recently_seen now a mode_s_init"
  using hash_bound[of a]
  by (simp add: icao_addr_was_recently_seen_def mode_s_init_def Let_def MODE_S_ICAO_CACHE_LEN_def)

lemma seen_not_0: "icao_addr_was_recently_seen now a s \<Longrightarrow> a \<noteq> 0"
  by (auto simp: icao_addr_was_recently_seen_def Let_def)

interpretation ic: addr_cache mode_s_init add_recently_seen_icao_addr icao_addr_was_recently_seen
    cache_ok MODE_S_ICAO_CACHE_TTL
  by unfold_locales (simp_all add: not_seen_init seen_same, auto dest: seen_not_0 seen_other)

text \<open>
  C25: the cache vouches for an address only when that very address was recorded, with a
  non-zero value, at most 60 seconds before the query, whatever other addresses were recorded
  since start-up and however their hashes collide.
\<close>

theorem cache_sound:
  assumes "\<And>t a. (t, a) \<in> set hist \<Longrightarrow> clock_ok t"
    and "icao_addr_was_recently_seen now a (fold (\<lambda>(t, a). add_recently_seen_icao_addr t a) hist mode_s_init)"
  shows "a \<noteq> 0 \<and> (\<exists>t. (t, a) \<in> set hist \<and> now - t \<le> 60)"
  using ic.seen_history_init[of hist now a] assms seen_not_0
  by (auto simp: ic.add_all_def MODE_S_ICAO_CACHE_TTL_def)

lemma cache_sound_witness:
  "0x4840D6 \<noteq> (0 :: u32) \<and> (\<exists>t. (t, 0x4840D6 :: u32) \<in> set [(100, 0x4840D6), (105, 0xABCDEF)] \<and> 150 - t \<le> (60 :: int))"
  by (rule cache_sound) (auto simp: clock_ok_def, code_simp)

section \<open>Address/parity replies\<close>

definition addr_bytes :: "u32 \<Rightarrow> u8 \<times> u8 \<times> u8" where
  "addr_bytes a = (ucast (drop_bit 16 a), ucast (drop_bit 8 a), ucast a)"

lemma brute_force_ap_eq:
  assumes "frame_bits bits" "bits \<le> 8 * length m" "crc_field m bits = mode_s_checksum m bits XOR a"
  shows "brute_force_ap now self m ty bits =
    (if ap_format ty \<and> icao_addr_was_recently_seen now a self then Some (addr_bytes a) else None)"
proof (cases "ap_format ty")
  case True
  let ?aux = "take (bits div 8) m" and ?c = "mode_s_checksum m bits" and ?q = "bits div 8"
  obtain "?q \<le> length m" "3 \<le> ?q" using frame_bits_cases[OF assms(1)] assms(2) by auto
  then have bytes: "?aux ! (?q - 1) = m ! (?q - 1)" "?aux ! (?q - 1 - 1) = m ! (?q - 2)" "?aux ! (?q - 1 - 2) = m ! (?q - 3)"
    by (auto simp: numeral_2_eq_2 numeral_3_eq_3)
  have c: "mode_s_checksum ?aux bits = ?c" by (rule checksum_take[OF assms(1)])
  have ff: "(0xff :: u32) = mask 8" by (simp add: mask_eq_exp_minus_1)
  have a: "a = crc_field m bits XOR ?c" using assms(3) by (simp add: ac_simps)
  have c24: "bit ?c n \<Longrightarrow> n < 24" for n using checksum_24[OF assms(1), of m] by (metis bit_take_bit_iff)
  define b3 b2 b1 where "b3 = m ! (?q - 1) XOR ucast (?c AND 0xff)"
    and "b2 = m ! (?q - 2) XOR ucast (drop_bit 8 ?c AND 0xff)"
    and "b1 = m ! (?q - 3) XOR ucast (drop_bit 16 ?c AND 0xff)"
  have ab: "bit a n = (bit (crc_field m bits) n \<noteq> bit ?c n)" for n by (simp add: a bit_xor_iff)
  have cf: "bit (crc_field m bits) n = bit (m ! (?q - 1)) n"
    "bit (crc_field m bits) (8 + n) = bit (m ! (?q - 2)) n"
    "bit (crc_field m bits) (16 + n) = bit (m ! (?q - 3)) n" if "n < 8" for n
    using that by (auto simp: crc_field_def bit_simps dest: bit_imp_le_length)
  have bs: "bit b3 n \<longleftrightarrow> n < 8 \<and> bit a n" "bit b2 n \<longleftrightarrow> n < 8 \<and> bit a (8 + n)"
    "bit b1 n \<longleftrightarrow> n < 8 \<and> bit a (16 + n)" for n
    using cf[of n] unfolding b1_def b2_def b3_def ff ab
    by (cases "n < 8"; auto simp: bit_simps dest: bit_imp_le_length)+
  have high: "\<not> bit a n" if "24 \<le> n" for n
    using that c24[of n] bit_crc_field[OF assms(1), of m n] by (auto simp: ab)
  have addr: "ucast b3 OR push_bit 8 (ucast b2) OR push_bit 16 (ucast b1) = a"
    by (rule bytes3_eqI[OF bs high])
  have "addr_bytes a = (b1, b2, b3)"
    by (simp add: addr_bytes_def bytes3_split[OF bs])
  with True addr show ?thesis
    unfolding brute_force_ap_def Let_def c bytes b1_def [symmetric] b2_def [symmetric] b3_def [symmetric]
    by simp
qed (simp add: brute_force_ap_def)

text \<open>
  C26: a reply in one of the address/parity formats is accepted exactly when the address its parity
  field hides, parity field exclusive-or checksum, was seen in the last 60 seconds, and the three
  address bytes reported are that address.
\<close>

theorem brute_force_ap_recovers:
  assumes "frame_bits bits" "bits \<le> 8 * length m" "crc_field m bits = mode_s_checksum m bits XOR a"
  shows "brute_force_ap now self m ty bits =
    (if ap_format ty \<and> icao_addr_was_recently_seen now a self then Some (addr_bytes a) else None)"
  using assms by (rule brute_force_ap_eq)

text \<open>An altitude reply of the aircraft \<open>4840D6\<close>, heard 50 seconds after its squitter.\<close>

lemma brute_force_ap_recovers_witness:
  "brute_force_ap 150 (add_recently_seen_icao_addr 100 0x4840D6 mode_s_init)
      [0x20, 0x00, 0x0A, 0x98, 0xA3, 0xC7, 0xFD] 4 56 = Some (0x48, 0x40, 0xD6)"
proof -
  let ?m = "[0x20, 0x00, 0x0A, 0x98, 0xA3, 0xC7, 0xFD] :: u8 list"
  have "frame_bits 56" "56 \<le> 8 * length ?m" "crc_field ?m 56 = mode_s_checksum ?m 56 XOR 0x4840D6"
    by code_simp+
  note brute_force_ap_recovers[OF this, of 150 _ 4]
  moreover have "icao_addr_was_recently_seen 150 0x4840D6 (add_recently_seen_icao_addr 100 0x4840D6 mode_s_init)"
    by (simp add: seen_same clock_ok_def MODE_S_ICAO_CACHE_TTL_def)
  moreover have "addr_bytes 0x4840D6 = (0x48, 0x40, 0xD6)" by code_simp
  ultimately show ?thesis by (simp add: ap_format_def)
qed

end
