(* ===== verification/Fp.thy ===== *)
theory Fp
  imports Complex_Main "HOL-Library.Log_Nat"
begin

text \<open>
  IEEE 754 arithmetic on the values the firmware computes with. A finite \<open>float\<close> or \<open>double\<close> is
  the rational number it stands for; an operation rounds the exact result to the nearest number of
  \<open>p\<close> significant bits, ties to even (\<open>p = 24\<close> for \<open>float\<close>, \<open>53\<close> for \<open>double\<close>). All magnitudes
  met here are far inside the exponent range, so overflow and subnormal numbers do not arise and
  the exponent is not bounded.
\<close>

section \<open>Rounding\<close>

definition rne :: "rat \<Rightarrow> int" where
  "rne x = (let f = \<lfloor>x\<rfloor>; r = x - of_int f
            in if r < 1 / 2 then f else if 1 / 2 < r then f + 1 else if even f then f else f + 1)"

text \<open>The exponent of the leading bit: \<open>2 ^ ilog2 x \<le> x < 2 ^ (ilog2 x + 1)\<close> for positive \<open>x\<close>.\<close>

definition ilog2 :: "rat \<Rightarrow> int" where
  "ilog2 x = (case quotient_of x of (n, d) \<Rightarrow>
     (let e = int (floorlog 2 (nat n)) - int (floorlog 2 (nat d))
      in if 2 powi e \<le> x then e else e - 1))"

definition fp_round :: "nat \<Rightarrow> rat \<Rightarrow> rat" where
  "fp_round p x =
     (if x = 0 then 0
      else let e = ilog2 \<bar>x\<bar> - (int p - 1) in of_int (rne (x / 2 powi e)) * 2 powi e)"

abbreviation flt :: "rat \<Rightarrow> rat" where "flt \<equiv> fp_round 24"
abbreviation dbl :: "rat \<Rightarrow> rat" where "dbl \<equiv> fp_round 53"

text \<open>A conversion to \<open>int\<close> truncates toward zero.\<close>

definition trunc :: "rat \<Rightarrow> int" where
  "trunc x = (if 0 \<le> x then \<lfloor>x\<rfloor> else \<lceil>x\<rceil>)"

text \<open>\<open>lroundf\<close>: to the nearest integer, halves away from zero.\<close>

definition lround :: "rat \<Rightarrow> int" where
  "lround x = (if 0 \<le> x then \<lfloor>x + 1 / 2\<rfloor> else - \<lfloor>1 / 2 - x\<rfloor>)"

section \<open>Laws\<close>

lemma rne_of_int [simp]: "rne (of_int n) = n"
  by (simp add: rne_def)

lemma rne_bounds: "\<lfloor>x\<rfloor> \<le> rne x" "rne x \<le> \<lfloor>x\<rfloor> + 1"
  by (auto simp: rne_def Let_def)

lemma rne_mono: "x \<le> y \<Longrightarrow> rne x \<le> rne y"
proof -
  assume le: "x \<le> y"
  show ?thesis
  proof (cases "\<lfloor>x\<rfloor> = \<lfloor>y\<rfloor>")
    case True
    with le show ?thesis by (auto simp: rne_def Let_def)
  next
    case False
    with le have "\<lfloor>x\<rfloor> + 1 \<le> \<lfloor>y\<rfloor>" using floor_mono[OF le] by simp
    with rne_bounds(2)[of x] rne_bounds(1)[of y] show ?thesis by simp
  qed
qed

lemma rne_minus: "rne (- x) = - rne x"
proof (cases "x = of_int \<lfloor>x\<rfloor>")
  case True
  then obtain n where "x = of_int n" by auto
  then show ?thesis using rne_of_int[of n] rne_of_int[of "- n"] by simp
next
  case False
  then have "\<lfloor>- x\<rfloor> = - \<lfloor>x\<rfloor> - 1" by (metis ceiling_altdef floor_minus minus_add_distrib diff_conv_add_uminus)
  then show ?thesis by (auto simp: rne_def Let_def)
qed

lemma two_powi_pos [simp]: "(0 :: rat) < 2 powi e"
  by (simp add: zero_less_power_int)

lemma powi_add: "(2 :: rat) powi a * 2 powi b = 2 powi (a + b)"
  by (rule power_int_add [symmetric]) simp

lemma powi_add_nat: "(2 :: rat) powi (int n + e) = 2 ^ n * 2 powi e"
  by (subst power_int_add) simp_all

lemma ilog2_bounds:
  assumes "0 < x"
  shows "2 powi ilog2 x \<le> x" "x < 2 powi (ilog2 x + 1)"
proof -
  obtain n d where q: "quotient_of x = (n, d)" by fastforce
  have d: "0 < d" using q quotient_of_denom_pos by blast
  have x: "x = of_int n / of_int d" using q quotient_of_div by blast
  with assms d have n: "0 < n" by (simp add: zero_less_divide_iff)
  let ?a = "floorlog 2 (nat n)" and ?b = "floorlog 2 (nat d)"
  have bl: "0 < floorlog 2 (nat k)" "2 ^ (floorlog 2 (nat k) - 1) \<le> k" "k < 2 ^ floorlog 2 (nat k)"
    if "0 < k" for k
  proof -
    show "0 < floorlog 2 (nat k)" using that by (simp add: floorlog_def)
    have "2 ^ (floorlog 2 (nat k) - 1) \<le> nat k \<and> nat k < 2 ^ floorlog 2 (nat k)"
      using that floorlog_bounds[of "nat k" 2] by simp
    then show "2 ^ (floorlog 2 (nat k) - 1) \<le> k" "k < 2 ^ floorlog 2 (nat k)"
      using that by (auto simp: nat_less_iff le_nat_iff)
  qed
  have pw: "2 powi (int (floorlog 2 (nat k)) - 1) \<le> (of_int k :: rat)"
      "(of_int k :: rat) < 2 powi int (floorlog 2 (nat k))" if k: "0 < k" for k
  proof -
    obtain c where c: "floorlog 2 (nat k) = Suc c" using bl(1)[OF k] gr0_implies_Suc by blast
    have "of_int (2 ^ c) \<le> (of_int k :: rat)" "(of_int k :: rat) < of_int (2 ^ Suc c)"
      using bl(2,3)[OF k] c by (simp_all only: of_int_le_iff of_int_less_iff diff_Suc_1)
    then show "2 powi (int (floorlog 2 (nat k)) - 1) \<le> (of_int k :: rat)"
      "(of_int k :: rat) < 2 powi int (floorlog 2 (nat k))"
      unfolding c power_int_of_nat by simp_all
  qed
  note A = pw[OF n] and B = pw[OF d]
  let ?e = "int ?a - int ?b"
  have "2 powi (?e - 1) * of_int d \<le> 2 powi (?e - 1) * (2 powi int ?b :: rat)"
    using B by (intro mult_left_mono) auto
  also have "\<dots> = 2 powi (int ?a - 1)" unfolding powi_add by (rule arg_cong) simp
  finally have lo: "2 powi (?e - 1) \<le> x" using A(1) d x by (simp add: le_divide_eq)
  have "of_int n < (2 :: rat) powi int ?a" by (rule A)
  also have "\<dots> = 2 powi (?e + 1) * 2 powi (int ?b - 1)" unfolding powi_add by (rule arg_cong) simp
  also have "\<dots> \<le> 2 powi (?e + 1) * of_int d" using B by (intro mult_left_mono) auto
  finally have hi: "x < 2 powi (?e + 1)" using d x by (simp add: divide_less_eq)
  show "2 powi ilog2 x \<le> x" "x < 2 powi (ilog2 x + 1)"
    using lo hi by (auto simp: ilog2_def q Let_def)
qed

lemma powi_less_iff: "(2 :: rat) powi a < 2 powi b \<longleftrightarrow> a < b"
  using power_int_strict_increasing[of a b "2 :: rat"] power_int_strict_increasing[of b a "2 :: rat"]
  by (cases a b rule: linorder_cases) auto

lemma powi_le_iff: "(2 :: rat) powi a \<le> 2 powi b \<longleftrightarrow> a \<le> b"
  using powi_less_iff[of b a] by (simp add: linorder_not_less [symmetric])

lemma ilog2_unique: "0 < x \<Longrightarrow> 2 powi e \<le> x \<Longrightarrow> x < 2 powi (e + 1) \<Longrightarrow> ilog2 x = e"
  using ilog2_bounds[of x] powi_less_iff
  by (metis add_less_cancel_right antisym_conv3 le_less_trans zless_imp_add1_zle less_le_not_le)

lemma ilog2_mono: "0 < x \<Longrightarrow> x \<le> y \<Longrightarrow> ilog2 x \<le> ilog2 y"
proof -
  assume x: "0 < x" and "x \<le> y"
  then have "2 powi ilog2 x < (2 :: rat) powi (ilog2 y + 1)"
    using ilog2_bounds(1)[of x] ilog2_bounds(2)[of y] by simp
  then show ?thesis by (simp add: powi_less_iff)
qed

lemma fp_round_0 [simp]: "fp_round p 0 = 0"
  by (simp add: fp_round_def)

lemma fp_round_minus: "fp_round p (- x) = - fp_round p x"
  by (simp add: fp_round_def Let_def rne_minus)

text \<open>A rounded value stays in the binade of the exact one, its upper end included.\<close>

lemma fp_round_pos_bounds:
  assumes "0 < x" "0 < p"
  shows "2 powi ilog2 x \<le> fp_round p x" "fp_round p x \<le> 2 powi (ilog2 x + 1)"
proof -
  let ?e = "ilog2 x - (int p - 1)"
  have eq: "fp_round p x = of_int (rne (x / 2 powi ?e)) * 2 powi ?e"
    using assms by (simp add: fp_round_def Let_def)
  have pow: "(2 :: rat) powi (ilog2 x) = of_int (2 ^ (p - 1)) * 2 powi ?e"
    "(2 :: rat) powi (ilog2 x + 1) = of_int (2 ^ p) * 2 powi ?e"
  proof -
    obtain c where c: "p = Suc c" using assms(2) gr0_implies_Suc by blast
    have e: "ilog2 x = int c + ?e" "ilog2 x + 1 = int p + ?e" using c by simp_all
    have "(2 :: rat) powi (int k + ?e) = of_int (2 ^ k) * 2 powi ?e" for k
      by (subst power_int_add) simp_all
    from this[of c] this[of p]
    show "(2 :: rat) powi (ilog2 x) = of_int (2 ^ (p - 1)) * 2 powi ?e"
      "(2 :: rat) powi (ilog2 x + 1) = of_int (2 ^ p) * 2 powi ?e"
      unfolding e(1)[symmetric] e(2)[symmetric] by (simp_all add: c)
  qed
  have "of_int (2 ^ (p - 1)) \<le> x / 2 powi ?e" "x / 2 powi ?e \<le> of_int (2 ^ p)"
    using ilog2_bounds[OF assms(1)] unfolding pow by (simp_all add: le_divide_eq divide_le_eq)
  then have "2 ^ (p - 1) \<le> rne (x / 2 powi ?e)" "rne (x / 2 powi ?e) \<le> 2 ^ p"
    using rne_mono rne_of_int by metis+
  then have "(of_int (2 ^ (p - 1)) :: rat) \<le> of_int (rne (x / 2 powi ?e))"
    "(of_int (rne (x / 2 powi ?e)) :: rat) \<le> of_int (2 ^ p)"
    by (simp_all only: of_int_le_iff)
  then show "2 powi ilog2 x \<le> fp_round p x" "fp_round p x \<le> 2 powi (ilog2 x + 1)"
    unfolding eq pow by (simp_all only: mult_right_mono[OF _ less_imp_le[OF two_powi_pos]])
qed

lemma fp_round_mono_pos:
  assumes "0 < x" "x \<le> y" "0 < p" shows "fp_round p x \<le> fp_round p y"
proof (cases "ilog2 x = ilog2 y")
  case True
  let ?e = "ilog2 y - (int p - 1)"
  have "x / 2 powi ?e \<le> y / 2 powi ?e" using assms(2) by (simp add: divide_right_mono)
  then have "rne (x / 2 powi ?e) \<le> rne (y / 2 powi ?e)" by (rule rne_mono)
  then show ?thesis using True assms by (simp add: fp_round_def Let_def)
next
  case False
  then have "ilog2 x + 1 \<le> ilog2 y" using ilog2_mono assms by fastforce
  then have "(2 :: rat) powi (ilog2 x + 1) \<le> 2 powi ilog2 y" by (simp add: powi_le_iff)
  then show ?thesis
    using fp_round_pos_bounds[of x p] fp_round_pos_bounds[of y p] assms by simp
qed

lemma fp_round_nonneg:
  assumes "0 \<le> x" "0 < p" shows "0 \<le> fp_round p x"
proof (cases "x = 0")
  case False
  then have "2 powi ilog2 x \<le> fp_round p x" using assms by (intro fp_round_pos_bounds) auto
  with two_powi_pos[of "ilog2 x"] show ?thesis by linarith
qed simp

lemma fp_round_mono:
  assumes "x \<le> y" "0 < p" shows "fp_round p x \<le> fp_round p y"
proof -
  consider "0 < x" | "x \<le> 0" "0 \<le> y" | "y < 0" by linarith
  then show ?thesis
  proof cases
    case 2
    then have "0 \<le> fp_round p (- x)" "0 \<le> fp_round p y" using assms(2) by (auto intro: fp_round_nonneg)
    then show ?thesis by (simp add: fp_round_minus)
  next
    case 3
    then have "fp_round p (- y) \<le> fp_round p (- x)" using assms by (intro fp_round_mono_pos) auto
    then show ?thesis by (simp add: fp_round_minus)
  qed (use assms fp_round_mono_pos in auto)
qed

text \<open>The relative error is at most half a unit in the last place.\<close>

lemma rne_error: "\<bar>of_int (rne x) - x\<bar> \<le> 1 / 2"
proof -
  have "of_int \<lfloor>x\<rfloor> \<le> x" "x < of_int \<lfloor>x\<rfloor> + 1" using floor_correct[of x] by simp_all
  then show ?thesis by (auto simp: rne_def Let_def abs_le_iff)
qed

lemma fp_round_error_pos:
  assumes "0 < x" "0 < p" shows "\<bar>fp_round p x - x\<bar> \<le> x / 2 ^ p"
proof -
  obtain c where c: "p = Suc c" using assms(2) gr0_implies_Suc by blast
  let ?e = "ilog2 x - int c"
  let ?P = "2 powi ?e :: rat"
  have "2 ^ c * ?P \<le> x" using ilog2_bounds(1)[OF assms(1)] powi_add_nat[of c ?e] by simp
  then have half: "1 / 2 * ?P \<le> x / 2 ^ p" by (simp add: c field_simps)
  have "fp_round p x - x = (of_int (rne (x / ?P)) - x / ?P) * ?P"
    using assms(1) by (simp add: fp_round_def Let_def c left_diff_distrib)
  then have "\<bar>fp_round p x - x\<bar> = \<bar>of_int (rne (x / ?P)) - x / ?P\<bar> * ?P"
    by (simp add: abs_mult)
  also have "\<dots> \<le> 1 / 2 * ?P" by (intro mult_right_mono rne_error) simp
  finally show ?thesis using half by (rule order.trans)
qed

lemma fp_round_error:
  assumes "0 < p" shows "\<bar>fp_round p x - x\<bar> \<le> \<bar>x\<bar> / 2 ^ p"
proof -
  consider "x = 0" | "0 < x" | "x < 0" by linarith
  then show ?thesis
  proof cases
    case 3
    have "\<bar>fp_round p (- x) - (- x)\<bar> = \<bar>fp_round p x - x\<bar>" by (simp add: fp_round_minus abs_minus_commute)
    then show ?thesis using 3 fp_round_error_pos[of "- x" p] assms by simp
  qed (use fp_round_error_pos assms in auto)
qed

text \<open>Numbers of at most \<open>p\<close> significant bits are not changed.\<close>

lemma fp_round_exact:
  assumes "\<bar>m\<bar> < 2 ^ p" "0 < p"
  shows "fp_round p (of_int m * 2 powi e) = of_int m * 2 powi e"
proof -
  have pos: "fp_round p (of_int k * 2 powi e) = of_int k * 2 powi e" if k: "0 < k" "k < 2 ^ p" for k
  proof -
    let ?x = "of_int k * 2 powi e :: rat" and ?E = "ilog2 (of_int k * 2 powi e) - (int p - 1)"
    have x: "0 < ?x" using k by simp
    have "(of_int k :: rat) < of_int (2 ^ p)" using k(2) by (simp only: of_int_less_iff)
    then have "?x < of_int (2 ^ p) * 2 powi e" by (rule mult_strict_right_mono) simp
    also have "\<dots> = 2 powi (int p + e)" by (subst power_int_add) simp_all
    finally have "2 powi ilog2 ?x < (2 :: rat) powi (int p + e)" using ilog2_bounds(1)[OF x] by simp
    then have "ilog2 ?x < int p + e" by (simp add: powi_less_iff)
    then have "?E \<le> e" by simp
    then obtain d where d: "e = ?E + int d" by (metis zle_iff_zadd)
    have e: "2 powi e = (2 :: rat) ^ d * 2 powi ?E"
      using powi_add_nat[of d ?E] d by (metis add.commute)
    have eq: "?x = of_int (k * 2 ^ d) * 2 powi ?E" by (subst e) simp
    then have "?x / 2 powi ?E = of_int (k * 2 ^ d)"
      by (metis nonzero_mult_div_cancel_right less_irrefl two_powi_pos)
    then have "of_int (rne (?x / 2 powi ?E)) * 2 powi ?E = of_int (k * 2 ^ d) * 2 powi ?E"
      by (simp only: rne_of_int)
    also have "\<dots> = ?x" by (rule eq [symmetric])
    finally show ?thesis using x by (simp add: fp_round_def Let_def)
  qed
  consider "m = 0" | "0 < m" | "m < 0" by linarith
  then show ?thesis
  proof cases
    case 3
    then have "fp_round p (- (of_int m * 2 powi e)) = - (of_int m * 2 powi e)"
      using pos[of "- m"] assms by simp
    then show ?thesis by (simp add: fp_round_minus)
  qed (use pos assms in auto)
qed

lemma fp_round_int: "\<bar>n\<bar> < 2 ^ p \<Longrightarrow> 0 < p \<Longrightarrow> fp_round p (of_int n) = of_int n"
  using fp_round_exact[of n p 0] by simp

lemma trunc_of_int [simp]: "trunc (of_int n) = n"
  by (simp add: trunc_def)

lemma trunc_mono: "x \<le> y \<Longrightarrow> trunc x \<le> trunc y"
proof -
  assume le: "x \<le> y"
  consider "0 \<le> x" | "x < 0" "0 \<le> y" | "y < 0" by linarith
  then show ?thesis
  proof cases
    case 2
    then have "\<lceil>x\<rceil> \<le> 0" "0 \<le> \<lfloor>y\<rfloor>" by (simp_all add: ceiling_le_iff)
    then have "\<lceil>x\<rceil> \<le> \<lfloor>y\<rfloor>" by (rule order.trans)
    then show ?thesis using 2 by (simp add: trunc_def)
  qed (use le in \<open>auto simp: trunc_def intro: floor_mono ceiling_mono\<close>)
qed

lemma lround_error: "\<bar>of_int (lround x) - x\<bar> \<le> 1 / 2"
proof (cases "0 \<le> x")
  case True
  then show ?thesis
    using floor_correct[of "x + 1 / 2"] unfolding lround_def abs_le_iff by simp linarith
next
  case False
  then show ?thesis
    using floor_correct[of "1 / 2 - x"] unfolding lround_def abs_le_iff by simp linarith
qed

section \<open>Integer square root\<close>

fun isqrt :: "nat \<Rightarrow> nat" where
  "isqrt n = (if n = 0 then 0
     else let r = 2 * isqrt (n div 4) in if (r + 1) * (r + 1) \<le> n then r + 1 else r)"

declare isqrt.simps [simp del]

lemma isqrt_spec: "isqrt n * isqrt n \<le> n \<and> n < (isqrt n + 1) * (isqrt n + 1)"
proof (induction n rule: isqrt.induct)
  case (1 n)
  show ?case
  proof (cases "n = 0")
    case True
    then show ?thesis by (simp add: isqrt.simps)
  next
    case False
    let ?s = "isqrt (n div 4)"
    have lo: "?s * ?s \<le> n div 4" and hi: "n div 4 < (?s + 1) * (?s + 1)" using 1 False by blast+
    have "4 * (?s * ?s) \<le> 4 * (n div 4)" using lo by (rule mult_le_mono2)
    then have lo': "(2 * ?s) * (2 * ?s) \<le> n" using times_div_less_eq_dividend[of 4 n] by linarith
    have "n div 4 + 1 \<le> (?s + 1) * (?s + 1)" using hi by simp
    then have "4 * (n div 4 + 1) \<le> 4 * ((?s + 1) * (?s + 1))" by (rule mult_le_mono2)
    moreover have "n < 4 * (n div 4 + 1)" by simp
    moreover have "4 * ((?s + 1) * (?s + 1)) = (2 * ?s + 1 + 1) * (2 * ?s + 1 + 1)" by simp
    ultimately have hi': "n < (2 * ?s + 1 + 1) * (2 * ?s + 1 + 1)" by linarith
    show ?thesis
    proof (cases "(2 * ?s + 1) * (2 * ?s + 1) \<le> n")
      case True
      then have r: "isqrt n = 2 * ?s + 1" using False by (subst isqrt.simps) (simp add: Let_def)
      show ?thesis unfolding r using True hi' by blast
    next
      case F: False
      then have r: "isqrt n = 2 * ?s" using False by (subst isqrt.simps) (simp add: Let_def)
      show ?thesis unfolding r using F lo' by simp
    qed
  qed
qed

lemma isqrt_mono: "m \<le> n \<Longrightarrow> isqrt m \<le> isqrt n"
proof (rule ccontr)
  assume "m \<le> n" "\<not> isqrt m \<le> isqrt n"
  then have "(isqrt n + 1) * (isqrt n + 1) \<le> isqrt m * isqrt m" by (intro mult_le_mono) simp_all
  with isqrt_spec[of n] isqrt_spec[of m] \<open>m \<le> n\<close> show False by linarith
qed

lemma isqrt_square [simp]: "isqrt (n * n) = n"
proof -
  have "isqrt (n * n) * isqrt (n * n) \<le> n * n" and "n * n < (isqrt (n * n) + 1) * (isqrt (n * n) + 1)"
    using isqrt_spec[of "n * n"] by auto
  then have "\<not> n < isqrt (n * n)" "\<not> isqrt (n * n) + 1 \<le> n"
    using mult_strict_mono[of n "isqrt (n * n)" n "isqrt (n * n)"]
      mult_le_mono[of "isqrt (n * n) + 1" n "isqrt (n * n) + 1" n] by auto
  then show ?thesis by simp
qed

end
