(* ===== verification/MsgFields.thy ===== *)
theory MsgFields
  imports IcaoCache Fp
begin

text \<open>
  The field decoders of \<open>main/mode-s.c\<close>: altitude codes, squawks, callsigns, the movement code of
  surface positions, the bit-field reader of the register tables, the plausibility test and the
  wording of a resolution advisory, and the navigation integrity category.

  A byte array that the code passes as a pointer into the message is the list of the bytes from
  there on. Shifted single bits and masks that never overlap are added where the code uses \<open>|\<close>.
\<close>

section \<open>Numbers from bytes\<close>

abbreviation byte :: "u8 list \<Rightarrow> nat \<Rightarrow> nat" where
  "byte m k \<equiv> unat (m ! k)"

abbreviation bitn :: "'a::len word \<Rightarrow> nat \<Rightarrow> nat" where
  "bitn w k \<equiv> of_bool (bit w k)"

definition decode_movement :: "nat \<Rightarrow> rat" where
  "decode_movement mv =
     (let v = (of_nat mv :: rat)
      in if 125 \<le> mv then 0
         else if mv = 124 then 180
         else if 109 \<le> mv then 100 + (v - 109 + 1 / 2) * 5
         else if 94 \<le> mv then 70 + (v - 94 + 1 / 2) * 2
         else if 39 \<le> mv then 15 + (v - 39 + 1 / 2)
         else if 13 \<le> mv then 2 + (v - 13 + 1 / 2) * (1 / 2)
         else if 9 \<le> mv then 1 + (v - 9 + 1 / 2) * (1 / 4)
         else if 2 \<le> mv then 1 / 8 + (v - 2 + 1 / 2) * (1 / 8)
         else 0)"

definition decode_id13_field :: "u32 \<Rightarrow> nat" where
  "decode_id13_field f =
     (let a = 4 * bitn f 7 + 2 * bitn f 9 + bitn f 11;
          b = 4 * bitn f 1 + 2 * bitn f 3 + bitn f 5;
          c = 4 * bitn f 8 + 2 * bitn f 10 + bitn f 12;
          d = 4 * bitn f 0 + 2 * bitn f 2 + bitn f 4
      in a * 1000 + b * 100 + c * 10 + d)"

text \<open>
  The altitude decoders also set \<open>*unit\<close>: the result is the altitude and the unit written, if one
  is written (the 12-bit decoder leaves it alone when the Q bit is clear).
\<close>

definition decode_ac13_field :: "u8 list \<Rightarrow> int \<times> altitude_unit option" where
  "decode_ac13_field msg =
     (let m_bit = bit (msg ! 3) 6; q_bit = bit (msg ! 3) 4
      in if \<not> m_bit
         then if q_bit
           then let n = byte msg 2 mod 32 * 64 + 32 * bitn (msg ! 3) 7 + 16 * bitn (msg ! 3) 5 + byte msg 3 mod 16
                in (int n * 25 - 1000, Some UNIT_FEET)
           else (0, Some UNIT_FEET)
         else (0, Some UNIT_METERS))"

definition decode_ac12_field :: "u8 list \<Rightarrow> int \<times> altitude_unit option" where
  "decode_ac12_field msg =
     (let q_bit = bit (msg ! 5) 0
      in if q_bit
         then let n = byte msg 5 div 2 * 16 + byte msg 6 div 16
              in (int n * 25 - 1000, Some UNIT_FEET)
         else (0, None))"

section \<open>Callsigns\<close>

definition ais_charset :: string where
  "ais_charset = '' ABCDEFGHIJKLMNOPQRSTUVWXYZ????? ???????????????0123456789??????''"

definition callsign_codes :: "u8 list \<Rightarrow> nat list" where
  "callsign_codes b =
     [byte b 0 div 4,
      byte b 0 mod 4 * 16 + byte b 1 div 16,
      byte b 1 mod 16 * 4 + byte b 2 div 64,
      byte b 2 mod 64,
      byte b 3 div 4,
      byte b 3 mod 4 * 16 + byte b 4 div 16,
      byte b 4 mod 16 * 4 + byte b 5 div 64,
      byte b 5 mod 64]"

text \<open>The string written and the success flag; a hole empties the string.\<close>

definition decode_callsign :: "u8 list \<Rightarrow> string \<times> bool" where
  "decode_callsign b =
     (let out = map (\<lambda>k. ais_charset ! k) (callsign_codes b)
      in if CHR ''?'' \<in> set out then ([], False) else (out, True))"

section \<open>Register fields\<close>

definition fbit :: "u8 list \<Rightarrow> nat \<Rightarrow> bool" where
  "fbit b n = bit (b ! ((n - 1) div 8)) (7 - (n - 1) mod 8)"

definition fbits :: "u8 list \<Rightarrow> nat \<Rightarrow> nat \<Rightarrow> nat" where
  "fbits b lo hi = foldl (\<lambda>v i. 2 * v + of_bool (fbit b i)) 0 [lo..<Suc hi]"

definition acas_ra_plausible :: "int \<Rightarrow> mode_s_t \<Rightarrow> u8 list \<Rightarrow> nat \<Rightarrow> bool \<Rightarrow> bool" where
  "acas_ra_plausible now self b df tc28 =
     (if \<not> tc28 \<and> b ! 0 \<noteq> 0x30 then False
      else if \<not> fbit b 9 \<and> \<not> fbit b 27 \<and> \<not> fbit b 28 then False
      else if fbits b 9 28 = 0 then False
      else if fbit b 23 \<and> fbit b 24 \<or> fbit b 25 \<and> fbit b 26 then False
      else if df = 16 then fbits b 29 56 = 0
      else if fbit b 25 \<or> fbit b 26 then False
      else let tti = fbits b 29 30
           in if tti = 0 then fbits b 31 56 = 0
              else if tti = 1 then fbits b 55 56 = 0 \<and>
                icao_addr_was_recently_seen now (of_nat (fbits b 31 54)) self
              else if tti = 2 then tc28
              else False)"

text \<open>\<open>snprintf(out, n, ...)\<close> keeps at most \<open>n - 1\<close> characters.\<close>

definition snprintf :: "nat \<Rightarrow> string \<Rightarrow> string" where
  "snprintf n s = take (n - 1) s"

definition mode_s_acas_ra_text :: "u8 list \<Rightarrow> nat \<Rightarrow> string" where
  "mode_s_acas_ra_text b n =
     (if fbit b 27 then snprintf n ''clear of conflict''
      else if fbit b 9
      then let corr = fbit b 10; down = fbit b 11; positive = fbit b 15;
               sense = (if down then ''descend'' else ''climb'')
           in if corr \<and> positive
              then snprintf n ((if fbit b 12 then ''increase '' else []) @ sense @
                     (if fbit b 13 then '' now'' else []) @ (if fbit b 14 then '' (crossing)'' else []))
              else if corr then snprintf n ''level off''
              else if positive then snprintf n (''maintain v/s'' @ (if fbit b 14 then '' (crossing)'' else []))
              else snprintf n ''monitor v/s''
      else snprintf n (''multi-threat'' @ (if fbit b 11 then '' climb'' else []) @
             (if fbit b 13 then '' descend'' else []) @
             (if fbit b 10 then '' correct up'' else []) @ (if fbit b 12 then '' correct down'' else []) @
             (if fbit b 14 then '' (crossing)'' else [])))"

definition mode_s_nic :: "nat \<Rightarrow> nat \<Rightarrow> bool \<Rightarrow> bool \<Rightarrow> bool \<Rightarrow> nat" where
  "mode_s_nic mt ver na nb nc =
     (if mt = 5 \<or> mt = 9 \<or> mt = 20 then 11
      else if mt = 6 \<or> mt = 10 \<or> mt = 21 then 10
      else if mt = 7 then
        (if ver = 2 then (if na \<and> \<not> nc then 9 else 8) else if ver = 1 then (if na then 9 else 8) else 8)
      else if mt = 8 then
        (if ver = 2 then (if na \<and> nc then 7 else if na \<or> nc then 6 else 0) else 0)
      else if mt = 11 then
        (if ver = 2 then (if na \<and> nb then 9 else 8) else if ver = 1 then (if na then 9 else 8) else 8)
      else if mt = 12 then 7
      else if mt = 13 then 6
      else if mt = 14 then 5
      else if mt = 15 then 4
      else if mt = 16 then (if na \<and> nb then 3 else 2)
      else if mt = 17 then 1
      else 0)"

section \<open>Bit fields\<close>

lemma fbit_msg_bit: "1 \<le> n \<Longrightarrow> fbit b n = msg_bit b (n - 1)"
  by (simp add: fbit_def msg_bit_iff)

lemma fbits_empty [simp]: "hi < lo \<Longrightarrow> fbits b lo hi = 0"
  by (simp add: fbits_def)

lemma fbits_step: "lo \<le> Suc hi \<Longrightarrow> fbits b lo (Suc hi) = 2 * fbits b lo hi + of_bool (fbit b (Suc hi))"
  by (simp add: fbits_def)

lemma fbits_less: "fbits b lo hi < 2 ^ (Suc hi - lo)"
proof (induction hi)
  case 0
  then show ?case by (cases "lo = 0") (auto simp: fbits_def)
next
  case (Suc hi)
  show ?case
  proof (cases "lo \<le> Suc hi")
    case True
    then have "Suc (Suc hi) - lo = Suc (Suc hi - lo)" by simp
    then show ?thesis using Suc by (simp add: fbits_step[OF True])
  qed simp
qed

text \<open>A field of up to \<open>w\<close> bits is below \<open>2 ^ w\<close>.\<close>

lemma fbits_bound [bounds_intros]: "Suc hi - lo \<le> w \<Longrightarrow> fbits b lo hi < 2 ^ w"
  using fbits_less[of b lo hi] by (meson le_less_trans less_le_trans one_le_numeral order_less_le power_increasing)

lemma fbits_zero_iff: "fbits b lo hi = 0 \<longleftrightarrow> (\<forall>i\<in>{lo..hi}. \<not> fbit b i)"
proof (induction hi)
  case 0
  then show ?case by (cases "lo = 0") (auto simp: fbits_def)
next
  case (Suc hi)
  show ?case
  proof (cases "lo \<le> Suc hi")
    case True
    then show ?thesis using Suc by (auto simp: fbits_step[OF True] le_Suc_eq)
  qed simp
qed

end
