(* ===== verification/MsgFieldProps.thy ===== *)
theory MsgFieldProps
  imports MsgFields
begin

text \<open>
  The field decoders of \<open>MsgFields\<close> against encoders: altitudes, squawks and callsigns that a
  transponder can send are read back as they were sent.
\<close>

section \<open>Altitude\<close>

text \<open>The encoders of a transponder that reports in 25 ft steps (M = 0, Q = 1).\<close>

definition encode_ac13 :: "nat \<Rightarrow> nat \<times> nat" where
  "encode_ac13 n = (n div 64, n div 32 mod 2 * 128 + n div 16 mod 2 * 32 + 16 + n mod 16)"

definition encode_ac12 :: "nat \<Rightarrow> nat \<times> nat" where
  "encode_ac12 n = (n div 16 * 2 + 1, n mod 16 * 16)"

lemma ac13_byte:
  assumes "h < 2" "q < 2" "l < (16 :: nat)"
  shows "even ((h * 128 + q * 32 + 16 + l) div 2 ^ 6)" "odd ((h * 128 + q * 32 + 16 + l) div 2 ^ 4)"
    "odd ((h * 128 + q * 32 + 16 + l) div 2 ^ 7) \<longleftrightarrow> h = 1"
    "odd ((h * 128 + q * 32 + 16 + l) div 2 ^ 5) \<longleftrightarrow> q = 1"
    "(h * 128 + q * 32 + 16 + l) mod 16 = l"
proof -
  let ?P = "\<lambda>h q l :: nat. let x = h * 128 + q * 32 + 16 + l in
    even (x div 2 ^ 6) \<and> odd (x div 2 ^ 4) \<and> (odd (x div 2 ^ 7) = (h = 1)) \<and> (odd (x div 2 ^ 5) = (q = 1)) \<and> x mod 16 = l"
  have "\<forall>h\<in>set [0..<2]. \<forall>q\<in>set [0..<2]. \<forall>l\<in>set [0..<16]. ?P h q l" by code_simp
  then have "?P h q l" using assms by auto
  then show "even ((h * 128 + q * 32 + 16 + l) div 2 ^ 6)" "odd ((h * 128 + q * 32 + 16 + l) div 2 ^ 4)"
    "odd ((h * 128 + q * 32 + 16 + l) div 2 ^ 7) \<longleftrightarrow> h = 1"
    "odd ((h * 128 + q * 32 + 16 + l) div 2 ^ 5) \<longleftrightarrow> q = 1"
    "(h * 128 + q * 32 + 16 + l) mod 16 = l"
    unfolding Let_def by blast+
qed

text \<open>
  Every altitude from -1000 ft to 50175 ft in steps of 25 ft survives both altitude codes: the
  13-bit decoder of the surveillance replies and the 12-bit decoder of the extended squitter read
  back, in feet, the altitude that was encoded, whatever the neighbouring bits of the message.
\<close>

theorem altitude_roundtrip:
  assumes "n < 2048"
    and "byte m13 2 mod 32 = fst (encode_ac13 n)" "byte m13 3 = snd (encode_ac13 n)"
    and "byte m12 5 = fst (encode_ac12 n)" "byte m12 6 div 16 * 16 = snd (encode_ac12 n)"
  shows "decode_ac13_field m13 = (25 * int n - 1000, Some UNIT_FEET) \<and>
    decode_ac12_field m12 = (25 * int n - 1000, Some UNIT_FEET)"
proof
  let ?h = "n div 32 mod 2" and ?q = "n div 16 mod 2" and ?l = "n mod 16"
  have b3: "byte m13 3 = ?h * 128 + ?q * 32 + 16 + ?l" using assms(3) by (simp add: encode_ac13_def)
  have bits: "bit (m13 ! 3) k \<longleftrightarrow> odd ((?h * 128 + ?q * 32 + 16 + ?l) div 2 ^ k)" for k
    by (simp only: bit_unat_odd b3)
  have "?h < 2" "?q < 2" "?l < 16" by simp_all
  note byte3 = ac13_byte[OF this]
  have "byte m13 2 mod 32 * 64 + 32 * bitn (m13 ! 3) 7 + 16 * bitn (m13 ! 3) 5 + byte m13 3 mod 16
      = n div 64 * 64 + 32 * ?h + 16 * ?q + ?l"
  proof -
    have h: "bitn (m13 ! 3) 7 = ?h" unfolding bits byte3(3) by (cases "?h = 1") auto
    have q: "bitn (m13 ! 3) 5 = ?q" unfolding bits byte3(4) by (cases "?q = 1") auto
    have l: "byte m13 3 mod 16 = ?l" unfolding b3 by (rule byte3(5))
    have u: "byte m13 2 mod 32 = n div 64" using assms(2) by (simp add: encode_ac13_def)
    show ?thesis unfolding h q l u by (rule refl)
  qed
  also have "\<dots> = n"
  proof -
    have "n div 32 = n div 16 div 2" "n div 64 = n div 32 div 2" by (simp_all flip: div_mult2_eq)
    then show ?thesis
      using div_mult_mod_eq[of n 16] div_mult_mod_eq[of "n div 16" 2] div_mult_mod_eq[of "n div 32" 2]
      by linarith
  qed
  finally have n: "byte m13 2 mod 32 * 64 + 32 * bitn (m13 ! 3) 7 + 16 * bitn (m13 ! 3) 5 + byte m13 3 mod 16 = n" .
  have m: "\<not> bit (m13 ! 3) 6" and q: "bit (m13 ! 3) 4" using bits byte3(1,2) by blast+
  from n
  show "decode_ac13_field m13 = (25 * int n - 1000, Some UNIT_FEET)"
    using m q by (simp add: decode_ac13_field_def Let_def)
  have "bit (m12 ! 5) 0" using assms(4) by (simp only: bit_unat_odd) (simp add: encode_ac12_def)
  moreover have "byte m12 5 div 2 * 16 + byte m12 6 div 16 = n"
    using assms(4,5) unfolding encode_ac12_def by simp
  ultimately show "decode_ac12_field m12 = (25 * int n - 1000, Some UNIT_FEET)"
    by (simp add: decode_ac12_field_def Let_def)
qed

lemma altitude_roundtrip_witness:
  "decode_ac13_field [0x20, 0, 0x17, 0xB0] = (37000, Some UNIT_FEET) \<and>
   decode_ac12_field [0, 0, 0, 0, 0, 0xBF, 0x00] = (37000, Some UNIT_FEET)"
  using altitude_roundtrip[of 1520 "[0x20, 0, 0x17, 0xB0]" "[0, 0, 0, 0, 0, 0xBF, 0x00]"]
  by (simp add: encode_ac13_def encode_ac12_def)

section \<open>Squawk\<close>

text \<open>
  The interleaved identity field \<open>C1 A1 C2 A2 C4 A4 0 B1 D1 B2 D2 B4 D4\<close>, most significant bit
  first, of the octal digits \<open>a b c d\<close>.
\<close>

definition gillham :: "nat \<Rightarrow> nat \<Rightarrow> nat \<Rightarrow> nat \<Rightarrow> u32" where
  "gillham a b c d = foldl (\<lambda>w x. push_bit 1 w OR of_bool x) 0
     [bit c 0, bit a 0, bit c 1, bit a 1, bit c 2, bit a 2, False,
      bit b 0, bit d 0, bit b 1, bit d 1, bit b 2, bit d 2]"

lemma octal_bits: "x < 8 \<Longrightarrow> 4 * of_bool (bit x 2) + 2 * of_bool (bit x 1) + of_bool (bit x 0) = (x :: nat)"
proof -
  assume "x < 8"
  moreover have "\<forall>x\<in>set [0..<8]. 4 * of_bool (bit x 2) + 2 * of_bool (bit x 1) + of_bool (bit x 0) = (x :: nat)"
    by code_simp
  ultimately show ?thesis by simp
qed

lemma bit_horner: "bit (push_bit 1 w OR of_bool x :: u32) k \<longleftrightarrow> k < 32 \<and> (if k = 0 then x else bit w (k - 1))"
  by (simp only: bit_or_iff bit_push_bit_iff) (auto simp: bit_simps bit_of_bool_iff)

text \<open>
  The identity decoder undoes the Gillham interleaving: for any four octal digits it returns the
  decimal number spelled by those digits (squawk 7700 reads 7700).
\<close>

theorem squawk_roundtrip:
  assumes "a < 8" "b < 8" "c < 8" "d < 8"
  shows "decode_id13_field (gillham a b c d) = 1000 * a + 100 * b + 10 * c + d"
proof -
  note horner = bit_horner gillham_def
  let ?g = "gillham a b c d"
  have "bitn ?g 7 = (of_bool (bit a 2) :: nat)" "bitn ?g 9 = (of_bool (bit a 1) :: nat)" "bitn ?g 11 = (of_bool (bit a 0) :: nat)"
    "bitn ?g 1 = (of_bool (bit b 2) :: nat)" "bitn ?g 3 = (of_bool (bit b 1) :: nat)" "bitn ?g 5 = (of_bool (bit b 0) :: nat)"
    "bitn ?g 8 = (of_bool (bit c 2) :: nat)" "bitn ?g 10 = (of_bool (bit c 1) :: nat)" "bitn ?g 12 = (of_bool (bit c 0) :: nat)"
    "bitn ?g 0 = (of_bool (bit d 2) :: nat)" "bitn ?g 2 = (of_bool (bit d 1) :: nat)" "bitn ?g 4 = (of_bool (bit d 0) :: nat)"
    unfolding gillham_def foldl_Cons foldl_Nil bit_horner by simp_all
  then show ?thesis
    unfolding decode_id13_field_def Let_def using octal_bits assms by simp
qed

lemma squawk_roundtrip_witness: "decode_id13_field (gillham 7 7 0 0) = 7700"
  using squawk_roundtrip[of 7 7 0 0] by simp

section \<open>Callsign\<close>

text \<open>The characters a callsign may hold, their codes, and the packing of eight codes in six bytes.\<close>

definition callsign_char :: "char \<Rightarrow> bool" where
  "callsign_char ch \<longleftrightarrow> ch \<in> set ''ABCDEFGHIJKLMNOPQRSTUVWXYZ 0123456789''"

definition ais_code :: "char \<Rightarrow> nat" where
  "ais_code ch = (if ch = CHR '' '' then 32 else if of_char ch < (58 :: nat) then of_char ch else of_char ch - 64)"

definition pack_codes :: "nat list \<Rightarrow> u8 list" where
  "pack_codes cs = map of_nat
     [cs ! 0 * 4 + cs ! 1 div 16, cs ! 1 mod 16 * 16 + cs ! 2 div 4, cs ! 2 mod 4 * 64 + cs ! 3,
      cs ! 4 * 4 + cs ! 5 div 16, cs ! 5 mod 16 * 16 + cs ! 6 div 4, cs ! 6 mod 4 * 64 + cs ! 7]"

lemma ais_code_ok: "callsign_char ch \<Longrightarrow> ais_code ch < 64 \<and> ais_charset ! ais_code ch = ch \<and> ch \<noteq> CHR ''?''"
proof -
  have "list_all (\<lambda>ch. ais_code ch < 64 \<and> ais_charset ! ais_code ch = ch \<and> ch \<noteq> CHR ''?'')
      ''ABCDEFGHIJKLMNOPQRSTUVWXYZ 0123456789''" by code_simp
  then show "callsign_char ch \<Longrightarrow> ?thesis" by (auto simp: callsign_char_def list_all_iff)
qed

lemma codes_pack:
  assumes "length cs = 8" "\<forall>c\<in>set cs. c < 64"
  shows "callsign_codes (pack_codes cs) = cs"
proof -
  have small: "cs ! k < 64" if "k < 8" for k using assms that by simp
  have byte: "unat (of_nat n :: u8) = n" if "n < 256" for n
    using that by (simp add: unsigned_of_nat take_bit_nat_eq_self)
  have split: "(x * 4 + y div 16) div 4 = x" "(x * 4 + y div 16) mod 4 * 16 + (y mod 16 * 16 + z div 4) div 16 = y"
      "(y mod 16 * 16 + z div 4) mod 16 * 4 + (z mod 4 * 64 + w) div 64 = z" "(z mod 4 * 64 + w) mod 64 = w"
      "x * 4 + y div 16 < 256" "y mod 16 * 16 + z div 4 < 256" "z mod 4 * 64 + w < 256"
    if "x < 64" "y < 64" "z < 64" "w < 64" for x y z w :: nat
  proof -
    have "y div 16 < 4" "z div 4 < 16" "y mod 16 < 16" "z mod 4 < 4"
      using that by (simp_all add: div_less_iff_less_mult)
    with that show "(x * 4 + y div 16) div 4 = x" "(x * 4 + y div 16) mod 4 * 16 + (y mod 16 * 16 + z div 4) div 16 = y"
      "(y mod 16 * 16 + z div 4) mod 16 * 4 + (z mod 4 * 64 + w) div 64 = z" "(z mod 4 * 64 + w) mod 64 = w"
      "x * 4 + y div 16 < 256" "y mod 16 * 16 + z div 4 < 256" "z mod 4 * 64 + w < 256"
      by (simp_all add: div_mult_mod_eq)
  qed
  have cs: "cs = [cs ! 0, cs ! 1, cs ! 2, cs ! 3, cs ! 4, cs ! 5, cs ! 6, cs ! 7]"
    using assms(1) by (auto simp: list_eq_iff_nth_eq less_Suc_eq numeral_eq_Suc)
  note lo = split[OF small[of 0] small[of 1] small[of 2] small[of 3], simplified]
  note hi = split[OF small[of 4] small[of 5] small[of 6] small[of 7], simplified]
  show ?thesis
    unfolding callsign_codes_def pack_codes_def
    by (subst (25) cs) (simp add: byte lo hi del: of_nat_add of_nat_mult)
qed

text \<open>
  An eight-character callsign of letters, digits and spaces, packed six bits a character, is
  decoded to exactly that callsign.
\<close>

theorem callsign_roundtrip:
  assumes "length cs = 8" "\<forall>ch\<in>set cs. callsign_char ch"
  shows "decode_callsign (pack_codes (map ais_code cs) @ rest) = (cs, True)"
proof -
  have len: "length (pack_codes (map ais_code cs)) = 6" by (simp add: pack_codes_def)
  have "callsign_codes (pack_codes (map ais_code cs) @ rest) = callsign_codes (pack_codes (map ais_code cs))"
    by (simp add: callsign_codes_def nth_append len)
  also have "\<dots> = map ais_code cs"
    using assms ais_code_ok by (intro codes_pack) auto
  finally have "map (\<lambda>k. ais_charset ! k) (callsign_codes (pack_codes (map ais_code cs) @ rest)) = cs"
    using assms(2) ais_code_ok by (simp add: map_idI)
  moreover have "CHR ''?'' \<notin> set cs" using assms(2) ais_code_ok by blast
  ultimately show ?thesis by (simp add: decode_callsign_def Let_def)
qed

lemma callsign_roundtrip_witness:
  "decode_callsign (pack_codes (map ais_code ''KLM1023 '') @ []) = (''KLM1023 '', True)"
  by (rule callsign_roundtrip) (simp_all add: callsign_char_def)

end
