(* ===== verification/CommB.thy ===== *)
theory CommB
  imports MsgFields
begin

text \<open>
  The Comm-B register inference of \<open>main/mode-s.c\<close> (\<open>bds_empty\<close> to \<open>decode_commb\<close>), and the two
  structured extended-squitter messages with the same kind of layout, target state (TC29) and
  operational status (TC31).

  Each \<open>bds..\<close> function returns its score and the message it leaves: with \<open>store\<close> clear, or after an
  early \<open>return 0\<close>, the message is the one passed in. \<open>b\<close> is the seven-byte block \<open>mm->msg + 4\<close>.
  The functions of the C mathematics library whose result is not determined by the standard are the
  fields of \<open>libm\<close>.
\<close>

record libm =
  tan_fn :: "rat \<Rightarrow> rat"
  atan2_fn :: "rat \<Rightarrow> rat \<Rightarrow> rat"

text \<open>An instance, for evaluating examples that do not depend on these functions.\<close>

definition example_libm :: libm where
  "example_libm = \<lparr>tan_fn = \<lambda>x. x, atan2_fn = \<lambda>y x. 0\<rparr>"

definition M_PI :: rat where
  "M_PI = 884279719003555 / 281474976710656"

section \<open>Register scores\<close>

definition bds_empty :: "u8 list \<Rightarrow> int" where
  "bds_empty b = (if list_all (\<lambda>i. b ! i = 0) [0..<7] then 56 else 0)"

definition bds10 :: "u8 list \<Rightarrow> int" where
  "bds10 b = (if b ! 0 = 0x10 \<and> fbits b 10 14 = 0 then 56 else 0)"

definition bds17 :: "u8 list \<Rightarrow> int" where
  "bds17 b =
     (if fbits b 25 56 \<noteq> 0 then 0
      else
        let score = (if fbit b 7 then 1 else -2);
            score = foldl (\<lambda>s n. if fbit b n then s - 2 else s) score [10, 11, 12, 13, 14, 20, 21, 22];
            es = fbits b 1 5;
            score = (if es = 0x1f then score + 5 + of_bool (fbit b 6)
                     else if es = 0 \<and> \<not> fbit b 6 then score + 1
                     else score - 12);
            score = (if fbit b 16 \<and> fbit b 24 then score + 2 + of_bool (fbit b 9)
                     else if \<not> fbit b 16 \<and> \<not> fbit b 24 \<and> \<not> fbit b 9 then score + 1
                     else score - 6)
        in score)"

definition bds20 :: "u8 list \<Rightarrow> mode_s_msg \<Rightarrow> bool \<Rightarrow> int \<times> mode_s_msg" where
  "bds20 b mm store =
     (case decode_callsign (drop 1 b) of (cs, good) \<Rightarrow>
        if b ! 0 \<noteq> 0x20 \<or> \<not> good then (0, mm)
        else (8 + 6 * 8, if store then mm\<lparr>flight := cs\<rparr> else mm))"

definition bds30 :: "int \<Rightarrow> mode_s_t \<Rightarrow> u8 list \<Rightarrow> mode_s_msg \<Rightarrow> bool \<Rightarrow> int \<times> mode_s_msg" where
  "bds30 now self b mm store =
     (if \<not> acas_ra_plausible now self b (msgtype mm) False then (0, mm)
      else (56, if store then mm\<lparr>acas_ra_valid := True\<rparr> else mm))"

text \<open>One altitude or pressure field of BDS 4,0: its contribution, \<open>None\<close> for \<open>return 0\<close>.\<close>

definition bds40_field :: "bool \<Rightarrow> nat \<Rightarrow> bool \<Rightarrow> int option" where
  "bds40_field ok v bad =
     (if ok \<and> v \<noteq> 0 then (if bad then None else Some 13)
      else if \<not> ok \<and> v = 0 then Some 1
      else None)"

definition bds40_alt_bad :: "nat \<Rightarrow> bool" where
  "bds40_alt_bad v \<longleftrightarrow> v * 16 < 1000 \<or> 50000 < v * 16"

definition bds40_qnh_bad :: "nat \<Rightarrow> bool" where
  "bds40_qnh_bad v \<longleftrightarrow> (let p = dbl (800 + dbl (of_nat v * dbl (1 / 10))) in p < 900 \<or> 1100 < p)"

definition bds40_odd_step :: "nat \<Rightarrow> bool" where
  "bds40_odd_step v \<longleftrightarrow> 16 \<le> v * 16 mod 500 \<and> v * 16 mod 500 \<le> 484"

definition bds40_score :: "u8 list \<Rightarrow> int" where
  "bds40_score b =
     (let mcp_ok = fbit b 1; fms_ok = fbit b 14; qnh_ok = fbit b 27; mode_ok = fbit b 48; src_ok = fbit b 54;
          mcp = fbits b 2 13; fms = fbits b 15 26; qnh = fbits b 28 39; mode = fbits b 49 51; src = fbits b 55 56
      in if \<not> mcp_ok \<and> \<not> fms_ok \<and> \<not> qnh_ok \<and> \<not> mode_ok \<and> \<not> src_ok then 0
         else if fbits b 40 47 \<noteq> 0 \<or> fbits b 52 53 \<noteq> 0 then 0
         else case bds40_field mcp_ok mcp (bds40_alt_bad mcp) of None \<Rightarrow> 0 | Some s1 \<Rightarrow>
           case bds40_field fms_ok fms (bds40_alt_bad fms) of None \<Rightarrow> 0 | Some s2 \<Rightarrow>
           case bds40_field qnh_ok qnh (bds40_qnh_bad qnh) of None \<Rightarrow> 0 | Some s3 \<Rightarrow>
           if \<not> mode_ok \<and> mode \<noteq> 0 then 0
           else if \<not> src_ok \<and> src \<noteq> 0 then 0
           else s1 + s2 + s3 + (if mode_ok then 4 else 1) + (if src_ok then 3 else 1)
             - (if mcp_ok \<and> fms_ok \<and> mcp \<noteq> fms then 4 else 0)
             - (if mcp_ok \<and> bds40_odd_step mcp then 4 else 0)
             - (if fms_ok \<and> bds40_odd_step fms then 4 else 0))"

text \<open>The early \<open>return 0\<close> exits of \<open>bds40\<close> come before its store block.\<close>

definition bds40_accepts :: "u8 list \<Rightarrow> bool" where
  "bds40_accepts b =
     (let mcp_ok = fbit b 1; fms_ok = fbit b 14; qnh_ok = fbit b 27; mode_ok = fbit b 48; src_ok = fbit b 54;
          mcp = fbits b 2 13; fms = fbits b 15 26; qnh = fbits b 28 39; mode = fbits b 49 51; src = fbits b 55 56
      in (mcp_ok \<or> fms_ok \<or> qnh_ok \<or> mode_ok \<or> src_ok) \<and> fbits b 40 47 = 0 \<and> fbits b 52 53 = 0 \<and>
         bds40_field mcp_ok mcp (bds40_alt_bad mcp) \<noteq> None \<and>
         bds40_field fms_ok fms (bds40_alt_bad fms) \<noteq> None \<and>
         bds40_field qnh_ok qnh (bds40_qnh_bad qnh) \<noteq> None \<and>
         (mode_ok \<or> mode = 0) \<and> (src_ok \<or> src = 0))"

definition bds40_store :: "u8 list \<Rightarrow> mode_s_msg \<Rightarrow> mode_s_msg" where
  "bds40_store b mm =
     (let mode = fbits b 49 51;
          mm = (if fbit b 1
                then mm\<lparr>nav_have := nav_have mm OR NAV_HAVE_MCP, nav_alt_mcp := int (fbits b 2 13) * 16\<rparr> else mm);
          mm = (if fbit b 14
                then mm\<lparr>nav_have := nav_have mm OR NAV_HAVE_FMS, nav_alt_fms := int (fbits b 15 26) * 16\<rparr> else mm);
          mm = (if fbit b 27
                then mm\<lparr>nav_have := nav_have mm OR NAV_HAVE_QNH,
                       nav_qnh := flt (800 + flt (of_nat (fbits b 28 39) * flt (1 / 10)))\<rparr> else mm)
      in if fbit b 48
         then mm\<lparr>nav_have := nav_have mm OR NAV_HAVE_MODES,
                nav_modes := (if bit mode 2 then NAV_MODE_VNAV else 0) OR
                             (if bit mode 1 then NAV_MODE_ALT_HOLD else 0) OR
                             (if bit mode 0 then NAV_MODE_APPROACH else 0)\<rparr>
         else mm)"

definition bds40 :: "u8 list \<Rightarrow> mode_s_msg \<Rightarrow> bool \<Rightarrow> int \<times> mode_s_msg" where
  "bds40 b mm store = (bds40_score b, if store \<and> bds40_accepts b then bds40_store b mm else mm)"

definition bds50 :: "libm \<Rightarrow> u8 list \<Rightarrow> mode_s_msg \<Rightarrow> bool \<Rightarrow> int \<times> mode_s_msg" where
  "bds50 lm b mm store =
     (if \<not> fbit b 1 \<or> \<not> fbit b 12 \<or> \<not> fbit b 24 \<or> \<not> fbit b 46 then (0, mm)
      else
        let rl = flt (flt (flt (of_nat (fbits b 3 11) * 45) / 256) - (if fbit b 2 then 90 else 0));
            tk = flt (flt (flt (of_nat (fbits b 14 23) * 90) / 512) + (if fbit b 13 then 180 else 0));
            gs = fbits b 25 34 * 2;
            ts = fbits b 47 56 * 2;
            tr_ok = fbit b 35;
            tr = flt (flt (flt (of_nat (fbits b 37 45) * 8) / 256) - (if fbit b 36 then 16 else 0))
        in if rl < -40 \<or> 40 \<le> rl then (0, mm)
           else if gs = 0 \<or> gs < 50 \<or> 700 < gs then (0, mm)
           else if ts = 0 \<or> ts < 50 \<or> 700 < ts then (0, mm)
           else if tr_ok \<and> (tr < -10 \<or> 10 < tr) then (0, mm)
           else if \<not> tr_ok \<and> fbits b 36 45 \<noteq> 0 then (0, mm)
           else
             let score = 11 + 12 + 11 + 11 + (if tr_ok then 11 else 1);
                 turn = dbl (dbl (dbl (68625 * tan_fn lm (dbl (dbl (rl * M_PI) / 180))) / dbl (of_nat (ts * 20) * M_PI)) - tr);
                 score = (if tr_ok \<and> 2 < \<bar>turn\<bar> then score - 6 else score);
                 mm' = mm\<lparr>roll_valid := True, roll := rl,
                          heading_is_valid := True, heading := trunc (dbl (tk + 1 / 2)) mod 360,
                          gs_valid := True, velocity := int gs,
                          tas_valid := True, tas := int ts\<rparr>;
                 mm' = (if tr_ok then mm'\<lparr>track_rate_valid := True, track_rate := tr\<rparr> else mm')
             in (score, if store then mm' else mm))"

definition bds60 :: "u8 list \<Rightarrow> mode_s_msg \<Rightarrow> bool \<Rightarrow> int \<times> mode_s_msg" where
  "bds60 b mm store =
     (if \<not> fbit b 1 \<or> \<not> fbit b 13 \<or> \<not> fbit b 24 \<or> \<not> fbit b 35 \<and> \<not> fbit b 46 then (0, mm)
      else
        let hdg = flt (flt (flt (of_nat (fbits b 3 12) * 90) / 512) + (if fbit b 2 then 180 else 0));
            is = fbits b 14 23;
            mc = flt (flt (of_nat (fbits b 25 34) * flt (2048 / 1000)) / 512);
            br_ok = fbit b 35; ir_ok = fbit b 46;
            br = int (fbits b 37 45) * 32 - (if fbit b 36 then 16384 else 0);
            ir = int (fbits b 48 56) * 32 - (if fbit b 47 then 16384 else 0)
        in if is = 0 \<or> is < 50 \<or> 700 < is then (0, mm)
           else if mc < flt (1 / 10) \<or> flt (9 / 10) < mc then (0, mm)
           else if br_ok \<and> (br < -6000 \<or> 6000 < br) then (0, mm)
           else if \<not> br_ok \<and> fbits b 36 45 \<noteq> 0 then (0, mm)
           else if ir_ok \<and> (ir < -6000 \<or> 6000 < ir) then (0, mm)
           else if \<not> ir_ok \<and> fbits b 47 56 \<noteq> 0 then (0, mm)
           else
             let score = 12 + 11 + 11 + (if br_ok then 11 else 1) + (if ir_ok then 11 else 1);
                 score = (if br_ok \<and> ir_ok \<and> 2000 < \<bar>br - ir\<bar> then score - 12 else score);
                 mm' = mm\<lparr>mag_heading_valid := True, mag_heading := hdg,
                          ias_valid := True, ias := int is, mach_valid := True, mach := mc\<rparr>;
                 mm' = (if br_ok then mm'\<lparr>baro_rate_valid := True, baro_rate := br\<rparr> else mm');
                 mm' = (if ir_ok then mm'\<lparr>geom_rate_valid := True, geom_rate := ir\<rparr> else mm')
             in (score, if store then mm' else mm))"

section \<open>The inference\<close>

definition commb_candidates :: "libm \<Rightarrow> int \<Rightarrow> mode_s_t \<Rightarrow> mode_s_msg \<Rightarrow> (nat \<times> int) list" where
  "commb_candidates lm now self mm =
     (let b = drop 4 (mm_msg mm)
      in [(0x00, bds_empty b), (0x10, bds10 b), (0x17, bds17 b), (0x20, fst (bds20 b mm False)),
          (0x30, fst (bds30 now self b mm False)), (0x40, fst (bds40 b mm False)),
          (0x50, fst (bds50 lm b mm False)), (0x60, fst (bds60 b mm False))])"

text \<open>The state of the loop is \<open>best\<close>, \<open>tie\<close>, \<open>bds\<close>.\<close>

definition commb_step :: "int \<times> bool \<times> nat \<Rightarrow> nat \<times> int \<Rightarrow> int \<times> bool \<times> nat" where
  "commb_step st c =
     (case st of (best, tie, bds) \<Rightarrow> case c of (n, score) \<Rightarrow>
        if best < score then (score, False, n)
        else if score = best \<and> best \<noteq> 0 then (best, True, bds)
        else (best, tie, bds))"

definition commb_select :: "(nat \<times> int) list \<Rightarrow> nat option" where
  "commb_select cs =
     (case foldl commb_step (0, False, 0) cs of (best, tie, bds) \<Rightarrow>
        if best = 0 \<or> tie then None else Some bds)"

definition decode_commb :: "libm \<Rightarrow> int \<Rightarrow> mode_s_t \<Rightarrow> mode_s_msg \<Rightarrow> mode_s_msg" where
  "decode_commb lm now self mm =
     (let b = drop 4 (mm_msg mm)
      in case commb_select (commb_candidates lm now self mm) of
           None \<Rightarrow> mm
         | Some bds \<Rightarrow>
             let mm = mm\<lparr>commb_bds := bds\<rparr>
             in if bds = 0x20 then snd (bds20 b mm True)
                else if bds = 0x30 then snd (bds30 now self b mm True)
                else if bds = 0x40 then snd (bds40 b mm True)
                else if bds = 0x50 then snd (bds50 lm b mm True)
                else if bds = 0x60 then snd (bds60 b mm True)
                else mm)"

section \<open>Target state and status (TC29)\<close>

text \<open>Subtype 0, the version 1 layout; \<open>me\<close> is the block \<open>mm->msg + 4\<close>.\<close>

definition target_status_v1 :: "u8 list \<Rightarrow> mode_s_msg \<Rightarrow> mode_s_msg" where
  "target_status_v1 me mm =
     (let vsrc = fbits me 8 9; vmode = fbits me 14 15; alt = -1000 + 100 * int (fbits me 16 25);
          mm = (if vsrc = 1 then mm\<lparr>nav_have := nav_have mm OR NAV_HAVE_MCP, nav_alt_mcp := alt\<rparr> else mm);
          mm = (if vsrc = 3 then mm\<lparr>nav_have := nav_have mm OR NAV_HAVE_FMS, nav_alt_fms := alt\<rparr> else mm);
          mm = (if vmode = 1 \<or> vmode = 2
                then mm\<lparr>nav_have := nav_have mm OR NAV_HAVE_MODES,
                       nav_modes := nav_modes mm OR
                         (if vsrc = 3 then NAV_MODE_VNAV
                          else if vmode = 2 \<and> vsrc = 2 then NAV_MODE_ALT_HOLD
                          else NAV_MODE_AUTOPILOT)\<rparr>
                else mm);
          hsrc = fbits me 26 27;
          mm = (if hsrc \<noteq> 0
                then mm\<lparr>nav_have := nav_have mm OR NAV_HAVE_HEADING, nav_heading := of_nat (fbits me 28 36)\<rparr>
                else mm);
          hmode = fbits me 38 39;
          mm = (if hmode = 1 \<or> hmode = 2
                then mm\<lparr>nav_have := nav_have mm OR NAV_HAVE_MODES,
                       nav_modes := nav_modes mm OR (if hsrc = 3 then NAV_MODE_LNAV else NAV_MODE_AUTOPILOT)\<rparr>
                else mm);
          tcas = fbits me 52 53;
          mm = (if tcas \<noteq> 0 then mm\<lparr>nav_have := nav_have mm OR NAV_HAVE_MODES\<rparr> else mm);
          mm = (if tcas \<noteq> 1 then mm\<lparr>nav_modes := nav_modes mm OR NAV_MODE_TCAS\<rparr> else mm)
      in mm\<lparr>emergency_valid := True, emergency := fbits me 54 56\<rparr>)"

text \<open>Subtype 1, the version 2 layout.\<close>

definition target_status_v2 :: "u8 list \<Rightarrow> mode_s_msg \<Rightarrow> mode_s_msg" where
  "target_status_v2 me mm =
     (let alt = fbits me 10 20;
          mm = (if alt \<noteq> 0
                then if fbit me 9
                     then mm\<lparr>nav_have := nav_have mm OR NAV_HAVE_FMS, nav_alt_fms := (int alt - 1) * 32\<rparr>
                     else mm\<lparr>nav_have := nav_have mm OR NAV_HAVE_MCP, nav_alt_mcp := (int alt - 1) * 32\<rparr>
                else mm);
          qnh = fbits me 21 29;
          mm = (if qnh \<noteq> 0
                then mm\<lparr>nav_have := nav_have mm OR NAV_HAVE_QNH,
                       nav_qnh := flt (800 + flt (of_int (int qnh - 1) * flt (8 / 10)))\<rparr>
                else mm);
          mm = (if fbit me 30
                then mm\<lparr>nav_have := nav_have mm OR NAV_HAVE_HEADING,
                       nav_heading := flt (flt (of_nat (fbits me 31 39) * 180) / 256)\<rparr>
                else mm)
      in if fbit me 47
         then mm\<lparr>nav_have := nav_have mm OR NAV_HAVE_MODES,
                nav_modes := (if fbit me 48 then NAV_MODE_AUTOPILOT else 0) OR
                             (if fbit me 49 then NAV_MODE_VNAV else 0) OR
                             (if fbit me 50 then NAV_MODE_ALT_HOLD else 0) OR
                             (if fbit me 52 then NAV_MODE_APPROACH else 0) OR
                             (if fbit me 53 then NAV_MODE_TCAS else 0) OR
                             (if fbit me 54 then NAV_MODE_LNAV else 0)\<rparr>
         else mm)"

definition target_status_accuracy :: "u8 list \<Rightarrow> mode_s_msg \<Rightarrow> mode_s_msg" where
  "target_status_accuracy me mm = mm\<lparr>
     nac_p_valid := True, nac_p := fbits me 40 43,
     nic_baro_valid := True, nic_baro := fbit me 44,
     sil_valid := True, sil := fbits me 45 46, sil_type := 0\<rparr>"

definition decode_target_status :: "mode_s_msg \<Rightarrow> mode_s_msg" where
  "decode_target_status mm =
     (let me = drop 4 (mm_msg mm); mm = mm\<lparr>mesub := fbits me 6 7\<rparr>
      in if mesub mm = 0 \<and> \<not> fbit me 11 then target_status_accuracy me (target_status_v1 me mm)
         else if mesub mm = 1 then target_status_accuracy me (target_status_v2 me mm)
         else mm)"

section \<open>Operational status (TC31)\<close>

definition opstatus_v0 :: "u8 list \<Rightarrow> bool \<Rightarrow> mode_s_msg \<Rightarrow> mode_s_msg" where
  "opstatus_v0 me surface mm =
     (if \<not> surface \<and> fbits me 9 10 = 0 then mm\<lparr>cc_acas := \<not> fbit me 12\<rparr> else mm)"

definition opstatus_v1 :: "u8 list \<Rightarrow> bool \<Rightarrow> mode_s_msg \<Rightarrow> mode_s_msg" where
  "opstatus_v1 me surface mm =
     (let mm = (if fbits me 25 26 = 0 then mm\<lparr>om_acas_ra := fbit me 27, om_ident := fbit me 28\<rparr> else mm);
          mm = (if fbits me 9 10 = 0 \<and> fbits me 13 14 = 0
                then if \<not> surface then mm\<lparr>cc_acas := \<not> fbit me 11\<rparr>
                     else mm\<lparr>nac_v_valid := True, nac_v := fbits me 17 19, nic_c := fbit me 20\<rparr>
                else mm);
          mm = mm\<lparr>nic_a := fbit me 44, nac_p_valid := True, nac_p := fbits me 45 48,
                 sil_valid := True, sil := fbits me 51 52, sil_type := 0\<rparr>
      in if \<not> surface then mm\<lparr>nic_baro_valid := True, nic_baro := fbit me 53\<rparr> else mm)"

definition opstatus_v2 :: "u8 list \<Rightarrow> bool \<Rightarrow> mode_s_msg \<Rightarrow> mode_s_msg" where
  "opstatus_v2 me surface mm =
     (let mm = (if fbits me 25 26 = 0
                then mm\<lparr>om_acas_ra := fbit me 27, om_ident := fbit me 28, sda_valid := True, sda := fbits me 31 32\<rparr>
                else mm);
          mm = (if fbits me 9 10 = 0
                then if \<not> surface then mm\<lparr>cc_acas := fbit me 11\<rparr>
                     else mm\<lparr>nac_v_valid := True, nac_v := fbits me 17 19, nic_c := fbit me 20\<rparr>
                else mm);
          mm = mm\<lparr>nic_a := fbit me 44, nac_p_valid := True, nac_p := fbits me 45 48,
                 sil_valid := True, sil := fbits me 51 52, sil_type := (if fbit me 55 then 2 else 1)\<rparr>
      in if \<not> surface
         then mm\<lparr>gva_valid := True, gva := fbits me 49 50, nic_baro_valid := True, nic_baro := fbit me 53\<rparr>
         else mm)"

definition decode_operational_status :: "mode_s_msg \<Rightarrow> mode_s_msg" where
  "decode_operational_status mm =
     (let me = drop 4 (mm_msg mm); surface = (mesub mm = 1)
      in if 1 < mesub mm then mm
         else
           let mm = mm\<lparr>opstatus_valid := True, version := fbits me 41 43\<rparr>
           in if version mm = 0 then opstatus_v0 me surface mm
              else if version mm = 1 then opstatus_v1 me surface mm
              else if version mm = 2 then opstatus_v2 me surface mm
              else mm\<lparr>opstatus_valid := False\<rparr>)"

end
