(* ===== verification/Decode.thy ===== *)
theory Decode
  imports CommB
begin

text \<open>
  \<open>mode_s_decode\<close> of \<open>main/mode-s.c\<close>, in the order of its body: the frame copy and the DF patch,
  the parity check with its repairs, the common fields, the address handling (which reads and
  seeds the ICAO cache), the altitude and ACAS/Comm-B part and the extended squitter. The result is
  the new decoder state and the message.
\<close>

section \<open>Parity check and repair\<close>

definition DF_near_17 :: "nat \<Rightarrow> bool" where
  "DF_near_17 ty \<longleftrightarrow> ty = 1 \<or> ty = 16 \<or> ty = 19 \<or> ty = 21 \<or> ty = 25"

text \<open>\<open>__builtin_ctz\<close>: the number of trailing zero bits of a non-zero word.\<close>

definition ctz :: "u8 \<Rightarrow> nat" where
  "ctz w = length (takeWhile (\<lambda>k. \<not> bit w k) [0..<8])"

text \<open>The DF patch: a frame whose DF is one bit from 17 is one when its parity then passes.\<close>

definition patch_df :: "mode_s_t \<Rightarrow> u8 list \<Rightarrow> nat \<times> int \<times> u8 list" where
  "patch_df self msg =
     (let ty = unat (drop_bit 3 (msg ! 0))
      in if fix_errors self \<and> DF_near_17 ty
         then let orig = msg ! 0;
                  patched = msg[0 := (orig AND 7) OR push_bit 3 17]
              in if mode_s_checksum patched MODE_S_LONG_MSG_BITS =
                    (push_bit 16 (ucast (patched ! 11)) OR push_bit 8 (ucast (patched ! 12)) OR ucast (patched ! 13))
                 then (17, int (ctz ((orig XOR patched ! 0) AND 0xf8) XOR 7), patched)
                 else (ty, -1, msg)
         else (ty, -1, msg))"

definition mm_zero :: mode_s_msg where
  "mm_zero = \<lparr>
     mm_msg = replicate 14 0, msgbits = 0, msgtype = 0, crcok = False, crc = 0, errorbit = 0,
     aa1 = 0, aa2 = 0, aa3 = 0, phase_corrected = False,
     ca = 0, metype = 0, mesub = 0, heading_is_valid = False, heading = 0, aircraft_type = 0,
     fflag = False, tflag = False, raw_latitude = 0, raw_longitude = 0, flight = [],
     ew_dir = False, ew_velocity = 0, ns_dir = False, ns_velocity = 0,
     vert_rate_source = False, vert_rate_sign = False, vert_rate = 0, velocity = 0,
     gs_valid = False, cpr_valid = False, cpr_surface = False, alt_geom = False,
     emergency_valid = False, emergency = 0, category = 0, acas_ra_valid = False, iid = 0, commb_bds = 0,
     nav_have = 0, nav_alt_mcp = 0, nav_alt_fms = 0, nav_qnh = 0, nav_heading = 0, nav_modes = 0,
     ias_valid = False, ias = 0, tas_valid = False, tas = 0, mach_valid = False, mach = 0,
     roll_valid = False, roll = 0, track_rate_valid = False, track_rate = 0,
     mag_heading_valid = False, mag_heading = 0, baro_rate_valid = False, baro_rate = 0,
     geom_rate_valid = False, geom_rate = 0, geom_delta_valid = False, geom_delta = 0,
     nic_b_valid = False, nic_b = False, nac_v_valid = False, nac_v = 0, nac_p_valid = False, nac_p = 0,
     sil_valid = False, sil = 0, sil_type = 0, nic_baro_valid = False, nic_baro = False,
     gva_valid = False, gva = 0, sda_valid = False, sda = 0, opstatus_valid = False, version = 0,
     nic_a = False, nic_c = False, om_ident = False, om_acas_ra = False, cc_acas = False,
     airground = 0, alert_valid = False, alert = False, spi_valid = False, spi = False,
     fs = 0, dr = 0, um = 0, identity = 0, squawk_valid = False, altitude = 0, unit_of = UNIT_FEET,
     timestamp_12mhz = 0, signal_level = 0 \<rparr>"

definition addr24 :: "u8 \<Rightarrow> u8 \<Rightarrow> u8 \<Rightarrow> u32" where
  "addr24 b1 b2 b3 = push_bit 16 (ucast b1) OR push_bit 8 (ucast b2) OR ucast b3"

definition decode_header :: "mode_s_t \<Rightarrow> u8 list \<Rightarrow> mode_s_msg" where
  "decode_header self msg =
     (case patch_df self (take MODE_S_LONG_MSG_BYTES msg) of (ty, eb, m) \<Rightarrow>
        let bits = mode_s_msg_len_by_type ty
        in mm_zero\<lparr>mm_msg := m, msgtype := ty, errorbit := eb, msgbits := bits,
             crc := crc_field m bits, crcok := crc_passes m bits\<rparr>)"

text \<open>A DF11 whose residual is an interrogator code, or the bit-error correctors.\<close>

definition decode_repair :: "int \<Rightarrow> mode_s_t \<Rightarrow> mode_s_msg \<Rightarrow> mode_s_msg" where
  "decode_repair now self mm =
     (let msg = mm_msg mm; crc2 = mode_s_checksum msg (msgbits mm)
      in if \<not> crcok mm \<and> msgtype mm = 11 \<and> (crc mm XOR crc2) AND 0xffff80 = 0
         then if icao_addr_was_recently_seen now (addr24 (msg ! 1) (msg ! 2) (msg ! 3)) self
              then mm\<lparr>iid := unat ((crc mm XOR crc2) AND 0x7f), crcok := True\<rparr>
              else mm
         else if \<not> crcok mm \<and> fix_errors self \<and> (msgtype mm = 11 \<or> msgtype mm = 17 \<or> msgtype mm = 18)
         then case fix_single_bit_errors msg (msgbits mm) of (m, e) \<Rightarrow>
           if e \<noteq> -1
           then mm\<lparr>mm_msg := m, errorbit := e, crc := mode_s_checksum m (msgbits mm), crcok := True\<rparr>
           else if aggressive self \<and> msgtype mm = 17
           then case fix_two_bits_errors m (msgbits mm) of (m, e) \<Rightarrow>
             if e \<noteq> -1
             then mm\<lparr>mm_msg := m, errorbit := e, crc := mode_s_checksum m (msgbits mm), crcok := True\<rparr>
             else mm\<lparr>mm_msg := m, errorbit := -1\<rparr>
           else mm\<lparr>mm_msg := m, errorbit := -1\<rparr>
         else mm)"

section \<open>Fields common to all formats\<close>

definition decode_common :: "mode_s_msg \<Rightarrow> mode_s_msg" where
  "decode_common mm =
     (let msg = mm_msg mm
      in mm\<lparr>ca := byte msg 0 mod 8, aa1 := msg ! 1, aa2 := msg ! 2, aa3 := msg ! 3,
           metype := byte msg 4 div 8, mesub := byte msg 4 mod 8,
           fs := byte msg 0 mod 8, dr := byte msg 1 div 8, um := byte msg 1 mod 8 * 8 + byte msg 2 div 32,
           identity := decode_id13_field (push_bit 8 (ucast (msg ! 2 AND 0x1f)) OR ucast (msg ! 3)),
           squawk_valid := (msgtype mm = 5 \<or> msgtype mm = 21)\<rparr>)"

definition decode_airground :: "mode_s_msg \<Rightarrow> mode_s_msg" where
  "decode_airground mm =
     (let ty = msgtype mm
      in if ty = 4 \<or> ty = 5 \<or> ty = 20 \<or> ty = 21
         then if fs mm \<le> 5
              then let mm = mm\<lparr>alert_valid := True, spi_valid := True,
                             alert := (2 \<le> fs mm \<and> fs mm \<le> 4), spi := (4 \<le> fs mm)\<rparr>
                   in if fs mm = 1 \<or> fs mm = 3 then mm\<lparr>airground := 1\<rparr> else mm
              else mm
         else if ty = 0 \<or> ty = 16
         then if bit (mm_msg mm ! 0) 2 then mm\<lparr>airground := 1\<rparr> else mm
         else if ty = 11 \<or> ty = 17
         then if ca mm = 4 then mm\<lparr>airground := 1\<rparr>
              else if ca mm = 5 then mm\<lparr>airground := 2\<rparr> else mm
         else mm)"

text \<open>The address check; the one step of the decoder that changes its state.\<close>

definition decode_address :: "int \<Rightarrow> mode_s_t \<Rightarrow> mode_s_msg \<Rightarrow> mode_s_t \<times> mode_s_msg" where
  "decode_address now self mm =
     (if msgtype mm \<noteq> 11 \<and> msgtype mm \<noteq> 17 \<and> msgtype mm \<noteq> 18
      then case brute_force_ap now self (mm_msg mm) (msgtype mm) (msgbits mm) of
             Some (b1, b2, b3) \<Rightarrow> (self, mm\<lparr>aa1 := b1, aa2 := b2, aa3 := b3, crcok := True\<rparr>)
           | None \<Rightarrow> (self, mm\<lparr>crcok := False\<rparr>)
      else if crcok mm \<and> errorbit mm = -1 \<and> msgtype mm \<noteq> 18 \<and> iid mm = 0
      then (add_recently_seen_icao_addr now (addr24 (aa1 mm) (aa2 mm) (aa3 mm)) self, mm)
      else (self, mm))"

definition set_altitude :: "int \<times> altitude_unit option \<Rightarrow> mode_s_msg \<Rightarrow> mode_s_msg" where
  "set_altitude r mm =
     (case r of (a, None) \<Rightarrow> mm\<lparr>altitude := a\<rparr> | (a, Some u) \<Rightarrow> mm\<lparr>altitude := a, unit_of := u\<rparr>)"

definition decode_surveillance :: "libm \<Rightarrow> int \<Rightarrow> mode_s_t \<Rightarrow> mode_s_msg \<Rightarrow> mode_s_msg" where
  "decode_surveillance lm now self mm =
     (let ty = msgtype mm;
          mm = (if ty = 0 \<or> ty = 4 \<or> ty = 16 \<or> ty = 20
                then set_altitude (decode_ac13_field (mm_msg mm)) mm else mm)
      in if crcok mm \<and> ty = 16
         then mm\<lparr>acas_ra_valid := acas_ra_plausible now self (drop 4 (mm_msg mm)) 16 False\<rparr>
         else if crcok mm \<and> (ty = 20 \<or> ty = 21) \<and> dr mm = 0 \<and> um mm = 0 \<and> errorbit mm = -1
         then decode_commb lm now self mm
         else mm)"

section \<open>Extended squitter\<close>

definition es_identification :: "mode_s_msg \<Rightarrow> mode_s_msg" where
  "es_identification mm =
     mm\<lparr>aircraft_type := metype mm - 1,
       category := or (push_bit 4 (0x0e - metype mm)) (mesub mm),
       flight := fst (decode_callsign (drop 5 (mm_msg mm)))\<rparr>"

text \<open>The 17-bit CPR fields, at the same place in airborne and surface positions.\<close>

definition cpr_latitude :: "u8 list \<Rightarrow> nat" where
  "cpr_latitude msg = byte msg 6 mod 4 * 2 ^ 15 + byte msg 7 * 2 ^ 7 + byte msg 8 div 2"

definition cpr_longitude :: "u8 list \<Rightarrow> nat" where
  "cpr_longitude msg = byte msg 8 mod 2 * 2 ^ 16 + byte msg 9 * 2 ^ 8 + byte msg 10"

definition es_airborne_position :: "mode_s_msg \<Rightarrow> mode_s_msg" where
  "es_airborne_position mm =
     (let msg = mm_msg mm;
          mm = set_altitude (decode_ac12_field msg) mm;
          mm = mm\<lparr>alt_geom := 20 \<le> metype mm, airground := 2\<rparr>;
          ss = byte msg 4 div 2 mod 4;
          mm = mm\<lparr>alert_valid := True, alert := (ss = 1 \<or> ss = 2)\<rparr>;
          mm = (if ss = 0 \<or> ss = 3 then mm\<lparr>spi_valid := True, spi := (ss = 3)\<rparr> else mm);
          mm = mm\<lparr>nic_b_valid := True, nic_b := bit (msg ! 4) 0\<rparr>
      in if metype mm \<noteq> 0
         then let ac12 = byte msg 5 * 16 + byte msg 6 div 16;
                  rlat = cpr_latitude msg; rlon = cpr_longitude msg
              in mm\<lparr>fflag := bit (msg ! 6) 2, tflag := bit (msg ! 6) 3, raw_latitude := rlat, raw_longitude := rlon,
                   cpr_valid := \<not> (metype mm = 15 \<and> ac12 = 0 \<and> rlon = 0 \<and> rlat mod 2 ^ 12 = 0)\<rparr>
         else mm)"

definition es_surface_position :: "mode_s_msg \<Rightarrow> mode_s_msg" where
  "es_surface_position mm =
     (let msg = mm_msg mm;
          movement = byte msg 4 mod 8 * 16 + byte msg 5 div 16;
          mm = (if 1 \<le> movement \<and> movement \<le> 124
                then mm\<lparr>velocity := trunc (dbl (decode_movement movement + 1 / 2)), gs_valid := True\<rparr> else mm);
          mm = (if bit (msg ! 5) 3
                then mm\<lparr>heading_is_valid := True,
                       heading := trunc (dbl (dbl (dbl (of_nat (byte msg 5 mod 8 * 16 + byte msg 6 div 16) * 360) / 128) + 1 / 2)) mod 360\<rparr>
                else mm)
      in mm\<lparr>fflag := bit (msg ! 6) 2, tflag := bit (msg ! 6) 3,
           raw_latitude := cpr_latitude msg, raw_longitude := cpr_longitude msg,
           cpr_valid := True, cpr_surface := True, airground := 1\<rparr>)"

text \<open>
  \<open>(int)(sqrt(s) + 0.5)\<close> of an integer \<open>s\<close>: the integer nearest to the square root. The nearest
  half-integer is at least \<open>0.75 / (2 * n)\<close> away from the root of an integer, far more than the
  rounding of \<open>sqrt\<close> and of the addition for the values met here, so the integer form is exact.
\<close>

definition round_sqrt :: "nat \<Rightarrow> nat" where
  "round_sqrt s = (isqrt (4 * s) + 1) div 2"

text \<open>\<open>heading * 360 / (M_PI * 2)\<close> of \<open>atan2(ewv, nsv)\<close>, truncated, on a 0-360 scale.\<close>

definition track_degrees :: "libm \<Rightarrow> int \<Rightarrow> int \<Rightarrow> int" where
  "track_degrees lm ewv nsv =
     (let h = trunc (dbl (dbl (atan2_fn lm (of_int ewv) (of_int nsv) * 360) / dbl (M_PI * 2)))
      in if h < 0 then h + 360 else h)"

definition es_ground_speed :: "libm \<Rightarrow> mode_s_msg \<Rightarrow> mode_s_msg" where
  "es_ground_speed lm mm =
     (let msg = mm_msg mm;
          ew_raw = byte msg 5 mod 4 * 256 + byte msg 6;
          ns_raw = byte msg 7 mod 128 * 8 + byte msg 8 div 32;
          mm = mm\<lparr>ew_dir := bit (msg ! 5) 2, ns_dir := bit (msg ! 7) 7\<rparr>;
          mm = (if ew_raw \<noteq> 0 \<and> ns_raw \<noteq> 0
                then let scale = (if mesub mm = 2 then 4 else 1);
                         ew = (ew_raw - 1) * scale; ns = (ns_raw - 1) * scale
                     in mm\<lparr>ew_velocity := int ew, ns_velocity := int ns,
                          velocity := int (round_sqrt (ns * ns + ew * ew)), gs_valid := True\<rparr>
                else mm)
      in if velocity mm \<noteq> 0
         then let ewv = (if ew_dir mm then - ew_velocity mm else ew_velocity mm);
                  nsv = (if ns_dir mm then - ns_velocity mm else ns_velocity mm)
              in mm\<lparr>heading := track_degrees lm ewv nsv, heading_is_valid := True\<rparr>
         else mm)"

definition es_airspeed :: "mode_s_msg \<Rightarrow> mode_s_msg" where
  "es_airspeed mm =
     (let msg = mm_msg mm;
          mm = mm\<lparr>heading_is_valid := bit (msg ! 5) 2,
                 heading := trunc (dbl (dbl (dbl (of_nat (byte msg 5 mod 4 * 256 + byte msg 6) * 360) / 1024) + 1 / 2)) mod 360\<rparr>;
          as_raw = byte msg 7 mod 128 * 8 + byte msg 8 div 32
      in if as_raw \<noteq> 0
         then let kt = (int as_raw - 1) * (if mesub mm = 4 then 4 else 1)
              in if bit (msg ! 7) 7 then mm\<lparr>tas_valid := True, tas := kt\<rparr> else mm\<lparr>ias_valid := True, ias := kt\<rparr>
         else mm)"

definition es_vertical :: "mode_s_msg \<Rightarrow> mode_s_msg" where
  "es_vertical mm =
     (let msg = mm_msg mm;
          mm = mm\<lparr>nac_v_valid := True, nac_v := byte msg 5 div 8 mod 8,
                 vert_rate_source := bit (msg ! 8) 4, vert_rate_sign := bit (msg ! 8) 3,
                 vert_rate := int (byte msg 8 mod 8 * 64 + byte msg 9 div 4)\<rparr>;
          mm = (if vert_rate mm \<noteq> 0
                then let fpm = (vert_rate mm - 1) * (if vert_rate_sign mm then -64 else 64)
                     in if vert_rate_source mm then mm\<lparr>baro_rate_valid := True, baro_rate := fpm\<rparr>
                        else mm\<lparr>geom_rate_valid := True, geom_rate := fpm\<rparr>
                else mm);
          delta = byte msg 10 mod 128
      in if delta \<noteq> 0
         then mm\<lparr>geom_delta_valid := True, geom_delta := (int delta - 1) * (if bit (msg ! 10) 7 then -25 else 25)\<rparr>
         else mm)"

definition es_velocity :: "libm \<Rightarrow> mode_s_msg \<Rightarrow> mode_s_msg" where
  "es_velocity lm mm =
     es_vertical (if mesub mm = 1 \<or> mesub mm = 2 then es_ground_speed lm mm
                  else if mesub mm = 3 \<or> mesub mm = 4 then es_airspeed mm else mm)"

definition es_emergency :: "mode_s_msg \<Rightarrow> mode_s_msg" where
  "es_emergency mm =
     (let msg = mm_msg mm
      in mm\<lparr>emergency_valid := True, emergency := byte msg 5 div 32,
           identity := decode_id13_field (push_bit 8 (ucast (msg ! 5 AND 0x1f)) OR ucast (msg ! 6)),
           squawk_valid := True\<rparr>)"

definition es_test_squawk :: "mode_s_msg \<Rightarrow> mode_s_msg" where
  "es_test_squawk mm =
     (let msg = mm_msg mm; id13 = push_bit 5 (ucast (msg ! 5)) OR (drop_bit 3 (ucast (msg ! 6)) :: u32)
      in if id13 \<noteq> 0 then mm\<lparr>identity := decode_id13_field id13, squawk_valid := True\<rparr> else mm)"

definition decode_es :: "libm \<Rightarrow> int \<Rightarrow> mode_s_t \<Rightarrow> mode_s_msg \<Rightarrow> mode_s_msg" where
  "decode_es lm now self mm =
     (let mt = metype mm
      in if 1 \<le> mt \<and> mt \<le> 4 then es_identification mm
         else if mt = 0 \<or> 9 \<le> mt \<and> mt \<le> 18 \<or> 20 \<le> mt \<and> mt \<le> 22 then es_airborne_position mm
         else if 5 \<le> mt \<and> mt \<le> 8 then es_surface_position mm
         else if mt = 19 \<and> 1 \<le> mesub mm \<and> mesub mm \<le> 4 then es_velocity lm mm
         else if mt = 28 \<and> mesub mm = 1 then es_emergency mm
         else if mt = 28 \<and> mesub mm = 2
         then mm\<lparr>acas_ra_valid := acas_ra_plausible now self (drop 4 (mm_msg mm)) 17 True\<rparr>
         else if mt = 23 \<and> mesub mm = 7 then es_test_squawk mm
         else if mt = 29 then decode_target_status mm
         else if mt = 31 then decode_operational_status mm
         else mm)"

section \<open>The decoder\<close>

definition mode_s_decode :: "libm \<Rightarrow> int \<Rightarrow> mode_s_t \<Rightarrow> u8 list \<Rightarrow> mode_s_t \<times> mode_s_msg" where
  "mode_s_decode lm now self msg =
     (let mm = decode_repair now self (decode_header self msg);
          mm = decode_airground (decode_common mm)
      in case decode_address now self mm of (self, mm) \<Rightarrow>
           let mm = decode_surveillance lm now self mm;
               mm = (if msgtype mm = 17 then decode_es lm now self mm else mm)
           in (self, mm\<lparr>phase_corrected := False\<rparr>))"

end
