(* ===== verification/DecodeProps.thy ===== *)
theory DecodeProps
  imports Decode
begin

text \<open>
  Which part of the message each stage of \<open>mode_s_decode\<close> may change: everything after the address
  check leaves the frame, its parity verdict and its address alone. The last lemma expresses those
  fields of the result by the repair and address stages.
\<close>

section \<open>The stages leave the header alone\<close>

abbreviation header :: "mode_s_msg \<Rightarrow> msg_generic" where
  "header mm \<equiv> msg_generic.truncate mm"

lemma header_fields:
  "mm_msg (header mm) = mm_msg mm" "msgbits (header mm) = msgbits mm" "msgtype (header mm) = msgtype mm"
  "crcok (header mm) = crcok mm" "crc (header mm) = crc mm" "errorbit (header mm) = errorbit mm"
  "aa1 (header mm) = aa1 mm" "aa2 (header mm) = aa2 mm" "aa3 (header mm) = aa3 mm"
  by (simp_all add: msg_generic.defs)

lemma header_eqD:
  assumes "header mm' = header mm"
  shows "mm_msg mm' = mm_msg mm" "msgbits mm' = msgbits mm" "msgtype mm' = msgtype mm"
    "crcok mm' = crcok mm" "crc mm' = crc mm" "errorbit mm' = errorbit mm"
    "aa1 mm' = aa1 mm" "aa2 mm' = aa2 mm" "aa3 mm' = aa3 mm"
  using assms header_fields by metis+

lemma header_airground [simp]: "header (decode_airground mm) = header mm"
  by (simp add: decode_airground_def Let_def msg_generic.defs)

lemma header_set_altitude [simp]: "header (set_altitude r mm) = header mm"
  by (cases r; cases "snd r") (auto simp: set_altitude_def msg_generic.defs)

text \<open>Chains of conditional updates are followed one binding at a time.\<close>

lemma header_let: "header v = h \<Longrightarrow> (\<And>x. header x = h \<Longrightarrow> header (f x) = h) \<Longrightarrow> header (Let v f) = h"
  for v :: mode_s_msg by (simp add: Let_def)

lemma header_let_value: "(\<And>x. header (f x) = h) \<Longrightarrow> header (Let v f) = h"
  by (simp add: Let_def)

lemma header_if: "header a = h \<Longrightarrow> header b = h \<Longrightarrow> header (if c then a else b) = h"
  by simp

lemma header_snd_let_value: "(\<And>x. header (snd (f x)) = h) \<Longrightarrow> header (snd (Let v f)) = h"
  by (simp add: Let_def)

lemma header_snd_let: "header v = h \<Longrightarrow> (\<And>x. header x = h \<Longrightarrow> header (snd (f x)) = h) \<Longrightarrow> header (snd (Let v f)) = h"
  for v :: mode_s_msg by (simp add: Let_def)

lemma header_snd_if: "header (snd a) = h \<Longrightarrow> header (snd b) = h \<Longrightarrow> header (snd (if c then a else b)) = h"
  by simp

lemma header_snd_pair: "header b = h \<Longrightarrow> header (snd (a, b)) = h"
  by simp

lemmas header_intros = header_let header_let_value header_if header_snd_let header_snd_let_value
  header_snd_if header_snd_pair

lemma header_bds20 [simp]: "header (snd (bds20 b mm st)) = header mm"
  by (simp add: bds20_def msg_generic.defs split: prod.split)

lemma header_bds30 [simp]: "header (snd (bds30 now self b mm st)) = header mm"
  by (simp add: bds30_def msg_generic.defs)

lemma header_bds40 [simp]: "header (snd (bds40 b mm st)) = header mm"
  unfolding bds40_def bds40_store_def
  by (intro header_intros; (simp; fail | simp add: msg_generic.defs))

lemma header_bds50 [simp]: "header (snd (bds50 lm b mm st)) = header mm"
  unfolding bds50_def
  by (intro header_intros; (simp; fail | simp add: msg_generic.defs))

lemma header_bds60 [simp]: "header (snd (bds60 b mm st)) = header mm"
  unfolding bds60_def
  by (intro header_intros; (simp; fail | simp add: msg_generic.defs))

lemma header_commb [simp]: "header (decode_commb lm now self mm) = header mm"
  by (simp add: decode_commb_def Let_def split: option.split) (simp add: msg_generic.defs)

lemma header_surveillance [simp]: "header (decode_surveillance lm now self mm) = header mm"
  unfolding decode_surveillance_def
  by (intro header_intros; (simp; fail | simp add: msg_generic.defs))

lemma header_accuracy [simp]: "header (target_status_accuracy me mm) = header mm"
  by (simp add: target_status_accuracy_def msg_generic.defs)

lemma header_target_v1 [simp]: "header (target_status_v1 me mm) = header mm"
  unfolding target_status_v1_def
  by (intro header_intros; (simp; fail | simp add: msg_generic.defs))

lemma header_target_v2 [simp]: "header (target_status_v2 me mm) = header mm"
  unfolding target_status_v2_def
  by (intro header_intros; (simp; fail | simp add: msg_generic.defs))

lemma header_target_status [simp]: "header (decode_target_status mm) = header mm"
  unfolding decode_target_status_def
  by (intro header_intros; (simp; fail | simp add: msg_generic.defs))

lemma header_opstatus [simp]: "header (opstatus_v0 me sf mm) = header mm"
    "header (opstatus_v1 me sf mm) = header mm" "header (opstatus_v2 me sf mm) = header mm"
  unfolding opstatus_v0_def opstatus_v1_def opstatus_v2_def
  by (intro header_intros; (simp; fail | simp add: msg_generic.defs))+

lemma header_operational_status [simp]: "header (decode_operational_status mm) = header mm"
  unfolding decode_operational_status_def
  by (intro header_intros; (simp; fail | simp add: msg_generic.defs))

lemma header_es_position [simp]: "header (es_airborne_position mm) = header mm"
    "header (es_surface_position mm) = header mm"
  unfolding es_airborne_position_def es_surface_position_def
  by (intro header_intros; (simp; fail | simp add: msg_generic.defs))+

lemma header_es_velocity [simp]: "header (es_ground_speed lm mm) = header mm"
    "header (es_airspeed mm) = header mm" "header (es_vertical mm) = header mm"
    "header (es_velocity lm mm) = header mm"
proof -
  show gs: "header (es_ground_speed lm mm) = header mm"
    unfolding es_ground_speed_def by (intro header_intros; (simp; fail | simp add: msg_generic.defs))
  show as: "header (es_airspeed mm) = header mm"
    unfolding es_airspeed_def by (intro header_intros; (simp; fail | simp add: msg_generic.defs))
  have vert: "header (es_vertical mm) = header mm" for mm
    unfolding es_vertical_def by (intro header_intros; (simp; fail | simp add: msg_generic.defs))
  show "header (es_vertical mm) = header mm" by (rule vert)
  show "header (es_velocity lm mm) = header mm"
    by (simp add: es_velocity_def gs as vert)
qed

lemma header_es [simp]: "header (decode_es lm now self mm) = header mm"
  unfolding decode_es_def es_identification_def es_emergency_def es_test_squawk_def
  by (intro header_intros; (simp; fail | simp add: msg_generic.defs))

section \<open>The result in terms of the stages\<close>

lemma common_fields [simp]:
  "mm_msg (decode_common mm) = mm_msg mm" "msgbits (decode_common mm) = msgbits mm"
  "msgtype (decode_common mm) = msgtype mm" "crcok (decode_common mm) = crcok mm"
  "crc (decode_common mm) = crc mm" "errorbit (decode_common mm) = errorbit mm" "iid (decode_common mm) = iid mm"
  "aa1 (decode_common mm) = mm_msg mm ! 1" "aa2 (decode_common mm) = mm_msg mm ! 2" "aa3 (decode_common mm) = mm_msg mm ! 3"
  by (simp_all add: decode_common_def Let_def)

lemma airground_iid [simp]: "iid (decode_airground mm) = iid mm"
  by (simp add: decode_airground_def Let_def)

lemma airground_fields [simp]:
  "mm_msg (decode_airground mm) = mm_msg mm" "msgbits (decode_airground mm) = msgbits mm"
  "msgtype (decode_airground mm) = msgtype mm" "crcok (decode_airground mm) = crcok mm"
  "crc (decode_airground mm) = crc mm" "errorbit (decode_airground mm) = errorbit mm"
  "aa1 (decode_airground mm) = aa1 mm" "aa2 (decode_airground mm) = aa2 mm" "aa3 (decode_airground mm) = aa3 mm"
  using header_eqD[OF header_airground[of mm]] by simp_all

lemma address_fields [simp]:
  "mm_msg (snd (decode_address now self mm)) = mm_msg mm" "msgbits (snd (decode_address now self mm)) = msgbits mm"
  "msgtype (snd (decode_address now self mm)) = msgtype mm" "crc (snd (decode_address now self mm)) = crc mm"
  "errorbit (snd (decode_address now self mm)) = errorbit mm"
  by (simp_all add: decode_address_def split: option.split prod.split)

definition repaired :: "int \<Rightarrow> mode_s_t \<Rightarrow> u8 list \<Rightarrow> mode_s_msg" where
  "repaired now self msg = decode_repair now self (decode_header self msg)"

definition addressed :: "int \<Rightarrow> mode_s_t \<Rightarrow> u8 list \<Rightarrow> mode_s_t \<times> mode_s_msg" where
  "addressed now self msg = decode_address now self (decode_airground (decode_common (repaired now self msg)))"

lemma decode_stages:
  "fst (mode_s_decode lm now self msg) = fst (addressed now self msg)"
  "mm_msg (snd (mode_s_decode lm now self msg)) = mm_msg (repaired now self msg)"
  "msgbits (snd (mode_s_decode lm now self msg)) = msgbits (repaired now self msg)"
  "msgtype (snd (mode_s_decode lm now self msg)) = msgtype (repaired now self msg)"
  "errorbit (snd (mode_s_decode lm now self msg)) = errorbit (repaired now self msg)"
  "crcok (snd (mode_s_decode lm now self msg)) = crcok (snd (addressed now self msg))"
  "aa1 (snd (mode_s_decode lm now self msg)) = aa1 (snd (addressed now self msg))"
  "aa2 (snd (mode_s_decode lm now self msg)) = aa2 (snd (addressed now self msg))"
  "aa3 (snd (mode_s_decode lm now self msg)) = aa3 (snd (addressed now self msg))"
proof -
  obtain s' mm where a: "addressed now self msg = (s', mm)" by fastforce
  have mm: "mm = snd (decode_address now self (decode_airground (decode_common (repaired now self msg))))"
    using a by (simp add: addressed_def)
  define mm2 where "mm2 = (let mm = decode_surveillance lm now s' mm in if msgtype mm = 17 then decode_es lm now s' mm else mm)"
  have "header mm2 = header mm" by (simp add: mm2_def Let_def)
  note h = header_eqD[OF this]
  have "mode_s_decode lm now self msg = (s', mm2\<lparr>phase_corrected := False\<rparr>)"
    using a unfolding mode_s_decode_def addressed_def repaired_def mm2_def Let_def by simp
  then show "fst (mode_s_decode lm now self msg) = fst (addressed now self msg)"
    "mm_msg (snd (mode_s_decode lm now self msg)) = mm_msg (repaired now self msg)"
    "msgbits (snd (mode_s_decode lm now self msg)) = msgbits (repaired now self msg)"
    "msgtype (snd (mode_s_decode lm now self msg)) = msgtype (repaired now self msg)"
    "errorbit (snd (mode_s_decode lm now self msg)) = errorbit (repaired now self msg)"
    "crcok (snd (mode_s_decode lm now self msg)) = crcok (snd (addressed now self msg))"
    "aa1 (snd (mode_s_decode lm now self msg)) = aa1 (snd (addressed now self msg))"
    "aa2 (snd (mode_s_decode lm now self msg)) = aa2 (snd (addressed now self msg))"
    "aa3 (snd (mode_s_decode lm now self msg)) = aa3 (snd (addressed now self msg))"
    using h by (simp_all add: a mm)
qed

end
