(* ===== verification/DecodeRepair.thy ===== *)
theory DecodeRepair
  imports DecodeProps
begin

text \<open>
  What \<open>mode_s_decode\<close> guarantees: the repair of damaged extended squitters, the frames that may
  seed the address cache, and the origin of every address an address/parity reply is accepted for.
\<close>

section \<open>Repair of damaged extended squitters\<close>

definition df_of :: "u8 list \<Rightarrow> nat" where
  "df_of m = unat (drop_bit 3 (m ! 0))"

lemma df_eq: "unat (drop_bit 3 (w :: u8)) = 17 \<longleftrightarrow> drop_bit 3 w = 17"
  using word_unat_eq_iff[of "drop_bit 3 w" 17] by simp

lemma patched_byte: "drop_bit 3 (w :: u8) = 17 \<Longrightarrow> (w AND 7) OR push_bit 3 17 = w"
proof -
  assume "drop_bit 3 w = 17"
  moreover have "(7 :: u8) = mask 3" by (simp add: mask_eq_exp_minus_1)
  ultimately have "(w AND 7) OR push_bit 3 17 = take_bit 3 w OR push_bit 3 (drop_bit 3 w)"
    by (simp only: take_bit_eq_mask)
  also have "\<dots> = w"
  proof (rule bit_word_eqI)
    fix n assume "n < LENGTH(8)"
    then show "bit (take_bit 3 w OR push_bit 3 (drop_bit 3 w)) n = bit w n"
      by (cases "n < 3") (simp_all add: bit_or_iff bit_take_bit_iff bit_push_bit_iff bit_drop_bit_eq)
  qed
  finally show ?thesis .
qed

lemma df_flip:
  assumes "j < 5"
  shows "drop_bit 3 (w XOR bitmask j) = drop_bit 3 (w :: u8) XOR push_bit (4 - j) 1"
    "(w XOR bitmask j) AND 7 = w AND 7" "int (ctz (bitmask j AND 0xf8) XOR 7) = int j"
    "17 XOR push_bit (4 - j) 1 \<in> {1 :: u8, 16, 19, 21, 25}"
proof -
  have "\<forall>j\<in>set [0..<5]. drop_bit 3 (bitmask j) = push_bit (4 - j) 1 \<and> bitmask j AND 7 = 0 \<and>
      int (ctz (bitmask j AND 0xf8) XOR 7) = int j \<and> 17 XOR push_bit (4 - j) 1 \<in> {1 :: u8, 16, 19, 21, 25}"
    by code_simp
  then have j: "drop_bit 3 (bitmask j) = push_bit (4 - j) 1" "bitmask j AND 7 = 0"
      "int (ctz (bitmask j AND 0xf8) XOR 7) = int j" "17 XOR push_bit (4 - j) 1 \<in> {1 :: u8, 16, 19, 21, 25}"
    using assms by simp_all
  show "int (ctz (bitmask j AND 0xf8) XOR 7) = int j" "17 XOR push_bit (4 - j) 1 \<in> {1 :: u8, 16, 19, 21, 25}"
    by (rule j)+
  show "drop_bit 3 (w XOR bitmask j) = drop_bit 3 w XOR push_bit (4 - j) 1"
    unfolding j(1) [symmetric] by (rule drop_bit_xor)
  have "(w XOR bitmask j) AND 7 = (w AND 7) XOR (bitmask j AND 7)"
    by (rule bit_word_eqI) (auto simp: bit_simps)
  with j(2) show "(w XOR bitmask j) AND 7 = w AND 7" by simp
qed

lemma long_frame: "frame_bits 112"
  by (simp add: frame_bits_def MODE_S_LONG_MSG_BITS_def)

lemma len_17 [simp]: "mode_s_msg_len_by_type 17 = 112"
proof -
  have "bit (17 :: nat) 4" by code_simp
  then show ?thesis by (simp add: mode_s_msg_len_by_type_def MODE_S_LONG_MSG_BITS_def)
qed

lemma header_17:
  assumes "patch_df self (take 14 m) = (17, e, m')"
  shows "decode_header self m = mm_zero\<lparr>mm_msg := m', msgtype := 17, errorbit := e, msgbits := 112,
           crc := crc_field m' 112, crcok := crc_passes m' 112\<rparr>"
  using assms by (simp add: decode_header_def MODE_S_LONG_MSG_BYTES_def Let_def)

text \<open>A flip inside the DF field is undone by the DF patch, any other flip by the corrector.\<close>

lemma patch_flip_df:
  assumes "length m = 14" "df_of m = 17" "crc_passes m 112" "fix_errors self" "j < 5"
  shows "patch_df self (flip_msg_bit j m) = (17, int j, m)"
proof -
  have m: "m \<noteq> []" "m[0 := m ! 0] = m" using assms(1) by auto
  have w: "drop_bit 3 (m ! 0) = 17" using assms(2) by (simp add: df_of_def df_eq)
  have f: "flip_msg_bit j m = m[0 := m ! 0 XOR bitmask j]" using assms(5) by (simp add: flip_msg_bit_def)
  have b0: "flip_msg_bit j m ! 0 = m ! 0 XOR bitmask j" using m by (simp add: f)
  have "unat (drop_bit 3 (flip_msg_bit j m ! 0)) = unat (17 XOR push_bit (4 - j) (1 :: u8))"
    by (simp only: b0 df_flip(1)[OF assms(5)] w)
  then have near: "DF_near_17 (unat (drop_bit 3 (flip_msg_bit j m ! 0)))"
    using df_flip(4)[OF assms(5)] by (auto simp: DF_near_17_def)
  have patched: "(flip_msg_bit j m)[0 := (flip_msg_bit j m ! 0 AND 7) OR push_bit 3 17] = m"
    unfolding b0 df_flip(2)[OF assms(5)] patched_byte[OF w] by (simp add: f m)
  have pass: "mode_s_checksum m MODE_S_LONG_MSG_BITS =
      (push_bit 16 (ucast (m ! 11)) OR push_bit 8 (ucast (m ! 12)) OR ucast (m ! 13))"
    using assms(3) by (simp add: crc_passes_def crc_field_def MODE_S_LONG_MSG_BITS_def)
  have diff: "(m ! 0 XOR bitmask j) XOR m ! 0 = bitmask j"
    by (simp add: xor.commute xor.left_commute)
  show ?thesis
    unfolding patch_df_def Let_def patched using near assms(4) pass
    by (simp add: b0 diff df_flip(3)[OF assms(5)])
qed

lemma patch_none: "df_of m = 17 \<Longrightarrow> patch_df self m = (17, -1, m)"
  by (simp add: patch_df_def df_of_def DF_near_17_def Let_def)

lemma df_flip_other:
  assumes "5 \<le> j" "m \<noteq> []" shows "df_of (flip_msg_bit j m) = df_of m"
proof (cases "j < 8")
  case True
  then have "drop_bit 3 (bitmask j) = (0 :: u8)"
  proof -
    have "\<forall>j\<in>set [5..<8]. drop_bit 3 (bitmask j) = (0 :: u8)" by code_simp
    moreover have "j \<in> set [5..<8]" using assms(1) True unfolding set_upt by simp
    ultimately show ?thesis by blast
  qed
  then have "drop_bit 3 (m ! 0 XOR bitmask j) = drop_bit 3 (m ! 0)" by (simp add: drop_bit_xor)
  with True assms(2) show ?thesis by (simp add: df_of_def flip_msg_bit_def)
next
  case False
  then show ?thesis by (simp add: df_of_def flip_msg_bit_def)
qed

text \<open>
  C2: when error fixing is on, an extended squitter that arrives with any one of its 112 bits
  wrong, those of the format field included, is decoded as the frame that was sent, with the wrong
  bit's position reported, and does not touch the address cache.
\<close>

theorem damaged_squitter_repaired:
  assumes "length m = 14" "df_of m = 17" "crc_passes m 112" "fix_errors self" "j < 112"
  shows "case mode_s_decode lm now self (flip_msg_bit j m) of (self', mm) \<Rightarrow>
    self' = self \<and> mm_msg mm = m \<and> msgtype mm = 17 \<and> crcok mm \<and> errorbit mm = int j"
proof -
  have rep: "mm_msg (repaired now self (flip_msg_bit j m)) = m \<and> msgtype (repaired now self (flip_msg_bit j m)) = 17 \<and>
      crcok (repaired now self (flip_msg_bit j m)) \<and> errorbit (repaired now self (flip_msg_bit j m)) = int j"
  proof (cases "j < 5")
    case True
    then have "patch_df self (take 14 (flip_msg_bit j m)) = (17, int j, m)"
      using patch_flip_df assms by simp
    from header_17[OF this] show ?thesis
      using assms(3) by (simp add: repaired_def decode_repair_def Let_def)
  next
    case False
    then have "df_of (flip_msg_bit j m) = 17" using df_flip_other[of j m] assms by (cases m) auto
    then have "patch_df self (take 14 (flip_msg_bit j m)) = (17, -1, flip_msg_bit j m)"
      using patch_none assms(1) by simp
    note h = header_17[OF this]
    have "\<not> crc_passes (flip_msg_bit j m) 112"
      using flips_detected[OF long_frame _ assms(3), of "[j]"] assms(1,5) by (simp add: flip_bits_def)
    moreover have "fix_single_bit_errors (flip_msg_bit j m) 112 = (m, int j)"
      by (rule fix_single_flip[OF long_frame]) (use assms in simp_all)
    ultimately show ?thesis
      using assms(4) by (simp add: repaired_def decode_repair_def h Let_def)
  qed
  then show ?thesis
    by (simp add: case_prod_beta decode_stages addressed_def decode_address_def)
qed

lemma damaged_squitter_repaired_witness:
  "case mode_s_decode example_libm 1000 mode_s_init (flip_msg_bit 3 sample_frame) of (self', mm) \<Rightarrow>
    self' = mode_s_init \<and> mm_msg mm = sample_frame \<and> msgtype mm = 17 \<and> crcok mm \<and> errorbit mm = int 3"
proof (rule damaged_squitter_repaired)
  show "length sample_frame = 14" "df_of sample_frame = 17" "crc_passes sample_frame 112" by code_simp+
qed (simp_all add: mode_s_init_def)

section \<open>The address cache\<close>

text \<open>The address a clean DF11 or DF17 announces.\<close>

definition announces :: "u8 list \<Rightarrow> u32 option" where
  "announces msg =
     (if (df_of msg = 11 \<and> crc_passes msg 56 \<or> df_of msg = 17 \<and> crc_passes msg 112)
      then Some (addr24 (msg ! 1) (msg ! 2) (msg ! 3)) else None)"

lemma small_residual:
  assumes "take_bit 24 x = x" "x \<noteq> 0" "x AND 0xffff80 = 0"
  shows "unat (x AND 0x7f) \<noteq> (0 :: nat)"
proof
  assume "unat (x AND 0x7f) = 0"
  then have low: "x AND 0x7f = 0" by (simp add: unat_eq_0)
  have "x = x AND 0xffffff" using assms(1) by (simp add: take_bit_eq_mask mask_eq_exp_minus_1)
  moreover have "x AND 0xffffff = (x AND 0xffff80) OR (x AND 0x7f)"
    by (simp flip: bit.conj_disj_distrib)
  ultimately show False using assms(2,3) low by simp
qed

lemma residual_24: "frame_bits bits \<Longrightarrow> take_bit 24 (residual m bits) = residual m bits"
proof -
  assume f: "frame_bits bits"
  have "take_bit 24 (crc_field m bits) = crc_field m bits"
    by (rule bit_word_eqI) (auto simp: bit_take_bit_iff bit_crc_field[OF f])
  then show ?thesis by (simp add: residual_def take_bit_xor checksum_24[OF f])
qed

text \<open>A repair leaves a mark: the frame is then no longer counted as clean.\<close>

lemma repair_clean:
  fixes now :: int and self :: mode_s_t
  assumes "frame_bits (msgbits h)" "crc h = crc_field (mm_msg h) (msgbits h)"
    and "crcok h = crc_passes (mm_msg h) (msgbits h)" "iid h = 0"
  defines "r \<equiv> decode_repair now self h"
  shows "msgtype r = msgtype h" "msgbits r = msgbits h"
    "crcok r \<and> errorbit r = -1 \<and> iid r = 0 \<longleftrightarrow> crcok h \<and> errorbit h = -1"
    "crcok h \<Longrightarrow> r = h"
proof -
  have iid: "unat ((crc h XOR mode_s_checksum (mm_msg h) (msgbits h)) AND 0x7f) \<noteq> 0"
    if "\<not> crcok h" "(crc h XOR mode_s_checksum (mm_msg h) (msgbits h)) AND 0xffff80 = 0"
    using that small_residual[OF residual_24[OF assms(1), of "mm_msg h"]] assms(2,3)
    by (simp add: crc_passes_residual residual_def)
  show "msgtype r = msgtype h" "msgbits r = msgbits h"
    unfolding r_def decode_repair_def by (simp_all add: Let_def split: prod.split)
  show "crcok h \<Longrightarrow> r = h" unfolding r_def decode_repair_def by (simp add: Let_def)
  show "crcok r \<and> errorbit r = -1 \<and> iid r = 0 \<longleftrightarrow> crcok h \<and> errorbit h = -1"
    unfolding r_def decode_repair_def Let_def
    by (cases "crcok h") (use iid assms(4) in \<open>auto split: prod.split\<close>)
qed

lemma decode_header_fields:
  assumes "patch_df self (take 14 msg) = (ty, e, m)"
  shows "mm_msg (decode_header self msg) = m" "msgtype (decode_header self msg) = ty"
    "errorbit (decode_header self msg) = e" "msgbits (decode_header self msg) = mode_s_msg_len_by_type ty"
    "crc (decode_header self msg) = crc_field m (mode_s_msg_len_by_type ty)"
    "crcok (decode_header self msg) = crc_passes m (mode_s_msg_len_by_type ty)" "iid (decode_header self msg) = 0"
  using assms by (simp_all add: decode_header_def MODE_S_LONG_MSG_BYTES_def Let_def mm_zero_def)

lemma patch_df_cases:
  obtains "patch_df self m = (df_of m, -1, m)" | e m' where "patch_df self m = (17, e, m')" "0 \<le> e" "df_of m \<noteq> 17"
      "DF_near_17 (df_of m)"
proof (cases "fst (snd (patch_df self m)) = -1")
  case True
  then have "patch_df self m = (df_of m, -1, m)"
    by (auto simp: patch_df_def df_of_def Let_def split: if_splits)
  then show thesis by (rule that)
next
  case False
  then have "\<exists>e m'. patch_df self m = (17, e, m') \<and> 0 \<le> e \<and> df_of m \<noteq> 17 \<and> DF_near_17 (df_of m)"
    by (auto simp: patch_df_def df_of_def Let_def DF_near_17_def split: if_splits)
  then show thesis using that by blast
qed

lemma len_11 [simp]: "mode_s_msg_len_by_type 11 = 56"
proof -
  have "\<not> bit (11 :: nat) 4" by code_simp
  then show ?thesis by (simp add: mode_s_msg_len_by_type_def MODE_S_SHORT_MSG_BITS_def)
qed

lemma decode_state:
  assumes "length msg = 14"
  shows "fst (mode_s_decode lm now self msg) =
    (case announces msg of Some a \<Rightarrow> add_recently_seen_icao_addr now a self | None \<Rightarrow> self)"
proof (cases rule: patch_df_cases[of self msg])
  case 1
  let ?h = "decode_header self msg"
  have t: "take 14 msg = msg" using assms by simp
  note h = decode_header_fields[of self msg, unfolded t, OF 1]
  note r = repair_clean[of ?h now self, unfolded h(4), OF mode_s_msg_len_frame, unfolded h, OF refl refl refl]
  have msg: "mm_msg (decode_repair now self ?h) = msg" if "crc_passes msg (mode_s_msg_len_by_type (df_of msg))"
    using r(4)[OF that] h(1) by simp
  show ?thesis
    unfolding decode_stages addressed_def repaired_def decode_address_def
    using r(3) msg by (auto simp: announces_def r(1) split: option.split)
next
  case (2 e m')
  have t: "take 14 msg = msg" using assms by simp
  note h = decode_header_fields[of self msg, unfolded t, OF 2(1)]
  note r = repair_clean[of "decode_header self msg" now self, unfolded h(4), OF mode_s_msg_len_frame, unfolded h, OF refl refl refl]
  have "announces msg = None" using 2 by (auto simp: announces_def DF_near_17_def)
  then show ?thesis
    unfolding decode_stages addressed_def repaired_def decode_address_def
    using r(1,3) 2(2) by auto
qed

text \<open>
  A received frame changes the decoder state in exactly one way: a DF11 or DF17 whose parity is
  right as received, so neither repaired, patched nor accepted through an interrogator code,
  records the address it carries, with the time; every other frame leaves the state unchanged.
\<close>

theorem cache_seeding:
  assumes "length msg = 14"
  shows "fst (mode_s_decode lm now self msg) =
    (case announces msg of Some a \<Rightarrow> add_recently_seen_icao_addr now a self | None \<Rightarrow> self)"
  using assms by (rule decode_state)

lemma cache_seeding_witness:
  "fst (mode_s_decode example_libm 1000 mode_s_init sample_frame) = add_recently_seen_icao_addr 1000 0x4840D6 mode_s_init"
proof -
  have "length sample_frame = 14" "announces sample_frame = Some 0x4840D6" by code_simp+
  with cache_seeding[of sample_frame example_libm 1000 mode_s_init] show ?thesis by simp
qed

definition mode_s_run :: "libm \<Rightarrow> mode_s_t \<Rightarrow> (int \<times> u8 list) list \<Rightarrow> mode_s_t" where
  "mode_s_run lm self frames = fold (\<lambda>(t, msg) s. fst (mode_s_decode lm t s msg)) frames self"

definition announced :: "(int \<times> u8 list) list \<Rightarrow> (int \<times> u32) list" where
  "announced frames = List.map_filter (\<lambda>(t, msg). map_option (Pair t) (announces msg)) frames"

lemma mode_s_run_history:
  assumes "\<forall>(t, msg)\<in>set frames. length msg = 14"
  shows "mode_s_run lm self frames = ic.add_all (announced frames) self"
  using assms
proof (induction frames arbitrary: self)
  case Nil
  then show ?case by (simp add: mode_s_run_def announced_def ic.add_all_def)
next
  case (Cons fr frames)
  obtain t msg where fr: "fr = (t, msg)" by (cases fr)
  have "mode_s_run lm self (fr # frames) = mode_s_run lm (fst (mode_s_decode lm t self msg)) frames"
    by (simp add: mode_s_run_def fr)
  also have "\<dots> = ic.add_all (announced frames) (fst (mode_s_decode lm t self msg))"
    using Cons by simp
  also have "\<dots> = ic.add_all (announced (fr # frames)) self"
    using Cons.prems fr
    by (simp add: decode_state announced_def ic.add_all_def split: option.split)
  finally show ?case .
qed

lemma announced_mem: "(t, a) \<in> set (announced frames) \<Longrightarrow> \<exists>msg. (t, msg) \<in> set frames \<and> announces msg = Some a"
  by (auto simp: announced_def map_filter_def)

lemma accepted_seen:
  assumes "crcok (snd (mode_s_decode lm now self msg))" "msgtype (snd (mode_s_decode lm now self msg)) \<notin> {11, 17, 18}"
  shows "icao_addr_was_recently_seen now (addr24 (aa1 (snd (mode_s_decode lm now self msg)))
    (aa2 (snd (mode_s_decode lm now self msg))) (aa3 (snd (mode_s_decode lm now self msg)))) self"
proof -
  let ?r = "repaired now self msg"
  have ty: "msgtype ?r \<notin> {11, 17, 18}" using assms(2) by (simp add: decode_stages)
  then obtain b1 b2 b3 where bf: "brute_force_ap now self (mm_msg ?r) (msgtype ?r) (msgbits ?r) = Some (b1, b2, b3)"
    using assms(1) by (auto simp: decode_stages addressed_def decode_address_def split: option.splits)
  then have "icao_addr_was_recently_seen now (addr24 b1 b2 b3) self"
    by (auto simp: brute_force_ap_def Let_def addr24_def ac_simps split: if_splits)
  then show ?thesis
    using ty bf by (simp add: decode_stages addressed_def decode_address_def)
qed

text \<open>
  C12: no address is invented: whatever frames were received since start-up, a frame of an
  address/parity format that the decoder accepts carries an address that a clean DF11 or DF17
  announced at most 60 seconds before.
\<close>

theorem accepted_address_announced:
  assumes "\<forall>(t, m)\<in>set frames. length m = 14 \<and> clock_ok t"
    and "mode_s_decode lm now (mode_s_run lm mode_s_init frames) msg = (self', mm)"
    and "crcok mm" "msgtype mm \<notin> {11, 17, 18}"
  shows "\<exists>t m. (t, m) \<in> set frames \<and> announces m = Some (addr24 (aa1 mm) (aa2 mm) (aa3 mm)) \<and> now - t \<le> 60"
proof -
  have run: "mode_s_run lm mode_s_init frames = ic.add_all (announced frames) mode_s_init"
    using assms(1) by (intro mode_s_run_history) auto
  have "icao_addr_was_recently_seen now (addr24 (aa1 mm) (aa2 mm) (aa3 mm)) (ic.add_all (announced frames) mode_s_init)"
    using accepted_seen[of lm now "mode_s_run lm mode_s_init frames" msg] assms(2-4) by (simp add: run)
  moreover have "clock_ok t" if "(t, a) \<in> set (announced frames)" for t a
    using announced_mem[OF that] assms(1) by auto
  ultimately obtain t where "(t, addr24 (aa1 mm) (aa2 mm) (aa3 mm)) \<in> set (announced frames)" "now - t \<le> 60"
    using ic.seen_history_init by (force simp: MODE_S_ICAO_CACHE_TTL_def)
  with announced_mem show ?thesis by blast
qed

definition sample_reply :: "u8 list" where
  "sample_reply = [0x20, 0x00, 0x0A, 0x98, 0xA3, 0xC7, 0xFD, 0, 0, 0, 0, 0, 0, 0]"

lemma accepted_address_announced_witness:
  "\<exists>t m. (t, m) \<in> set [(1000, sample_frame)] \<and> announces m = Some (addr24 0x48 0x40 0xD6) \<and> (1050 :: int) - t \<le> 60"
proof -
  let ?frames = "[(1000, sample_frame)]" and ?D = "mode_s_decode example_libm 1050"
  have "length sample_frame = 14" "announces sample_frame = Some 0x4840D6" by code_simp+
  then have run: "mode_s_run example_libm mode_s_init ?frames = add_recently_seen_icao_addr 1000 0x4840D6 mode_s_init"
    by (simp add: mode_s_run_def decode_state)
  let ?s = "add_recently_seen_icao_addr 1000 0x4840D6 mode_s_init"
  have "df_of sample_reply = 4" by code_simp
  then have p: "patch_df ?s (take 14 sample_reply) = (4, -1, sample_reply)"
    by (simp add: patch_df_def df_of_def DF_near_17_def Let_def sample_reply_def)
  note h = decode_header_fields[OF p]
  have bits: "mode_s_msg_len_by_type 4 = 56" by code_simp
  have "frame_bits 56" "56 \<le> 8 * length sample_reply"
    "crc_field sample_reply 56 = mode_s_checksum sample_reply 56 XOR 0x4840D6"
    by code_simp+
  note bf = brute_force_ap_eq[OF this, of 1050 ?s 4]
  have "icao_addr_was_recently_seen 1050 0x4840D6 ?s"
    by (simp add: seen_same clock_ok_def MODE_S_ICAO_CACHE_TTL_def)
  moreover have "addr_bytes 0x4840D6 = (0x48, 0x40, 0xD6)" by code_simp
  ultimately have ap: "brute_force_ap 1050 ?s sample_reply 4 56 = Some (0x48, 0x40, 0xD6)"
    using bf by (simp add: ap_format_def)
  have rep: "repaired 1050 ?s sample_reply = decode_header ?s sample_reply"
    by (simp add: repaired_def decode_repair_def Let_def h)
  have "crcok (snd (?D ?s sample_reply))" "msgtype (snd (?D ?s sample_reply)) = 4"
    "aa1 (snd (?D ?s sample_reply)) = 0x48" "aa2 (snd (?D ?s sample_reply)) = 0x40" "aa3 (snd (?D ?s sample_reply)) = 0xD6"
    unfolding decode_stages addressed_def rep
    by (simp_all add: decode_address_def h bits ap)
  with accepted_address_announced[of ?frames example_libm 1050 sample_reply] \<open>length sample_frame = 14\<close>
  show ?thesis by (simp add: run clock_ok_def prod_eq_iff)
qed

end
