(* ===== verification/Cpr.thy ===== *)
theory Cpr
  imports Fp
begin

text \<open>
  Compact Position Reporting, \<open>main/cpr.c\<close>: the number of longitude zones, the global decoders of
  an airborne and of a surface even/odd pair, and the decoder relative to a known position. Every
  \<open>double\<close> operation rounds (\<open>dbl\<close>); \<open>floor\<close> and \<open>fmod\<close> are exact. The error codes -1 and -2 are the
  left summand of the result, the latitude and longitude written through the pointers the right.
\<close>

section \<open>The code\<close>

type_synonym cpr_result = "int + rat \<times> rat"

text \<open>C's \<open>%\<close> and \<open>fmod\<close> keep the sign of the dividend.\<close>

definition c_rem :: "int \<Rightarrow> int \<Rightarrow> int" where
  "c_rem a b = (if 0 \<le> a then a mod \<bar>b\<bar> else - ((- a) mod \<bar>b\<bar>))"

definition fmod :: "rat \<Rightarrow> rat \<Rightarrow> rat" where
  "fmod a b = a - of_int (trunc (a / b)) * b"

definition mod_int :: "int \<Rightarrow> int \<Rightarrow> int" where
  "mod_int a b = (let r = c_rem a b in if r < 0 then r + b else r)"

definition mod_dbl :: "rat \<Rightarrow> rat \<Rightarrow> rat" where
  "mod_dbl a b = (let r = fmod a b in if r < 0 then dbl (r + b) else r)"

text \<open>The rows \<open>if (lat < bound) return nl;\<close>, the bounds in units of 1e-8 degree.\<close>

definition nl_table :: "(int \<times> int) list" where
  "nl_table =
    [(1047047130, 59), (1482817437, 58), (1818626357, 57), (2102939493, 56),
     (2354504487, 55), (2582924707, 54), (2793898710, 53), (2991135686, 52),
     (3177209708, 51), (3353993436, 50), (3522899598, 49), (3685025108, 48),
     (3841241892, 47), (3992256684, 46), (4138651832, 45), (4280914012, 44),
     (4419454951, 43), (4554626723, 42), (4686733252, 41), (4816039128, 40),
     (4942776439, 39), (5067150166, 38), (5189342469, 37), (5309516153, 36),
     (5427817472, 35), (5544378444, 34), (5659318756, 33), (5772747354, 32),
     (5884763776, 31), (5995459277, 30), (6104917774, 29), (6213216659, 28),
     (6320427479, 27), (6426616523, 26), (6531845310, 25), (6636171008, 24),
     (6739646774, 23), (6842322022, 22), (6944242631, 21), (7045451075, 20),
     (7145986473, 19), (7245884545, 18), (7345177442, 17), (7443893416, 16),
     (7542056257, 15), (7639684391, 14), (7736789461, 13), (7833374083, 12),
     (7929428225, 11), (8024923213, 10), (8119801349, 9), (8213956981, 8),
     (8307199445, 7), (8399173563, 6), (8489166191, 5), (8575541621, 4),
     (8653536998, 3), (8700000000, 2)]"

definition cpr_nl :: "rat \<Rightarrow> int" where
  "cpr_nl lat =
     (let l = (if lat < 0 then - lat else lat)
      in case find (\<lambda>(b, n). l < dbl (of_int b / 100000000)) nl_table of
           Some (b, n) \<Rightarrow> n | None \<Rightarrow> 1)"

definition n_zones :: "rat \<Rightarrow> bool \<Rightarrow> int" where
  "n_zones lat odd_frame = (let n = cpr_nl lat - (if odd_frame then 1 else 0) in if n < 1 then 1 else n)"

definition dlon :: "rat \<Rightarrow> bool \<Rightarrow> bool \<Rightarrow> rat" where
  "dlon lat odd_frame surface = dbl ((if surface then 90 else 360) / of_int (n_zones lat odd_frame))"

definition decode_lon :: "rat \<Rightarrow> int \<Rightarrow> int \<Rightarrow> bool \<Rightarrow> bool \<Rightarrow> rat" where
  "decode_lon lat even_lon odd_lon odd_latest surface =
     (let nl = cpr_nl lat;
          m = \<lfloor>dbl (dbl (dbl (dbl (of_int even_lon * of_int (nl - 1)) - dbl (of_int odd_lon * of_int nl)) / 131072) + 1 / 2)\<rfloor>;
          ni = n_zones lat odd_latest;
          raw = (if odd_latest then odd_lon else even_lon)
      in dbl (dlon lat odd_latest surface * dbl (of_int (mod_int m ni) + dbl (of_int raw / 131072))))"

definition cpr_index :: "int \<Rightarrow> int \<Rightarrow> int" where
  "cpr_index even_lat odd_lat =
     \<lfloor>dbl (dbl (dbl (dbl (59 * of_int even_lat) - dbl (60 * of_int odd_lat)) / 131072) + 1 / 2)\<rfloor>"

definition zone_lat :: "rat \<Rightarrow> int \<Rightarrow> int \<Rightarrow> int \<Rightarrow> rat" where
  "zone_lat dlat j n raw = dbl (dlat * dbl (of_int (mod_int j n) + dbl (of_int raw / 131072)))"

text \<open>\<open>rlon -= floor((rlon + 180.0) / 360.0) * 360.0\<close>\<close>

definition wrap_lon :: "rat \<Rightarrow> rat" where
  "wrap_lon rlon = dbl (rlon - dbl (of_int \<lfloor>dbl (dbl (rlon + 180) / 360)\<rfloor> * 360))"

definition south :: "rat \<Rightarrow> rat" where
  "south rlat = (if 270 \<le> rlat then dbl (rlat - 360) else rlat)"

definition cpr_decode_airborne :: "int \<Rightarrow> int \<Rightarrow> int \<Rightarrow> int \<Rightarrow> bool \<Rightarrow> cpr_result" where
  "cpr_decode_airborne even_lat even_lon odd_lat odd_lon odd_latest =
     (let dlat0 = dbl (360 / 60); dlat1 = dbl (360 / 59);
          j = cpr_index even_lat odd_lat;
          rlat0 = south (zone_lat dlat0 j 60 even_lat);
          rlat1 = south (zone_lat dlat1 j 59 odd_lat)
      in if rlat0 < -90 \<or> 90 < rlat0 \<or> rlat1 < -90 \<or> 90 < rlat1 then Inl (-2)
         else if cpr_nl rlat0 \<noteq> cpr_nl rlat1 then Inl (-1)
         else let rlat = (if odd_latest then rlat1 else rlat0)
              in Inr (rlat, wrap_lon (decode_lon rlat even_lon odd_lon odd_latest False)))"

definition surface_lat_quadrant :: "rat \<Rightarrow> rat \<Rightarrow> rat" where
  "surface_lat_quadrant rlat reflat =
     (if rlat = 0
      then if reflat < -45 then -90 else if 45 < reflat then 90 else 0
      else if 45 < dbl (rlat - reflat) then dbl (rlat - 90) else rlat)"

definition cpr_decode_surface :: "rat \<Rightarrow> rat \<Rightarrow> int \<Rightarrow> int \<Rightarrow> int \<Rightarrow> int \<Rightarrow> bool \<Rightarrow> cpr_result" where
  "cpr_decode_surface reflat reflon even_lat even_lon odd_lat odd_lon odd_latest =
     (let dlat0 = dbl (90 / 60); dlat1 = dbl (90 / 59);
          j = cpr_index even_lat odd_lat;
          rlat0 = surface_lat_quadrant (zone_lat dlat0 j 60 even_lat) reflat;
          rlat1 = surface_lat_quadrant (zone_lat dlat1 j 59 odd_lat) reflat
      in if rlat0 < -90 \<or> 90 < rlat0 \<or> rlat1 < -90 \<or> 90 < rlat1 then Inl (-2)
         else if cpr_nl rlat0 \<noteq> cpr_nl rlat1 then Inl (-1)
         else let rlat = (if odd_latest then rlat1 else rlat0);
                  rlon = decode_lon rlat even_lon odd_lon odd_latest True;
                  rlon = dbl (rlon + dbl (of_int \<lfloor>dbl (dbl (dbl (reflon - rlon) + 45) / 90)\<rfloor> * 90))
              in Inr (rlat, wrap_lon rlon))"

definition cpr_decode_relative :: "rat \<Rightarrow> rat \<Rightarrow> int \<Rightarrow> int \<Rightarrow> bool \<Rightarrow> bool \<Rightarrow> cpr_result" where
  "cpr_decode_relative reflat reflon cpr_lat cpr_lon odd_frame surface =
     (let flat = dbl (of_int cpr_lat / 131072);
          flon = dbl (of_int cpr_lon / 131072);
          dlat = dbl ((if surface then 90 else 360) / (if odd_frame then 59 else 60));
          j = trunc (dbl (of_int \<lfloor>dbl (reflat / dlat)\<rfloor> +
                of_int \<lfloor>dbl (dbl (1 / 2 + dbl (mod_dbl reflat dlat / dlat)) - flat)\<rfloor>));
          rlat = dbl (dlat * dbl (of_int j + flat));
          rlat = (if 270 \<le> rlat then dbl (rlat - 360) else rlat)
      in if rlat < -90 \<or> 90 < rlat then Inl (-1)
         else if dbl (dlat / 2) < \<bar>dbl (rlat - reflat)\<bar> then Inl (-1)
         else
           let dl = dlon rlat odd_frame surface;
               m = trunc (dbl (of_int \<lfloor>dbl (reflon / dl)\<rfloor> +
                     of_int \<lfloor>dbl (dbl (1 / 2 + dbl (mod_dbl reflon dl / dl)) - flon)\<rfloor>));
               rlon = dbl (dl * dbl (of_int m + flon));
               rlon = (if 180 < rlon then dbl (rlon - 360) else rlon)
           in if dbl (dl / 2) < \<bar>dbl (rlon - reflon)\<bar> then Inl (-1)
              else Inr (rlat, rlon))"

section \<open>Arithmetic\<close>

lemma mod_int_mod [simp]: "0 < b \<Longrightarrow> mod_int a b = a mod b"
proof -
  assume b: "0 < b"
  show ?thesis
  proof (cases "0 \<le> a")
    case True
    moreover have "\<not> a mod b < 0" using b by (simp add: not_less)
    ultimately show ?thesis using b unfolding mod_int_def c_rem_def Let_def by simp
  next
    case False
    define c where "c = (- a) mod b"
    have c: "0 \<le> c" "c < b" using b by (simp_all add: c_def)
    have "a mod b = (if c = 0 then 0 else b - c)"
      using b zmod_zminus1_eq_if[of "- a" b] by (simp add: c_def)
    moreover have "mod_int a b = (if - c < 0 then - c + b else - c)"
      using False b by (simp add: mod_int_def c_rem_def c_def)
    ultimately show ?thesis using c by simp
  qed
qed

lemma nl_table_range: "list_all (\<lambda>(b, n). 2 \<le> n \<and> n \<le> 59) nl_table"
  by code_simp

lemma cpr_nl_range: "1 \<le> cpr_nl lat" "cpr_nl lat \<le> 59"
  using nl_table_range
  by (auto simp: cpr_nl_def Let_def find_Some_iff list_all_length split: option.split)

lemma n_zones_range: "1 \<le> n_zones lat odd_frame" "n_zones lat odd_frame \<le> 59"
  using cpr_nl_range[of lat] by (auto simp: n_zones_def Let_def)

text \<open>Dyadic values of up to 53 bits are exact.\<close>

lemma dbl_dyadic: "\<bar>m\<bar> < 2 ^ 53 \<Longrightarrow> dbl (of_int m / 2 ^ k) = of_int m / 2 ^ k"
  using fp_round_exact[of m 53 "- int k"] by (simp add: power_int_minus divide_inverse)

lemma dbl_int: "\<bar>m\<bar> < 2 ^ 53 \<Longrightarrow> dbl (of_int m) = of_int m"
  by (rule fp_round_int) simp_all

end
