(* ===== verification/CprProps.thy ===== *)
theory CprProps
  imports Cpr
begin

text \<open>
  Properties of the CPR decoders of \<open>Cpr\<close>: the range of the positions they report, the bound of
  the relative decoder, and the recovery of an encoded latitude from an even/odd pair.
\<close>

section \<open>Longitude range\<close>

lemma dbl_upper: "0 \<le> x \<Longrightarrow> dbl x \<le> x * (1 + 1 / 2 ^ 53)"
proof -
  assume "0 \<le> x"
  then have "\<bar>dbl x - x\<bar> \<le> x / 2 ^ 53" using fp_round_error[of 53 x] by simp
  then have "dbl x - x \<le> x / 2 ^ 53" by linarith
  then show ?thesis by (simp add: distrib_left)
qed

lemma dlon_times:
  assumes "1 \<le> n" "n \<le> (59 :: int)"
  shows "dbl (360 / of_int n) * (of_int n - 1 / 131072) \<le> 360" "0 \<le> dbl (360 / of_int n)"
proof -
  define q :: rat where "q = of_int n"
  have "(of_int 1 :: rat) \<le> of_int n" "(of_int n :: rat) \<le> of_int 59"
    using assms by (simp_all only: of_int_le_iff)
  then have q: "1 \<le> q" "q \<le> 59" by (simp_all add: q_def)
  have "dbl (360 / q) * (q - 1 / 131072) \<le> (360 / q * (1 + 1 / 2 ^ 53)) * (q - 1 / 131072)"
    using q by (intro mult_right_mono dbl_upper) simp_all
  also have "\<dots> = 360 * (1 + 1 / 2 ^ 53) * (1 - 1 / 131072 / q)"
  proof -
    have "(360 / q * k) * (q - d) = 360 * k * (1 - d / q)" for k d :: rat
      using q by (simp add: field_simps)
    then show ?thesis .
  qed
  also have "\<dots> \<le> 360 * (1 + 1 / 2 ^ 53) * (1 - 1 / 131072 / 59)"
    using q by (intro mult_left_mono diff_left_mono divide_left_mono) simp_all
  also have "\<dots> \<le> 360" by simp
  finally show "dbl (360 / of_int n) * (of_int n - 1 / 131072) \<le> 360" by (simp add: q_def)
  show "0 \<le> dbl (360 / of_int n)" using assms by (intro fp_round_nonneg) simp_all
qed

lemma zone_sum:
  assumes "0 \<le> raw" "raw < 131072" "0 < n" "n \<le> 60"
  shows "dbl (of_int (mod_int m n) + dbl (of_int raw / 131072)) = of_int (m mod n) + of_int raw / 131072"
proof -
  have e1: "dbl (of_int raw / 131072) = of_int raw / 131072"
    using dbl_dyadic[of raw 17] assms by simp
  have "0 \<le> m mod n" "m mod n < 60" using assms by (simp_all add: less_le_trans[OF pos_mod_bound])
  then have e2: "dbl (of_int (m mod n * 131072 + raw) / 131072) = of_int (m mod n * 131072 + raw) / 131072"
    using dbl_dyadic[of "m mod n * 131072 + raw" 17] assms by simp
  have e3: "of_int (m mod n * 131072 + raw) / 131072 = (of_int (m mod n) + of_int raw / 131072 :: rat)"
    by (simp add: add_divide_distrib)
  show ?thesis unfolding mod_int_mod[OF assms(3)] e1 e3 [symmetric] by (rule e2)
qed

lemma zone_sum_bounds:
  assumes "0 \<le> raw" "raw < 131072" "0 < (n :: int)"
  shows "0 \<le> (of_int (m mod n) + of_int raw / 131072 :: rat)"
    "(of_int (m mod n) + of_int raw / 131072 :: rat) \<le> of_int n - 1 / 131072"
proof -
  have "0 \<le> m mod n" "m mod n \<le> n - 1" using assms by auto
  then have "(of_int (m mod n) :: rat) \<le> of_int (n - 1)" "(of_int raw :: rat) \<le> of_int 131071"
    and "(0 :: rat) \<le> of_int (m mod n)"
    using assms by (simp_all only: of_int_le_iff of_int_0_le_iff)
  then show "0 \<le> (of_int (m mod n) + of_int raw / 131072 :: rat)"
    "(of_int (m mod n) + of_int raw / 131072 :: rat) \<le> of_int n - 1 / 131072"
    using assms by simp_all
qed

lemma decode_lon_range:
  assumes "0 \<le> even_lon" "even_lon < 131072" "0 \<le> odd_lon" "odd_lon < 131072"
  shows "0 \<le> decode_lon lat even_lon odd_lon odd_latest False"
    "decode_lon lat even_lon odd_lon odd_latest False \<le> 360"
    "\<exists>x. decode_lon lat even_lon odd_lon odd_latest False = dbl x"
proof -
  let ?n = "n_zones lat odd_latest" and ?raw = "if odd_latest then odd_lon else even_lon"
  obtain m where m: "decode_lon lat even_lon odd_lon odd_latest False =
      dbl (dbl (360 / of_int ?n) * dbl (of_int (mod_int m ?n) + dbl (of_int ?raw / 131072)))"
    unfolding decode_lon_def dlon_def Let_def by simp
  have raw: "0 \<le> ?raw" "?raw < 131072" and n: "0 < ?n" "?n \<le> 60" "1 \<le> ?n" "?n \<le> 59"
    using assms n_zones_range[of lat odd_latest] by auto
  let ?s = "of_int (m mod ?n) + of_int ?raw / 131072 :: rat"
  have d: "dbl (360 / of_int ?n) * (of_int ?n - 1 / 131072) \<le> 360" "0 \<le> dbl (360 / of_int ?n)"
    using dlon_times[OF n(3,4)] by blast+
  have "0 \<le> dbl (360 / of_int ?n) * ?s" using d(2) zone_sum_bounds(1)[OF raw n(1)] by (intro mult_nonneg_nonneg)
  moreover have "dbl (360 / of_int ?n) * ?s \<le> dbl (360 / of_int ?n) * (of_int ?n - 1 / 131072)"
    using d(2) zone_sum_bounds(2)[OF raw n(1)] by (rule mult_left_mono[rotated])
  ultimately have "0 \<le> dbl (360 / of_int ?n) * ?s" "dbl (360 / of_int ?n) * ?s \<le> 360" using d(1) by simp_all
  then have "dbl 0 \<le> dbl (dbl (360 / of_int ?n) * ?s)" "dbl (dbl (360 / of_int ?n) * ?s) \<le> dbl 360"
    by (intro fp_round_mono; simp)+
  then show "0 \<le> decode_lon lat even_lon odd_lon odd_latest False"
    "decode_lon lat even_lon odd_lon odd_latest False \<le> 360"
    "\<exists>x. decode_lon lat even_lon odd_lon odd_latest False = dbl x"
    unfolding m zone_sum[OF raw n(1,2)] using dbl_int[of 360] by auto
qed

text \<open>Adding 180 and dividing by 360 rounds up to the next turn only within a millionth of a degree.\<close>

lemma turn_below: "dbl (dbl (179999999 / 1000000 + 180) / 360) < 1"
proof -
  have "dbl (359999999 / 1000000) / 360 \<le> 359999999 / 1000000 * (1 + 1 / 2 ^ 53) / 360"
    by (intro divide_right_mono dbl_upper) simp_all
  then have "dbl (dbl (359999999 / 1000000) / 360) \<le> dbl (359999999 / 1000000 * (1 + 1 / 2 ^ 53) / 360)"
    by (intro fp_round_mono) simp_all
  also have "\<dots> \<le> 359999999 / 1000000 * (1 + 1 / 2 ^ 53) / 360 * (1 + 1 / 2 ^ 53)"
    by (rule dbl_upper) simp
  also have "\<dots> < 1" by simp
  finally show ?thesis by simp
qed

lemma wrap_lon_range:
  assumes "0 \<le> x" "x \<le> 360"
  shows "- 180000002 / 1000000 \<le> wrap_lon x" "wrap_lon x \<le> 180"
proof -
  let ?q = "\<lambda>x. dbl (dbl (x + 180) / 360)"
  have mono: "?q a \<le> ?q b" if "a \<le> b" for a b
    using that by (intro fp_round_mono divide_right_mono) simp_all
  have ints: "dbl 180 = 180" "dbl 360 = 360" "dbl 540 = 540" "dbl 0 = 0" "dbl 1 = 1"
    using dbl_int[of 180] dbl_int[of 360] dbl_int[of 540] dbl_int[of 1] by simp_all
  have halves: "dbl (1 / 2) = 1 / 2" "dbl (3 / 2) = 3 / 2"
    using dbl_dyadic[of 1 1] dbl_dyadic[of 3 1] by simp_all
  have q: "?q 0 = 1 / 2" "?q 180 = 1" "?q 360 = 3 / 2" using ints halves by simp_all
  have "0 \<le> ?q x" "?q x \<le> 3 / 2" using mono[OF assms(1)] mono[OF assms(2)] q by simp_all
  then have floor: "\<lfloor>?q x\<rfloor> = 0 \<or> \<lfloor>?q x\<rfloor> = 1" by linarith
  have cases: "wrap_lon x = dbl x \<and> x < 180 \<or> wrap_lon x = dbl (x - 360) \<and> 179999999 / 1000000 < x"
  proof (cases "\<lfloor>?q x\<rfloor> = 0")
    case True
    then have "?q x < 1" by linarith
    then have "x < 180" using mono[of 180 x] q(2) by linarith
    then show ?thesis using True by (simp add: wrap_lon_def)
  next
    case False
    then have one: "\<lfloor>?q x\<rfloor> = 1" using floor by simp
    then have "1 \<le> ?q x" by linarith
    then have "179999999 / 1000000 < x" using mono[of x "179999999 / 1000000"] turn_below by linarith
    then show ?thesis using one ints by (simp add: wrap_lon_def)
  qed
  have low: "0 \<le> dbl x \<and> dbl x \<le> 180" if "x < 180"
  proof -
    have "dbl x \<le> dbl 180" using that by (intro fp_round_mono) simp_all
    then show ?thesis using assms ints fp_round_nonneg[of x 53] by simp
  qed
  have high: "- 180000002 / 1000000 \<le> dbl (x - 360) \<and> dbl (x - 360) \<le> 0" if "179999999 / 1000000 < x"
  proof -
    have "dbl (360 - x) \<le> (360 - x) * (1 + 1 / 2 ^ 53)" using assms by (intro dbl_upper) simp
    also have "\<dots> \<le> 180000001 / 1000000 * (1 + 1 / 2 ^ 53)" using that by (intro mult_right_mono) simp_all
    also have "\<dots> \<le> 180000002 / 1000000" by simp
    finally have "dbl (- (x - 360)) \<le> 180000002 / 1000000" by simp
    moreover have "0 \<le> dbl (- (x - 360))" using assms by (intro fp_round_nonneg) simp_all
    ultimately show ?thesis unfolding fp_round_minus by simp
  qed
  show "- 180000002 / 1000000 \<le> wrap_lon x" "wrap_lon x \<le> 180"
    using cases low high by auto
qed

text \<open>
  A position the airborne decoder reports is a position on Earth: its latitude is within
  [-90, 90] and its longitude at most 180 and at least -180, up to the rounding of the last
  wrap (less than two millionths of a degree).
\<close>

theorem airborne_position_range:
  assumes "0 \<le> even_lon" "even_lon < 131072" "0 \<le> odd_lon" "odd_lon < 131072"
    and "cpr_decode_airborne even_lat even_lon odd_lat odd_lon odd_latest = Inr (lat, lon)"
  shows "- 90 \<le> lat \<and> lat \<le> 90 \<and> - 180000002 / 1000000 \<le> lon \<and> lon \<le> 180"
proof -
  obtain rlat0 rlat1 where r: "- 90 \<le> rlat0" "rlat0 \<le> 90" "- 90 \<le> rlat1" "rlat1 \<le> 90"
    "lat = (if odd_latest then rlat1 else rlat0)"
    "lon = wrap_lon (decode_lon lat even_lon odd_lon odd_latest False)"
    using assms(5) by (auto simp: cpr_decode_airborne_def Let_def not_less split: if_splits)
  have "0 \<le> decode_lon lat even_lon odd_lon odd_latest False" "decode_lon lat even_lon odd_lon odd_latest False \<le> 360"
    using decode_lon_range assms(1-4) by blast+
  from wrap_lon_range[OF this] show ?thesis using r by auto
qed

section \<open>Latitude recovery\<close>

text \<open>The latitude code of a frame with \<open>nz\<close> zones around the globe, as a transmitter computes it.\<close>

definition cpr_encode_lat :: "int \<Rightarrow> rat \<Rightarrow> int" where
  "cpr_encode_lat nz lat = \<lfloor>131072 * (lat * of_int nz / 360) + 1 / 2\<rfloor> mod 131072"

lemma cpr_index_exact:
  assumes "0 \<le> e" "e < 131072" "0 \<le> d" "d < 131072"
  shows "cpr_index e d = \<lfloor>of_int (59 * e - 60 * d) / 131072 + 1 / 2 :: rat\<rfloor>"
proof -
  let ?k = "59 * e - 60 * d"
  have k: "\<bar>?k\<bar> < 2 ^ 24" using assms by simp
  have e1: "dbl (59 * of_int e) = of_int (59 * e)" "dbl (60 * of_int d) = of_int (60 * d)"
    using dbl_int[of "59 * e"] dbl_int[of "60 * d"] assms by simp_all
  have e2: "dbl (of_int (59 * e) - of_int (60 * d)) = of_int ?k"
    using dbl_int[of ?k] k by simp
  have e3: "dbl (of_int ?k / 131072) = of_int ?k / 131072"
    using dbl_dyadic[of ?k 17] k by simp
  have e4: "dbl (of_int ?k / 131072 + 1 / 2) = of_int ?k / 131072 + 1 / 2"
  proof -
    have "dbl (of_int (?k + 65536) / 131072) = of_int (?k + 65536) / 131072"
      using dbl_dyadic[of "?k + 65536" 17] k by simp
    moreover have "of_int (?k + 65536) / 131072 = (of_int ?k / 131072 + 1 / 2 :: rat)"
      by (simp add: add_divide_distrib)
    ultimately show ?thesis by (simp only:)
  qed
  show ?thesis unfolding cpr_index_def e1 e2 e3 e4 ..
qed

lemma cpr_index_zones:
  assumes "- 60 < 59 * n0 - 60 * n1" "59 * n0 - 60 * n1 < (60 :: int)"
  shows "cpr_index (n0 mod 131072) (n1 mod 131072) = 60 * (n1 div 131072) - 59 * (n0 div 131072)"
proof -
  let ?z = "60 * (n1 div 131072) - 59 * (n0 div 131072)"
  have "59 * (n0 mod 131072) - 60 * (n1 mod 131072) = 131072 * ?z + (59 * n0 - 60 * n1)"
    by (simp add: minus_mult_div_eq_mod [symmetric] algebra_simps)
  then have k: "(of_int (59 * (n0 mod 131072) - 60 * (n1 mod 131072)) :: rat) = 131072 * of_int ?z + of_int (59 * n0 - 60 * n1)"
    by (simp only: of_int_add of_int_mult of_int_numeral)
  have split: "(131072 * z + d) / 131072 + 1 / 2 = z + (d / 131072 + 1 / 2)" for z d :: rat
    by (simp add: add_divide_distrib)
  have "\<lfloor>of_int (59 * (n0 mod 131072) - 60 * (n1 mod 131072)) / 131072 + 1 / 2 :: rat\<rfloor>
      = \<lfloor>of_int ?z + (of_int (59 * n0 - 60 * n1) / 131072 + 1 / 2) :: rat\<rfloor>"
    unfolding k split ..
  also have "\<dots> = ?z"
  proof -
    have "(of_int (-60) :: rat) < of_int (59 * n0 - 60 * n1)" "(of_int (59 * n0 - 60 * n1) :: rat) < of_int 60"
      using assms by (simp_all only: of_int_less_iff)
    moreover have "\<lfloor>d / 131072 + 1 / 2\<rfloor> = 0" if "- 60 < d" "d < 60" for d :: rat
      using that by (intro floor_unique) simp_all
    ultimately have "\<lfloor>of_int (59 * n0 - 60 * n1) / 131072 + 1 / 2 :: rat\<rfloor> = 0" by simp
    then show ?thesis by (simp only: int_add_floor [symmetric] add_0_right)
  qed
  finally show ?thesis by (subst cpr_index_exact) simp_all
qed

text \<open>The two codes of one latitude agree on the zone.\<close>

lemma round_near: "\<bar>of_int \<lfloor>x + 1 / 2\<rfloor> - (x :: rat)\<bar> \<le> 1 / 2"
  using floor_correct[of "x + 1 / 2"] by linarith

lemma encode_zones:
  "cpr_index (cpr_encode_lat 60 lat) (cpr_encode_lat 59 lat) =
     60 * (\<lfloor>131072 * (lat * 59 / 360) + 1 / 2\<rfloor> div 131072) - 59 * (\<lfloor>131072 * (lat * 60 / 360) + 1 / 2\<rfloor> div 131072)"
proof -
  let ?n0 = "\<lfloor>131072 * (lat * 60 / 360) + 1 / 2\<rfloor>" and ?n1 = "\<lfloor>131072 * (lat * 59 / 360) + 1 / 2\<rfloor>"
  define x y where "x = 131072 * (lat * 60 / 360)" and "y = 131072 * (lat * 59 / 360)"
  have "59 * x = 60 * y" by (simp add: x_def y_def)
  then have "- 60 < 59 * of_int \<lfloor>x + 1 / 2\<rfloor> - 60 * (of_int \<lfloor>y + 1 / 2\<rfloor> :: rat)"
    "59 * of_int \<lfloor>x + 1 / 2\<rfloor> - 60 * (of_int \<lfloor>y + 1 / 2\<rfloor> :: rat) < 60"
    using round_near[of x] round_near[of y] by linarith+
  then have "of_int (-60) < (of_int (59 * \<lfloor>x + 1 / 2\<rfloor> - 60 * \<lfloor>y + 1 / 2\<rfloor>) :: rat)"
    "of_int (59 * \<lfloor>x + 1 / 2\<rfloor> - 60 * \<lfloor>y + 1 / 2\<rfloor>) < (of_int 60 :: rat)"
    by simp_all
  then have "- 60 < 59 * ?n0 - 60 * ?n1" "59 * ?n0 - 60 * ?n1 < 60"
    by (simp_all only: of_int_less_iff x_def y_def)
  from cpr_index_zones[OF this] show ?thesis unfolding cpr_encode_lat_def of_int_numeral .
qed

lemma encode_index:
  "cpr_index (cpr_encode_lat 60 lat) (cpr_encode_lat 59 lat) mod 60 =
     (\<lfloor>131072 * (lat * 60 / 360) + 1 / 2\<rfloor> div 131072) mod 60"
  "cpr_index (cpr_encode_lat 60 lat) (cpr_encode_lat 59 lat) mod 59 =
     (\<lfloor>131072 * (lat * 59 / 360) + 1 / 2\<rfloor> div 131072) mod 59"
proof -
  have split: "60 * b - 59 * a = a + 60 * (b - a)" "60 * b - 59 * a = b + 59 * (b - a)" for a b :: int by simp_all
  show "cpr_index (cpr_encode_lat 60 lat) (cpr_encode_lat 59 lat) mod 60 =
     (\<lfloor>131072 * (lat * 60 / 360) + 1 / 2\<rfloor> div 131072) mod 60"
    unfolding encode_zones split(1) by (rule mod_mult_self2)
  show "cpr_index (cpr_encode_lat 60 lat) (cpr_encode_lat 59 lat) mod 59 =
     (\<lfloor>131072 * (lat * 59 / 360) + 1 / 2\<rfloor> div 131072) mod 59"
    unfolding encode_zones split(2) by (rule mod_mult_self2)
qed

lemma even_zone_lat:
  assumes "0 \<le> e" "e < 131072"
  shows "zone_lat (dbl (360 / 60)) j 60 e = of_int (6 * (j mod 60 * 131072 + e)) / 131072"
proof -
  have six: "dbl (360 / 60) = 6" using dbl_int[of 6] by simp
  have z: "dbl (of_int (mod_int j 60) + dbl (of_int e / 131072)) = of_int (j mod 60) + of_int e / 131072"
    by (rule zone_sum) (use assms in simp_all)
  have "0 \<le> j mod 60" "j mod 60 < 60" by simp_all
  then have "dbl (of_int (6 * (j mod 60 * 131072 + e)) / 131072) = of_int (6 * (j mod 60 * 131072 + e)) / 131072"
    using dbl_dyadic[of "6 * (j mod 60 * 131072 + e)" 17] assms by simp
  moreover have "6 * (of_int (j mod 60) + of_int e / 131072) = (of_int (6 * (j mod 60 * 131072 + e)) / 131072 :: rat)"
    by (simp add: add_divide_distrib)
  ultimately show ?thesis unfolding zone_lat_def six z by (simp only:)
qed

lemma even_latitude:
  assumes "- 90 \<le> lat" "lat \<le> 90"
  defines "n \<equiv> \<lfloor>131072 * (lat * 60 / 360) + 1 / 2\<rfloor>"
  shows "south (zone_lat (dbl (360 / 60)) (cpr_index (cpr_encode_lat 60 lat) (cpr_encode_lat 59 lat)) 60 (cpr_encode_lat 60 lat))
    = 6 * of_int n / 131072"
proof -
  let ?a = "n div 131072" and ?e = "n mod 131072"
  have e: "cpr_encode_lat 60 lat = ?e" by (simp add: cpr_encode_lat_def n_def)
  have "131072 * (- 90 * 60 / 360) \<le> 131072 * (lat * 60 / 360)" "131072 * (lat * 60 / 360) \<le> 131072 * (90 * 60 / 360)"
    using assms by simp_all
  then have "\<lfloor>- 1966080 :: rat\<rfloor> \<le> n" "n \<le> \<lfloor>1966080 + 1 / 2 :: rat\<rfloor>"
    unfolding n_def by (intro floor_mono; simp)+
  moreover have "\<lfloor>1966080 + 1 / 2 :: rat\<rfloor> = 1966080" by (intro floor_unique) simp_all
  ultimately have n: "- 1966080 \<le> n" "n \<le> 1966080" by simp_all
  have j: "cpr_index ?e (cpr_encode_lat 59 lat) mod 60 = ?a mod 60"
    using encode_index(1)[of lat] by (simp only: e n_def)
  have z: "zone_lat (dbl (360 / 60)) (cpr_index ?e (cpr_encode_lat 59 lat)) 60 ?e
      = of_int (6 * (?a mod 60 * 131072 + ?e)) / 131072"
  proof -
    have "0 \<le> ?e" "?e < 131072" by simp_all
    note even_zone_lat[OF this, of "cpr_index ?e (cpr_encode_lat 59 lat)"]
    also have "of_int (6 * (cpr_index ?e (cpr_encode_lat 59 lat) mod 60 * 131072 + ?e)) / (131072 :: rat)
        = of_int (6 * (?a mod 60 * 131072 + ?e)) / 131072"
      unfolding j ..
    finally show ?thesis .
  qed
  show ?thesis
  proof (cases "0 \<le> n")
    case True
    then have "0 \<le> ?a" "?a \<le> 15"
      using n zdiv_mono1[of n 1966080 131072] by (simp_all add: pos_imp_zdiv_nonneg_iff)
    then have "?a mod 60 * 131072 + ?e = n" by (simp add: mod_pos_pos_trivial)
    moreover have "6 * of_int n / 131072 < (270 :: rat)"
    proof -
      have "(of_int n :: rat) \<le> of_int 1966080" using n(2) by (simp only: of_int_le_iff)
      then show ?thesis by simp
    qed
    ultimately show ?thesis unfolding e z by (simp add: south_def)
  next
    case False
    then have a: "- 15 \<le> ?a" "?a < 0"
      using n zdiv_mono1[of "- 1966080" n 131072] by (simp_all add: pos_imp_zdiv_neg_iff)
    then have "?a mod 60 = ?a + 60" using mod_pos_pos_trivial[of "?a + 60" 60] by simp
    then have s: "?a mod 60 * 131072 + ?e = n + 60 * 131072" by simp
    have lo: "(of_int (- 1966080) :: rat) \<le> of_int n" using n(1) by (simp only: of_int_le_iff)
    have v: "of_int (6 * (?a mod 60 * 131072 + ?e)) / 131072 = 6 * of_int n / 131072 + (360 :: rat)"
      unfolding s by (simp add: add_divide_distrib)
    have "dbl (of_int (6 * n) / 131072) = of_int (6 * n) / 131072"
      using dbl_dyadic[of "6 * n" 17] n by simp
    then show ?thesis unfolding e z v using lo by (simp add: south_def)
  qed
qed

text \<open>In the odd frame the zones are 360/59 degrees high, which no \<open>double\<close> holds exactly.\<close>

lemma odd_zone_error:
  assumes "0 \<le> s" "s \<le> 59"
  shows "\<bar>dbl (dbl (360 / 59) * s) - 360 / 59 * s\<bar> \<le> 1 / 10 ^ 13"
proof -
  define d where "d = dbl (360 / 59)"
  have d: "\<bar>d - 360 / 59\<bar> \<le> 360 / 59 / 2 ^ 53" using fp_round_error[of 53 "360 / 59"] by (simp add: d_def)
  have "\<bar>d * s - 360 / 59 * s\<bar> = \<bar>d - 360 / 59\<bar> * s"
    unfolding left_diff_distrib[symmetric] abs_mult using assms(1) by simp
  also have "\<dots> \<le> 360 / 59 / 2 ^ 53 * 59" using d assms by (intro mult_mono) simp_all
  finally have e: "\<bar>d * s - 360 / 59 * s\<bar> \<le> 360 / 2 ^ 53" by simp
  moreover have "0 \<le> 360 / 59 * s" "360 / 59 * s \<le> 360" using assms by simp_all
  moreover have "(360 :: rat) / 2 ^ 53 \<le> 1" by simp
  ultimately have "\<bar>d * s\<bar> \<le> 361" by linarith
  then have "\<bar>d * s\<bar> / 2 ^ 53 \<le> 361 / 2 ^ 53" by (rule divide_right_mono) simp
  moreover have "\<bar>dbl (d * s) - d * s\<bar> \<le> \<bar>d * s\<bar> / 2 ^ 53" by (rule fp_round_error) simp
  ultimately have "\<bar>dbl (d * s) - 360 / 59 * s\<bar> \<le> 361 / 2 ^ 53 + 360 / 2 ^ 53" using e by linarith
  also have "\<dots> \<le> 1 / 10 ^ 13" by simp
  finally show ?thesis by (simp add: d_def)
qed

lemma odd_latitude:
  assumes "- 90 \<le> lat" "lat \<le> 90"
  defines "n \<equiv> \<lfloor>131072 * (lat * 59 / 360) + 1 / 2\<rfloor>"
  defines "r \<equiv> south (zone_lat (dbl (360 / 59)) (cpr_index (cpr_encode_lat 60 lat) (cpr_encode_lat 59 lat)) 59 (cpr_encode_lat 59 lat))"
  assumes "r \<le> 90"
  shows "\<bar>r - 360 / 59 * (of_int n / 131072)\<bar> \<le> 1 / 10 ^ 12"
proof -
  let ?a = "n div 131072" and ?e = "n mod 131072"
  define s :: rat where "s = of_int (?a mod 59) + of_int ?e / 131072"
  have "131072 * (- 90 * 59 / 360) \<le> 131072 * (lat * 59 / 360)" "131072 * (lat * 59 / 360) \<le> 131072 * (90 * 59 / 360)"
    using assms by simp_all
  then have "\<lfloor>- 1933312 :: rat\<rfloor> \<le> n" "n \<le> \<lfloor>1933312 + 1 / 2 :: rat\<rfloor>"
    unfolding n_def by (intro floor_mono; simp)+
  moreover have "\<lfloor>1933312 + 1 / 2 :: rat\<rfloor> = 1933312" by (intro floor_unique) simp_all
  ultimately have n: "- 1933312 \<le> n" "n \<le> 1933312" by simp_all
  then have nq: "(of_int (- 1933312) :: rat) \<le> of_int n" "(of_int n :: rat) \<le> of_int 1933312"
    by (simp_all only: of_int_le_iff)
  have e: "cpr_encode_lat 59 lat = ?e" "0 \<le> ?e" "?e < 131072" by (simp_all add: cpr_encode_lat_def n_def)
  have sum: "dbl (of_int (mod_int j 59) + dbl (of_int ?e / 131072)) = of_int (j mod 59) + of_int ?e / 131072" for j
    by (rule zone_sum) (use e in simp_all)
  have r: "r = south (dbl (dbl (360 / 59) * s))"
    unfolding r_def zone_lat_def e(1) sum s_def encode_index(2)[of lat, folded n_def, unfolded e(1)] ..
  have "s \<le> of_int 59 - 1 / 131072" "0 \<le> s" unfolding s_def by (intro zone_sum_bounds; simp)+
  then have err: "\<bar>dbl (dbl (360 / 59) * s) - 360 / 59 * s\<bar> \<le> 1 / 10 ^ 13" by (intro odd_zone_error) simp_all
  have whole: "of_int n / 131072 = (of_int ?a + of_int ?e / 131072 :: rat)"
  proof -
    have "(of_int n :: rat) = of_int (131072 * ?a + ?e)" by (simp only: mult_div_mod_eq)
    also have "\<dots> = 131072 * of_int ?a + of_int ?e" by (simp only: of_int_add of_int_mult of_int_numeral)
    finally have "(of_int n :: rat) / 131072 = (131072 * of_int ?a + of_int ?e) / 131072" by (rule arg_cong)
    then show ?thesis by (simp add: add_divide_distrib)
  qed
  show ?thesis
  proof (cases "0 \<le> n")
    case True
    then have "0 \<le> ?a" "?a \<le> 14" using n zdiv_mono1[of n 1933312 131072] by (simp_all add: pos_imp_zdiv_nonneg_iff)
    then have s: "s = of_int n / 131072" unfolding s_def whole by (simp add: mod_pos_pos_trivial)
    moreover have "360 / 59 * (of_int n / 131072) \<le> (90 :: rat)" using nq by simp
    ultimately have "360 / 59 * s \<le> 90" by simp
    moreover have "1 / 10 ^ 13 \<le> (1 :: rat)" by simp
    ultimately have "dbl (dbl (360 / 59) * s) < 270" using err by linarith
    then show ?thesis using err unfolding r s by (simp add: south_def)
  next
    case False
    then have "- 15 \<le> ?a" "?a < 0"
      using n zdiv_mono1[of "- 1933312" n 131072] by (simp_all add: pos_imp_zdiv_neg_iff)
    then have "?a mod 59 = ?a + 59" using mod_pos_pos_trivial[of "?a + 59" 59] by simp
    then have s: "s = of_int n / 131072 + 59" unfolding s_def whole by simp
    define v where "v = dbl (dbl (360 / 59) * s)"
    have v: "\<bar>v - (360 + 360 / 59 * (of_int n / 131072))\<bar> \<le> 1 / 10 ^ 13" using err unfolding v_def s by (simp add: algebra_simps)
    moreover have "1 / 10 ^ 13 \<le> (1 :: rat)" "- 90 \<le> 360 / 59 * (of_int n / 131072 :: rat)" "360 / 59 * (of_int n / 131072 :: rat) \<le> 0"
      using nq False by simp_all
    ultimately have "269 \<le> v" "v \<le> 361" by linarith+
    moreover have "r = south v" by (simp add: r v_def)
    ultimately have "r = dbl (v - 360)" using assms(5) by (simp add: south_def split: if_splits)
    moreover have "\<bar>dbl (v - 360) - (v - 360)\<bar> \<le> \<bar>v - 360\<bar> / 2 ^ 53" by (rule fp_round_error) simp
    moreover have "\<bar>v - 360\<bar> / 2 ^ 53 \<le> 91 / 2 ^ 53" using \<open>269 \<le> v\<close> \<open>v \<le> 361\<close> by simp
    moreover have "91 / 2 ^ 53 + 1 / 10 ^ 13 \<le> (1 / 10 ^ 12 :: rat)" by simp
    ultimately show ?thesis using v by linarith
  qed
qed

text \<open>
  C18: a latitude survives the position code: when a transmitter at latitude \<open>lat\<close>, anywhere between the
  poles, sends its even and odd frames and the decoder resolves the pair, the latitude reported is
  within half a step of the code of \<open>lat\<close>: 3/131072 degrees when the even frame is the later one,
  and 180/59/131072 degrees when it is the odd one, there up to a rounding of a millionth of a
  millionth of a degree.
\<close>

theorem latitude_recovered:
  assumes "- 90 \<le> lat0" "lat0 \<le> 90"
    and "cpr_decode_airborne (cpr_encode_lat 60 lat0) even_lon (cpr_encode_lat 59 lat0) odd_lon odd_latest = Inr (lat, lon)"
  shows "\<bar>lat - lat0\<bar> \<le> (if odd_latest then 180 / 59 / 131072 + 1 / 10 ^ 12 else 3 / 131072)"
proof (cases odd_latest)
  case False
  define x where "x = 131072 * (lat0 * 60 / 360)"
  have "lat = 6 * of_int \<lfloor>x + 1 / 2\<rfloor> / 131072"
    using assms(3) even_latitude[OF assms(1,2)] False
    by (auto simp: cpr_decode_airborne_def Let_def x_def split: if_splits)
  moreover have "lat0 = 6 * x / 131072" by (simp add: x_def)
  ultimately have "\<bar>lat - lat0\<bar> \<le> 3 / 131072" using round_near[of x] by linarith
  then show ?thesis using False by simp
next
  case True
  define x where "x = 131072 * (lat0 * 59 / 360)"
  let ?r = "south (zone_lat (dbl (360 / 59)) (cpr_index (cpr_encode_lat 60 lat0) (cpr_encode_lat 59 lat0)) 59 (cpr_encode_lat 59 lat0))"
  have "lat = ?r" "?r \<le> 90"
    using assms(3) True by (auto simp: cpr_decode_airborne_def Let_def split: if_splits)
  then have "\<bar>lat - 360 / 59 * (of_int \<lfloor>x + 1 / 2\<rfloor> / 131072)\<bar> \<le> 1 / 10 ^ 12"
    using odd_latitude[OF assms(1,2)] by (simp only: x_def)
  moreover have "lat0 = 360 / 59 * (x / 131072)" by (simp add: x_def)
  moreover have "\<bar>360 / 59 * (of_int \<lfloor>x + 1 / 2\<rfloor> / 131072) - 360 / 59 * (x / 131072)\<bar> \<le> 180 / 59 / 131072"
    using round_near[of x] by linarith
  ultimately have "\<bar>lat - lat0\<bar> \<le> 180 / 59 / 131072 + 1 / 10 ^ 12" by linarith
  then show ?thesis using True by simp
qed

section \<open>An example\<close>

lemma nl_equator: "0 \<le> x \<Longrightarrow> x < 10 \<Longrightarrow> cpr_nl x = 59"
proof -
  assume x: "0 \<le> x" "x < 10"
  have "dbl 10 \<le> dbl (1047047130 / 100000000)" by (intro fp_round_mono) simp_all
  moreover have "dbl 10 = 10" using dbl_int[of 10] by simp
  ultimately have "x < dbl (1047047130 / 100000000)" using x by linarith
  then show ?thesis using x unfolding cpr_nl_def nl_table_def by (simp only: find.simps) simp
qed

text \<open>An aircraft at latitude 3: the even code is 65536, the odd one 64444.\<close>

lemma example_pair:
  "cpr_encode_lat 60 3 = 65536" "cpr_encode_lat 59 3 = 64444"
  "\<exists>lon. cpr_decode_airborne 65536 0 64444 0 False = Inr (3, lon)"
  "\<exists>lat lon. cpr_decode_airborne 65536 0 64444 0 True = Inr (lat, lon)"
proof -
  have "\<lfloor>131072 * (3 * of_int 60 / 360) + 1 / 2 :: rat\<rfloor> = 65536" by (intro floor_unique) simp_all
  then show "cpr_encode_lat 60 3 = 65536" by (simp add: cpr_encode_lat_def)
  have "\<lfloor>131072 * (3 * of_int 59 / 360) + 1 / 2 :: rat\<rfloor> = 64444" by (intro floor_unique) simp_all
  then show "cpr_encode_lat 59 3 = 64444" by (simp add: cpr_encode_lat_def)
  have j: "cpr_index 65536 64444 = 0"
    by (subst cpr_index_exact) (simp_all add: floor_unique)
  have r0: "south (zone_lat (dbl (360 / 60)) 0 60 65536) = 3"
    by (subst even_zone_lat) (simp_all add: south_def)
  have d: "0 \<le> dbl (360 / 59)" "dbl (360 / 59) \<le> 7"
  proof -
    have "dbl (360 / 59) \<le> dbl 7" by (intro fp_round_mono) simp_all
    then show "dbl (360 / 59) \<le> 7" using dbl_int[of 7] by simp
  qed (simp add: fp_round_nonneg)
  have z: "zone_lat (dbl (360 / 59)) 0 59 64444 = dbl (dbl (360 / 59) * (64444 / 131072))"
    unfolding zone_lat_def by (subst zone_sum) simp_all
  have "dbl (360 / 59) * (64444 / 131072) \<le> 4" using d by simp
  then have "dbl (dbl (360 / 59) * (64444 / 131072)) \<le> dbl 4" by (intro fp_round_mono) simp_all
  then have r1: "0 \<le> south (zone_lat (dbl (360 / 59)) 0 59 64444)" "south (zone_lat (dbl (360 / 59)) 0 59 64444) \<le> 4"
    using dbl_int[of 4] d by (simp_all add: z south_def fp_round_nonneg)
  then have "cpr_nl (south (zone_lat (dbl (360 / 59)) 0 59 64444)) = cpr_nl 3"
    using nl_equator by simp
  then show "\<exists>lon. cpr_decode_airborne 65536 0 64444 0 False = Inr (3, lon)"
    "\<exists>lat lon. cpr_decode_airborne 65536 0 64444 0 True = Inr (lat, lon)"
    unfolding cpr_decode_airborne_def Let_def j r0 using r1 by auto
qed

lemma latitude_recovered_witness:
  "\<forall>odd_latest. \<exists>lat lon. cpr_decode_airborne (cpr_encode_lat 60 3) 0 (cpr_encode_lat 59 3) 0 odd_latest = Inr (lat, lon) \<and>
    \<bar>lat - 3\<bar> \<le> (if odd_latest then 180 / 59 / 131072 + 1 / 10 ^ 12 else 3 / 131072)"
proof
  fix odd_latest
  obtain lat lon where r: "cpr_decode_airborne (cpr_encode_lat 60 3) 0 (cpr_encode_lat 59 3) 0 odd_latest = Inr (lat, lon)"
    using example_pair by (cases odd_latest) auto
  have "- 90 \<le> (3 :: rat)" "(3 :: rat) \<le> 90" by simp_all
  from latitude_recovered[OF this r] r show "\<exists>lat lon. cpr_decode_airborne (cpr_encode_lat 60 3) 0 (cpr_encode_lat 59 3) 0 odd_latest = Inr (lat, lon) \<and>
    \<bar>lat - 3\<bar> \<le> (if odd_latest then 180 / 59 / 131072 + 1 / 10 ^ 12 else 3 / 131072)" by blast
qed

lemma airborne_position_range_witness:
  "\<exists>lat lon. cpr_decode_airborne 65536 0 64444 0 False = Inr (lat, lon) \<and>
    - 90 \<le> lat \<and> lat \<le> 90 \<and> - 180000002 / 1000000 \<le> lon \<and> lon \<le> 180"
proof -
  obtain lon where r: "cpr_decode_airborne 65536 0 64444 0 False = Inr (3, lon)"
    using example_pair(3) by blast
  from airborne_position_range[OF _ _ _ _ r] r show ?thesis by auto
qed

end
