(* ===== verification/PlaneCat.thy ===== *)
theory PlaneCat
  imports Prelude
begin

text \<open>
  The aircraft category guess of \<open>main/plane_cat.c\<close>: military address blocks and callsign
  prefixes, airline flight numbers, registration marks, and the broadcast category as a fallback.
  A C string is the list of its characters without the terminator; reading at or past its end
  gives the terminator, which every test of the code rejects.
\<close>

section \<open>Characters\<close>

definition cs_at :: "string \<Rightarrow> nat \<Rightarrow> char" where
  "cs_at s i = (if i < length s then s ! i else CHR 0x00)"

definition isdigit :: "char \<Rightarrow> bool" where
  "isdigit c \<longleftrightarrow> (let k = of_char c :: nat in 48 \<le> k \<and> k \<le> 57)"

definition isalpha :: "char \<Rightarrow> bool" where
  "isalpha c \<longleftrightarrow> (let k = of_char c :: nat in 65 \<le> k \<and> k \<le> 90 \<or> 97 \<le> k \<and> k \<le> 122)"

definition toupper :: "char \<Rightarrow> char" where
  "toupper c = (let k = of_char c :: nat in if 97 \<le> k \<and> k \<le> 122 then char_of (k - 32) else c)"

section \<open>Classification\<close>

datatype plane_cat_t = PLANE_UNKNOWN | PLANE_COMMERCIAL | PLANE_GA | PLANE_MILITARY

definition MIL_PREFIXES :: "string list" where
  "MIL_PREFIXES = [''RCH'', ''SAM'', ''PAT'', ''SHADO'', ''KNIFE'', ''GRIM'', ''SPAR'',
     ''CNV'', ''VV'', ''NAVY'', ''MC'', ''ARMY'', ''CG'', ''RRR'', ''NATO'', ''MAGMA'',
     ''CFC'', ''HUSKY'', ''COTAM'', ''GAF'']"

definition MIL_RANGES :: "(u32 \<times> u32) list" where
  "MIL_RANGES = [(0xADF7C8, 0xAFFFFF), (0x43C000, 0x43FFFF), (0x3F8000, 0x3FFFFF),
     (0x3B7000, 0x3B7FFF), (0xC87F00, 0xC87FFF)]"

fun starts_with_ci :: "string \<Rightarrow> string \<Rightarrow> bool" where
  "starts_with_ci s [] = True"
| "starts_with_ci [] (p # pfx) = False"
| "starts_with_ci (c # s) (p # pfx) = (if toupper c \<noteq> toupper p then False else starts_with_ci s pfx)"

definition callsign_is_mil :: "string \<Rightarrow> bool" where
  "callsign_is_mil cs \<longleftrightarrow> list_ex (\<lambda>p. starts_with_ci cs p \<and> isdigit (cs_at cs (length p))) MIL_PREFIXES"

definition icao_is_mil :: "u32 \<Rightarrow> bool" where
  "icao_is_mil icao \<longleftrightarrow> list_ex (\<lambda>(lo, hi). lo \<le> icao \<and> icao \<le> hi) MIL_RANGES"

definition callsign_is_commercial :: "string \<Rightarrow> bool" where
  "callsign_is_commercial cs \<longleftrightarrow>
     isalpha (cs_at cs 0) \<and> isalpha (cs_at cs 1) \<and> isalpha (cs_at cs 2) \<and> isdigit (cs_at cs 3)"

definition callsign_is_ga :: "string \<Rightarrow> bool" where
  "callsign_is_ga cs \<longleftrightarrow>
     (if cs_at cs 0 = CHR ''N'' \<and> isdigit (cs_at cs 1) then True
      else if cs_at cs 0 = CHR ''E'' \<and> cs_at cs 1 = CHR ''I'' \<and> isalpha (cs_at cs 2) then True
      else if (cs_at cs 0 = CHR ''G'' \<or> cs_at cs 0 = CHR ''D'' \<or> cs_at cs 0 = CHR ''F'' \<or>
               cs_at cs 0 = CHR ''C'' \<and> cs_at cs 1 \<noteq> CHR ''F'') \<and>
              isalpha (cs_at cs 1) \<and> isalpha (cs_at cs 2) then True
      else False)"

definition emitter_guess :: "u8 \<Rightarrow> plane_cat_t" where
  "emitter_guess emitter =
     (if emitter = 0xA6 then PLANE_MILITARY
      else if emitter \<in> {0xA3, 0xA4, 0xA5} then PLANE_COMMERCIAL
      else if emitter \<in> {0xA1, 0xA7, 0xB1, 0xB2, 0xB4} then PLANE_GA
      else PLANE_UNKNOWN)"

definition plane_classify :: "u32 \<Rightarrow> string option \<Rightarrow> u8 \<Rightarrow> plane_cat_t" where
  "plane_classify icao callsign emitter =
     (let cs = (case callsign of Some s \<Rightarrow> s | None \<Rightarrow> [])
      in if icao_is_mil icao \<or> callsign_is_mil cs then PLANE_MILITARY
         else if callsign_is_commercial cs then PLANE_COMMERCIAL
         else if callsign_is_ga cs then PLANE_GA
         else emitter_guess emitter)"

definition plane_emitter_label :: "u8 \<Rightarrow> string" where
  "plane_emitter_label emitter =
     (if emitter = 0 then []
      else [char_of (65 + (unat emitter div 16 - 10)), char_of (48 + unat (emitter AND 7))])"

definition plane_cat_label :: "plane_cat_t \<Rightarrow> string" where
  "plane_cat_label c =
     (case c of PLANE_MILITARY \<Rightarrow> ''MIL'' | PLANE_COMMERCIAL \<Rightarrow> ''COM'' | PLANE_GA \<Rightarrow> ''GA''
        | PLANE_UNKNOWN \<Rightarrow> ''UNK'')"

section \<open>Registration marks\<close>

lemma no_digit_at: "\<forall>c\<in>set cs. \<not> isdigit c \<Longrightarrow> \<not> isdigit (cs_at cs i)"
  by (auto simp: cs_at_def isdigit_def Let_def)

text \<open>
  A callsign without digits, such as a registration mark continued by letters, is never taken
  for a military or an airline flight, whichever prefix it starts with: its category comes from
  the address block, the registration rule and the broadcast category alone.
\<close>

theorem registration_not_military:
  assumes "\<forall>c\<in>set cs. \<not> isdigit c"
  shows "plane_classify icao (Some cs) emitter =
    (if icao_is_mil icao then PLANE_MILITARY
     else if callsign_is_ga cs then PLANE_GA else emitter_guess emitter)"
  using no_digit_at[OF assms]
  by (simp add: plane_classify_def callsign_is_mil_def callsign_is_commercial_def list_ex_iff)

lemma registration_not_military_witness:
  "plane_classify 0xC01234 (Some ''CGXYZ'') 0xA1 = PLANE_GA"
proof -
  have "\<forall>c\<in>set ''CGXYZ''. \<not> isdigit c" by code_simp
  from registration_not_military[OF this, of "0xC01234" "0xA1"]
  have "plane_classify 0xC01234 (Some ''CGXYZ'') 0xA1 =
    (if icao_is_mil 0xC01234 then PLANE_MILITARY
     else if callsign_is_ga ''CGXYZ'' then PLANE_GA else emitter_guess 0xA1)" .
  moreover have "\<not> icao_is_mil 0xC01234" "callsign_is_ga ''CGXYZ''" by code_simp+
  ultimately show ?thesis by simp
qed

end
