(* ===== verification/Ring.thy ===== *)
theory Ring
  imports Prelude
begin

text \<open>
  The rings between two tasks: a power-of-two array indexed by free-running \<open>uint32_t\<close> counters,
  the producer moving \<open>head\<close>, the consumer \<open>tail\<close>. Feeds (\<open>main/feed_avr.c\<close>, \<open>main/feed_beast.c\<close>)
  keep formatted lines in one, the USB stream (\<open>main/esp_libusb.c\<close>) bytes. This theory holds the
  ring, the facts about its wrapping indices, and the interface \<open>channel\<close>: what an offer and a
  fetch do to the queue a ring stands for. Components that keep a ring interpret it.
\<close>

record 'a ring =
  r_buf :: "'a list"
  r_head :: u32
  r_tail :: u32

definition ring_count :: "'a ring \<Rightarrow> nat" where
  "ring_count r = unat (r_head r - r_tail r)"

definition ring_index :: "'a ring \<Rightarrow> u32 \<Rightarrow> nat" where
  "ring_index r c = unat c mod length (r_buf r)"

text \<open>The queue the ring holds, oldest first.\<close>

definition ring_content :: "'a ring \<Rightarrow> 'a list" where
  "ring_content r = map (\<lambda>k. r_buf r ! ring_index r (r_tail r + of_nat k)) [0..<ring_count r]"

definition ring_ok :: "'a ring \<Rightarrow> bool" where
  "ring_ok r \<longleftrightarrow> r_buf r \<noteq> [] \<and> length (r_buf r) dvd 2 ^ 32 \<and>
    length (r_buf r) < 2 ^ 32 \<and> ring_count r \<le> length (r_buf r)"

text \<open>\<open>memcpy (buf + off, xs, n)\<close> inside an array.\<close>

definition overlay :: "nat \<Rightarrow> 'a list \<Rightarrow> 'a list \<Rightarrow> 'a list" where
  "overlay off xs b = take off b @ xs @ drop (off + length xs) b"

section \<open>Indices\<close>

lemma length_ring_content [simp]: "length (ring_content r) = ring_count r"
  by (simp add: ring_content_def)

lemma wrap_index:
  assumes "n dvd 2 ^ 32"
  shows "unat (c + of_nat k :: u32) mod n = (unat c + k) mod n"
proof -
  have "unat (c + of_nat k :: u32) = (unat c + k) mod 2 ^ 32"
    by (simp add: unat_word_ariths unsigned_of_nat take_bit_eq_mod mod_simps)
  then show ?thesis using assms by (simp add: mod_mod_cancel)
qed

lemma unat_add_small: "unat c + k < 2 ^ 32 \<Longrightarrow> unat (c + of_nat k :: u32) = unat c + k"
  by (simp add: unat_word_ariths unsigned_of_nat take_bit_eq_mod mod_simps)

lemma unat_diff_add:
  assumes "unat (a - b :: u32) + unat (b - c) < 2 ^ 32"
  shows "unat (a - c) = unat (a - b) + unat (b - c)"
  using unat_add_small[of "a - b" "unat (b - c)"] assms by simp

lemma ring_count_less: "ring_count r < 2 ^ 32"
  unfolding ring_count_def by (rule less_le_trans[OF unsigned_less]) simp

lemma index_inj_aux:
  assumes "i \<le> j" "j < n" "(a + i) mod n = (a + j) mod (n :: nat)"
  shows "i = j"
proof -
  have "n dvd (a + j) - (a + i)" using assms(3) by (metis mod_eq_dvd_iff_nat assms(1) add_left_mono)
  then have "n dvd j - i" by simp
  then show ?thesis using assms(1,2) by (auto dest: dvd_imp_le)
qed

lemma index_inj:
  assumes "i < n" "j < n" "(a + i) mod n = (a + j) mod (n :: nat)"
  shows "i = j"
  using index_inj_aux[of i j n a] index_inj_aux[of j i n a] assms by (cases "i \<le> j") auto

lemma length_overlay [simp]: "off + length xs \<le> length b \<Longrightarrow> length (overlay off xs b) = length b"
  by (simp add: overlay_def)

lemma nth_overlay:
  "off + length xs \<le> length b \<Longrightarrow> i < length b \<Longrightarrow>
    overlay off xs b ! i = (if i < off \<or> off + length xs \<le> i then b ! i else xs ! (i - off))"
  by (auto simp: overlay_def nth_append)

section \<open>Reading and writing through the counters\<close>

lemma ring_content_nth:
  "ring_ok r \<Longrightarrow> k < ring_count r \<Longrightarrow>
    ring_content r ! k = r_buf r ! ((unat (r_tail r) + k) mod length (r_buf r))"
  by (simp add: ring_content_def ring_index_def ring_ok_def wrap_index)

lemma head_index:
  assumes "ring_ok r"
  shows "(unat (r_head r) + k) mod length (r_buf r) = (unat (r_tail r) + (ring_count r + k)) mod length (r_buf r)"
proof -
  let ?n = "length (r_buf r)"
  have d: "?n dvd 2 ^ 32" using assms by (simp add: ring_ok_def)
  have "r_head r = r_tail r + of_nat (ring_count r)" by (simp add: ring_count_def)
  then have "unat (r_head r) mod ?n = (unat (r_tail r) + ring_count r) mod ?n"
    by (metis wrap_index[OF d])
  then show ?thesis by (metis add.assoc mod_add_left_eq)
qed

text \<open>Writing the cells after the head and moving it appends to the queue.\<close>

lemma ring_put:
  assumes ok: "ring_ok r" and room: "ring_count r + length xs \<le> length (r_buf r)"
    and len: "length b = length (r_buf r)"
    and new: "\<And>k. k < length xs \<Longrightarrow> b ! ((unat (r_head r) + k) mod length b) = xs ! k"
    and old: "\<And>i. i < length b \<Longrightarrow> (\<And>k. k < length xs \<Longrightarrow> i \<noteq> (unat (r_head r) + k) mod length b) \<Longrightarrow>
      b ! i = r_buf r ! i"
  defines "r' \<equiv> r\<lparr>r_buf := b, r_head := r_head r + of_nat (length xs)\<rparr>"
  shows "ring_ok r' \<and> ring_content r' = ring_content r @ xs"
proof -
  let ?n = "length (r_buf r)"
  have d: "?n dvd 2 ^ 32" and ne: "0 < ?n" and lt: "?n < 2 ^ 32" using ok by (simp_all add: ring_ok_def)
  have c': "ring_count r' = ring_count r + length xs"
    using room lt unat_add_small[of "r_head r - r_tail r" "length xs"]
    by (simp add: ring_count_def r'_def flip: diff_add_eq)
  have ok': "ring_ok r'"
    using ok room len c' by (auto simp: ring_ok_def r'_def)
  have "ring_content r' ! k = (ring_content r @ xs) ! k" if k: "k < ring_count r'" for k
  proof -
    have r: "ring_content r' ! k = b ! ((unat (r_tail r) + k) mod ?n)"
      using ring_content_nth[OF ok' k] len by (simp add: r'_def)
    show ?thesis
    proof (cases "k < ring_count r")
      case True
      have "b ! ((unat (r_tail r) + k) mod ?n) = r_buf r ! ((unat (r_tail r) + k) mod ?n)"
      proof (rule old)
        fix j assume "j < length xs"
        then show "(unat (r_tail r) + k) mod ?n \<noteq> (unat (r_head r) + j) mod length b"
          using head_index[OF ok, of j] index_inj[of k ?n "ring_count r + j" "unat (r_tail r)"] True room len by auto
      qed (use ne len in simp)
      with True r show ?thesis by (simp add: nth_append ring_content_nth[OF ok])
    next
      case False
      then have "b ! ((unat (r_tail r) + k) mod ?n) = xs ! (k - ring_count r)"
        using new[of "k - ring_count r"] head_index[OF ok, of "k - ring_count r"] c' k len by auto
      with False r show ?thesis by (simp add: nth_append)
    qed
  qed
  then have "ring_content r' = ring_content r @ xs"
    using c' by (intro nth_equalityI) simp_all
  with ok' show ?thesis by simp
qed

text \<open>A cell outside the queue can be written.\<close>

lemma ring_spare:
  assumes ok: "ring_ok r" and room: "ring_count r < length (r_buf r)"
    and r': "r' = r\<lparr>r_buf := (r_buf r)[ring_index r (r_head r) := x]\<rparr>"
  shows "ring_content r' = ring_content r" "ring_ok r'" "ring_count r' = ring_count r"
proof -
  have ne: "0 < length (r_buf r)" using room by linarith
  show c: "ring_count r' = ring_count r" by (simp add: ring_count_def r')
  show ok': "ring_ok r'" using ok c by (auto simp: ring_ok_def r')
  show "ring_content r' = ring_content r"
  proof (rule nth_equalityI)
    fix k assume "k < length (ring_content r')"
    then have k: "k < ring_count r" using c by simp
    let ?i = "(unat (r_tail r) + k) mod length (r_buf r)"
    have "ring_index r (r_head r) \<noteq> ?i"
      using head_index[OF ok, of 0] index_inj[of k "length (r_buf r)" "ring_count r" "unat (r_tail r)"] k room
      by (auto simp: ring_index_def)
    then show "ring_content r' ! k = ring_content r ! k"
      using ring_content_nth[OF ok k] ring_content_nth[OF ok', of k] k c by (simp add: r')
  qed (simp add: c)
qed

text \<open>Moving the tail drops the oldest elements.\<close>

lemma ring_get:
  assumes "ring_ok r" "m \<le> ring_count r"
  defines "r' \<equiv> r\<lparr>r_tail := r_tail r + of_nat m\<rparr>"
  shows "ring_ok r' \<and> ring_content r' = drop m (ring_content r)"
proof -
  note lt = ring_count_less[of r]
  have "r_head r - (r_tail r + of_nat m) = of_nat (ring_count r - m)"
    using assms(2) by (simp add: ring_count_def)
  then have c': "ring_count r' = ring_count r - m"
    using lt by (simp add: ring_count_def r'_def unsigned_of_nat take_bit_eq_mod)
  moreover have "ring_ok r'" using assms c' by (auto simp: ring_ok_def r'_def)
  moreover have "ring_content r' = drop m (ring_content r)"
    using c' by (intro nth_equalityI) (simp_all add: ring_content_def r'_def add.assoc ring_index_def
        less_diff_conv add.commute[of _ m])
  ultimately show ?thesis by simp
qed

section \<open>The interface of a ring between two tasks\<close>

text \<open>
  One task offers items, the other fetches; an item is accepted whole or refused whole. A run of
  such operations returns the elements fetched and the elements accepted, in order.
\<close>

datatype ('c, 'd) channel_op = Offer 'c | Fetch 'd

primrec channel_run ::
  "('c \<Rightarrow> 's \<Rightarrow> bool) \<Rightarrow> ('c \<Rightarrow> 'a list) \<Rightarrow> ('c \<Rightarrow> 's \<Rightarrow> 's) \<Rightarrow> ('d \<Rightarrow> 's \<Rightarrow> 'a list \<times> 's) \<Rightarrow>
   ('c, 'd) channel_op list \<Rightarrow> 's \<Rightarrow> 'a list \<times> 'a list \<times> 's" where
  "channel_run accepts enc offer fetch [] s = ([], [], s)"
| "channel_run accepts enc offer fetch (x # xs) s =
     (case x of
        Offer c \<Rightarrow>
          (case channel_run accepts enc offer fetch xs (offer c s) of
             (out, acc, s') \<Rightarrow> (out, (if accepts c s then enc c else []) @ acc, s'))
      | Fetch d \<Rightarrow>
          (case fetch d s of (ys, s1) \<Rightarrow>
             case channel_run accepts enc offer fetch xs s1 of
               (out, acc, s') \<Rightarrow> (ys @ out, acc, s')))"

locale channel =
  fixes ok :: "'s \<Rightarrow> bool"
    and content :: "'s \<Rightarrow> 'a list"
    and accepts :: "'c \<Rightarrow> 's \<Rightarrow> bool"
    and enc :: "'c \<Rightarrow> 'a list"
    and offer :: "'c \<Rightarrow> 's \<Rightarrow> 's"
    and fetch :: "'d \<Rightarrow> 's \<Rightarrow> 'a list \<times> 's"
  assumes offer_ok: "ok s \<Longrightarrow> ok (offer c s)"
    and offer_content: "ok s \<Longrightarrow> content (offer c s) = content s @ (if accepts c s then enc c else [])"
    and fetch_ok: "ok s \<Longrightarrow> fetch d s = (ys, s') \<Longrightarrow> ok s'"
    and fetch_content: "ok s \<Longrightarrow> fetch d s = (ys, s') \<Longrightarrow> content s = ys @ content s'"
begin

lemma run_fifo:
  assumes "ok s" "channel_run accepts enc offer fetch xs s = (out, acc, s')"
  shows "ok s' \<and> content s @ acc = out @ content s'"
  using assms
proof (induction xs arbitrary: s out acc)
  case (Cons x xs)
  show ?case
  proof (cases x)
    case (Offer c)
    with Cons.prems obtain acc1 where r: "channel_run accepts enc offer fetch xs (offer c s) = (out, acc1, s')"
      and a: "acc = (if accepts c s then enc c else []) @ acc1"
      by (auto split: prod.splits)
    from Cons.IH[OF offer_ok[OF Cons.prems(1)] r] a show ?thesis
      by (simp add: offer_content[OF Cons.prems(1)])
  next
    case (Fetch d)
    obtain ys s1 where f: "fetch d s = (ys, s1)" by fastforce
    with Cons.prems Fetch obtain out1 where r: "channel_run accepts enc offer fetch xs s1 = (out1, acc, s')"
      and o: "out = ys @ out1"
      by (auto split: prod.splits)
    from Cons.IH[OF fetch_ok[OF Cons.prems(1) f] r] o show ?thesis
      by (simp add: fetch_content[OF Cons.prems(1) f])
  qed
qed simp

end

end
