(* ===== verification/TcpFeed.thy ===== *)
theory TcpFeed
  imports Ring "HOL-Library.Multiset"
begin

text \<open>
  What the three TCP feeds (\<open>main/feed_avr.c\<close>, \<open>main/feed_beast.c\<close>, \<open>main/feed_json.c\<close>) have in
  common: a listening socket, a table of \<open>MAX_CLIENTS\<close> slots, the counter \<open>s_nclients\<close> and loops
  that visit every live slot. The results of the socket calls are arguments; what the code asks of
  the network is recorded as events. The interface \<open>slot_handler\<close> says what the body of such a loop
  owes the table; each feed interprets it for each of its loops.
\<close>

section \<open>The table\<close>

definition MAX_CLIENTS :: nat where
  "MAX_CLIENTS = 4"

record client =
  c_fd :: int
  c_stall :: u16

datatype net_event =
  Opened int | Closed int | Listening int int | Option int string int | Sent int "u8 list" | Logged string

record conns =
  s_listen :: int
  s_cli :: "client list"
  s_nclients :: int
  s_events :: "net_event list"

text \<open>\<open>EWOULDBLOCK\<close> and \<open>EAGAIN\<close> are one number in lwIP. A call returns a count or -1 with \<open>errno\<close>.\<close>

definition EAGAIN :: int where
  "EAGAIN = 11"

definition would_block :: "int \<Rightarrow> bool" where
  "would_block errno \<longleftrightarrow> errno = EAGAIN"

type_synonym sock_result = "int \<times> int"

definition record_event :: "net_event \<Rightarrow> 'a conns_scheme \<Rightarrow> 'a conns_scheme" where
  "record_event e s = s\<lparr>s_events := s_events s @ [e]\<rparr>"

definition set_option :: "int \<Rightarrow> string \<times> int \<Rightarrow> 'a conns_scheme \<Rightarrow> 'a conns_scheme" where
  "set_option fd ov s = record_event (Option fd (fst ov) (snd ov)) s"

definition slot_fd :: "nat \<Rightarrow> 'a conns_scheme \<Rightarrow> int" where
  "slot_fd i s = c_fd (s_cli s ! i)"

definition slot_clear :: "nat \<Rightarrow> 'a conns_scheme \<Rightarrow> 'a conns_scheme" where
  "slot_clear i s = (record_event (Closed (slot_fd i s)) s)
     \<lparr>s_cli := (s_cli s)[i := \<lparr>c_fd = -1, c_stall = 0\<rparr>], s_nclients := s_nclients s - 1\<rparr>"

definition set_stall :: "nat \<Rightarrow> u16 \<Rightarrow> 'a conns_scheme \<Rightarrow> 'a conns_scheme" where
  "set_stall i v s = s\<lparr>s_cli := (s_cli s)[i := (s_cli s ! i)\<lparr>c_stall := v\<rparr>]\<rparr>"

definition tcp_listen_open :: "int \<Rightarrow> int \<Rightarrow> int \<Rightarrow> bool \<Rightarrow> bool \<Rightarrow> 'a conns_scheme \<Rightarrow> 'a conns_scheme" where
  "tcp_listen_open port backlog fd bind_ok listen_ok s =
     (if fd < 0 then s
      else let s = set_option fd (''SO_REUSEADDR'', 1) (record_event (Opened fd) s)
           in if \<not> bind_ok \<or> \<not> listen_ok then record_event (Closed fd) s
              else record_event (Listening port backlog)
                     ((set_option fd (''O_NONBLOCK'', 1) s)\<lparr>s_listen := fd\<rparr>))"

definition free_slot :: "'a conns_scheme \<Rightarrow> nat option" where
  "free_slot s = find (\<lambda>i. slot_fd i s < 0) [0..<MAX_CLIENTS]"

definition slot_open :: "(string \<times> int) list \<Rightarrow> nat \<Rightarrow> int \<Rightarrow> 'a conns_scheme \<Rightarrow> 'a conns_scheme" where
  "slot_open opts i fd s =
     (fold (set_option fd) opts s)\<lparr>s_cli := (s_cli s)[i := \<lparr>c_fd = fd, c_stall = 0\<rparr>], s_nclients := s_nclients s + 1\<rparr>"

definition tcp_accept :: "(string \<times> int) list \<Rightarrow> int \<Rightarrow> 'a conns_scheme \<Rightarrow> 'a conns_scheme" where
  "tcp_accept opts fd s =
     (let s = record_event (Opened fd) s
      in case free_slot s of
           None \<Rightarrow> record_event (Closed fd) s
         | Some i \<Rightarrow> slot_open opts i fd s)"

definition for_slots :: "(nat \<Rightarrow> 'a conns_scheme \<Rightarrow> 'a conns_scheme) \<Rightarrow> 'a conns_scheme \<Rightarrow> 'a conns_scheme" where
  "for_slots h s = fold (\<lambda>i s. if slot_fd i s < 0 then s else h i s) [0..<MAX_CLIENTS] s"

section \<open>The invariant of the table\<close>

text \<open>
  \<open>s_nclients\<close> counts the live slots, an empty slot has no stalls, no slot has more than the limit,
  and every descriptor the network handed out is either held or was closed, exactly once.
\<close>

definition held :: "'a conns_scheme \<Rightarrow> int list" where
  "held s = filter (\<lambda>fd. 0 \<le> fd) (s_listen s # map c_fd (s_cli s))"

definition opened_fds :: "net_event list \<Rightarrow> int list" where
  "opened_fds es = concat (map (\<lambda>e. case e of Opened fd \<Rightarrow> [fd] | _ \<Rightarrow> []) es)"

definition closed_fds :: "net_event list \<Rightarrow> int list" where
  "closed_fds es = concat (map (\<lambda>e. case e of Closed fd \<Rightarrow> [fd] | _ \<Rightarrow> []) es)"

definition live_slots :: "client list \<Rightarrow> nat" where
  "live_slots cs = length (filter (\<lambda>c. 0 \<le> c_fd c) cs)"

definition slot_ok :: "nat \<Rightarrow> client \<Rightarrow> bool" where
  "slot_ok limit c \<longleftrightarrow> unat (c_stall c) \<le> limit \<and> (c_fd c < 0 \<longrightarrow> c_stall c = 0)"

definition conns_ok :: "nat \<Rightarrow> 'a conns_scheme \<Rightarrow> bool" where
  "conns_ok limit s \<longleftrightarrow> length (s_cli s) = MAX_CLIENTS \<and> s_nclients s = int (live_slots (s_cli s)) \<and>
     (\<forall>c \<in> set (s_cli s). slot_ok limit c) \<and>
     mset (opened_fds (s_events s)) = mset (closed_fds (s_events s)) + mset (held s)"

named_theorems conns_intros \<open>steps that keep the table\<close>

lemma event_fds [simp]:
  "opened_fds (es @ fs) = opened_fds es @ opened_fds fs"
  "closed_fds (es @ fs) = closed_fds es @ closed_fds fs"
  "opened_fds [] = []" "closed_fds [] = []"
  "opened_fds [e] = (case e of Opened fd \<Rightarrow> [fd] | _ \<Rightarrow> [])"
  "closed_fds [e] = (case e of Closed fd \<Rightarrow> [fd] | _ \<Rightarrow> [])"
  by (simp_all add: opened_fds_def closed_fds_def)

lemma record_event_simps [simp]:
  "s_listen (record_event e s) = s_listen s" "s_cli (record_event e s) = s_cli s"
  "s_nclients (record_event e s) = s_nclients s" "s_events (record_event e s) = s_events s @ [e]"
  by (simp_all add: record_event_def)

lemma slot_fd_event [simp]: "slot_fd i (record_event e s) = slot_fd i s"
  by (simp add: slot_fd_def)

lemma set_option_simps [simp]:
  "s_listen (set_option fd ov s) = s_listen s" "s_cli (set_option fd ov s) = s_cli s"
  "s_nclients (set_option fd ov s) = s_nclients s"
  by (simp_all add: set_option_def)

lemma set_options_simps [simp]:
  "s_listen (fold (set_option fd) opts s) = s_listen s" "s_cli (fold (set_option fd) opts s) = s_cli s"
  "s_nclients (fold (set_option fd) opts s) = s_nclients s"
  by (induction opts arbitrary: s) simp_all

lemma event_ok [conns_intros]:
  "conns_ok n s \<Longrightarrow> (\<And>fd. e \<noteq> Opened fd \<and> e \<noteq> Closed fd) \<Longrightarrow> conns_ok n (record_event e s)"
  by (cases e) (auto simp: conns_ok_def held_def)

lemma option_ok [conns_intros]: "conns_ok n s \<Longrightarrow> conns_ok n (set_option fd ov s)"
  unfolding set_option_def by (rule event_ok) simp_all

lemma fold_option_ok: "conns_ok n s \<Longrightarrow> conns_ok n (fold (set_option fd) opts s)"
  by (induction opts arbitrary: s) (simp_all add: option_ok)

text \<open>A descriptor that is opened and closed again leaves the table as it was.\<close>

definition with_fd :: "int \<Rightarrow> nat \<Rightarrow> 'a conns_scheme \<Rightarrow> bool" where
  "with_fd fd limit s \<longleftrightarrow> length (s_cli s) = MAX_CLIENTS \<and> s_nclients s = int (live_slots (s_cli s)) \<and>
     (\<forall>c \<in> set (s_cli s). slot_ok limit c) \<and>
     mset (opened_fds (s_events s)) = add_mset fd (mset (closed_fds (s_events s)) + mset (held s))"

lemma with_fd_open: "conns_ok n s \<Longrightarrow> with_fd fd n (record_event (Opened fd) s)"
  by (simp add: conns_ok_def with_fd_def held_def)

lemma with_fd_option: "with_fd fd n s \<Longrightarrow> with_fd fd n (set_option fd' ov s)"
  by (simp add: with_fd_def held_def set_option_def)

lemma with_fd_options: "with_fd fd n s \<Longrightarrow> with_fd fd n (fold (set_option fd') opts s)"
  by (induction opts arbitrary: s) (simp_all add: with_fd_option)

lemma with_fd_close: "with_fd fd n s \<Longrightarrow> conns_ok n (record_event (Closed fd) s)"
  by (simp add: conns_ok_def with_fd_def held_def)

lemma with_fd_listen:
  "with_fd fd n s \<Longrightarrow> s_listen s < 0 \<Longrightarrow> 0 \<le> fd \<Longrightarrow> conns_ok n (s\<lparr>s_listen := fd\<rparr>)"
  by (simp add: conns_ok_def with_fd_def held_def)

lemma split_at: "i < length xs \<Longrightarrow> \<exists>as bs. xs = as @ xs ! i # bs \<and> (\<forall>x. xs[i := x] = as @ x # bs)"
  by (intro exI[of _ "take i xs"] exI[of _ "drop (Suc i) xs"]) (auto simp: upd_conv_take_nth_drop id_take_nth_drop[symmetric])

lemma with_fd_slot:
  assumes "with_fd fd n s" "i < MAX_CLIENTS" "slot_fd i s < 0" "0 \<le> fd"
  shows "conns_ok n (s\<lparr>s_cli := (s_cli s)[i := \<lparr>c_fd = fd, c_stall = 0\<rparr>], s_nclients := s_nclients s + 1\<rparr>)"
proof -
  have "i < length (s_cli s)" using assms(1,2) by (simp add: with_fd_def)
  from split_at[OF this] obtain as bs where "s_cli s = as @ s_cli s ! i # bs" "\<And>x. (s_cli s)[i := x] = as @ x # bs"
    by blast
  moreover define c where "c = s_cli s ! i"
  ultimately have "s_cli s = as @ c # bs" "\<And>x. (s_cli s)[i := x] = as @ x # bs" "c_fd c < 0"
    using assms(3) by (simp_all add: slot_fd_def)
  then show ?thesis using assms(1,4)
    by (auto simp: with_fd_def conns_ok_def held_def live_slots_def slot_ok_def)
qed

lemma slot_clear_ok [conns_intros]:
  assumes "conns_ok n s" "i < MAX_CLIENTS" "0 \<le> slot_fd i s"
  shows "conns_ok n (slot_clear i s)"
proof -
  have "i < length (s_cli s)" using assms(1,2) by (simp add: conns_ok_def)
  from split_at[OF this] obtain as bs where "s_cli s = as @ s_cli s ! i # bs" "\<And>x. (s_cli s)[i := x] = as @ x # bs"
    by blast
  moreover define c where "c = s_cli s ! i"
  ultimately have "s_cli s = as @ c # bs" "\<And>x. (s_cli s)[i := x] = as @ x # bs" "0 \<le> c_fd c" "slot_fd i s = c_fd c"
    using assms(3) by (simp_all add: slot_fd_def)
  then show ?thesis using assms(1)
    by (auto simp: slot_clear_def conns_ok_def held_def live_slots_def slot_ok_def)
qed

lemma set_stall_ok [conns_intros]:
  assumes "conns_ok n s" "i < MAX_CLIENTS" "0 \<le> slot_fd i s" "unat v \<le> n"
  shows "conns_ok n (set_stall i v s)"
proof -
  have "i < length (s_cli s)" using assms(1,2) by (simp add: conns_ok_def)
  from split_at[OF this] obtain as bs where "s_cli s = as @ s_cli s ! i # bs" "\<And>x. (s_cli s)[i := x] = as @ x # bs"
    by blast
  moreover define c where "c = s_cli s ! i"
  ultimately have "s_cli s = as @ c # bs" "\<And>x. (s_cli s)[i := x] = as @ x # bs" "0 \<le> c_fd c" "s_cli s ! i = c"
    using assms(3) by (simp_all add: slot_fd_def)
  then show ?thesis using assms(1,4)
    by (auto simp: set_stall_def conns_ok_def held_def live_slots_def slot_ok_def)
qed

text \<open>Closing a slot forgets the stall that was just counted.\<close>

lemma slot_clear_set_stall [simp]: "i < length (s_cli s) \<Longrightarrow> slot_clear i (set_stall i v s) = slot_clear i s"
  by (simp add: slot_clear_def set_stall_def slot_fd_def record_event_def)

lemma set_stall_simps [simp]:
  "i < length (s_cli s) \<Longrightarrow> c_stall (s_cli (set_stall i v s) ! i) = v"
  by (simp add: set_stall_def)

section \<open>Listening, accepting, visiting every slot\<close>

lemma tcp_listen_open_ok [conns_intros]:
  assumes "conns_ok n s" "s_listen s < 0"
  shows "conns_ok n (tcp_listen_open port backlog fd b l s)"
proof (cases "fd < 0")
  case False
  have w: "with_fd fd n (set_option fd ov (record_event (Opened fd) s))" for ov
    by (intro with_fd_option with_fd_open assms)
  show ?thesis
    using False assms(2) by (auto simp: tcp_listen_open_def Let_def intro!: with_fd_close w event_ok
        with_fd_listen with_fd_option)
qed (simp add: tcp_listen_open_def assms)

lemma free_slot_SomeD: "free_slot s = Some i \<Longrightarrow> i < MAX_CLIENTS \<and> slot_fd i s < 0"
  unfolding free_slot_def by (blast dest: find_upt_SomeD)

lemma tcp_accept_ok [conns_intros]:
  assumes "conns_ok n s" "0 \<le> fd"
  shows "conns_ok n (tcp_accept opts fd s)"
proof (cases "free_slot (record_event (Opened fd) s)")
  case None
  then show ?thesis using assms(1)
    by (simp add: tcp_accept_def Let_def with_fd_close with_fd_open)
next
  case (Some i)
  let ?s = "record_event (Opened fd) s"
  have "conns_ok n (slot_open opts i fd ?s)"
    unfolding slot_open_def
    using with_fd_slot[OF with_fd_options[OF with_fd_open[OF assms(1), of fd], of fd opts], of i] free_slot_SomeD[OF Some] assms(2)
    by (simp add: slot_fd_def)
  then show ?thesis using Some by (simp add: tcp_accept_def Let_def)
qed

lemma for_slots_frame:
  assumes "\<And>i s. f (h i s) = f s" shows "f (for_slots h s) = f s"
proof -
  have "f (fold (\<lambda>i s. if slot_fd i s < 0 then s else h i s) is s) = f s" for "is"
    by (induction "is" arbitrary: s) (simp_all add: assms)
  then show ?thesis by (simp add: for_slots_def)
qed

text \<open>A loop over the slots does to slot \<open>i\<close> what its body does there, and nothing else.\<close>

lemma for_slots_at:
  assumes other: "\<And>j s. j \<noteq> i \<Longrightarrow> s_cli (h j s) ! i = s_cli s ! i"
    and len: "\<And>j s. length (s_cli (h j s)) = length (s_cli s)"
    and at_i: "\<And>s. i < length (s_cli s) \<Longrightarrow> s_cli s ! i = c \<Longrightarrow> s_cli (h i s) ! i = c'"
    and i: "i < MAX_CLIENTS" "length (s_cli s) = MAX_CLIENTS" and c: "s_cli s ! i = c" "0 \<le> c_fd c"
  shows "s_cli (for_slots h s) ! i = c'"
proof -
  define go where "go = fold (\<lambda>j s. if slot_fd j s < 0 then s else h j s)"
  have skip: "s_cli (go js t) ! i = s_cli t ! i" if "i \<notin> set js" for js t
    using that by (induction js arbitrary: t) (auto simp: go_def other)
  have keep: "length (s_cli (go js t)) = length (s_cli t)" for js t
    by (induction js arbitrary: t) (auto simp: go_def len)
  have "[0..<MAX_CLIENTS] = [0..<i] @ i # [Suc i..<MAX_CLIENTS]"
    using i(1) upt_add_eq_append[of 0 i "MAX_CLIENTS - i"] by (simp add: upt_conv_Cons)
  then have "for_slots h s = go [Suc i..<MAX_CLIENTS] (h i (go [0..<i] s))"
    using c skip[of "[0..<i]" s] by (simp add: for_slots_def go_def slot_fd_def)
  then show ?thesis
    using skip[of "[Suc i..<MAX_CLIENTS]"] at_i[of "go [0..<i] s"] skip[of "[0..<i]" s] keep[of "[0..<i]" s] i c
    by simp
qed

lemma conns_ok_bounds:
  assumes "conns_ok n s"
  shows "0 \<le> s_nclients s" "s_nclients s \<le> int MAX_CLIENTS"
  using assms length_filter_le[of "\<lambda>c. 0 \<le> c_fd c" "s_cli s"] by (simp_all add: conns_ok_def live_slots_def)

locale slot_handler =
  fixes limit :: nat and handle :: "nat \<Rightarrow> 'a conns_scheme \<Rightarrow> 'a conns_scheme"
  assumes handle_ok: "conns_ok limit s \<Longrightarrow> i < MAX_CLIENTS \<Longrightarrow> 0 \<le> slot_fd i s \<Longrightarrow> conns_ok limit (handle i s)"
begin

lemma visit_ok:
  assumes "conns_ok limit s" "set is \<subseteq> {0..<MAX_CLIENTS}"
  shows "conns_ok limit (fold (\<lambda>i s. if slot_fd i s < 0 then s else handle i s) is s)"
  using assms by (induction "is" arbitrary: s) (simp_all add: handle_ok)

lemma for_slots_ok: "conns_ok limit s \<Longrightarrow> conns_ok limit (for_slots handle s)"
  unfolding for_slots_def by (rule visit_ok) simp_all

end

text \<open>A loop that counts the misses of slot \<open>i\<close> and closes it beyond the limit.\<close>

locale stalling = slot_handler limit handle
  for limit :: nat and handle :: "nat \<Rightarrow> 'a conns_scheme \<Rightarrow> 'a conns_scheme" +
  fixes i :: nat
  assumes other: "j \<noteq> i \<Longrightarrow> s_cli (handle j s) ! i = s_cli s ! i"
    and len: "length (s_cli (handle j s)) = length (s_cli s)"
    and miss: "i < length (s_cli s) \<Longrightarrow> unat (c_stall (s_cli s ! i)) \<le> limit \<Longrightarrow>
      s_cli (handle i s) ! i = (if limit \<le> unat (c_stall (s_cli s ! i)) then \<lparr>c_fd = -1, c_stall = 0\<rparr>
        else (s_cli s ! i)\<lparr>c_stall := c_stall (s_cli s ! i) + 1\<rparr>)"
    and limit_small: "limit < 2 ^ 16 - 1"
begin

lemma one_miss:
  assumes "conns_ok limit s" "i < MAX_CLIENTS" "0 \<le> slot_fd i s"
  shows "s_cli (for_slots handle s) ! i =
    (if limit \<le> unat (c_stall (s_cli s ! i)) then \<lparr>c_fd = -1, c_stall = 0\<rparr>
     else (s_cli s ! i)\<lparr>c_stall := c_stall (s_cli s ! i) + 1\<rparr>)"
proof (rule for_slots_at[where c = "s_cli s ! i"])
  have "i < length (s_cli s)" using assms by (simp add: conns_ok_def)
  then have "unat (c_stall (s_cli s ! i)) \<le> limit" using assms(1) by (auto simp: conns_ok_def slot_ok_def)
  then show "s_cli (handle i t) ! i = (if limit \<le> unat (c_stall (s_cli s ! i)) then \<lparr>c_fd = -1, c_stall = 0\<rparr>
      else (s_cli s ! i)\<lparr>c_stall := c_stall (s_cli s ! i) + 1\<rparr>)"
    if "i < length (s_cli t)" "s_cli t ! i = s_cli s ! i" for t
    using that miss[of t] by simp
qed (use assms in \<open>auto simp: other len conns_ok_def slot_fd_def\<close>)

lemma closes:
  assumes "conns_ok limit s" "i < MAX_CLIENTS" "0 \<le> slot_fd i s"
  shows "\<exists>k \<le> limit + 1 - unat (c_stall (s_cli s ! i)). slot_fd i ((for_slots handle ^^ k) s) < 0"
  using assms
proof (induction "limit - unat (c_stall (s_cli s ! i))" arbitrary: s)
  case 0
  then have "slot_fd i (for_slots handle s) < 0" using one_miss[of s] by (simp add: slot_fd_def)
  moreover have "unat (c_stall (s_cli s ! i)) \<le> limit"
    using 0 by (auto simp: conns_ok_def slot_ok_def)
  ultimately show ?case by (intro exI[of _ 1]) simp
next
  case (Suc d)
  let ?s = "for_slots handle s" and ?v = "c_stall (s_cli s ! i)"
  have lt: "unat ?v < limit" using Suc.hyps(2) by simp
  then have v: "unat (?v + 1) = unat ?v + 1"
    using limit_small by (simp add: unat_word_ariths)
  have c: "s_cli ?s ! i = (s_cli s ! i)\<lparr>c_stall := ?v + 1\<rparr>" using one_miss[OF Suc.prems] lt by simp
  have ok: "conns_ok limit ?s" and fd: "0 \<le> slot_fd i ?s"
    using Suc.prems for_slots_ok c by (simp_all add: slot_fd_def)
  have "d = limit - unat (c_stall (s_cli ?s ! i))" using Suc.hyps(2) c v by simp
  from Suc.hyps(1)[OF this ok Suc.prems(2) fd] obtain k where k: "k \<le> limit + 1 - unat (c_stall (s_cli ?s ! i))" "slot_fd i ((for_slots handle ^^ k) ?s) < 0"
    by blast
  then show ?case using c v lt by (intro exI[of _ "Suc k"]) (simp add: funpow_swap1)
qed

end

end
