(* ===== verification/Spsc.thy ===== *)
theory Spsc
  imports Ring "HOL-Library.Sublist"
begin

text \<open>
  The lock-free ring of the feeds at the grain of its memory accesses. The producer
  (\<open>feed_avr_push\<close> on the demodulation core) loads the tail, writes the slot and then publishes the
  head; the consumer (\<open>drain\<close> on the other core) loads the head, copies slot by slot and then
  publishes the tail. Either side may read the other's counter stale: the producer any value between
  the last tail it saw and the current one, the consumer any head at or after its own tail. Slot
  writes are seen once the head after them is (the release/acquire pair of the code).
\<close>

definition RING_SLOTS :: nat where
  "RING_SLOTS = 128"

datatype 'a producer = P_idle | P_write 'a | P_publish 'a

datatype 'a consumer = C_idle | C_copy u32 u32 "'a list"

record 'a spsc =
  sp_ring :: "'a ring"
  sp_prod :: "'a producer"
  sp_cons :: "'a consumer"
  sp_seen :: u32
  sp_accepted :: "'a list"
  sp_delivered :: "'a list"
  sp_dropped :: nat

definition may_read_tail :: "'a spsc \<Rightarrow> u32 \<Rightarrow> bool" where
  "may_read_tail s v \<longleftrightarrow> r_tail (sp_ring s) - v \<le> r_tail (sp_ring s) - sp_seen s"

definition may_read_head :: "'a spsc \<Rightarrow> u32 \<Rightarrow> bool" where
  "may_read_head s h \<longleftrightarrow> h - r_tail (sp_ring s) \<le> r_head (sp_ring s) - r_tail (sp_ring s)"

inductive push_step :: "'a spsc \<Rightarrow> 'a spsc \<Rightarrow> bool" where
  push_full: "sp_prod s = P_idle \<Longrightarrow> may_read_tail s v \<Longrightarrow> of_nat RING_SLOTS \<le> r_head (sp_ring s) - v \<Longrightarrow>
    push_step s (s\<lparr>sp_seen := v, sp_dropped := sp_dropped s + 1\<rparr>)"
| push_check: "sp_prod s = P_idle \<Longrightarrow> may_read_tail s v \<Longrightarrow> \<not> of_nat RING_SLOTS \<le> r_head (sp_ring s) - v \<Longrightarrow>
    push_step s (s\<lparr>sp_seen := v, sp_prod := P_write x\<rparr>)"
| push_write: "sp_prod s = P_write x \<Longrightarrow>
    push_step s (s\<lparr>sp_ring := (sp_ring s)\<lparr>r_buf := (r_buf (sp_ring s))
        [unat (r_head (sp_ring s) AND of_nat (RING_SLOTS - 1)) := x]\<rparr>,
      sp_prod := P_publish x\<rparr>)"
| push_publish: "sp_prod s = P_publish x \<Longrightarrow>
    push_step s (s\<lparr>sp_ring := (sp_ring s)\<lparr>r_head := r_head (sp_ring s) + 1\<rparr>, sp_prod := P_idle,
      sp_accepted := sp_accepted s @ [x]\<rparr>)"

inductive drain_step :: "('a list \<Rightarrow> bool) \<Rightarrow> 'a spsc \<Rightarrow> 'a spsc \<Rightarrow> bool"
  for full where
  drain_load: "sp_cons s = C_idle \<Longrightarrow> may_read_head s h \<Longrightarrow>
    drain_step full s (s\<lparr>sp_cons := C_copy h (r_tail (sp_ring s)) []\<rparr>)"
| drain_copy: "sp_cons s = C_copy h t xs \<Longrightarrow> t \<noteq> h \<Longrightarrow> \<not> full xs \<Longrightarrow>
    drain_step full s (s\<lparr>sp_cons := C_copy h (t + 1)
      (xs @ [r_buf (sp_ring s) ! unat (t AND of_nat (RING_SLOTS - 1))])\<rparr>)"
| drain_done: "sp_cons s = C_copy h t xs \<Longrightarrow> t = h \<or> full xs \<Longrightarrow>
    drain_step full s (s\<lparr>sp_ring := (sp_ring s)\<lparr>r_tail := t\<rparr>, sp_cons := C_idle,
      sp_delivered := sp_delivered s @ xs\<rparr>)"

definition spsc_init :: "'a list \<Rightarrow> 'a spsc" where
  "spsc_init b = \<lparr>sp_ring = \<lparr>r_buf = b, r_head = 0, r_tail = 0\<rparr>, sp_prod = P_idle, sp_cons = C_idle,
     sp_seen = 0, sp_accepted = [], sp_delivered = [], sp_dropped = 0\<rparr>"

inductive spsc_reach :: "('a list \<Rightarrow> bool) \<Rightarrow> 'a spsc \<Rightarrow> bool"
  for full where
  reach_init: "length b = RING_SLOTS \<Longrightarrow> spsc_reach full (spsc_init b)"
| reach_push: "spsc_reach full s \<Longrightarrow> push_step s s' \<Longrightarrow> spsc_reach full s'"
| reach_drain: "spsc_reach full s \<Longrightarrow> drain_step full s s' \<Longrightarrow> spsc_reach full s'"

inductive_cases push_stepE: "push_step s s'"
inductive_cases drain_stepE: "drain_step full s s'"

section \<open>The invariant\<close>

text \<open>
  \<open>owned\<close> counts the slots the producer must assume taken: those between the last tail it saw and
  its head. The consumer's copy is a prefix of the queue.
\<close>

definition owned :: "'a spsc \<Rightarrow> nat" where
  "owned s = ring_count (sp_ring s) + unat (r_tail (sp_ring s) - sp_seen s)"

fun producer_ok :: "'a producer \<Rightarrow> 'a spsc \<Rightarrow> bool" where
  "producer_ok P_idle s = True"
| "producer_ok (P_write x) s = (owned s < RING_SLOTS)"
| "producer_ok (P_publish x) s =
    (owned s < RING_SLOTS \<and> r_buf (sp_ring s) ! ring_index (sp_ring s) (r_head (sp_ring s)) = x)"

fun consumer_ok :: "'a consumer \<Rightarrow> 'a ring \<Rightarrow> bool" where
  "consumer_ok C_idle r = True"
| "consumer_ok (C_copy h t xs) r =
    (unat (t - r_tail r) \<le> unat (h - r_tail r) \<and> unat (h - r_tail r) \<le> ring_count r \<and>
     xs = take (unat (t - r_tail r)) (ring_content r))"

definition spsc_inv :: "'a spsc \<Rightarrow> bool" where
  "spsc_inv s \<longleftrightarrow> length (r_buf (sp_ring s)) = RING_SLOTS \<and> ring_ok (sp_ring s) \<and>
     owned s \<le> RING_SLOTS \<and> producer_ok (sp_prod s) s \<and> consumer_ok (sp_cons s) (sp_ring s) \<and>
     sp_accepted s = sp_delivered s @ ring_content (sp_ring s)"

lemma slot_index:
  "length (r_buf r) = RING_SLOTS \<Longrightarrow> unat (c AND of_nat (RING_SLOTS - 1) :: u32) = ring_index r c"
proof -
  have "(of_nat (RING_SLOTS - 1) :: u32) = mask 7" by (simp add: RING_SLOTS_def mask_eq_exp_minus_1)
  then have "unat (c AND of_nat (RING_SLOTS - 1) :: u32) = unat (take_bit 7 c)"
    by (simp only: take_bit_eq_mask)
  also have "\<dots> = unat c mod 2 ^ 7" by (simp only: unsigned_take_bit_eq) (simp only: take_bit_eq_mod)
  finally have "unat (c AND of_nat (RING_SLOTS - 1) :: u32) = unat c mod 2 ^ 7" .
  then show "length (r_buf r) = RING_SLOTS \<Longrightarrow> ?thesis" by (simp add: ring_index_def RING_SLOTS_def)
qed

lemma stale_tail:
  assumes "spsc_inv s" "may_read_tail s v"
  shows "unat (r_head (sp_ring s) - v) = ring_count (sp_ring s) + unat (r_tail (sp_ring s) - v)"
    "ring_count (sp_ring s) + unat (r_tail (sp_ring s) - v) \<le> owned s"
proof -
  show le: "ring_count (sp_ring s) + unat (r_tail (sp_ring s) - v) \<le> owned s"
    using assms(2) by (simp add: may_read_tail_def owned_def word_le_nat_alt)
  then show "unat (r_head (sp_ring s) - v) = ring_count (sp_ring s) + unat (r_tail (sp_ring s) - v)"
    using assms(1) unat_diff_add[of "r_head (sp_ring s)" "r_tail (sp_ring s)" v]
    by (simp add: spsc_inv_def ring_count_def RING_SLOTS_def)
qed

lemma push_step_inv:
  assumes "push_step s s'" "spsc_inv s" shows "spsc_inv s'"
  using assms(1)
proof cases
  case (push_full v)
  with stale_tail[OF assms(2), of v] assms(2) show ?thesis
    by (simp add: spsc_inv_def owned_def)
next
  case (push_check v x)
  moreover have "unat (r_head (sp_ring s) - v) < RING_SLOTS"
    using push_check by (simp add: word_le_nat_alt RING_SLOTS_def)
  ultimately show ?thesis using stale_tail[OF assms(2), of v] assms(2)
    by (simp add: spsc_inv_def owned_def)
next
  case (push_write x)
  let ?r = "(sp_ring s)\<lparr>r_buf := (r_buf (sp_ring s))[ring_index (sp_ring s) (r_head (sp_ring s)) := x]\<rparr>"
  have len: "length (r_buf (sp_ring s)) = RING_SLOTS" and ok: "ring_ok (sp_ring s)"
    and own: "owned s < RING_SLOTS" and room: "ring_count (sp_ring s) < length (r_buf (sp_ring s))"
    using push_write assms(2) by (simp_all add: spsc_inv_def owned_def)
  note sp = ring_spare[OF ok room refl, of x]
  have "ring_index (sp_ring s) (r_head (sp_ring s)) < length (r_buf (sp_ring s))"
    using room unfolding ring_index_def by (intro mod_less_divisor) linarith
  moreover have "consumer_ok (sp_cons s) ?r"
    using assms(2) sp by (cases "sp_cons s") (simp_all add: spsc_inv_def)
  moreover have s': "s' = s\<lparr>sp_ring := ?r, sp_prod := P_publish x\<rparr>"
    using push_write slot_index[OF len] by simp
  moreover have "owned s' = owned s" using sp(3) by (simp add: s' owned_def)
  ultimately show ?thesis using assms(2) own sp by (simp add: spsc_inv_def ring_index_def)
next
  case (push_publish x)
  let ?r = "(sp_ring s)\<lparr>r_head := r_head (sp_ring s) + 1\<rparr>"
  have len: "length (r_buf (sp_ring s)) = RING_SLOTS" and ok: "ring_ok (sp_ring s)"
    and own: "owned s < RING_SLOTS"
    and cell: "r_buf (sp_ring s) ! ring_index (sp_ring s) (r_head (sp_ring s)) = x"
    and cons: "consumer_ok (sp_cons s) (sp_ring s)"
    using push_publish assms(2) by (simp_all add: spsc_inv_def)
  have put: "ring_ok ?r \<and> ring_content ?r = ring_content (sp_ring s) @ [x]"
    using ring_put[OF ok, of "[x]" "r_buf (sp_ring s)"] own len cell
    by (simp add: owned_def ring_index_def)
  then have c: "ring_count ?r = ring_count (sp_ring s) + 1"
    by (metis length_append_singleton length_ring_content Suc_eq_plus1)
  then have "consumer_ok (sp_cons s) ?r"
    using cons put by (cases "sp_cons s") (auto simp: ring_count_def)
  moreover have "owned s' \<le> RING_SLOTS" using own c push_publish(1) by (simp add: owned_def)
  ultimately show ?thesis using assms(2) put c push_publish len by (simp add: spsc_inv_def)
qed

lemma drain_step_inv:
  assumes "drain_step full s s'" "spsc_inv s" shows "spsc_inv s'"
  using assms(1)
proof cases
  case (drain_load h)
  then have "consumer_ok (C_copy h (r_tail (sp_ring s)) []) (sp_ring s)"
    by (simp add: may_read_head_def ring_count_def word_le_nat_alt)
  moreover have "producer_ok (sp_prod s) s' = producer_ok (sp_prod s) s"
    using drain_load by (cases "sp_prod s") (simp_all add: owned_def)
  ultimately show ?thesis using assms(2) drain_load by (simp add: spsc_inv_def owned_def)
next
  case (drain_copy h t xs)
  let ?r = "sp_ring s"
  have len: "length (r_buf ?r) = RING_SLOTS" and ok: "ring_ok ?r"
    and c: "consumer_ok (C_copy h t xs) ?r" using drain_copy assms(2) by (simp_all add: spsc_inv_def)
  have lt: "unat (t - r_tail ?r) < unat (h - r_tail ?r)"
  proof (rule le_neq_implies_less)
    show "unat (t - r_tail ?r) \<noteq> unat (h - r_tail ?r)"
      using drain_copy(3) unsigned_word_eqI[of "t - r_tail ?r" "h - r_tail ?r"] by auto
  qed (use c in simp)
  have s1: "unat (t + 1 - r_tail ?r) = unat (t - r_tail ?r) + 1"
    using unat_add_small[of "t - r_tail ?r" 1] ring_count_less[of ?r] lt c
    by (simp add: algebra_simps)
  have "r_buf ?r ! ring_index ?r t = ring_content ?r ! unat (t - r_tail ?r)"
    using lt c by (simp add: ring_content_def)
  then have "consumer_ok (C_copy h (t + 1) (xs @ [r_buf ?r ! ring_index ?r t])) ?r"
    using c lt by (simp add: s1 take_Suc_conv_app_nth)
  moreover have "producer_ok (sp_prod s) s' = producer_ok (sp_prod s) s"
    using drain_copy by (cases "sp_prod s") (simp_all add: owned_def)
  ultimately show ?thesis using assms(2) drain_copy len slot_index[OF len]
    by (simp add: spsc_inv_def owned_def)
next
  case (drain_done h t xs)
  let ?r = "sp_ring s" and ?m = "unat (t - r_tail (sp_ring s))"
  have ok: "ring_ok ?r" and c: "consumer_ok (C_copy h t xs) ?r"
    using drain_done assms(2) by (simp_all add: spsc_inv_def)
  have g: "ring_ok (?r\<lparr>r_tail := t\<rparr>) \<and> ring_content (?r\<lparr>r_tail := t\<rparr>) = drop ?m (ring_content ?r)"
    using ring_get[OF ok, of ?m] c by simp
  then have cnt: "ring_count (?r\<lparr>r_tail := t\<rparr>) = ring_count ?r - ?m"
    by (metis length_drop length_ring_content)
  have "unat (t - sp_seen s) = ?m + unat (r_tail ?r - sp_seen s)"
    using unat_diff_add[of t "r_tail ?r" "sp_seen s"] assms(2) c
    by (simp add: spsc_inv_def owned_def RING_SLOTS_def)
  then have own: "owned s' = owned s"
    using drain_done cnt c by (simp add: owned_def)
  moreover have "producer_ok (sp_prod s) s' = producer_ok (sp_prod s) s"
    using drain_done own by (cases "sp_prod s") (simp_all add: ring_index_def)
  moreover have "xs @ drop ?m (ring_content ?r) = ring_content ?r" using c by simp
  ultimately show ?thesis using assms(2) drain_done g by (simp add: spsc_inv_def)
qed

lemma spsc_init_inv: "length b = RING_SLOTS \<Longrightarrow> spsc_inv (spsc_init b)"
  by (auto simp: spsc_inv_def spsc_init_def owned_def ring_ok_def ring_count_def ring_content_def
      RING_SLOTS_def)

lemma spsc_reach_inv: "spsc_reach full s \<Longrightarrow> spsc_inv s"
  by (induction rule: spsc_reach.induct) (auto intro: spsc_init_inv push_step_inv drain_step_inv)

lemma spsc_inv_fifo:
  assumes "spsc_inv s"
  shows "prefix (sp_delivered s) (sp_accepted s) \<and>
    length (sp_accepted s) \<le> length (sp_delivered s) + RING_SLOTS \<and>
    (case sp_cons s of C_idle \<Rightarrow> True | C_copy h t xs \<Rightarrow> prefix (sp_delivered s @ xs) (sp_accepted s))"
proof -
  have "ring_count (sp_ring s) \<le> RING_SLOTS" using assms by (simp add: spsc_inv_def ring_ok_def)
  moreover have "case sp_cons s of C_idle \<Rightarrow> True | C_copy h t xs \<Rightarrow> prefix (sp_delivered s @ xs) (sp_accepted s)"
    using assms by (auto simp: spsc_inv_def take_is_prefix split: consumer.splits)
  ultimately show ?thesis using assms by (simp add: spsc_inv_def)
qed

text \<open>
  C3: under every interleaving of the two tasks, stale reads of the other's counter included, the
  consumer delivers the accepted lines in order, none lost, torn or repeated, and at most
  \<open>RING_SLOTS\<close> of them are outstanding; so is the batch it is still copying.
\<close>

theorem spsc_fifo:
  assumes "spsc_reach full s"
  shows "prefix (sp_delivered s) (sp_accepted s) \<and>
    length (sp_accepted s) \<le> length (sp_delivered s) + RING_SLOTS \<and>
    (case sp_cons s of C_idle \<Rightarrow> True | C_copy h t xs \<Rightarrow> prefix (sp_delivered s @ xs) (sp_accepted s))"
  by (rule spsc_inv_fifo[OF spsc_reach_inv[OF assms]])

text \<open>One line passed from the producer to the consumer.\<close>

definition one_line :: "nat spsc" where
  "one_line = \<lparr>sp_ring = \<lparr>r_buf = (replicate 128 0)[0 := 7], r_head = 1, r_tail = 1\<rparr>, sp_prod = P_idle,
     sp_cons = C_idle, sp_seen = 0, sp_accepted = [7], sp_delivered = [7], sp_dropped = 0\<rparr>"

lemma one_line_reach: "spsc_reach (\<lambda>_. False) one_line"
proof -
  let ?s0 = "spsc_init (replicate 128 0) :: nat spsc"
  have "spsc_reach (\<lambda>_. False) ?s0" by (rule reach_init) (simp add: RING_SLOTS_def)
  from reach_push[OF this push_check[of ?s0 0 7]]
  have "spsc_reach (\<lambda>_. False) (?s0\<lparr>sp_prod := P_write 7\<rparr>)"
    by (simp add: spsc_init_def may_read_tail_def RING_SLOTS_def)
  from reach_push[OF this push_write[of _ 7]]
  have "spsc_reach (\<lambda>_. False) (?s0\<lparr>sp_ring := \<lparr>r_buf = (replicate 128 0)[0 := 7], r_head = 0, r_tail = 0\<rparr>,
      sp_prod := P_publish 7\<rparr>)"
    by (simp add: spsc_init_def)
  from reach_push[OF this push_publish[of _ 7]]
  have "spsc_reach (\<lambda>_. False) (?s0\<lparr>sp_ring := \<lparr>r_buf = (replicate 128 0)[0 := 7], r_head = 1, r_tail = 0\<rparr>,
      sp_accepted := [7]\<rparr>)"
    by (simp add: spsc_init_def)
  from reach_drain[OF this drain_load[of _ 1]]
  have "spsc_reach (\<lambda>_. False) (?s0\<lparr>sp_ring := \<lparr>r_buf = (replicate 128 0)[0 := 7], r_head = 1, r_tail = 0\<rparr>,
      sp_accepted := [7], sp_cons := C_copy 1 0 []\<rparr>)"
    by (simp add: spsc_init_def may_read_head_def)
  from reach_drain[OF this drain_copy[of _ 1 0 "[]"]]
  have "spsc_reach (\<lambda>_. False) (?s0\<lparr>sp_ring := \<lparr>r_buf = (replicate 128 0)[0 := 7], r_head = 1, r_tail = 0\<rparr>,
      sp_accepted := [7], sp_cons := C_copy 1 1 [7]\<rparr>)"
    by (simp add: spsc_init_def)
  from reach_drain[OF this drain_done[of _ 1 1 "[7]"]]
  show ?thesis by (simp add: spsc_init_def one_line_def)
qed

lemma spsc_fifo_witness:
  "spsc_reach (\<lambda>_. False) one_line \<and> sp_delivered one_line = [7] \<and>
    prefix (sp_delivered one_line) (sp_accepted one_line)"
  using one_line_reach spsc_fifo[OF one_line_reach] by (simp add: one_line_def)

end
