(* ===== verification/FeedRing.thy ===== *)
theory FeedRing
  imports TcpFeed Spsc
begin

text \<open>
  The state the AVR and the Beast feed each keep: the connection table, the ring of formatted
  lines, the counters, and where the feed task stands in its pass. The ring operations here are
  the atomic view of the ones in \<open>Spsc\<close>; both feeds write the same code for them.
\<close>

definition BATCH_MAX :: nat where
  "BATCH_MAX = 2048"

definition STALL_LIMIT :: nat where
  "STALL_LIMIT = 50"

datatype phase = Ph_listen | Ph_accept | Ph_poll | Ph_drain | Ph_send u32 "u8 list"

record feed = conns +
  f_ring :: "u8 list ring"
  f_sent :: u32
  f_drop :: u32
  f_phase :: phase

definition feed_start :: "u8 list list \<Rightarrow> feed" where
  "feed_start b = \<lparr>s_listen = -1, s_cli = replicate MAX_CLIENTS \<lparr>c_fd = -1, c_stall = 0\<rparr>, s_nclients = 0,
     s_events = [], f_ring = \<lparr>r_buf = b, r_head = 0, r_tail = 0\<rparr>, f_sent = 0, f_drop = 0, f_phase = Ph_listen\<rparr>"

definition ring_full :: "'a ring \<Rightarrow> bool" where
  "ring_full r \<longleftrightarrow> of_nat RING_SLOTS \<le> r_head r - r_tail r"

definition ring_slot :: "u32 \<Rightarrow> nat" where
  "ring_slot c = unat (c AND of_nat (RING_SLOTS - 1))"

definition ring_push :: "'a \<Rightarrow> 'a ring \<Rightarrow> 'a ring" where
  "ring_push l r = r\<lparr>r_buf := (r_buf r)[ring_slot (r_head r) := l], r_head := r_head r + 1\<rparr>"

text \<open>\<open>drain\<close>: copy lines while one of maximal length still fits the batch.\<close>

function drain_loop :: "nat \<Rightarrow> u8 list ring \<Rightarrow> u32 \<Rightarrow> u32 \<Rightarrow> u8 list list \<Rightarrow> u8 list list \<times> u32" where
  "drain_loop line_max r h t ls =
     (if t \<noteq> h \<and> length (concat ls) + line_max \<le> BATCH_MAX
      then drain_loop line_max r h (t + 1) (ls @ [r_buf r ! ring_slot t])
      else (ls, t))"
  by pat_completeness auto

termination
proof (relation "measure (\<lambda>(line_max, r, h, t, ls). unat (h - t))")
  fix line_max :: nat and r :: "u8 list ring" and h t :: u32 and ls :: "u8 list list"
  assume "t \<noteq> h \<and> length (concat ls) + line_max \<le> BATCH_MAX"
  then have "h - t \<noteq> 0" by auto
  then have "unat (h - t - 1) < unat (h - t)" by (metis measure_unat)
  then show "((line_max, r, h, t + 1, ls @ [r_buf r ! ring_slot t]), line_max, r, h, t, ls)
    \<in> measure (\<lambda>(line_max, r, h, t, ls). unat (h - t))" by (simp add: diff_diff_eq)
qed simp

declare drain_loop.simps [simp del]

definition feed_drain :: "nat \<Rightarrow> feed \<Rightarrow> u8 list list \<times> feed" where
  "feed_drain line_max s =
     (case drain_loop line_max (f_ring s) (r_head (f_ring s)) (r_tail (f_ring s)) [] of
        (ls, t) \<Rightarrow> (ls, s\<lparr>f_ring := (f_ring s)\<lparr>r_tail := t\<rparr>\<rparr>))"

section \<open>The ring as a queue\<close>

definition lines_ok :: "nat \<Rightarrow> 'a feed_scheme \<Rightarrow> bool" where
  "lines_ok line_max s \<longleftrightarrow> ring_ok (f_ring s) \<and> length (r_buf (f_ring s)) = RING_SLOTS \<and>
     (\<forall>l \<in> set (ring_content (f_ring s)). length l \<le> line_max)"

lemma ring_slot_index: "length (r_buf r) = RING_SLOTS \<Longrightarrow> ring_slot c = ring_index r c"
  unfolding ring_slot_def by (rule slot_index)

lemma ring_full_iff: "ring_full r \<longleftrightarrow> RING_SLOTS \<le> ring_count r"
  by (simp add: ring_full_def ring_count_def word_le_nat_alt RING_SLOTS_def)

lemma ring_push_content:
  assumes "ring_ok r" "length (r_buf r) = RING_SLOTS" "\<not> ring_full r"
  shows "ring_ok (ring_push l r) \<and> ring_content (ring_push l r) = ring_content r @ [l]"
proof -
  let ?b = "(r_buf r)[ring_index r (r_head r) := l]"
  have "ring_count r < length (r_buf r)" using assms by (simp add: ring_full_iff)
  then have "ring_index r (r_head r) < length (r_buf r)" by (auto simp: ring_index_def intro!: mod_less_divisor)
  then show ?thesis
    using ring_put[OF assms(1), of "[l]" ?b] \<open>ring_count r < length (r_buf r)\<close> assms(2)
    by (auto simp: ring_push_def ring_slot_index ring_index_def)
qed

lemma ring_push_length [simp]: "length (r_buf (ring_push l r)) = length (r_buf r)"
  by (simp add: ring_push_def)

lemma take_drop_Suc: "k < length xs \<Longrightarrow> Suc k \<le> j \<Longrightarrow> xs ! k # drop (Suc k) (take j xs) = drop k (take j xs)"
  by (metis Cons_nth_drop_Suc Suc_le_lessD length_take min_less_iff_conj nth_take)

lemma drain_loop_spec:
  assumes "ring_ok r" "length (r_buf r) = RING_SLOTS" "k \<le> ring_count r"
    "\<forall>l \<in> set (ring_content r). length l \<le> lm" "length (concat ls) \<le> BATCH_MAX"
  shows "\<exists>j. k \<le> j \<and> j \<le> ring_count r \<and>
    drain_loop lm r (r_head r) (r_tail r + of_nat k) ls = (ls @ drop k (take j (ring_content r)), r_tail r + of_nat j) \<and>
    length (concat (ls @ drop k (take j (ring_content r)))) \<le> BATCH_MAX \<and>
    (j = ring_count r \<or> BATCH_MAX < length (concat (ls @ drop k (take j (ring_content r)))) + lm)"
  using assms
proof (induction "ring_count r - k" arbitrary: k ls)
  case 0
  then have k: "k = ring_count r" by simp
  then have "r_tail r + of_nat k = r_head r" by (simp add: ring_count_def)
  then show ?case using 0 k by (intro exI[of _ k]) (simp add: drain_loop.simps)
next
  case (Suc d)
  then have k: "k < ring_count r" by simp
  have ne: "r_tail r + of_nat k \<noteq> r_head r"
  proof
    assume "r_tail r + of_nat k = r_head r"
    then have "ring_count r = unat (of_nat k :: u32)" by (simp add: ring_count_def flip: \<open>_ = r_head r\<close>)
    then show False using k ring_count_less[of r] by (simp add: unsigned_of_nat take_bit_eq_mod)
  qed
  show ?case
  proof (cases "length (concat ls) + lm \<le> BATCH_MAX")
    case False
    then show ?thesis using Suc.prems by (intro exI[of _ k]) (simp add: drain_loop.simps)
  next
    case True
    let ?l = "ring_content r ! k"
    have "?l \<in> set (ring_content r)" using k by simp
    then have "length (concat (ls @ [?l])) \<le> BATCH_MAX" using Suc.prems(4) True by force
    moreover have "d = ring_count r - Suc k" "Suc k \<le> ring_count r" using Suc.hyps(2) k by simp_all
    ultimately obtain j where j: "Suc k \<le> j" "j \<le> ring_count r"
      "drain_loop lm r (r_head r) (r_tail r + of_nat (Suc k)) (ls @ [?l]) =
         ((ls @ [?l]) @ drop (Suc k) (take j (ring_content r)), r_tail r + of_nat j)"
      "length (concat ((ls @ [?l]) @ drop (Suc k) (take j (ring_content r)))) \<le> BATCH_MAX"
      "j = ring_count r \<or> BATCH_MAX < length (concat ((ls @ [?l]) @ drop (Suc k) (take j (ring_content r)))) + lm"
      using Suc.hyps(1)[of "Suc k" "ls @ [?l]"] Suc.prems(1,2,4) by blast
    have e: "(ls @ [?l]) @ drop (Suc k) (take j (ring_content r)) = ls @ drop k (take j (ring_content r))"
      using take_drop_Suc[of k "ring_content r" j] k j(1) by simp
    have "r_buf r ! ring_slot (r_tail r + of_nat k) = ?l"
      using ring_content_nth[OF Suc.prems(1) k] wrap_index[of RING_SLOTS "r_tail r" k] Suc.prems(2)
      by (simp add: ring_slot_index ring_index_def RING_SLOTS_def)
    moreover have "r_tail r + of_nat (Suc k) = r_tail r + of_nat k + 1" by (simp add: algebra_simps)
    ultimately have "drain_loop lm r (r_head r) (r_tail r + of_nat k) ls =
        drain_loop lm r (r_head r) (r_tail r + of_nat (Suc k)) (ls @ [?l])"
      using ne True by (subst drain_loop.simps) (simp only:, simp)
    then show ?thesis using j unfolding e by (intro exI[of _ j]) (simp only:, simp)
  qed
qed

lemma feed_drain_spec:
  assumes "lines_ok lm s" "feed_drain lm s = (ls, s')"
  shows "lines_ok lm s' \<and> ring_content (f_ring s) = ls @ ring_content (f_ring s') \<and>
    length (concat ls) \<le> BATCH_MAX \<and> (ring_content (f_ring s') = [] \<or> BATCH_MAX < length (concat ls) + lm)"
proof -
  let ?r = "f_ring s"
  from assms(1) obtain j where j: "j \<le> ring_count ?r"
    "drain_loop lm ?r (r_head ?r) (r_tail ?r) [] = (take j (ring_content ?r), r_tail ?r + of_nat j)"
    "length (concat (take j (ring_content ?r))) \<le> BATCH_MAX"
    "j = ring_count ?r \<or> BATCH_MAX < length (concat (take j (ring_content ?r))) + lm"
    using drain_loop_spec[of ?r 0 lm "[]"] by (auto simp: lines_ok_def)
  have g: "ring_ok (?r\<lparr>r_tail := r_tail ?r + of_nat j\<rparr>) \<and>
      ring_content (?r\<lparr>r_tail := r_tail ?r + of_nat j\<rparr>) = drop j (ring_content ?r)"
    using ring_get[OF _ j(1)] assms(1) by (simp add: lines_ok_def)
  from assms(2) j have "ls = take j (ring_content ?r)" "s' = s\<lparr>f_ring := ?r\<lparr>r_tail := r_tail ?r + of_nat j\<rparr>\<rparr>"
    by (simp_all add: feed_drain_def)
  then show ?thesis using g assms(1) j by (auto simp: lines_ok_def dest: in_set_dropD)
qed

lemma feed_start_ok:
  assumes "length b = RING_SLOTS"
  shows "conns_ok n (feed_start b) \<and> lines_ok lm (feed_start b)"
proof -
  have "ring_count \<lparr>r_buf = b, r_head = 0, r_tail = 0\<rparr> = 0" by (simp add: ring_count_def)
  then show ?thesis using assms
    by (auto simp: feed_start_def conns_ok_def held_def live_slots_def slot_ok_def lines_ok_def ring_ok_def
        ring_content_def RING_SLOTS_def)
qed

section \<open>What the socket operations leave alone\<close>

lemma conns_frame [simp]:
  "f_ring (record_event e s) = f_ring s" "f_ring (set_option fd ov s) = f_ring s"
  "f_ring (slot_clear i s) = f_ring s" "f_ring (set_stall i v s) = f_ring s"
  "f_phase (record_event e s) = f_phase s" "f_phase (set_option fd ov s) = f_phase s"
  "f_phase (slot_clear i s) = f_phase s" "f_phase (set_stall i v s) = f_phase s"
  by (simp_all add: record_event_def set_option_def slot_clear_def set_stall_def)

lemma set_options_frame [simp]: "f_ring (fold (set_option fd) opts s) = f_ring s"
  by (induction opts arbitrary: s) simp_all

lemma tcp_frame [simp]:
  "f_ring (tcp_listen_open port backlog fd b l s) = f_ring s" "f_ring (tcp_accept opts fd s) = f_ring s"
  by (simp_all add: tcp_listen_open_def tcp_accept_def slot_open_def Let_def split: option.split)

text \<open>The invariant of a feed, for its longest line.\<close>

definition feed_ok :: "nat \<Rightarrow> feed \<Rightarrow> bool" where
  "feed_ok line_max s \<longleftrightarrow> conns_ok STALL_LIMIT s \<and> lines_ok line_max s \<and>
     (case f_phase s of Ph_send lines batch \<Rightarrow> length batch \<le> BATCH_MAX | _ \<Rightarrow> True)"

lemma feed_ok_conns:
  "feed_ok lm s \<Longrightarrow> conns_ok STALL_LIMIT s' \<Longrightarrow> f_ring s' = f_ring s \<Longrightarrow>
    (case f_phase s' of Ph_send lines batch \<Rightarrow> length batch \<le> BATCH_MAX | _ \<Rightarrow> True) \<Longrightarrow> feed_ok lm s'"
  by (simp add: feed_ok_def lines_ok_def)

lemma conns_ok_feed_fields [simp]:
  "conns_ok n (s\<lparr>f_ring := x\<rparr>) = conns_ok n s" "conns_ok n (s\<lparr>f_phase := p\<rparr>) = conns_ok n s"
  "conns_ok n (s\<lparr>f_sent := v\<rparr>) = conns_ok n s" "conns_ok n (s\<lparr>f_drop := v\<rparr>) = conns_ok n s"
  by (simp_all add: conns_ok_def held_def)

lemma stall_count:
  assumes "unat (v :: u16) \<le> STALL_LIMIT" "\<not> of_nat STALL_LIMIT < v + 1"
  shows "unat (v + 1) \<le> STALL_LIMIT"
  using assms by (simp add: word_less_nat_alt STALL_LIMIT_def)

lemma feed_phase_ok:
  assumes "feed_ok lm s" "conns_ok STALL_LIMIT t" "f_ring t = f_ring s" "\<And>lines batch. p \<noteq> Ph_send lines batch"
  shows "feed_ok lm (t\<lparr>f_phase := p\<rparr>)"
  using assms by (cases p) (auto simp: feed_ok_def lines_ok_def)

lemma feed_drained_ok:
  assumes "feed_ok lm s" "feed_drain lm s = (ls, s')"
  shows "feed_ok lm (s'\<lparr>f_phase := Ph_send n (concat ls)\<rparr>)"
proof -
  have "conns_ok STALL_LIMIT s'"
    using assms by (auto simp: feed_drain_def feed_ok_def split: prod.splits)
  then show ?thesis using feed_drain_spec[of lm s ls s'] assms by (auto simp: feed_ok_def lines_ok_def)
qed

end
