(* ===== verification/FeedAvr.thy ===== *)
theory FeedAvr
  imports FeedRing
begin

text \<open>
  The AVR raw feed, \<open>main/feed_avr.c\<close>: formatting a frame into the ring, the socket operations of
  the feed task, its pass as a step relation that pushes of the demodulation task interleave with,
  and a reader of the format to state the round trip.
\<close>

section \<open>The code\<close>

definition HEX :: "u8 list" where
  "HEX = map of_nat ([48..<58] @ [65..<71])"

definition AVR_LINE_MAX :: nat where
  "AVR_LINE_MAX = 1 + 14 * 2 + 2"

definition avr_line :: "u8 list \<Rightarrow> u8 list" where
  "avr_line bytes = [0x2A] @ concat (map (\<lambda>b. [HEX ! unat (drop_bit 4 b), HEX ! unat (b AND 0x0F)]) bytes) @ [0x3B, 0x0A]"

definition avr_accepts :: "u8 list \<times> int \<Rightarrow> feed \<Rightarrow> bool" where
  "avr_accepts mb s \<longleftrightarrow> s_nclients s \<noteq> 0 \<and> 0 < snd mb div 8 \<and> snd mb div 8 \<le> 14 \<and> \<not> ring_full (f_ring s)"

definition feed_avr_push :: "u8 list \<Rightarrow> int \<Rightarrow> feed \<Rightarrow> feed" where
  "feed_avr_push msg msgbits s =
     (if s_nclients s = 0 then s
      else let nbytes = msgbits div 8
           in if nbytes \<le> 0 \<or> 14 < nbytes then s
              else if ring_full (f_ring s) then s\<lparr>f_drop := f_drop s + 1\<rparr>
              else s\<lparr>f_ring := ring_push (avr_line (take (nat nbytes) msg)) (f_ring s)\<rparr>)"

definition avr_client_close :: "nat \<Rightarrow> 'a conns_scheme \<Rightarrow> 'a conns_scheme" where
  "avr_client_close i s = record_event (Logged ''client gone'') (slot_clear i s)"

definition avr_listen_open :: "int \<Rightarrow> bool \<Rightarrow> bool \<Rightarrow> 'a conns_scheme \<Rightarrow> 'a conns_scheme" where
  "avr_listen_open = tcp_listen_open 30001 2"

definition avr_accept_new :: "int \<Rightarrow> 'a conns_scheme \<Rightarrow> 'a conns_scheme" where
  "avr_accept_new fd s =
     (if fd < 0 then s
      else tcp_accept [(''TCP_NODELAY'', 1), (''SO_KEEPALIVE'', 1), (''O_NONBLOCK'', 1)] fd s)"

definition avr_send_client :: "(nat \<Rightarrow> sock_result) \<Rightarrow> u8 list \<Rightarrow> nat \<Rightarrow> 'a conns_scheme \<Rightarrow> 'a conns_scheme" where
  "avr_send_client send buf i s =
     (let (r, errno) = send i; s = record_event (Sent (slot_fd i s) (take (nat r) buf)) s
      in if r = int (length buf) then set_stall i 0 s
         else if r < 0 \<and> would_block errno then
           let s = set_stall i (c_stall (s_cli s ! i) + 1) s
           in if of_nat STALL_LIMIT < c_stall (s_cli s ! i) then avr_client_close i s else s
         else if r < 0 then avr_client_close i s
         else s)"

definition avr_broadcast :: "(nat \<Rightarrow> sock_result) \<Rightarrow> u8 list \<Rightarrow> 'a conns_scheme \<Rightarrow> 'a conns_scheme" where
  "avr_broadcast send buf s = for_slots (avr_send_client send buf) s"

definition avr_poll_client :: "(nat \<Rightarrow> sock_result) \<Rightarrow> nat \<Rightarrow> 'a conns_scheme \<Rightarrow> 'a conns_scheme" where
  "avr_poll_client recv i s =
     (let (r, errno) = recv i
      in if r = 0 \<or> (r < 0 \<and> \<not> would_block errno) then avr_client_close i s else s)"

definition avr_poll_closed :: "(nat \<Rightarrow> sock_result) \<Rightarrow> 'a conns_scheme \<Rightarrow> 'a conns_scheme" where
  "avr_poll_closed recv s = for_slots (avr_poll_client recv) s"

definition avr_drain :: "feed \<Rightarrow> u8 list list \<times> feed" where
  "avr_drain s = feed_drain AVR_LINE_MAX s"

text \<open>
  One pass of \<open>feed_task\<close> goes through its phases in order; the socket results are what the
  network answers. A push of the other task can come between any two of them.
\<close>

inductive avr_step :: "feed \<Rightarrow> feed \<Rightarrow> bool" where
  avr_push: "avr_step s (feed_avr_push msg msgbits s)"
| avr_listen: "f_phase s = Ph_listen \<Longrightarrow>
    avr_step s ((if s_listen s < 0 then avr_listen_open fd bind_ok listen_ok s else s)\<lparr>f_phase := Ph_accept\<rparr>)"
| avr_accept: "f_phase s = Ph_accept \<Longrightarrow>
    avr_step s ((if 0 \<le> s_listen s then avr_accept_new fd s else s)\<lparr>f_phase := Ph_poll\<rparr>)"
| avr_poll: "f_phase s = Ph_poll \<Longrightarrow> avr_step s ((avr_poll_closed recv s)\<lparr>f_phase := Ph_drain\<rparr>)"
| avr_drained: "f_phase s = Ph_drain \<Longrightarrow> avr_drain s = (ls, s') \<Longrightarrow>
    avr_step s (s'\<lparr>f_phase := Ph_send (of_nat (length ls)) (concat ls)\<rparr>)"
| avr_send: "f_phase s = Ph_send lines batch \<Longrightarrow>
    avr_step s ((if batch \<noteq> [] \<and> s_nclients s \<noteq> 0
      then (avr_broadcast send batch s)\<lparr>f_sent := f_sent s + lines\<rparr> else s)\<lparr>f_phase := Ph_listen\<rparr>)"

inductive avr_reach :: "feed \<Rightarrow> bool" where
  avr_init: "length b = RING_SLOTS \<Longrightarrow> avr_reach (feed_start b)"
| avr_next: "avr_reach s \<Longrightarrow> avr_step s s' \<Longrightarrow> avr_reach s'"

section \<open>The line format\<close>

text \<open>A reader of the format: hex digits in pairs between a star and a semicolon.\<close>

definition hex_value :: "u8 \<Rightarrow> u8 option" where
  "hex_value c = (if 0x30 \<le> c \<and> c \<le> 0x39 then Some (c - 0x30)
     else if 0x41 \<le> c \<and> c \<le> 0x46 then Some (c - 0x37) else None)"

fun avr_payload :: "u8 list \<Rightarrow> (u8 list \<times> u8 list) option" where
  "avr_payload (c # d # cs) =
     (if c = 0x3B then (if d = 0x0A then Some ([], cs) else None)
      else case (hex_value c, hex_value d) of
             (Some h, Some l) \<Rightarrow>
               (case avr_payload cs of Some (bs, rest) \<Rightarrow> Some ((push_bit 4 h OR l) # bs, rest) | None \<Rightarrow> None)
           | _ \<Rightarrow> None)"
| "avr_payload _ = None"

definition avr_read :: "u8 list \<Rightarrow> (u8 list \<times> u8 list) option" where
  "avr_read cs = (case cs of c # cs \<Rightarrow> if c = 0x2A then avr_payload cs else None | [] \<Rightarrow> None)"

fun avr_read_all :: "nat \<Rightarrow> u8 list \<Rightarrow> u8 list list option" where
  "avr_read_all n [] = Some []"
| "avr_read_all 0 cs = None"
| "avr_read_all (Suc n) cs =
     (case avr_read cs of None \<Rightarrow> None
      | Some (bs, rest) \<Rightarrow> map_option (Cons bs) (avr_read_all n rest))"

lemma length_avr_line: "length (avr_line bs) = 2 * length bs + 3"
  by (simp add: avr_line_def length_concat comp_def sum_list_triv)

lemma hex_digit:
  assumes "n < 16"
  shows "hex_value (HEX ! n) = Some (of_nat n)" "HEX ! n \<noteq> 0x3B"
proof -
  have "list_all (\<lambda>n. hex_value (HEX ! n) = Some (of_nat n) \<and> HEX ! n \<noteq> 0x3B) [0..<16]"
    by code_simp
  then show "hex_value (HEX ! n) = Some (of_nat n)" "HEX ! n \<noteq> 0x3B"
    using assms by (simp_all add: list_all_length)
qed

lemma nibbles:
  "unat (drop_bit 4 (b :: u8)) < 16" "unat (b AND 0x0F) < 16" "push_bit 4 (drop_bit 4 b) OR (b AND 0x0F) = b"
proof -
  show "unat (drop_bit 4 b) < 16"
  proof -
    have "unat b < 2 ^ 8" by (rule less_le_trans[OF unsigned_less]) simp
    then show ?thesis by (simp add: unat_div_distrib drop_bit_eq_div)
  qed
  have "b AND 0x0F = take_bit 4 b" by (simp add: take_bit_eq_mask mask_eq_exp_minus_1)
  then show "unat (b AND 0x0F) < 16" "push_bit 4 (drop_bit 4 b) OR (b AND 0x0F) = b"
    by (simp_all add: unsigned_take_bit_eq take_bit_nat_less_exp[of 4, simplified])
      (rule bit_word_eqI, auto simp: bit_simps)
qed

lemma avr_payload_line:
  "avr_payload (concat (map (\<lambda>b. [HEX ! unat (drop_bit 4 b), HEX ! unat (b AND 0x0F)]) bs) @ 0x3B # 0x0A # rest) =
    Some (bs, rest)"
  by (induction bs) (simp_all add: hex_digit nibbles)

lemma avr_read_line: "avr_read (avr_line bs @ rest) = Some (bs, rest)"
  by (simp add: avr_read_def avr_line_def avr_payload_line)

lemma avr_read_all_line:
  "avr_read_all (Suc n) (avr_line m @ cs) = map_option (Cons m) (avr_read_all n cs)"
proof -
  obtain c ds where "avr_line m @ cs = c # ds" by (simp add: avr_line_def)
  then show ?thesis using avr_read_line[of m cs] by simp
qed

lemma avr_read_lines: "length ms \<le> n \<Longrightarrow> avr_read_all n (concat (map avr_line ms)) = Some ms"
proof (induction ms arbitrary: n)
  case (Cons m ms)
  then obtain k where "n = Suc k" by (cases n) auto
  then show ?case using Cons by (simp del: avr_read_all.simps add: avr_read_all_line)
qed simp

text \<open>
  A reader of the AVR format that scans the bytes of any batch of lines gets back the frames
  they were formatted from, in order.
\<close>

theorem avr_roundtrip:
  "avr_read_all (length ms) (concat (map avr_line ms)) = Some ms"
  by (rule avr_read_lines) simp

section \<open>The feed as a channel\<close>

lemma feed_avr_push_lines:
  assumes "lines_ok AVR_LINE_MAX s"
  shows "lines_ok AVR_LINE_MAX (feed_avr_push msg msgbits s)"
    "ring_content (f_ring (feed_avr_push msg msgbits s)) =
       ring_content (f_ring s) @ (if avr_accepts (msg, msgbits) s then [avr_line (take (nat (msgbits div 8)) msg)] else [])"
proof -
  have "length (avr_line (take (nat (msgbits div 8)) msg)) \<le> AVR_LINE_MAX" if "avr_accepts (msg, msgbits) s"
    using that by (auto simp: avr_accepts_def length_avr_line AVR_LINE_MAX_def)
  then show "lines_ok AVR_LINE_MAX (feed_avr_push msg msgbits s)"
    "ring_content (f_ring (feed_avr_push msg msgbits s)) =
       ring_content (f_ring s) @ (if avr_accepts (msg, msgbits) s then [avr_line (take (nat (msgbits div 8)) msg)] else [])"
    using assms ring_push_content[of "f_ring s"]
    by (auto simp: lines_ok_def feed_avr_push_def avr_accepts_def Let_def)
qed

definition avr_lines :: "u8 list \<times> int \<Rightarrow> u8 list list" where
  "avr_lines mb = [avr_line (take (nat (snd mb div 8)) (fst mb))]"

definition avr_offer :: "u8 list \<times> int \<Rightarrow> feed \<Rightarrow> feed" where
  "avr_offer mb = feed_avr_push (fst mb) (snd mb)"

definition avr_fetch :: "unit \<Rightarrow> feed \<Rightarrow> u8 list list \<times> feed" where
  "avr_fetch _ = avr_drain"

interpretation avr_channel: channel "lines_ok AVR_LINE_MAX" "\<lambda>s. ring_content (f_ring s)"
  avr_accepts avr_lines avr_offer avr_fetch
proof
  fix s :: feed and c :: "u8 list \<times> int" and d :: unit and ys s'
  assume ok: "lines_ok AVR_LINE_MAX s"
  show "lines_ok AVR_LINE_MAX (avr_offer c s)"
    "ring_content (f_ring (avr_offer c s)) = ring_content (f_ring s) @ (if avr_accepts c s then avr_lines c else [])"
    using feed_avr_push_lines[OF ok, of "fst c" "snd c"] by (simp_all add: avr_offer_def avr_lines_def)
  show "lines_ok AVR_LINE_MAX s'" "ring_content (f_ring s) = ys @ ring_content (f_ring s')"
    if "avr_fetch d s = (ys, s')"
    using that feed_drain_spec[OF ok] by (simp_all add: avr_fetch_def avr_drain_def)
qed

section \<open>The clients\<close>

interpretation avr_poll: slot_handler STALL_LIMIT "avr_poll_client recv"
  by unfold_locales
    (auto simp: avr_poll_client_def avr_client_close_def intro!: conns_intros split: prod.split)

lemma avr_send_client_ok:
  assumes "conns_ok STALL_LIMIT s" "i < MAX_CLIENTS" "0 \<le> slot_fd i s"
  shows "conns_ok STALL_LIMIT (avr_send_client send buf i s)"
proof -
  obtain r errno where [simp]: "send i = (r, errno)" by fastforce
  let ?s = "record_event (Sent (slot_fd i s) (take (nat r) buf)) s"
  have ok: "conns_ok STALL_LIMIT ?s" using assms(1) by (rule event_ok) simp
  have i: "i < length (s_cli s)" using assms by (simp add: conns_ok_def)
  then have "unat (c_stall (s_cli ?s ! i)) \<le> STALL_LIMIT"
    using ok by (auto simp: conns_ok_def slot_ok_def)
  then show ?thesis
    using i stall_count[of "c_stall (s_cli s ! i)"]
    by (auto simp: avr_send_client_def avr_client_close_def Let_def intro!: conns_intros assms)
qed

interpretation avr_bcast: slot_handler STALL_LIMIT "avr_send_client send buf"
  by unfold_locales (rule avr_send_client_ok)

section \<open>Every reachable state\<close>

lemma avr_frame [simp]:
  "f_ring (avr_broadcast send buf s) = f_ring s" "f_ring (avr_poll_closed recv s) = f_ring s"
  unfolding avr_broadcast_def avr_poll_closed_def
  by (rule for_slots_frame, simp add: avr_send_client_def avr_poll_client_def avr_client_close_def Let_def
      split: prod.split)+

lemma avr_step_ok:
  assumes "avr_step s s'" "feed_ok AVR_LINE_MAX s"
  shows "feed_ok AVR_LINE_MAX s'"
  using assms(1)
proof cases
  case (avr_push msg msgbits)
  have "conns_ok STALL_LIMIT s'" "f_phase s' = f_phase s"
    using avr_push assms(2) by (simp_all add: feed_avr_push_def Let_def feed_ok_def)
  then show ?thesis using avr_push assms(2) feed_avr_push_lines(1)[of s] by (simp add: feed_ok_def)
next
  case (avr_listen fd bind_ok listen_ok)
  then show ?thesis using assms(2) tcp_listen_open_ok[of STALL_LIMIT s]
    by (auto intro!: feed_phase_ok[OF assms(2)] simp: avr_listen_open_def feed_ok_def lines_ok_def)
next
  case (avr_accept fd)
  then show ?thesis using assms(2) tcp_accept_ok[of STALL_LIMIT s fd]
    by (auto intro!: feed_phase_ok[OF assms(2)] simp: avr_accept_new_def feed_ok_def lines_ok_def)
next
  case (avr_poll recv)
  then show ?thesis using assms(2) avr_poll.for_slots_ok[of s recv]
    by (auto intro!: feed_phase_ok[OF assms(2)] simp: feed_ok_def lines_ok_def avr_poll_closed_def[symmetric])
next
  case (avr_drained ls s1)
  then show ?thesis using feed_drained_ok[OF assms(2)] by (simp add: avr_drain_def)
next
  case (avr_send lines batch)
  then show ?thesis using assms(2) avr_bcast.for_slots_ok[of s]
    by (auto intro!: feed_phase_ok[OF assms(2)] simp: feed_ok_def lines_ok_def avr_broadcast_def[symmetric])
qed

lemma avr_reach_ok: "avr_reach s \<Longrightarrow> feed_ok AVR_LINE_MAX s"
proof (induction rule: avr_reach.induct)
  case (avr_init b)
  then show ?case using feed_start_ok[OF avr_init] by (simp add: feed_ok_def feed_start_def)
qed (rule avr_step_ok)

text \<open>
  In every state the feed reaches, whatever the network answers and however pushes interleave
  with the feed task, \<open>s_nclients\<close> is the number of live slots and at most \<open>MAX_CLIENTS\<close>, no client
  has stalled more than \<open>STALL_LIMIT\<close> times, a batch fits the batch buffer and every descriptor
  opened was either closed exactly once or is still held.
\<close>

theorem avr_table_invariant:
  assumes "avr_reach s"
  shows "s_nclients s = int (live_slots (s_cli s)) \<and> s_nclients s \<le> int MAX_CLIENTS \<and>
    (\<forall>c \<in> set (s_cli s). unat (c_stall c) \<le> STALL_LIMIT) \<and>
    (case f_phase s of Ph_send lines batch \<Rightarrow> length batch \<le> BATCH_MAX | _ \<Rightarrow> True) \<and>
    mset (opened_fds (s_events s)) = mset (closed_fds (s_events s)) + mset (held s)"
  using avr_reach_ok[OF assms] conns_ok_bounds[of STALL_LIMIT s] by (auto simp: feed_ok_def conns_ok_def slot_ok_def)

definition avr_example :: feed where
  "avr_example = (avr_accept_new 7 ((avr_listen_open 5 True True (feed_start (replicate 128 [])))\<lparr>f_phase := Ph_accept\<rparr>))
     \<lparr>f_phase := Ph_poll\<rparr>"

lemma avr_example_reach: "avr_reach avr_example"
proof -
  let ?s = "feed_start (replicate 128 [])"
  have "avr_reach ?s" by (rule avr_init) (simp add: RING_SLOTS_def)
  from avr_next[OF this avr_listen[of ?s 5 True True]]
  have r: "avr_reach ((avr_listen_open 5 True True ?s)\<lparr>f_phase := Ph_accept\<rparr>)" by (simp add: feed_start_def)
  from avr_next[OF this avr_accept[of _ 7]] show ?thesis
    by (simp add: avr_example_def avr_listen_open_def tcp_listen_open_def Let_def)
qed

lemma avr_table_invariant_witness:
  "avr_reach avr_example \<and> s_nclients avr_example = 1 \<and>
    mset (opened_fds (s_events avr_example)) = mset (closed_fds (s_events avr_example)) + mset (held avr_example)"
proof -
  have "s_nclients avr_example = 1" by code_simp
  then show ?thesis using avr_example_reach avr_table_invariant[OF avr_example_reach] by simp
qed

text \<open>
  C9: the ring of the feed is a queue: over any sequence of pushes and drains that starts with an
  empty ring, the lines drained are the lines of the accepted frames in order, and the rest of them
  is still in the ring.
\<close>

theorem avr_ring_is_queue:
  assumes "lines_ok AVR_LINE_MAX s" "ring_content (f_ring s) = []"
    and "channel_run avr_accepts avr_lines avr_offer avr_fetch ops s = (out, acc, s')"
  shows "acc = out @ ring_content (f_ring s')"
  using avr_channel.run_fifo[OF assms(1,3)] assms(2) by simp

lemma avr_ring_is_queue_witness:
  "case channel_run avr_accepts avr_lines avr_offer avr_fetch
      [Offer ([0x8D, 0x4B], 16), Offer ([0x5D], 8), Offer ([], 0), Fetch ()] avr_example of
    (out, acc, s') \<Rightarrow> acc = out @ ring_content (f_ring s') \<and> length acc = 2"
proof -
  let ?ops = "[Offer ([0x8D, 0x4B], 16), Offer ([0x5D], 8), Offer ([], 0), Fetch ()]"
  obtain out acc s' where r: "channel_run avr_accepts avr_lines avr_offer avr_fetch ?ops avr_example = (out, acc, s')"
    by (cases "channel_run avr_accepts avr_lines avr_offer avr_fetch ?ops avr_example") auto
  have ok: "lines_ok AVR_LINE_MAX avr_example" using avr_reach_ok[OF avr_example_reach] by (simp add: feed_ok_def)
  have e: "ring_content (f_ring avr_example) = []" by code_simp
  have "length (fst (snd (channel_run avr_accepts avr_lines avr_offer avr_fetch ?ops avr_example))) = 2"
    by code_simp
  with r avr_ring_is_queue[OF ok e r] show ?thesis by simp
qed

section \<open>A client that does not read\<close>

interpretation avr_stall: stalling STALL_LIMIT "avr_send_client (send(i := (-1, EAGAIN))) buf" i
proof
  fix j and s :: "'a conns_scheme"
  show "s_cli (avr_send_client (send(i := (-1, EAGAIN))) buf j s) ! i = s_cli s ! i" if "j \<noteq> i"
    using that by (auto simp: avr_send_client_def avr_client_close_def slot_clear_def set_stall_def Let_def
        split: prod.split)
  show "length (s_cli (avr_send_client (send(i := (-1, EAGAIN))) buf j s)) = length (s_cli s)"
    by (auto simp: avr_send_client_def avr_client_close_def slot_clear_def set_stall_def Let_def
        split: prod.split)
  show "s_cli (avr_send_client (send(i := (-1, EAGAIN))) buf i s) ! i =
      (if STALL_LIMIT \<le> unat (c_stall (s_cli s ! i)) then \<lparr>c_fd = -1, c_stall = 0\<rparr>
       else (s_cli s ! i)\<lparr>c_stall := c_stall (s_cli s ! i) + 1\<rparr>)"
    if "i < length (s_cli s)" "unat (c_stall (s_cli s ! i)) \<le> STALL_LIMIT"
    using that unat_word_ariths(1)[of "c_stall (s_cli s ! i)" 1]
    by (auto simp: avr_send_client_def avr_client_close_def slot_clear_def set_stall_def Let_def would_block_def
        STALL_LIMIT_def word_less_nat_alt)
qed (simp add: STALL_LIMIT_def)

text \<open>
  C28: a client that accepts no data is closed: once \<open>send\<close> would block on every broadcast its slot is
  free after at most \<open>STALL_LIMIT + 1\<close> of them, whatever the other clients do.
\<close>

theorem avr_stalled_client_closed:
  assumes "conns_ok STALL_LIMIT s" "i < MAX_CLIENTS" "0 \<le> slot_fd i s" "send i = (-1, EAGAIN)"
  shows "\<exists>k \<le> STALL_LIMIT + 1. slot_fd i ((avr_broadcast send buf ^^ k) s) < 0"
proof -
  have "send(i := (-1, EAGAIN)) = send" using assms(4) by (metis fun_upd_triv)
  then have "\<exists>k \<le> STALL_LIMIT + 1 - unat (c_stall (s_cli s ! i)). slot_fd i ((avr_broadcast send buf ^^ k) s) < 0"
    using avr_stall.closes[OF assms(1-3), of send buf] by (simp add: avr_broadcast_def[abs_def])
  then show ?thesis by (meson diff_le_self le_trans)
qed

lemma avr_stalled_client_closed_witness:
  "\<exists>k \<le> STALL_LIMIT + 1. slot_fd 0 ((avr_broadcast (\<lambda>_. (-1, EAGAIN)) [0x2A] ^^ k) avr_example) < 0"
proof (rule avr_stalled_client_closed)
  show "conns_ok STALL_LIMIT avr_example" using avr_reach_ok[OF avr_example_reach] by (simp add: feed_ok_def)
  show "0 \<le> slot_fd 0 avr_example" by code_simp
qed (simp_all add: MAX_CLIENTS_def)

end
