(* ===== verification/FeedBeast.thy ===== *)
theory FeedBeast
  imports FeedRing
begin

text \<open>
  The Beast binary feed, \<open>main/feed_beast.c\<close>: framing with byte stuffing, the socket operations of
  its task and the pass of the task as a step relation, and a reader of the framing for the round
  trip.
\<close>

section \<open>The code\<close>

definition BEAST_LINE_MAX :: nat where
  "BEAST_LINE_MAX = 2 + 2 * (6 + 1 + 14)"

definition beast_signal :: "int \<Rightarrow> u8" where
  "beast_signal signal_level = word_of_int (if signal_level < 0 then 0 else if 255 < signal_level then 255 else signal_level)"

definition beast_raw :: "u8 list \<Rightarrow> u64 \<Rightarrow> int \<Rightarrow> u8 list" where
  "beast_raw data timestamp_12mhz signal_level =
     map (\<lambda>i. ucast (drop_bit (i * 8) timestamp_12mhz)) (rev [0..<6]) @ [beast_signal signal_level] @ data"

definition beast_stuff :: "u8 list \<Rightarrow> u8 list" where
  "beast_stuff raw = concat (map (\<lambda>b. if b = 0x1A then [b, 0x1A] else [b]) raw)"

definition beast_line :: "u8 list \<Rightarrow> u64 \<Rightarrow> int \<Rightarrow> u8 list" where
  "beast_line data timestamp_12mhz signal_level =
     [0x1A, if length data = 14 then 0x33 else 0x32] @ beast_stuff (beast_raw data timestamp_12mhz signal_level)"

definition feed_beast_push :: "u8 list \<Rightarrow> int \<Rightarrow> u64 \<Rightarrow> int \<Rightarrow> feed \<Rightarrow> feed" where
  "feed_beast_push msg msgbits timestamp_12mhz signal_level s =
     (if s_nclients s = 0 then s
      else let nbytes = msgbits div 8
           in if nbytes \<noteq> 14 \<and> nbytes \<noteq> 7 then s
              else if ring_full (f_ring s) then s\<lparr>f_drop := f_drop s + 1\<rparr>
              else s\<lparr>f_ring := ring_push (beast_line (take (nat nbytes) msg) timestamp_12mhz signal_level) (f_ring s)\<rparr>)"

definition beast_client_close :: "nat \<Rightarrow> string \<Rightarrow> 'a conns_scheme \<Rightarrow> 'a conns_scheme" where
  "beast_client_close i why s = record_event (Logged why) (slot_clear i s)"

definition beast_listen_open :: "int \<Rightarrow> bool \<Rightarrow> bool \<Rightarrow> 'a conns_scheme \<Rightarrow> 'a conns_scheme" where
  "beast_listen_open = tcp_listen_open 30005 2"

definition beast_accept_new :: "int \<Rightarrow> 'a conns_scheme \<Rightarrow> 'a conns_scheme" where
  "beast_accept_new fd s =
     (if fd < 0 then s
      else tcp_accept [(''TCP_NODELAY'', 1), (''SO_KEEPALIVE'', 1), (''O_NONBLOCK'', 1)] fd s)"

text \<open>\<open>strerror\<close> of the C library is a parameter.\<close>

definition beast_send_client ::
  "(int \<Rightarrow> string) \<Rightarrow> (nat \<Rightarrow> sock_result) \<Rightarrow> u8 list \<Rightarrow> nat \<Rightarrow> 'a conns_scheme \<Rightarrow> 'a conns_scheme" where
  "beast_send_client strerror send buf i s =
     (let (r, errno) = send i; s = record_event (Sent (slot_fd i s) (take (nat r) buf)) s
      in if r = int (length buf) then set_stall i 0 s
         else if r < 0 \<and> would_block errno then
           let s = set_stall i (c_stall (s_cli s ! i) + 1) s
           in if of_nat STALL_LIMIT < c_stall (s_cli s ! i) then beast_client_close i ''write stalled'' s else s
         else if r < 0 then beast_client_close i (strerror errno) s
         else s)"

definition beast_broadcast ::
  "(int \<Rightarrow> string) \<Rightarrow> (nat \<Rightarrow> sock_result) \<Rightarrow> u8 list \<Rightarrow> 'a conns_scheme \<Rightarrow> 'a conns_scheme" where
  "beast_broadcast strerror send buf s = for_slots (beast_send_client strerror send buf) s"

definition beast_poll_client ::
  "(int \<Rightarrow> string) \<Rightarrow> (nat \<Rightarrow> sock_result) \<Rightarrow> nat \<Rightarrow> 'a conns_scheme \<Rightarrow> 'a conns_scheme" where
  "beast_poll_client strerror recv i s =
     (let (r, errno) = recv i
      in if r = 0 then beast_client_close i ''peer closed'' s
         else if r < 0 \<and> \<not> would_block errno then beast_client_close i (strerror errno) s
         else s)"

definition beast_poll_closed ::
  "(int \<Rightarrow> string) \<Rightarrow> (nat \<Rightarrow> sock_result) \<Rightarrow> 'a conns_scheme \<Rightarrow> 'a conns_scheme" where
  "beast_poll_closed strerror recv s = for_slots (beast_poll_client strerror recv) s"

definition beast_drain :: "feed \<Rightarrow> u8 list list \<times> feed" where
  "beast_drain s = feed_drain BEAST_LINE_MAX s"

inductive beast_step :: "(int \<Rightarrow> string) \<Rightarrow> feed \<Rightarrow> feed \<Rightarrow> bool" for strerror where
  beast_push: "beast_step strerror s (feed_beast_push msg msgbits ts sig s)"
| beast_listen: "f_phase s = Ph_listen \<Longrightarrow>
    beast_step strerror s ((if s_listen s < 0 then beast_listen_open fd bind_ok listen_ok s else s)\<lparr>f_phase := Ph_accept\<rparr>)"
| beast_accept: "f_phase s = Ph_accept \<Longrightarrow>
    beast_step strerror s ((if 0 \<le> s_listen s then beast_accept_new fd s else s)\<lparr>f_phase := Ph_poll\<rparr>)"
| beast_poll: "f_phase s = Ph_poll \<Longrightarrow>
    beast_step strerror s ((beast_poll_closed strerror recv s)\<lparr>f_phase := Ph_drain\<rparr>)"
| beast_drained: "f_phase s = Ph_drain \<Longrightarrow> beast_drain s = (ls, s') \<Longrightarrow>
    beast_step strerror s (s'\<lparr>f_phase := Ph_send (of_nat (length ls)) (concat ls)\<rparr>)"
| beast_send: "f_phase s = Ph_send lines batch \<Longrightarrow>
    beast_step strerror s ((if batch \<noteq> [] \<and> s_nclients s \<noteq> 0
      then (beast_broadcast strerror send batch s)\<lparr>f_sent := f_sent s + lines\<rparr> else s)\<lparr>f_phase := Ph_listen\<rparr>)"

inductive beast_reach :: "(int \<Rightarrow> string) \<Rightarrow> feed \<Rightarrow> bool" for strerror where
  beast_init: "length b = RING_SLOTS \<Longrightarrow> beast_reach strerror (feed_start b)"
| beast_next: "beast_reach strerror s \<Longrightarrow> beast_step strerror s s' \<Longrightarrow> beast_reach strerror s'"

section \<open>The framing\<close>

fun beast_unstuff :: "nat \<Rightarrow> u8 list \<Rightarrow> (u8 list \<times> u8 list) option" where
  "beast_unstuff 0 cs = Some ([], cs)"
| "beast_unstuff (Suc n) (c # cs) =
     (if c \<noteq> 0x1A then map_option (\<lambda>(bs, rest). (c # bs, rest)) (beast_unstuff n cs)
      else case cs of
             d # ds \<Rightarrow> if d = 0x1A then map_option (\<lambda>(bs, rest). (c # bs, rest)) (beast_unstuff n ds) else None
           | [] \<Rightarrow> None)"
| "beast_unstuff (Suc n) [] = None"

text \<open>A frame is read as its timestamp of six bytes, its signal level and its data.\<close>

fun beast_fields :: "u8 list \<Rightarrow> u64 \<times> u8 \<times> u8 list" where
  "beast_fields bs =
     (foldl (\<lambda>t b. push_bit 8 t OR ucast b) 0 (take 6 bs), bs ! 6, drop 7 bs)"

fun beast_read :: "u8 list \<Rightarrow> ((u64 \<times> u8 \<times> u8 list) \<times> u8 list) option" where
  "beast_read (c # t # cs) =
     (if c = 0x1A \<and> (t = 0x32 \<or> t = 0x33)
      then map_option (\<lambda>(bs, rest). (beast_fields bs, rest)) (beast_unstuff (7 + (if t = 0x33 then 14 else 7)) cs)
      else None)"
| "beast_read _ = None"

fun beast_read_all :: "nat \<Rightarrow> u8 list \<Rightarrow> (u64 \<times> u8 \<times> u8 list) list option" where
  "beast_read_all n [] = Some []"
| "beast_read_all 0 cs = None"
| "beast_read_all (Suc n) cs =
     (case beast_read cs of None \<Rightarrow> None
      | Some (f, rest) \<Rightarrow> map_option (Cons f) (beast_read_all n rest))"

lemma beast_unstuff_stuff: "beast_unstuff (length bs) (beast_stuff bs @ rest) = Some (bs, rest)"
  by (induction bs) (simp_all add: beast_stuff_def)

lemma length_beast_raw [simp]: "length (beast_raw data ts sig) = 7 + length data"
  by (simp add: beast_raw_def)

lemma length_beast_stuff: "length (beast_stuff bs) \<le> 2 * length bs"
  by (induction bs) (auto simp: beast_stuff_def)

lemma length_beast_line: "length data \<le> 14 \<Longrightarrow> length (beast_line data ts sig) \<le> BEAST_LINE_MAX"
  using length_beast_stuff[of "beast_raw data ts sig"] by (simp add: beast_line_def BEAST_LINE_MAX_def)

lemma byte_above:
  "push_bit (8 * k) (push_bit 8 t OR ucast (ucast (drop_bit (k * 8) ts) :: u8)) OR take_bit (8 * k) ts =
    push_bit (8 * Suc k) t OR take_bit (8 * Suc k) (ts :: u64)"
  by (rule bit_word_eqI) (auto simp: bit_simps algebra_simps)

lemma big_endian_bytes:
  "foldl (\<lambda>t b. push_bit 8 t OR ucast b) t (map (\<lambda>i. ucast (drop_bit (i * 8) ts) :: u8) (rev [0..<k])) =
    push_bit (8 * k) t OR take_bit (8 * k) (ts :: u64)"
proof (induction k arbitrary: t)
  case (Suc k)
  have e: "map (\<lambda>i. ucast (drop_bit (i * 8) ts) :: u8) (rev [0..<Suc k]) =
      ucast (drop_bit (k * 8) ts) # map (\<lambda>i. ucast (drop_bit (i * 8) ts)) (rev [0..<k])" by simp
  show ?case unfolding e foldl_Cons Suc.IH by (rule byte_above)
qed simp

lemma timestamp_bytes:
  "foldl (\<lambda>t b. push_bit 8 t OR ucast b) 0 (map (\<lambda>i. ucast (drop_bit (i * 8) ts) :: u8) (rev [0..<6])) = take_bit 48 (ts :: u64)"
  using big_endian_bytes[of 0 ts 6] by (simp del: upt_rec_numeral)

lemma beast_fields_raw: "beast_fields (beast_raw data ts sig) = (take_bit 48 ts, beast_signal sig, data)"
  using timestamp_bytes[of ts] by (simp add: beast_raw_def nth_append)

lemma beast_read_line:
  assumes "length data = 7 \<or> length data = 14"
  shows "beast_read (beast_line data ts sig @ rest) = Some ((take_bit 48 ts, beast_signal sig, data), rest)"
  using assms beast_unstuff_stuff[of "beast_raw data ts sig" rest] beast_fields_raw[of data ts sig]
  by (auto simp: beast_line_def simp del: beast_fields.simps)

lemma beast_read_all_line:
  assumes "length data = 7 \<or> length data = 14"
  shows "beast_read_all (Suc n) (beast_line data ts sig @ cs) =
    map_option (Cons (take_bit 48 ts, beast_signal sig, data)) (beast_read_all n cs)"
proof -
  obtain c ds where "beast_line data ts sig @ cs = c # ds" by (simp add: beast_line_def)
  then show ?thesis using beast_read_line[OF assms, of ts sig cs] by simp
qed

lemma beast_read_lines:
  assumes "length fs \<le> n" "\<forall>(ts, sig, data) \<in> set fs. length data = 7 \<or> length data = 14"
  shows "beast_read_all n (concat (map (\<lambda>(ts, sig, data). beast_line data ts sig) fs)) =
    Some (map (\<lambda>(ts, sig, data). (take_bit 48 ts, beast_signal sig, data)) fs)"
  using assms
proof (induction fs arbitrary: n)
  case (Cons f fs)
  obtain ts sig data where f: "f = (ts, sig, data)" by (cases f) auto
  obtain k where "n = Suc k" using Cons.prems(1) by (cases n) auto
  then show ?case using Cons f
    by (auto simp del: beast_read_all.simps simp: beast_read_all_line)
qed simp

text \<open>
  C29: a reader that undoes the byte stuffing gets back every frame of a batch: its data, the low 48
  bits of its timestamp and its signal level clamped to a byte, even where these bytes contain the
  marker 0x1A.
\<close>

theorem beast_roundtrip:
  assumes "\<forall>(ts, sig, data) \<in> set fs. length data = 7 \<or> length data = 14"
  shows "beast_read_all (length fs) (concat (map (\<lambda>(ts, sig, data). beast_line data ts sig) fs)) =
    Some (map (\<lambda>(ts, sig, data). (take_bit 48 ts, beast_signal sig, data)) fs)"
  by (rule beast_read_lines[OF _ assms]) simp

lemma beast_roundtrip_witness:
  "beast_read_all 2 (concat (map (\<lambda>(ts, sig, data). beast_line data ts sig)
      [(0x1A1A, 300, replicate 7 0x1A), (7, -1, replicate 14 0x33)])) =
    Some [(0x1A1A, 255, replicate 7 0x1A), (7, 0, replicate 14 0x33)]"
proof -
  let ?fs = "[(0x1A1A :: u64, 300 :: int, replicate 7 (0x1A :: u8)), (7, -1, replicate 14 0x33)]"
  have e: "map (\<lambda>(ts, sig, data). (take_bit 48 ts, beast_signal sig, data)) ?fs =
      [(0x1A1A, 255, replicate 7 0x1A), (7, 0, replicate 14 0x33)]"
    by code_simp
  show ?thesis using beast_roundtrip[of ?fs] unfolding e by (simp add: numeral_2_eq_2)
qed

section \<open>The feed as a channel\<close>

definition beast_accepts :: "u8 list \<times> int \<times> u64 \<times> int \<Rightarrow> feed \<Rightarrow> bool" where
  "beast_accepts m s \<longleftrightarrow> (case m of (msg, msgbits, ts, sig) \<Rightarrow>
     s_nclients s \<noteq> 0 \<and> (msgbits div 8 = 14 \<or> msgbits div 8 = 7) \<and> \<not> ring_full (f_ring s))"

definition beast_lines :: "u8 list \<times> int \<times> u64 \<times> int \<Rightarrow> u8 list list" where
  "beast_lines m = (case m of (msg, msgbits, ts, sig) \<Rightarrow> [beast_line (take (nat (msgbits div 8)) msg) ts sig])"

definition beast_offer :: "u8 list \<times> int \<times> u64 \<times> int \<Rightarrow> feed \<Rightarrow> feed" where
  "beast_offer m = (case m of (msg, msgbits, ts, sig) \<Rightarrow> feed_beast_push msg msgbits ts sig)"

definition beast_fetch :: "unit \<Rightarrow> feed \<Rightarrow> u8 list list \<times> feed" where
  "beast_fetch _ = beast_drain"

lemma beast_offer_lines:
  assumes "lines_ok BEAST_LINE_MAX s"
  shows "lines_ok BEAST_LINE_MAX (beast_offer m s)"
    "ring_content (f_ring (beast_offer m s)) = ring_content (f_ring s) @ (if beast_accepts m s then beast_lines m else [])"
proof -
  obtain msg msgbits ts sig where m: "m = (msg, msgbits, ts, sig)" by (cases m) auto
  let ?d = "take (nat (msgbits div 8)) msg"
  have "length (beast_line ?d ts sig) \<le> BEAST_LINE_MAX" if "beast_accepts m s"
    using that by (intro length_beast_line) (auto simp: beast_accepts_def m)
  then show "lines_ok BEAST_LINE_MAX (beast_offer m s)"
    "ring_content (f_ring (beast_offer m s)) = ring_content (f_ring s) @ (if beast_accepts m s then beast_lines m else [])"
    using assms ring_push_content[of "f_ring s"]
    by (auto simp: lines_ok_def beast_offer_def feed_beast_push_def beast_accepts_def beast_lines_def Let_def m)
qed

interpretation beast_channel: channel "lines_ok BEAST_LINE_MAX" "\<lambda>s. ring_content (f_ring s)"
  beast_accepts beast_lines beast_offer beast_fetch
proof
  fix s :: feed and c :: "u8 list \<times> int \<times> u64 \<times> int" and d :: unit and ys s'
  assume ok: "lines_ok BEAST_LINE_MAX s"
  show "lines_ok BEAST_LINE_MAX (beast_offer c s)"
    "ring_content (f_ring (beast_offer c s)) = ring_content (f_ring s) @ (if beast_accepts c s then beast_lines c else [])"
    using beast_offer_lines[OF ok] by simp_all
  show "lines_ok BEAST_LINE_MAX s'" "ring_content (f_ring s) = ys @ ring_content (f_ring s')"
    if "beast_fetch d s = (ys, s')"
    using that feed_drain_spec[OF ok] by (simp_all add: beast_fetch_def beast_drain_def)
qed

section \<open>The clients\<close>

interpretation beast_poll: slot_handler STALL_LIMIT "beast_poll_client strerror recv"
  by unfold_locales
    (auto simp: beast_poll_client_def beast_client_close_def intro!: conns_intros split: prod.split)

lemma beast_send_client_ok:
  assumes "conns_ok STALL_LIMIT s" "i < MAX_CLIENTS" "0 \<le> slot_fd i s"
  shows "conns_ok STALL_LIMIT (beast_send_client strerror send buf i s)"
proof -
  obtain r errno where [simp]: "send i = (r, errno)" by fastforce
  have i: "i < length (s_cli s)" using assms by (simp add: conns_ok_def)
  then have "unat (c_stall (s_cli s ! i)) \<le> STALL_LIMIT"
    using assms(1) by (auto simp: conns_ok_def slot_ok_def)
  then show ?thesis
    using i stall_count[of "c_stall (s_cli s ! i)"]
    by (auto simp: beast_send_client_def beast_client_close_def Let_def intro!: conns_intros assms)
qed

interpretation beast_bcast: slot_handler STALL_LIMIT "beast_send_client strerror send buf"
  by unfold_locales (rule beast_send_client_ok)

section \<open>Every reachable state\<close>

lemma beast_frame [simp]:
  "f_ring (beast_broadcast strerror send buf s) = f_ring s" "f_ring (beast_poll_closed strerror recv s) = f_ring s"
  unfolding beast_broadcast_def beast_poll_closed_def
  by (rule for_slots_frame, simp add: beast_send_client_def beast_poll_client_def beast_client_close_def Let_def
      split: prod.split)+

lemma feed_beast_push_conns:
  "conns_ok n (feed_beast_push msg msgbits ts sig s) = conns_ok n s"
  "f_phase (feed_beast_push msg msgbits ts sig s) = f_phase s"
  by (simp_all add: feed_beast_push_def Let_def)

lemma beast_step_ok:
  assumes "beast_step strerror s s'" "feed_ok BEAST_LINE_MAX s"
  shows "feed_ok BEAST_LINE_MAX s'"
  using assms(1)
proof cases
  case (beast_push msg msgbits ts sig)
  then show ?thesis using assms(2) beast_offer_lines(1)[of s "(msg, msgbits, ts, sig)"] feed_beast_push_conns
    by (simp add: feed_ok_def beast_offer_def)
next
  case (beast_listen fd bind_ok listen_ok)
  then show ?thesis using assms(2) tcp_listen_open_ok[of STALL_LIMIT s]
    by (auto intro!: feed_phase_ok[OF assms(2)] simp: beast_listen_open_def feed_ok_def lines_ok_def)
next
  case (beast_accept fd)
  then show ?thesis using assms(2) tcp_accept_ok[of STALL_LIMIT s fd]
    by (auto intro!: feed_phase_ok[OF assms(2)] simp: beast_accept_new_def feed_ok_def lines_ok_def)
next
  case (beast_poll recv)
  then show ?thesis using assms(2) beast_poll.for_slots_ok[of s]
    by (auto intro!: feed_phase_ok[OF assms(2)] simp: feed_ok_def lines_ok_def beast_poll_closed_def[symmetric])
next
  case (beast_drained ls s1)
  then show ?thesis using feed_drained_ok[OF assms(2)] by (simp add: beast_drain_def)
next
  case (beast_send lines batch)
  then show ?thesis using assms(2) beast_bcast.for_slots_ok[of s]
    by (auto intro!: feed_phase_ok[OF assms(2)] simp: feed_ok_def lines_ok_def beast_broadcast_def[symmetric])
qed

lemma beast_reach_ok: "beast_reach strerror s \<Longrightarrow> feed_ok BEAST_LINE_MAX s"
proof (induction rule: beast_reach.induct)
  case (beast_init b)
  then show ?case using feed_start_ok[OF beast_init] by (simp add: feed_ok_def feed_start_def)
qed (rule beast_step_ok)

text \<open>
  In every state the Beast feed reaches the table invariant holds, each queued line fits a ring
  slot, however many bytes were doubled, and a batch fits the batch buffer.
\<close>

theorem beast_reach_bounds:
  assumes "beast_reach strerror s"
  shows "s_nclients s = int (live_slots (s_cli s)) \<and>
    (\<forall>l \<in> set (ring_content (f_ring s)). length l \<le> BEAST_LINE_MAX) \<and>
    (case f_phase s of Ph_send lines batch \<Rightarrow> length batch \<le> BATCH_MAX | _ \<Rightarrow> True) \<and>
    mset (opened_fds (s_events s)) = mset (closed_fds (s_events s)) + mset (held s)"
  using beast_reach_ok[OF assms] by (auto simp: feed_ok_def conns_ok_def lines_ok_def)

lemma beast_reach_bounds_witness:
  "\<exists>s. beast_reach (\<lambda>_. ''error'') s \<and> s_nclients s = int (live_slots (s_cli s)) \<and> s_listen s = 5"
proof -
  let ?s = "feed_start (replicate 128 [])"
  have "beast_reach (\<lambda>_. ''error'') ?s" by (rule beast_init) (simp add: RING_SLOTS_def)
  from beast_next[OF this beast_listen[of ?s _ 5 True True]]
  have r: "beast_reach (\<lambda>_. ''error'') ((beast_listen_open 5 True True ?s)\<lparr>f_phase := Ph_accept\<rparr>)"
    by (simp add: feed_start_def)
  have "s_listen ((beast_listen_open 5 True True ?s)\<lparr>f_phase := Ph_accept\<rparr>) = 5"
    by (simp add: beast_listen_open_def tcp_listen_open_def Let_def)
  then show ?thesis using r beast_reach_bounds[OF r] by blast
qed

end
