(* ===== verification/FeedJson.thy ===== *)
theory FeedJson
  imports TcpFeed "HOL-Library.Sublist"
begin

text \<open>
  The JSON snapshot feed, \<open>main/feed_json.c\<close>: the connection table with resets, the accept loop,
  the budgeted send loop of a whole snapshot, the TCP census and its log, and the feed task. The
  snapshot text is produced elsewhere and is an argument here.
\<close>

section \<open>Connections\<close>

definition JSON_STALL_LIMIT :: nat where
  "JSON_STALL_LIMIT = 4"

definition SEND_BUDGET_MS :: int where
  "SEND_BUDGET_MS = 150"

definition CENSUS_TICKS :: u32 where
  "CENSUS_TICKS = 8"

record json_conns = conns +
  j_resets :: u32

definition json_client_close :: "nat \<Rightarrow> string \<Rightarrow> bool \<Rightarrow> 'a json_conns_scheme \<Rightarrow> 'a json_conns_scheme" where
  "json_client_close i why reset s =
     (let s = (if reset
               then (set_option (slot_fd i s) (''SO_LINGER'', 0) s)\<lparr>j_resets := j_resets s + 1\<rparr>
               else s)
      in record_event (Logged why) (slot_clear i s))"

definition json_listen_open :: "int \<Rightarrow> bool \<Rightarrow> bool \<Rightarrow> 'a conns_scheme \<Rightarrow> 'a conns_scheme" where
  "json_listen_open = tcp_listen_open 8888 (int MAX_CLIENTS)"

definition json_options :: "(string \<times> int) list" where
  "json_options = [(''TCP_NODELAY'', 1), (''SO_KEEPALIVE'', 1), (''TCP_KEEPIDLE'', 10), (''TCP_KEEPINTVL'', 5),
     (''TCP_KEEPCNT'', 3), (''O_NONBLOCK'', 1)]"

text \<open>The loop drains the accept queue: the answers of \<open>accept\<close> up to the first failure.\<close>

fun json_accept_new :: "sock_result list \<Rightarrow> 'a conns_scheme \<Rightarrow> 'a conns_scheme" where
  "json_accept_new [] s = s"
| "json_accept_new ((fd, errno) # answers) s =
     (if fd < 0 then (if \<not> would_block errno then record_event (Logged ''accept failed'') s else s)
      else
        let s = (if free_slot s = None then record_event (Logged ''turned away'') s else s)
        in json_accept_new answers (tcp_accept json_options fd s))"

section \<open>One snapshot to one client\<close>

text \<open>
  The k-th answer of the network is what \<open>send\<close> returned and what the clock read after it. The loop
  returns 1, 0 or -1 and the bytes that went out.
\<close>

partial_function (option) json_send_loop ::
  "(nat \<Rightarrow> sock_result \<times> int) \<Rightarrow> int \<Rightarrow> u8 list \<Rightarrow> nat \<Rightarrow> nat \<Rightarrow> u8 list \<Rightarrow> (int \<times> u8 list) option" where
  "json_send_loop answers end_time buf k off out =
     (if off < length buf then
        case answers k of ((r, errno), now) \<Rightarrow>
          if 0 < r then
            json_send_loop answers end_time buf (k + 1) (off + nat r) (out @ take (nat r) (drop off buf))
          else if r < 0 \<and> \<not> would_block errno then Some (-1, out)
          else if end_time \<le> now then Some (if off = length buf then 1 else 0, out)
          else json_send_loop answers end_time buf (k + 1) off out
      else Some (if off = length buf then 1 else 0, out))"

definition json_send_frame :: "(nat \<Rightarrow> sock_result \<times> int) \<Rightarrow> int \<Rightarrow> u8 list \<Rightarrow> (int \<times> u8 list) option" where
  "json_send_frame answers start buf = json_send_loop answers (start + SEND_BUDGET_MS * 1000) buf 0 0 []"

definition json_send_client :: "(int \<times> u8 list) \<Rightarrow> nat \<Rightarrow> 'a json_conns_scheme \<Rightarrow> 'a json_conns_scheme" where
  "json_send_client result i s =
     (let s = record_event (Sent (slot_fd i s) (snd result)) s; r = fst result
      in if r < 0 then json_client_close i ''send error'' True s
         else if 0 < r then set_stall i 0 s
         else let s = set_stall i (c_stall (s_cli s ! i) + 1) s
              in if of_nat JSON_STALL_LIMIT < c_stall (s_cli s ! i) then json_client_close i ''too slow'' True s else s)"

definition json_broadcast ::
  "(nat \<Rightarrow> nat \<Rightarrow> sock_result \<times> int) \<Rightarrow> (nat \<Rightarrow> int) \<Rightarrow> u8 list \<Rightarrow> 'a json_conns_scheme \<Rightarrow> 'a json_conns_scheme option" where
  "json_broadcast answers start buf s =
     fold (\<lambda>i os. case os of None \<Rightarrow> None
       | Some s \<Rightarrow>
           if slot_fd i s < 0 then Some s
           else case json_send_frame (answers i) (start i) buf of
                  None \<Rightarrow> None | Some result \<Rightarrow> Some (json_send_client result i s))
       [0..<MAX_CLIENTS] (Some s)"

definition json_poll_client :: "(nat \<Rightarrow> sock_result) \<Rightarrow> nat \<Rightarrow> 'a json_conns_scheme \<Rightarrow> 'a json_conns_scheme" where
  "json_poll_client recv i s =
     (let (r, errno) = recv i
      in if r = 0 then json_client_close i ''peer closed'' False s
         else if r < 0 \<and> \<not> would_block errno then json_client_close i ''recv error'' False s
         else s)"

definition json_poll_closed :: "(nat \<Rightarrow> sock_result) \<Rightarrow> 'a json_conns_scheme \<Rightarrow> 'a json_conns_scheme" where
  "json_poll_closed recv s = for_slots (json_poll_client recv) s"

section \<open>The census\<close>

datatype pcb_state = CLOSED_PCB | LISTEN_PCB | SYN_SENT | SYN_RCVD | ESTABLISHED | FIN_WAIT_1 | FIN_WAIT_2
  | CLOSE_WAIT | CLOSING | LAST_ACK | TIME_WAIT

record feed_json_tcp =
  t_established :: u8
  t_syn_rcvd :: u8
  t_closing :: u8
  t_time_wait :: u8
  t_other :: u8
  t_pcb_limit :: u8
  t_pending :: u8
  t_backlog :: u8

definition census_pcb :: "pcb_state \<Rightarrow> feed_json_tcp \<Rightarrow> feed_json_tcp" where
  "census_pcb p t =
     (case p of
        ESTABLISHED \<Rightarrow> t\<lparr>t_established := t_established t + 1\<rparr>
      | SYN_RCVD \<Rightarrow> t\<lparr>t_syn_rcvd := t_syn_rcvd t + 1\<rparr>
      | FIN_WAIT_1 \<Rightarrow> t\<lparr>t_closing := t_closing t + 1\<rparr>
      | FIN_WAIT_2 \<Rightarrow> t\<lparr>t_closing := t_closing t + 1\<rparr>
      | CLOSING \<Rightarrow> t\<lparr>t_closing := t_closing t + 1\<rparr>
      | CLOSE_WAIT \<Rightarrow> t\<lparr>t_closing := t_closing t + 1\<rparr>
      | LAST_ACK \<Rightarrow> t\<lparr>t_closing := t_closing t + 1\<rparr>
      | _ \<Rightarrow> t\<lparr>t_other := t_other t + 1\<rparr>)"

text \<open>The three lists of lwIP: active pcbs, the ones in TIME-WAIT, the listeners as port, pending, backlog.\<close>

definition census_fn :: "pcb_state list \<Rightarrow> nat \<Rightarrow> (int \<times> u8 \<times> u8) list \<Rightarrow> feed_json_tcp \<Rightarrow> feed_json_tcp" where
  "census_fn active time_wait listeners t =
     (let t = fold census_pcb active t;
          t = t\<lparr>t_time_wait := t_time_wait t + of_nat time_wait\<rparr>;
          t = t\<lparr>t_pending := -1\<rparr>
      in fold (\<lambda>(port, pending, backlog) t.
           if port = 8888 then t\<lparr>t_pending := pending, t_backlog := backlog\<rparr> else t) listeners t)"

definition feed_json_tcp_census :: "pcb_state list \<Rightarrow> nat \<Rightarrow> (int \<times> u8 \<times> u8) list \<Rightarrow> feed_json_tcp" where
  "feed_json_tcp_census active time_wait listeners =
     (census_fn active time_wait listeners
        \<lparr>t_established = 0, t_syn_rcvd = 0, t_closing = 0, t_time_wait = 0, t_other = 0, t_pcb_limit = 0,
         t_pending = 0, t_backlog = 0\<rparr>)\<lparr>t_pcb_limit := 24\<rparr>"

definition census_wedged :: "feed_json_tcp \<Rightarrow> string option" where
  "census_wedged t =
     (if 0 \<le> sint (t_pending t) \<and> uint (t_backlog t) \<le> sint (t_pending t) then Some ''backlog full''
      else if uint (t_pcb_limit t) \<le> uint (t_established t) + uint (t_syn_rcvd t) + uint (t_other t)
      then Some ''no pcb''
      else None)"

datatype census_log = Refusing string | Accepting_again int

record census =
  cs_bad :: int
  cs_since_us :: int
  cs_log :: "census_log list"

definition census_check :: "feed_json_tcp \<Rightarrow> int \<Rightarrow> census \<Rightarrow> census" where
  "census_check t now c =
     (case census_wedged t of
        Some why \<Rightarrow>
          let c = c\<lparr>cs_bad := cs_bad c + 1\<rparr>;
              c = (if cs_bad c = 1 then c\<lparr>cs_since_us := now\<rparr> else c)
          in if cs_bad c = 2 then c\<lparr>cs_log := cs_log c @ [Refusing why]\<rparr> else c
      | None \<Rightarrow>
          let c = (if 2 \<le> cs_bad c
                   then c\<lparr>cs_log := cs_log c @ [Accepting_again ((now - cs_since_us c) div 1000000)]\<rparr>
                   else c)
          in c\<lparr>cs_bad := 0\<rparr>)"

section \<open>The feed task\<close>

datatype json_phase = J_listen | J_accept | J_poll | J_census | J_send

record json_feed = json_conns +
  j_tick :: u32
  j_census :: census
  j_phase :: json_phase

definition json_start :: json_feed where
  "json_start = \<lparr>s_listen = -1, s_cli = replicate MAX_CLIENTS \<lparr>c_fd = -1, c_stall = 0\<rparr>, s_nclients = 0,
     s_events = [], j_resets = 0, j_tick = 0, j_census = \<lparr>cs_bad = 0, cs_since_us = 0, cs_log = []\<rparr>, j_phase = J_listen\<rparr>"

text \<open>\<open>snapshot\<close> is the line exported, empty when the table did not fit the buffer.\<close>

inductive json_step :: "json_feed \<Rightarrow> json_feed \<Rightarrow> bool" where
  json_listen: "j_phase s = J_listen \<Longrightarrow>
    json_step s ((if s_listen s < 0 then json_listen_open fd bind_ok listen_ok s else s)\<lparr>j_phase := J_accept\<rparr>)"
| json_accept: "j_phase s = J_accept \<Longrightarrow>
    json_step s ((if 0 \<le> s_listen s then json_accept_new answers s else s)\<lparr>j_phase := J_poll\<rparr>)"
| json_poll: "j_phase s = J_poll \<Longrightarrow> json_step s ((json_poll_closed recv s)\<lparr>j_phase := J_census\<rparr>)"
| json_census: "j_phase s = J_census \<Longrightarrow>
    json_step s (s\<lparr>j_census := if j_tick s mod CENSUS_TICKS = 0
        then census_check (feed_json_tcp_census active time_wait listeners) now (j_census s) else j_census s,
      j_phase := J_send\<rparr>)"
| json_idle: "j_phase s = J_send \<Longrightarrow> s_nclients s = 0 \<or> snapshot = ([] :: u8 list) \<Longrightarrow>
    json_step s ((if s_nclients s \<noteq> 0 then record_event (Logged ''snapshot did not fit'') s else s)
      \<lparr>j_tick := j_tick s + 1, j_phase := J_listen\<rparr>)"
| json_send: "j_phase s = J_send \<Longrightarrow> s_nclients s \<noteq> 0 \<Longrightarrow> snapshot \<noteq> [] \<Longrightarrow>
    json_broadcast answers start snapshot s = Some s' \<Longrightarrow>
    json_step s (s'\<lparr>j_tick := j_tick s + 1, j_phase := J_listen\<rparr>)"

inductive json_reach :: "json_feed \<Rightarrow> bool" where
  json_init: "json_reach json_start"
| json_next: "json_reach s \<Longrightarrow> json_step s s' \<Longrightarrow> json_reach s'"

section \<open>The send loop\<close>

lemma json_send_loop_done:
  assumes "\<forall>k \<ge> K. end_time \<le> snd (answers k)" "out = take off buf"
  shows "\<exists>r out'. json_send_loop answers end_time buf k off out = Some (r, out') \<and>
    prefix out' buf \<and> r \<in> {-1, 0, 1} \<and> (r = 1 \<longrightarrow> out' = buf)"
  using assms(2)
proof (induction "(K - k) + (length buf - off)" arbitrary: k off out rule: less_induct)
  case less
  obtain r errno now where a: "answers k = ((r, errno), now)" by (cases "answers k") auto
  note unfold = json_send_loop.simps[of answers end_time buf k off out]
  have p: "prefix out buf" using less.prems by (simp add: take_is_prefix)
  show ?case
  proof (cases "off < length buf")
    case False
    then show ?thesis using less.prems p by (subst unfold) simp
  next
    case lt: True
    show ?thesis
    proof (cases "0 < r")
      case True
      let ?off = "off + nat r" and ?out = "out @ take (nat r) (drop off buf)"
      have "?out = take ?off buf" using less.prems by (simp add: take_add)
      moreover have "K - (k + 1) + (length buf - ?off) < K - k + (length buf - off)" using True lt by simp
      ultimately have "\<exists>r out'. json_send_loop answers end_time buf (k + 1) ?off ?out = Some (r, out') \<and>
          prefix out' buf \<and> r \<in> {-1, 0, 1} \<and> (r = 1 \<longrightarrow> out' = buf)"
        by (intro less.hyps)
      then show ?thesis using True lt a by (subst unfold) simp
    next
      case nonpos: False
      show ?thesis
      proof (cases "(r < 0 \<and> \<not> would_block errno) \<or> end_time \<le> now")
        case True
        then show ?thesis using nonpos lt a p by (subst unfold) auto
      next
        case False
        then have "\<not> K \<le> k" using assms(1) a by force
        then have "K - (k + 1) + (length buf - off) < K - k + (length buf - off)" by simp
        then have "\<exists>r out'. json_send_loop answers end_time buf (k + 1) off out = Some (r, out') \<and>
          prefix out' buf \<and> r \<in> {-1, 0, 1} \<and> (r = 1 \<longrightarrow> out' = buf)"
          by (intro less.hyps less.prems)
        then show ?thesis using False nonpos lt a by (subst unfold) auto
      qed
    qed
  qed
qed

text \<open>
  C30: the send loop returns, provided only that the clock passes the deadline at some point. What it
  sent is a prefix of the snapshot, and it reports success only when the whole line went out.
\<close>

theorem json_send_frame_returns:
  assumes "\<forall>k \<ge> K. start + SEND_BUDGET_MS * 1000 \<le> snd (answers k)"
  shows "\<exists>r out. json_send_frame answers start buf = Some (r, out) \<and> prefix out buf \<and>
    r \<in> {-1, 0, 1} \<and> (r = 1 \<longrightarrow> out = buf)"
  unfolding json_send_frame_def by (rule json_send_loop_done[OF assms]) simp

lemma json_send_frame_returns_witness:
  "\<exists>r out. json_send_frame (\<lambda>k. (if k = 0 then (2, 0) else (-1, EAGAIN), 20000 * int k)) 0 [1, 2, 3] = Some (r, out) \<and>
    prefix out [1, 2, 3] \<and> r \<in> {-1, 0, 1} \<and> (r = 1 \<longrightarrow> out = [1, 2, 3])"
  by (rule json_send_frame_returns[of 8]) (simp add: SEND_BUDGET_MS_def)

section \<open>The table\<close>

lemma json_conns_fields [simp]:
  "conns_ok n (s\<lparr>j_resets := v\<rparr>) = conns_ok n s" "slot_fd i (s\<lparr>j_resets := v\<rparr>) = slot_fd i s"
  by (simp_all add: conns_ok_def held_def slot_fd_def)

lemma slot_fd_option [simp]: "slot_fd i (set_option fd ov s) = slot_fd i s"
  by (simp add: slot_fd_def)

lemma json_client_close_ok [conns_intros]:
  assumes "conns_ok n s" "i < MAX_CLIENTS" "0 \<le> slot_fd i s"
  shows "conns_ok n (json_client_close i why reset s)"
  using assms by (auto simp: json_client_close_def Let_def intro!: conns_intros)

lemma json_close_stalled:
  "i < length (s_cli s) \<Longrightarrow> json_client_close i why r (set_stall i v s) = json_client_close i why r s"
  by (cases r) (simp_all add: json_client_close_def slot_clear_def set_stall_def slot_fd_def record_event_def set_option_def)

interpretation json_poll: slot_handler JSON_STALL_LIMIT "json_poll_client recv"
  by unfold_locales (auto simp: json_poll_client_def intro!: conns_intros split: prod.split)

lemma json_send_client_ok:
  assumes "conns_ok JSON_STALL_LIMIT s" "i < MAX_CLIENTS" "0 \<le> slot_fd i s"
  shows "conns_ok JSON_STALL_LIMIT (json_send_client result i s)"
proof -
  have i: "i < length (s_cli s)" using assms by (simp add: conns_ok_def)
  then have le: "unat (c_stall (s_cli s ! i)) \<le> JSON_STALL_LIMIT"
    using assms(1) by (auto simp: conns_ok_def slot_ok_def)
  have "unat (c_stall (s_cli s ! i) + 1) \<le> JSON_STALL_LIMIT"
    if "\<not> of_nat JSON_STALL_LIMIT < c_stall (s_cli s ! i) + 1"
    using that by (simp add: word_less_nat_alt JSON_STALL_LIMIT_def)
  then show ?thesis
    using i by (auto simp: json_send_client_def Let_def json_close_stalled intro!: conns_intros assms)
qed

interpretation json_bcast: slot_handler JSON_STALL_LIMIT "\<lambda>i. json_send_client (result i) i"
  by unfold_locales (rule json_send_client_ok)

interpretation json_stall: stalling JSON_STALL_LIMIT "\<lambda>j. json_send_client ((result(i := (0, out))) j) j" i
proof
  fix j and s :: "'a json_conns_scheme"
  show "s_cli (json_send_client ((result(i := (0, out))) j) j s) ! i = s_cli s ! i" if "j \<noteq> i"
    using that by (auto simp: json_send_client_def json_client_close_def slot_clear_def set_stall_def Let_def)
  show "length (s_cli (json_send_client ((result(i := (0, out))) j) j s)) = length (s_cli s)"
    by (auto simp: json_send_client_def json_client_close_def slot_clear_def set_stall_def Let_def)
  show "s_cli (json_send_client ((result(i := (0, out))) i) i s) ! i =
      (if JSON_STALL_LIMIT \<le> unat (c_stall (s_cli s ! i)) then \<lparr>c_fd = -1, c_stall = 0\<rparr>
       else (s_cli s ! i)\<lparr>c_stall := c_stall (s_cli s ! i) + 1\<rparr>)"
    if "i < length (s_cli s)" "unat (c_stall (s_cli s ! i)) \<le> JSON_STALL_LIMIT"
    using that unat_word_ariths(1)[of "c_stall (s_cli s ! i)" 1]
    by (auto simp: json_send_client_def json_client_close_def slot_clear_def set_stall_def Let_def
        JSON_STALL_LIMIT_def word_less_nat_alt)
qed (simp add: JSON_STALL_LIMIT_def)

text \<open>A broadcast whose send loops all return is one visit of every slot.\<close>

lemma json_broadcast_visits:
  assumes "json_broadcast answers start buf s = Some s'"
  shows "s' = for_slots (\<lambda>i. json_send_client (the (json_send_frame (answers i) (start i) buf)) i) s"
proof -
  let ?f = "\<lambda>i os. case os of None \<Rightarrow> None
       | Some s \<Rightarrow> if slot_fd i s < 0 then Some s
           else case json_send_frame (answers i) (start i) buf of
                  None \<Rightarrow> None | Some result \<Rightarrow> Some (json_send_client result i s)"
  let ?g = "\<lambda>i s. if slot_fd i s < 0 then s else json_send_client (the (json_send_frame (answers i) (start i) buf)) i s"
  have none: "fold ?f is None = None" for "is" by (induction "is") simp_all
  have "fold ?f is (Some s) = Some s' \<Longrightarrow> s' = fold ?g is s" for "is" s
    by (induction "is" arbitrary: s) (auto simp: none split: if_splits option.splits)
  then show ?thesis using assms by (simp add: json_broadcast_def for_slots_def)
qed

lemma json_accept_new_ok:
  "conns_ok n s \<Longrightarrow> conns_ok n (json_accept_new answers s)"
proof (induction answers arbitrary: s)
  case (Cons a answers)
  obtain fd errno where a: "a = (fd, errno)" by (cases a)
  let ?s = "if free_slot s = None then record_event (Logged ''turned away'') s else s"
  have logged: "conns_ok n (record_event (Logged why) s)" for why
    using Cons.prems by (rule event_ok) simp
  then have "conns_ok n ?s" using Cons.prems by simp
  then show ?case using a logged Cons.prems Cons.IH[OF tcp_accept_ok[of n ?s fd json_options]]
    by (simp add: Let_def)
qed simp

lemma json_fields [simp]:
  "conns_ok n (s\<lparr>j_tick := v\<rparr>) = conns_ok n s" "conns_ok n (s\<lparr>j_census := c\<rparr>) = conns_ok n s"
  "conns_ok n (s\<lparr>j_phase := p\<rparr>) = conns_ok n s"
  by (simp_all add: conns_ok_def held_def)

lemma json_step_ok:
  assumes "json_step s s'" "conns_ok JSON_STALL_LIMIT s"
  shows "conns_ok JSON_STALL_LIMIT s'"
  using assms(1)
proof cases
  case (json_listen fd bind_ok listen_ok)
  then show ?thesis using assms(2) tcp_listen_open_ok[of JSON_STALL_LIMIT s] by (simp add: json_listen_open_def)
next
  case (json_accept answers)
  then show ?thesis using json_accept_new_ok[OF assms(2)] assms(2) by simp
next
  case (json_poll recv)
  then show ?thesis using assms(2) json_poll.for_slots_ok by (simp add: json_poll_closed_def)
next
  case (json_census active time_wait listeners now)
  then show ?thesis using assms(2) by simp
next
  case (json_idle snapshot)
  then show ?thesis using assms(2) event_ok[of JSON_STALL_LIMIT s "Logged ''snapshot did not fit''"] by simp
next
  case (json_send snapshot answers start s1)
  then show ?thesis using assms(2) json_bcast.for_slots_ok json_broadcast_visits[OF json_send(5)] by simp
qed

lemma json_reach_ok: "json_reach s \<Longrightarrow> conns_ok JSON_STALL_LIMIT s"
proof (induction rule: json_reach.induct)
  case json_init
  show ?case
    by (simp add: json_start_def conns_ok_def held_def live_slots_def slot_ok_def)
qed (rule json_step_ok)

text \<open>
  In every state the JSON feed reaches, \<open>s_nclients\<close> counts the live slots, no client has missed
  more than \<open>STALL_LIMIT\<close> snapshots in a row, and no descriptor leaks: each one \<open>accept\<close> returned,
  those turned away included, is held or was closed exactly once.
\<close>

theorem json_table_invariant:
  assumes "json_reach s"
  shows "s_nclients s = int (live_slots (s_cli s)) \<and> s_nclients s \<le> int MAX_CLIENTS \<and>
    (\<forall>c \<in> set (s_cli s). unat (c_stall c) \<le> JSON_STALL_LIMIT) \<and>
    mset (opened_fds (s_events s)) = mset (closed_fds (s_events s)) + mset (held s)"
  using json_reach_ok[OF assms] conns_ok_bounds[of JSON_STALL_LIMIT s] by (auto simp: conns_ok_def slot_ok_def)

definition json_example :: json_feed where
  "json_example = (json_accept_new [(7, 0), (8, 0), (9, 0), (10, 0), (11, 0), (-1, EAGAIN)]
     ((json_listen_open 5 True True json_start)\<lparr>j_phase := J_accept\<rparr>))\<lparr>j_phase := J_poll\<rparr>"

lemma json_example_reach: "json_reach json_example"
proof -
  from json_next[OF json_init json_listen[of json_start 5 True True]]
  have "json_reach ((json_listen_open 5 True True json_start)\<lparr>j_phase := J_accept\<rparr>)" by (simp add: json_start_def)
  from json_next[OF this json_accept[of _ "[(7, 0), (8, 0), (9, 0), (10, 0), (11, 0), (-1, EAGAIN)]"]]
  show ?thesis by (simp add: json_example_def json_listen_open_def tcp_listen_open_def Let_def)
qed

lemma json_table_invariant_witness:
  "json_reach json_example \<and> s_nclients json_example = 4 \<and> closed_fds (s_events json_example) = [11] \<and>
    mset (opened_fds (s_events json_example)) = mset (closed_fds (s_events json_example)) + mset (held json_example)"
proof -
  have "s_nclients json_example = 4 \<and> closed_fds (s_events json_example) = [11]" by code_simp
  then show ?thesis using json_example_reach json_table_invariant[OF json_example_reach] by simp
qed

section \<open>The census log\<close>

text \<open>A run of the census over samples with their times; the log alternates when no message repeats.\<close>

definition census_run :: "(feed_json_tcp \<times> int) list \<Rightarrow> census \<Rightarrow> census" where
  "census_run samples c = fold (\<lambda>(t, now). census_check t now) samples c"

definition is_refusing :: "census_log \<Rightarrow> bool" where
  "is_refusing l = (case l of Refusing why \<Rightarrow> True | Accepting_again secs \<Rightarrow> False)"

fun alternating :: "bool \<Rightarrow> census_log list \<Rightarrow> bool" where
  "alternating up [] = True"
| "alternating up (l # ls) = (is_refusing l = up \<and> alternating (\<not> up) ls)"

definition wedged_tail :: "(feed_json_tcp \<times> int) list \<Rightarrow> nat" where
  "wedged_tail samples = length (takeWhile (\<lambda>(t, now). census_wedged t \<noteq> None) (rev samples))"

lemma alternating_snoc:
  "alternating up (ls @ [l]) \<longleftrightarrow> alternating up ls \<and> is_refusing l = (up = even (length ls))"
  by (induction ls arbitrary: up) auto

lemma census_run_snoc [simp]: "census_run (xs @ [(t, now)]) c = census_check t now (census_run xs c)"
  by (simp add: census_run_def)

lemma wedged_tail_snoc [simp]:
  "wedged_tail (xs @ [(t, now)]) = (if census_wedged t = None then 0 else Suc (wedged_tail xs))"
  by (simp add: wedged_tail_def)

lemma census_run_log:
  fixes samples defines "c \<equiv> census_run samples \<lparr>cs_bad = 0, cs_since_us = 0, cs_log = []\<rparr>"
  shows "cs_bad c = int (wedged_tail samples) \<and> alternating True (cs_log c) \<and>
    (odd (length (cs_log c)) \<longleftrightarrow> 2 \<le> wedged_tail samples)"
  unfolding c_def
proof (induction samples rule: rev_induct)
  case Nil
  show ?case by (simp add: census_run_def wedged_tail_def)
next
  case (snoc x xs)
  obtain t now where x: "x = (t, now)" by (cases x)
  show ?case using snoc
    by (auto simp: x census_check_def Let_def alternating_snoc is_refusing_def split: option.splits)
qed

text \<open>
  The log of refusals alternates, a refusal first: over any sequence of samples every episode is
  reported once and its end once, and an episode is open exactly when the last two samples were both
  wedged, so a burst that lasts one sample is never reported.
\<close>

theorem census_log_alternates:
  "alternating True (cs_log (census_run samples \<lparr>cs_bad = 0, cs_since_us = 0, cs_log = []\<rparr>)) \<and>
   (odd (length (cs_log (census_run samples \<lparr>cs_bad = 0, cs_since_us = 0, cs_log = []\<rparr>))) =
     (2 \<le> wedged_tail samples))"
  using census_run_log[of samples] by blast

section \<open>A client that does not read\<close>

text \<open>
  A client that cannot take a whole snapshot within the budget is reset: when the send loop runs
  out of time on every broadcast, its slot is free after at most \<open>STALL_LIMIT + 1\<close> of them.
\<close>

theorem json_slow_client_reset:
  assumes "conns_ok JSON_STALL_LIMIT s" "i < MAX_CLIENTS" "0 \<le> slot_fd i s" "fst (result i) = 0"
  shows "\<exists>k \<le> JSON_STALL_LIMIT + 1. slot_fd i ((for_slots (\<lambda>j. json_send_client (result j) j) ^^ k) s) < 0"
proof -
  have "result(i := (0, snd (result i))) = result" using assms(4) by (metis fun_upd_triv prod.collapse)
  then have "\<exists>k \<le> JSON_STALL_LIMIT + 1 - unat (c_stall (s_cli s ! i)).
      slot_fd i ((for_slots (\<lambda>j. json_send_client (result j) j) ^^ k) s) < 0"
    using json_stall.closes[OF assms(1-3), of result "snd (result i)"] by simp
  then show ?thesis by (meson diff_le_self le_trans)
qed

lemma json_slow_client_reset_witness:
  "\<exists>k \<le> JSON_STALL_LIMIT + 1. slot_fd 2 ((for_slots (\<lambda>j. json_send_client (0, [0x7B]) j) ^^ k) json_example) < 0"
proof (rule json_slow_client_reset)
  show "conns_ok JSON_STALL_LIMIT json_example" by (rule json_reach_ok[OF json_example_reach])
  show "0 \<le> slot_fd 2 json_example" by code_simp
qed (simp_all add: MAX_CLIENTS_def)

end
