(* ===== verification/UsbStream.thy ===== *)
theory UsbStream
  imports Ring
begin

text \<open>
  The streaming half of \<open>main/esp_libusb.c\<close>: the sample ring the transfer callbacks fill and the
  receiver drains, the pool of transfers, the pump task with its stall and overflow watch, start and
  stop. Results of the USB host library and of the allocators are arguments; what the code asks of
  them is recorded as events.
\<close>

section \<open>The ring\<close>

definition STREAM_RING_SIZE :: u32 where
  "STREAM_RING_SIZE = 1024 * 1024"

definition STREAM_XFER_NUM :: nat where
  "STREAM_XFER_NUM = 8"

definition STREAM_XFER_LEN :: nat where
  "STREAM_XFER_LEN = 16384"

datatype usb_event = Halt | Flush | Clear | Submit nat | Free nat | Request_recover | Sys_log int string

record stream =
  st_ring :: "u8 ring"
  st_dropped :: u64
  st_slots :: "bool list"
  st_streaming :: bool
  st_queue :: "int list"
  st_have_ring :: bool
  st_have_queue :: bool
  st_have_dev :: bool
  st_pump :: bool
  st_events :: "usb_event list"

definition st_event :: "usb_event \<Rightarrow> stream \<Rightarrow> stream" where
  "st_event e s = s\<lparr>st_events := st_events s @ [e]\<rparr>"

text \<open>\<open>memcpy\<close> in one piece, or in two around the end of the array.\<close>

definition ring_copy_in :: "u32 \<Rightarrow> u8 list \<Rightarrow> u8 list \<Rightarrow> u8 list" where
  "ring_copy_in off buf b =
     (let first = STREAM_RING_SIZE - off
      in if of_nat (length buf) \<le> first then overlay (unat off) buf b
         else overlay 0 (drop (unat first) buf) (overlay (unat off) (take (unat first) buf) b))"

definition stream_push :: "u8 list \<Rightarrow> stream \<Rightarrow> stream" where
  "stream_push buf s =
     (let r = st_ring s; len = of_nat (length buf); head = r_head r;
          space = STREAM_RING_SIZE - (head - r_tail r)
      in if space < len then s\<lparr>st_dropped := st_dropped s + ucast len\<rparr>
         else s\<lparr>st_ring := r\<lparr>r_buf := ring_copy_in (head mod STREAM_RING_SIZE) buf (r_buf r), r_head := head + len\<rparr>\<rparr>)"

definition ring_copy_out :: "u32 \<Rightarrow> u32 \<Rightarrow> u8 list \<Rightarrow> u8 list" where
  "ring_copy_out off len b =
     (let first = STREAM_RING_SIZE - off
      in if len \<le> first then take (unat len) (drop (unat off) b)
         else take (unat first) (drop (unat off) b) @ take (unat (len - first)) b)"

definition stream_read :: "u32 \<Rightarrow> stream \<Rightarrow> u8 list \<times> stream" where
  "stream_read max_len s =
     (let r = st_ring s; tail = r_tail r; avail = r_head r - tail
      in if avail = 0 then ([], s)
         else let len = (if avail < max_len then avail else max_len)
              in (ring_copy_out (tail mod STREAM_RING_SIZE) len (r_buf r),
                  s\<lparr>st_ring := r\<lparr>r_tail := tail + len\<rparr>\<rparr>))"

definition stream_reset :: "stream \<Rightarrow> stream" where
  "stream_reset s = s\<lparr>st_ring := (st_ring s)\<lparr>r_tail := r_head (st_ring s)\<rparr>\<rparr>"

definition stream_avail :: "stream \<Rightarrow> u32" where
  "stream_avail s = r_head (st_ring s) - r_tail (st_ring s)"

definition stream_slots :: "stream \<Rightarrow> nat" where
  "stream_slots s = length (filter (\<lambda>b. b) (st_slots s))"

section \<open>The transfer pool\<close>

text \<open>A completed transfer of slot \<open>slot\<close> with its status and the bytes received.\<close>

definition queue_send :: "int \<Rightarrow> stream \<Rightarrow> stream" where
  "queue_send slot s =
     (if length (st_queue s) < 2 * STREAM_XFER_NUM then s\<lparr>st_queue := st_queue s @ [slot]\<rparr> else s)"

definition stream_xfer_cb :: "int \<Rightarrow> int \<Rightarrow> u8 list \<Rightarrow> stream \<Rightarrow> stream" where
  "stream_xfer_cb slot status data s =
     (let s = (if status = 0 \<and> 0 < length data then stream_push data s else s)
      in if st_streaming s \<and> st_have_queue s then queue_send slot s else s)"

definition endpoint_reset :: "stream \<Rightarrow> stream" where
  "endpoint_reset s = st_event Clear (st_event Flush (st_event Halt s))"

definition stream_reprime :: "(nat \<Rightarrow> bool) \<Rightarrow> stream \<Rightarrow> bool \<times> stream" where
  "stream_reprime submit_ok s =
     (if \<not> st_have_dev s then (False, s)
      else let s = endpoint_reset s;
               s = (if st_have_queue s then s\<lparr>st_queue := []\<rparr> else s)
           in fold (\<lambda>i (posted, s).
                if \<not> st_slots s ! i then (posted, s) else (posted \<or> submit_ok i, st_event (Submit i) s))
              [0..<STREAM_XFER_NUM] (False, s))"

section \<open>The pump task\<close>

record pump =
  pu_last_head :: u32
  pu_last_drop :: u64
  pu_last_log :: int
  pu_stall_secs :: int
  pu_ovf_secs :: int

definition pump_init :: "int \<Rightarrow> stream \<Rightarrow> pump" where
  "pump_init now s = \<lparr>pu_last_head = r_head (st_ring s), pu_last_drop = st_dropped s, pu_last_log = now,
     pu_stall_secs = 0, pu_ovf_secs = 0\<rparr>"

text \<open>The queue part of one turn of the loop; 0x10C is \<open>ESP_ERR_INVALID_STATE\<close> of the submit.\<close>

definition pump_resubmit :: "int \<Rightarrow> stream \<Rightarrow> stream" where
  "pump_resubmit submit_err s =
     (case st_queue s of
        [] \<Rightarrow> s
      | slot # rest \<Rightarrow>
          let s = s\<lparr>st_queue := rest\<rparr>
          in if st_streaming s \<and> 0 \<le> slot \<and> slot < int STREAM_XFER_NUM \<and> st_slots s ! nat slot
             then let s = st_event (Submit (nat slot)) s
                  in if submit_err = 0x10C then queue_send slot s else s
             else s)"

definition pump_stalled :: "(nat \<Rightarrow> bool) \<Rightarrow> pump \<Rightarrow> stream \<Rightarrow> pump \<times> stream" where
  "pump_stalled submit_ok p s =
     (let p = p\<lparr>pu_ovf_secs := 0, pu_stall_secs := pu_stall_secs p + 1\<rparr>;
          s = snd (stream_reprime submit_ok (st_event (Sys_log 2 ''stream stalled, re-priming'') s))
      in if 5 \<le> pu_stall_secs p
         then (p\<lparr>pu_stall_secs := 0\<rparr>, st_event Request_recover (st_event (Sys_log 4 ''pump dead'') s))
         else (p, s))"

definition pump_flowing :: "u64 \<Rightarrow> pump \<Rightarrow> stream \<Rightarrow> pump \<times> stream" where
  "pump_flowing drops p s =
     (let p = p\<lparr>pu_stall_secs := 0\<rparr>
      in if drops = 0 then (p\<lparr>pu_ovf_secs := 0\<rparr>, s)
         else let p = p\<lparr>pu_ovf_secs := pu_ovf_secs p + 1\<rparr>
              in if 10 \<le> pu_ovf_secs p then (p\<lparr>pu_ovf_secs := 0\<rparr>, st_event (Sys_log 2 ''ring full'') s) else (p, s))"

definition pump_watch :: "(nat \<Rightarrow> bool) \<Rightarrow> int \<Rightarrow> pump \<Rightarrow> stream \<Rightarrow> pump \<times> stream" where
  "pump_watch submit_ok now p s =
     (if now - pu_last_log p < 1000000 then (p, s)
      else let bytes = r_head (st_ring s) - pu_last_head p; drops = st_dropped s - pu_last_drop p;
               (p, s) = (if st_streaming s \<and> bytes = 0 \<and> drops = 0 then pump_stalled submit_ok p s
                         else pump_flowing drops p s)
           in (p\<lparr>pu_last_head := r_head (st_ring s), pu_last_drop := st_dropped s, pu_last_log := now\<rparr>, s))"

definition stream_pump_turn :: "int \<Rightarrow> (nat \<Rightarrow> bool) \<Rightarrow> int \<Rightarrow> pump \<times> stream \<Rightarrow> pump \<times> stream" where
  "stream_pump_turn submit_err submit_ok now ps = pump_watch submit_ok now (fst ps) (pump_resubmit submit_err (snd ps))"

section \<open>Start and stop\<close>

definition stream_stop :: "stream \<Rightarrow> stream" where
  "stream_stop s =
     (if \<not> st_streaming s then s
      else fold (\<lambda>i s. if st_slots s ! i then (st_event (Free i) s)\<lparr>st_slots := (st_slots s)[i := False]\<rparr> else s)
             [0..<STREAM_XFER_NUM] (endpoint_reset (s\<lparr>st_streaming := False\<rparr>)))"

text \<open>Allocate and post the transfers up to the first failure.\<close>

primrec post_transfers :: "nat list \<Rightarrow> (nat \<Rightarrow> bool) \<Rightarrow> (nat \<Rightarrow> bool) \<Rightarrow> stream \<Rightarrow> nat \<times> stream" where
  "post_transfers [] alloc_ok submit_ok s = (0, s)"
| "post_transfers (i # is) alloc_ok submit_ok s =
     (let s = s\<lparr>st_slots := (st_slots s)[i := False]\<rparr>
      in if \<not> alloc_ok i then (0, s)
         else let s = st_event (Submit i) (s\<lparr>st_slots := (st_slots s)[i := True]\<rparr>)
              in if \<not> submit_ok i then (0, (st_event (Free i) s)\<lparr>st_slots := (st_slots s)[i := False]\<rparr>)
                 else (case post_transfers is alloc_ok submit_ok s of (n, s) \<Rightarrow> (n + 1, s)))"

definition stream_start :: "bool \<Rightarrow> bool \<Rightarrow> (nat \<Rightarrow> bool) \<Rightarrow> (nat \<Rightarrow> bool) \<Rightarrow> stream \<Rightarrow> int \<times> stream" where
  "stream_start ring_alloc queue_alloc alloc_ok submit_ok s =
     (let s = (if st_streaming s then stream_stop s else s);
          s = (if st_have_ring s then s else s\<lparr>st_have_ring := ring_alloc\<rparr>)
      in if \<not> st_have_ring s then (-1, st_event (Sys_log 4 ''stream ring alloc failed'') s)
         else
           let s = (if st_have_queue s then s else s\<lparr>st_have_queue := queue_alloc\<rparr>)
           in if \<not> st_have_queue s then (-1, st_event (Sys_log 4 ''stream queue alloc failed'') s)
              else
                let s = s\<lparr>st_queue := [], st_ring := (st_ring s)\<lparr>r_head := 0, r_tail := 0\<rparr>, st_dropped := 0,
                          st_have_dev := True, st_streaming := True, st_pump := True\<rparr>;
                    (posted, s) = post_transfers [0..<STREAM_XFER_NUM] alloc_ok submit_ok s
                in if posted = 0 then (-1, st_event (Sys_log 4 ''0 xfers posted'') (s\<lparr>st_streaming := False\<rparr>))
                   else (0, s))"

section \<open>The ring as a byte queue\<close>

definition stream_ok :: "stream \<Rightarrow> bool" where
  "stream_ok s \<longleftrightarrow> ring_ok (st_ring s) \<and> length (r_buf (st_ring s)) = unat STREAM_RING_SIZE"

lemma ring_size: "unat STREAM_RING_SIZE = 1048576" "STREAM_RING_SIZE = 0x100000"
  by (simp_all add: STREAM_RING_SIZE_def)

lemma unat_mod_size: "unat (c mod STREAM_RING_SIZE) = unat c mod 1048576"
  by (simp add: ring_size unat_mod_distrib)

lemma first_part: "off < STREAM_RING_SIZE \<Longrightarrow> unat (STREAM_RING_SIZE - off) = 1048576 - unat off"
  by (simp add: unat_sub ring_size less_imp_le)

lemma ring_copy_in_cells:
  assumes off: "off < STREAM_RING_SIZE" and b: "length b = 1048576" and len: "length buf \<le> 1048576"
  shows "length (ring_copy_in off buf b) = 1048576"
    and "\<And>k. k < length buf \<Longrightarrow> ring_copy_in off buf b ! ((unat off + k) mod 1048576) = buf ! k"
    and "\<And>i. i < 1048576 \<Longrightarrow> (\<And>k. k < length buf \<Longrightarrow> i \<noteq> (unat off + k) mod 1048576) \<Longrightarrow>
      ring_copy_in off buf b ! i = b ! i"
proof -
  let ?o = "unat off" let ?f = "1048576 - ?o"
  have o: "?o < 1048576" using off by (simp add: word_less_nat_alt ring_size)
  have lu: "unat (of_nat (length buf) :: u32) = length buf"
    using len by (simp add: unsigned_of_nat take_bit_eq_mod)
  have le: "of_nat (length buf) \<le> STREAM_RING_SIZE - off \<longleftrightarrow> length buf \<le> ?f"
    by (simp add: word_le_nat_alt lu first_part[OF off])
  have e: "ring_copy_in off buf b =
      (if length buf \<le> ?f then overlay ?o buf b else overlay 0 (drop ?f buf) (overlay ?o (take ?f buf) b))"
    by (simp add: ring_copy_in_def le first_part[OF off])
  show "length (ring_copy_in off buf b) = 1048576"
    using o b len by (auto simp: e)
  show "ring_copy_in off buf b ! ((?o + k) mod 1048576) = buf ! k" if k: "k < length buf" for k
  proof (cases "?o + k < 1048576")
    case True
    then show ?thesis using o b len k by (auto simp: e nth_overlay)
  next
    case False
    then have "(?o + k) mod 1048576 = ?o + k - 1048576" using k len o by (simp add: mod_if)
    then show ?thesis using False o b len k by (auto simp: e nth_overlay)
  qed
  show "ring_copy_in off buf b ! i = b ! i"
    if i: "i < 1048576" and far: "\<And>k. k < length buf \<Longrightarrow> i \<noteq> (?o + k) mod 1048576" for i
  proof -
    have 1: "\<not> (?o \<le> i \<and> i < ?o + length buf)" using far[of "i - ?o"] i by (auto simp: less_diff_conv2 add.commute)
    have 2: "\<not> i + 1048576 < ?o + length buf"
    proof
      assume "i + 1048576 < ?o + length buf"
      then have "i + 1048576 - ?o < length buf" "?o + (i + 1048576 - ?o) = i + 1048576" using o by simp_all
      with far[of "i + 1048576 - ?o"] i show False by simp
    qed
    show ?thesis using 1 2 i o b len by (auto simp: e nth_overlay)
  qed
qed

lemma stream_space:
  assumes "stream_ok s"
  shows "unat (STREAM_RING_SIZE - (r_head (st_ring s) - r_tail (st_ring s))) = 1048576 - ring_count (st_ring s)"
    "ring_count (st_ring s) \<le> 1048576"
proof -
  show "ring_count (st_ring s) \<le> 1048576" using assms by (simp add: stream_ok_def ring_ok_def ring_size)
  then have "r_head (st_ring s) - r_tail (st_ring s) \<le> STREAM_RING_SIZE"
    by (simp add: word_le_nat_alt ring_size ring_count_def)
  then show "unat (STREAM_RING_SIZE - (r_head (st_ring s) - r_tail (st_ring s))) = 1048576 - ring_count (st_ring s)"
    by (simp add: unat_sub ring_count_def ring_size)
qed

definition stream_fits :: "u8 list \<Rightarrow> stream \<Rightarrow> bool" where
  "stream_fits buf s \<longleftrightarrow> of_nat (length buf) \<le> STREAM_RING_SIZE - (r_head (st_ring s) - r_tail (st_ring s))"

lemma stream_push_content:
  assumes ok: "stream_ok s" and len: "length buf \<le> STREAM_XFER_LEN"
  shows "stream_ok (stream_push buf s)"
    "ring_content (st_ring (stream_push buf s)) = ring_content (st_ring s) @ (if stream_fits buf s then buf else [])"
proof -
  let ?r = "st_ring s"
  let ?r' = "?r\<lparr>r_buf := ring_copy_in (r_head ?r mod STREAM_RING_SIZE) buf (r_buf ?r), r_head := r_head ?r + of_nat (length buf)\<rparr>"
  have lu: "unat (of_nat (length buf) :: u32) = length buf"
    using len by (simp add: unsigned_of_nat take_bit_eq_mod STREAM_XFER_LEN_def)
  have b: "length (r_buf ?r) = 1048576" and rk: "ring_ok ?r" using ok by (simp_all add: stream_ok_def ring_size)
  have off: "r_head ?r mod STREAM_RING_SIZE < STREAM_RING_SIZE"
    by (simp add: word_less_nat_alt unat_mod_size ring_size(1))
  have len': "length buf \<le> 1048576" using len by (simp add: STREAM_XFER_LEN_def)
  note cells = ring_copy_in_cells[OF off b len', unfolded unat_mod_size mod_add_left_eq]
  have fits: "stream_fits buf s \<longleftrightarrow> ring_count ?r + length buf \<le> 1048576"
    using stream_space[OF ok] by (auto simp: stream_fits_def word_le_nat_alt lu)
  have put: "ring_ok ?r' \<and> ring_content ?r' = ring_content ?r @ buf" if "stream_fits buf s"
    by (rule ring_put[OF rk]) (use that fits b cells in auto)
  show "stream_ok (stream_push buf s)"
    "ring_content (st_ring (stream_push buf s)) = ring_content (st_ring s) @ (if stream_fits buf s then buf else [])"
    using put ok cells(1) by (auto simp: stream_push_def Let_def stream_fits_def stream_ok_def ring_size(1) not_le)
qed

lemma ring_copy_out_content:
  assumes ok: "stream_ok s" and len: "len \<le> r_head (st_ring s) - r_tail (st_ring s)"
  shows "ring_copy_out (r_tail (st_ring s) mod STREAM_RING_SIZE) len (r_buf (st_ring s)) =
    take (unat len) (ring_content (st_ring s))"
proof -
  define o' where "o' = unat (r_tail (st_ring s)) mod 1048576"
  let ?r = "st_ring s" let ?n = "unat len" let ?f = "1048576 - o'"
  have b: "length (r_buf ?r) = 1048576" and rk: "ring_ok ?r" using ok by (simp_all add: stream_ok_def ring_size)
  have o: "o' < 1048576" by (simp add: o'_def)
  have n: "?n \<le> ring_count ?r" "ring_count ?r \<le> 1048576"
    using len stream_space(2)[OF ok] by (simp_all add: ring_count_def word_le_nat_alt)
  have off: "r_tail ?r mod STREAM_RING_SIZE < STREAM_RING_SIZE"
    by (simp add: word_less_nat_alt unat_mod_size ring_size(1))
  have e: "ring_copy_out (r_tail ?r mod STREAM_RING_SIZE) len (r_buf ?r) =
      (if ?n \<le> ?f then take ?n (drop o' (r_buf ?r)) else take ?f (drop o' (r_buf ?r)) @ take (?n - ?f) (r_buf ?r))"
    by (auto simp: ring_copy_out_def Let_def word_le_nat_alt first_part[OF off] unat_mod_size unat_sub o'_def[symmetric])
  show ?thesis unfolding e
  proof (rule nth_equalityI)
    show "length (if ?n \<le> ?f then take ?n (drop o' (r_buf ?r)) else take ?f (drop o' (r_buf ?r)) @ take (?n - ?f) (r_buf ?r)) =
        length (take ?n (ring_content ?r))"
      using n o b by auto
  next
    fix k assume "k < length (if ?n \<le> ?f then take ?n (drop o' (r_buf ?r)) else take ?f (drop o' (r_buf ?r)) @ take (?n - ?f) (r_buf ?r))"
    then have k: "k < ?n" using n o b by (auto split: if_splits)
    have c: "ring_content ?r ! k = r_buf ?r ! ((o' + k) mod 1048576)"
      using ring_content_nth[OF rk, of k] k n b by (simp add: mod_add_left_eq o'_def)
    have m: "(o' + k) mod 1048576 = (if k < ?f then o' + k else k - ?f)"
    proof (cases "k < ?f")
      case False
      then have e: "o' + k = k - ?f + 1048576" using o by simp
      have "k - ?f < 1048576" using k n by linarith
      then have "(k - ?f + 1048576) mod 1048576 = k - ?f" by simp
      then show ?thesis unfolding e using False by simp
    qed simp
    show "(if ?n \<le> ?f then take ?n (drop o' (r_buf ?r)) else take ?f (drop o' (r_buf ?r)) @ take (?n - ?f) (r_buf ?r)) ! k =
        take ?n (ring_content ?r) ! k"
      using k n o b c m by (auto simp: nth_append)
  qed
qed

lemma stream_read_content:
  assumes ok: "stream_ok s" and r: "stream_read m s = (ys, s')"
  shows "stream_ok s'" "ring_content (st_ring s) = ys @ ring_content (st_ring s')"
proof -
  let ?r = "st_ring s" let ?a = "r_head ?r - r_tail ?r" let ?len = "if ?a < m then ?a else m"
  have le: "?len \<le> ?a" by (auto simp: not_less)
  have "unat ?len \<le> ring_count ?r" using le by (simp add: ring_count_def word_le_nat_alt)
  with ok have g: "ring_ok (?r\<lparr>r_tail := r_tail ?r + ?len\<rparr>) \<and>
      ring_content (?r\<lparr>r_tail := r_tail ?r + ?len\<rparr>) = drop (unat ?len) (ring_content ?r)"
    using ring_get[of ?r "unat ?len"] by (simp add: stream_ok_def)
  have "?a \<noteq> 0 \<Longrightarrow> ys = take (unat ?len) (ring_content ?r) \<and> s' = s\<lparr>st_ring := ?r\<lparr>r_tail := r_tail ?r + ?len\<rparr>\<rparr>"
    using r ring_copy_out_content[OF ok le] by (auto simp: stream_read_def Let_def)
  moreover have "?a = 0 \<Longrightarrow> ys = [] \<and> s' = s" using r by (auto simp: stream_read_def Let_def)
  ultimately show "stream_ok s'" "ring_content (st_ring s) = ys @ ring_content (st_ring s')"
    using g ok by (cases "?a = 0"; force simp: stream_ok_def)+
qed

text \<open>The bytes a completed transfer carries: never more than its buffer.\<close>

definition transfer_bytes :: "u8 list \<Rightarrow> u8 list" where
  "transfer_bytes data = take STREAM_XFER_LEN data"

definition stream_offer :: "u8 list \<Rightarrow> stream \<Rightarrow> stream" where
  "stream_offer data s = stream_push (transfer_bytes data) s"

definition stream_accepts :: "u8 list \<Rightarrow> stream \<Rightarrow> bool" where
  "stream_accepts data s = stream_fits (transfer_bytes data) s"

interpretation stream_channel: channel stream_ok "\<lambda>s. ring_content (st_ring s)"
  stream_accepts transfer_bytes stream_offer stream_read
proof
  fix s :: stream and c :: "u8 list" and d :: u32 and ys s'
  assume ok: "stream_ok s"
  show "stream_ok (stream_offer c s)"
    "ring_content (st_ring (stream_offer c s)) = ring_content (st_ring s) @ (if stream_accepts c s then transfer_bytes c else [])"
    using stream_push_content[OF ok, of "transfer_bytes c"]
    by (simp_all add: stream_offer_def stream_accepts_def transfer_bytes_def)
  show "stream_ok s'" "ring_content (st_ring s) = ys @ ring_content (st_ring s')" if "stream_read d s = (ys, s')"
    using stream_read_content[OF ok that] by simp_all
qed

text \<open>
  C10: the sample ring is a byte queue: over any sequence of completed transfers and reads, across the
  wrap of the counters and of the array, the bytes read are the bytes of the transfers that were
  accepted, in order, and the rest of them is still in the ring.
\<close>

theorem stream_is_byte_queue:
  assumes "stream_ok s"
    and "channel_run stream_accepts transfer_bytes stream_offer stream_read ops s = (out, acc, s')"
  shows "ring_content (st_ring s) @ acc = out @ ring_content (st_ring s')"
  using stream_channel.run_fifo[OF assms] by simp

text \<open>A ring three bytes short of both wraps.\<close>

definition stream_example :: stream where
  "stream_example = \<lparr>st_ring = \<lparr>r_buf = replicate 1048576 0, r_head = -3, r_tail = -3\<rparr>, st_dropped = 0,
     st_slots = replicate 8 True, st_streaming = True, st_queue = [], st_have_ring = True, st_have_queue = True,
     st_have_dev = True, st_pump = True, st_events = []\<rparr>"

lemma stream_example_ok: "stream_ok stream_example"
proof -
  have "replicate 1048576 (0::u8) \<noteq> []" by (simp only: replicate_empty)
  then show ?thesis
    by (simp add: stream_ok_def stream_example_def ring_ok_def ring_count_def ring_size(1))
qed

lemma stream_is_byte_queue_witness:
  "\<exists>out acc s'. channel_run stream_accepts transfer_bytes stream_offer stream_read
      [Offer [1, 2, 3, 4, 5], Fetch 4, Offer [6], Fetch 9] stream_example = (out, acc, s') \<and>
    ring_content (st_ring stream_example) @ acc = out @ ring_content (st_ring s')"
proof -
  obtain out acc s' where r: "channel_run stream_accepts transfer_bytes stream_offer stream_read
      [Offer [1, 2, 3, 4, 5], Fetch 4, Offer [6], Fetch 9] stream_example = (out, acc, s')"
    by (cases "channel_run stream_accepts transfer_bytes stream_offer stream_read
      [Offer [1, 2, 3, 4, 5], Fetch 4, Offer [6], Fetch 9] stream_example") auto
  with stream_is_byte_queue[OF stream_example_ok r] show ?thesis by blast
qed

section \<open>When the receiver is reopened\<close>

text \<open>
  The pump samples the stream once a second. A second is silent when the stream runs and neither its
  head nor its drop count moved since the sample before; \<open>quiet\<close> counts the silent seconds at the
  end of a list of samples.
\<close>

definition silent :: "stream \<Rightarrow> stream \<Rightarrow> bool" where
  "silent s s' \<longleftrightarrow> st_streaming s' \<and> r_head (st_ring s') = r_head (st_ring s) \<and> st_dropped s' = st_dropped s"

primrec quiet :: "stream \<Rightarrow> nat \<Rightarrow> (int \<times> stream) list \<Rightarrow> nat" where
  "quiet s n [] = n"
| "quiet s n (x # xs) = quiet (snd x) (if silent s (snd x) then n + 1 else 0) xs"

primrec seconds_apart :: "int \<Rightarrow> (int \<times> stream) list \<Rightarrow> bool" where
  "seconds_apart now [] = True"
| "seconds_apart now (x # xs) = (1000000 \<le> fst x - now \<and> seconds_apart (fst x) xs)"

definition pump_samples :: "(nat \<Rightarrow> bool) \<Rightarrow> (int \<times> stream) list \<Rightarrow> pump \<Rightarrow> pump" where
  "pump_samples submit_ok xs p = fold (\<lambda>(now, s) p. fst (pump_watch submit_ok now p s)) xs p"

definition reopens :: "(nat \<Rightarrow> bool) \<Rightarrow> int \<Rightarrow> pump \<Rightarrow> stream \<Rightarrow> bool" where
  "reopens submit_ok now p s \<longleftrightarrow>
     Request_recover \<in> set (drop (length (st_events s)) (st_events (snd (pump_watch submit_ok now p s))))"

lemma st_event_simps [simp]:
  "st_ring (st_event e s) = st_ring s" "st_dropped (st_event e s) = st_dropped s"
  "st_streaming (st_event e s) = st_streaming s" "st_events (st_event e s) = st_events s @ [e]"
  by (simp_all add: st_event_def)

lemma reprime_frame:
  fixes s submit_ok defines "t \<equiv> snd (stream_reprime submit_ok s)"
  shows "st_ring t = st_ring s" "st_dropped t = st_dropped s"
    "\<exists>es. st_events t = st_events s @ es \<and> Request_recover \<notin> set es"
proof -
  let ?f = "\<lambda>i (posted, s). if \<not> st_slots s ! i then (posted, s) else (posted \<or> submit_ok i, st_event (Submit i) s)"
  have "st_ring (snd (fold ?f is ps)) = st_ring (snd ps) \<and> st_dropped (snd (fold ?f is ps)) = st_dropped (snd ps) \<and>
      (\<exists>es. st_events (snd (fold ?f is ps)) = st_events (snd ps) @ es \<and> Request_recover \<notin> set es)" for "is" ps
  proof (induction "is" arbitrary: ps)
    case (Cons i "is")
    obtain p u where ps: "ps = (p, u)" by (cases ps)
    show ?case
    proof (cases "st_slots u ! i")
      case True
      then show ?thesis using Cons[of "(p \<or> submit_ok i, st_event (Submit i) u)"] by (auto simp: ps)
    next
      case False
      then show ?thesis using Cons[of ps] by (simp add: ps)
    qed
  qed auto
  note loop = this[of "[0..<STREAM_XFER_NUM]" "(False, if st_have_queue (endpoint_reset s)
      then (endpoint_reset s)\<lparr>st_queue := []\<rparr> else endpoint_reset s)"]
  show "st_ring t = st_ring s" "st_dropped t = st_dropped s"
    "\<exists>es. st_events t = st_events s @ es \<and> Request_recover \<notin> set es"
    using loop by (cases "st_have_dev s"; force simp: t_def stream_reprime_def Let_def endpoint_reset_def)+
qed

lemma pump_watch_second:
  fixes submit_ok s
  assumes "1000000 \<le> now - pu_last_log p" "pu_last_head p = r_head (st_ring s0)" "pu_last_drop p = st_dropped s0"
    "0 \<le> pu_stall_secs p" "pu_stall_secs p < 5"
  defines "p' \<equiv> fst (pump_watch submit_ok now p s)"
  shows "pu_stall_secs p' = (if silent s0 s then (pu_stall_secs p + 1) mod 5 else 0)"
    "pu_last_head p' = r_head (st_ring s)" "pu_last_drop p' = st_dropped s" "pu_last_log p' = now"
    "reopens submit_ok now p s \<longleftrightarrow> silent s0 s \<and> pu_stall_secs p = 4"
proof -
  let ?t = "snd (stream_reprime submit_ok (st_event (Sys_log 2 ''stream stalled, re-priming'') s))"
  obtain es where es: "st_events ?t = st_events s @ Sys_log 2 ''stream stalled, re-priming'' # es"
    "Request_recover \<notin> set es"
    using reprime_frame(3)[of submit_ok "st_event (Sys_log 2 ''stream stalled, re-priming'') s"] by auto
  note fr = reprime_frame(1,2)[of submit_ok "st_event (Sys_log 2 ''stream stalled, re-priming'') s"]
  have sil: "silent s0 s \<longleftrightarrow> st_streaming s \<and> r_head (st_ring s) - pu_last_head p = 0 \<and> st_dropped s - pu_last_drop p = 0"
    by (auto simp: silent_def assms)
  have due: "\<not> now - pu_last_log p < 1000000" using assms(1) by simp
  have m: "(pu_stall_secs p + 1) mod 5 = (if pu_stall_secs p = 4 then 0 else pu_stall_secs p + 1)"
    using assms(4,5) by simp
  show "pu_stall_secs p' = (if silent s0 s then (pu_stall_secs p + 1) mod 5 else 0)"
    "pu_last_head p' = r_head (st_ring s)" "pu_last_drop p' = st_dropped s" "pu_last_log p' = now"
    "reopens submit_ok now p s \<longleftrightarrow> silent s0 s \<and> pu_stall_secs p = 4"
    using due fr es assms(4,5)
    by (auto simp: p'_def reopens_def pump_watch_def sil m pump_stalled_def pump_flowing_def Let_def)
qed

lemma pump_samples_inv:
  fixes submit_ok
  assumes "seconds_apart (pu_last_log p) xs" "pu_last_head p = r_head (st_ring s0)" "pu_last_drop p = st_dropped s0"
    "pu_stall_secs p = int (n mod 5)"
  defines "q \<equiv> pump_samples submit_ok xs p"
  shows "pu_stall_secs q = int (quiet s0 n xs mod 5) \<and>
    pu_last_head q = r_head (st_ring (last (s0 # map snd xs))) \<and>
    pu_last_drop q = st_dropped (last (s0 # map snd xs)) \<and> pu_last_log q = last (pu_last_log p # map fst xs)"
  using assms(1-4) unfolding q_def
proof (induction xs arbitrary: p s0 n)
  case (Cons x xs)
  obtain now s where x: "x = (now, s)" by (cases x)
  let ?n = "if silent s0 s then n + 1 else 0" and ?p = "fst (pump_watch submit_ok now p s)"
  have "pu_stall_secs p < 5" "0 \<le> pu_stall_secs p" using Cons.prems(4) by simp_all
  note w = pump_watch_second[of now p s0 submit_ok s, OF _ Cons.prems(2,3) this(2,1)]
  have d: "1000000 \<le> now - pu_last_log p" using Cons.prems(1) by (simp add: x)
  have st: "pu_stall_secs ?p = int (?n mod 5)" using w(1)[OF d] Cons.prems(4) by (simp add: zmod_int mod_simps add.commute)
  have "seconds_apart (pu_last_log ?p) xs" using Cons.prems(1) w(4)[OF d] by (simp add: x)
  from Cons.IH[OF this w(2)[OF d] w(3)[OF d] st] show ?case
    using w(4)[OF d] by (simp add: x pump_samples_def)
qed (simp add: pump_samples_def)

text \<open>
  The pump asks for the receiver to be reopened exactly at every fifth silent second in a row.
  A full ring, whose head stands still while bytes are dropped, is never taken for a dead pipe.
\<close>

theorem pump_reopens_dead_pipe_only:
  assumes "seconds_apart t0 (xs @ [(now, s)])"
  shows "reopens submit_ok now (pump_samples submit_ok xs (pump_init t0 s0)) s \<longleftrightarrow>
    silent (last (s0 # map snd xs)) s \<and> (quiet s0 0 xs + 1) mod 5 = 0"
proof -
  let ?p = "pump_samples submit_ok xs (pump_init t0 s0)"
  have sp: "seconds_apart t (ys @ [(now, s)]) \<Longrightarrow> seconds_apart t ys \<and> 1000000 \<le> now - last (t # map fst ys)" for t ys
    by (induction ys arbitrary: t) auto
  have q: "pu_stall_secs ?p = int (quiet s0 0 xs mod 5)" "pu_last_head ?p = r_head (st_ring (last (s0 # map snd xs)))"
    "pu_last_drop ?p = st_dropped (last (s0 # map snd xs))" "pu_last_log ?p = last (t0 # map fst xs)"
    using pump_samples_inv[of "pump_init t0 s0" xs s0 0 submit_ok] sp[OF assms] by (simp_all add: pump_init_def)
  have "reopens submit_ok now ?p s \<longleftrightarrow> silent (last (s0 # map snd xs)) s \<and> pu_stall_secs ?p = 4"
    by (rule pump_watch_second(5)[OF _ q(2,3)]) (use sp[OF assms] q in simp_all)
  moreover have "int (n mod 5) = 4 \<longleftrightarrow> (n + 1) mod 5 = 0" for n :: nat by presburger
  ultimately show ?thesis using q(1) by simp
qed

lemma pump_reopens_dead_pipe_only_witness:
  "reopens (\<lambda>_. True) 5000000 (pump_samples (\<lambda>_. True)
      (map (\<lambda>k. (k * 1000000, stream_example)) [1, 2, 3, 4]) (pump_init 0 stream_example)) stream_example"
proof -
  let ?xs = "map (\<lambda>k. (k * 1000000, stream_example)) [1 :: int, 2, 3, 4]"
  have "silent stream_example stream_example" by (simp add: silent_def stream_example_def)
  then show ?thesis
    using pump_reopens_dead_pipe_only[of 0 ?xs 5000000 stream_example "\<lambda>_. True" stream_example] by simp
qed

end
