(* ===== verification/UsbTransfer.thy ===== *)
theory UsbTransfer
  imports UsbStream
begin

text \<open>
  The synchronous half of \<open>main/esp_libusb.c\<close>: the pool of bulk transfers with its recovery
  escalation, and control transfers through the one shared slot. The answers of the USB host library,
  the semaphores and the allocators are arguments.
\<close>

section \<open>Bulk transfers\<close>

definition BULK_XFER_SLOTS :: nat where
  "BULK_XFER_SLOTS = 4"

record bulk =
  b_xfer :: "bool list"
  b_sem :: "bool list"
  b_nslots :: nat
  b_read_idx :: nat
  b_primed :: bool
  b_dev :: bool
  b_recover_fails :: int
  b_teardowns :: int
  b_calls :: nat
  b_stream :: stream
  b_events :: "usb_event list"

text \<open>
  What the environment answers during one call: creating the semaphore and the transfer of a slot,
  the n-th submit, and the completion of the awaited slot with its success and its bytes, or none
  before the timeout.
\<close>

record bulk_env =
  be_sem_ok :: "nat \<Rightarrow> bool"
  be_alloc_ok :: "nat \<Rightarrow> bool"
  be_submit :: "nat \<Rightarrow> int"
  be_completion :: "(bool \<times> u8 list) option"

definition b_event :: "usb_event \<Rightarrow> bulk \<Rightarrow> bulk" where
  "b_event e s = s\<lparr>b_events := b_events s @ [e]\<rparr>"

definition bulk_endpoint_reset :: "bulk \<Rightarrow> bulk" where
  "bulk_endpoint_reset s = b_event Clear (b_event Flush (b_event Halt s))"

definition bulk_teardown :: "bulk \<Rightarrow> bulk" where
  "bulk_teardown s =
     (if \<not> b_xfer s ! 0 \<and> \<not> b_sem s ! 0 then s
      else let s = (if b_dev s then bulk_endpoint_reset s else s);
               s = fold (\<lambda>i s. if b_xfer s ! i then b_event (Free i) s else s) [0..<BULK_XFER_SLOTS] s
           in s\<lparr>b_xfer := replicate BULK_XFER_SLOTS False, b_sem := replicate BULK_XFER_SLOTS False,
                b_nslots := 0, b_read_idx := 0, b_primed := False\<rparr>)"

primrec bulk_alloc :: "nat list \<Rightarrow> bulk_env \<Rightarrow> bulk \<Rightarrow> bulk" where
  "bulk_alloc [] env s = s"
| "bulk_alloc (i # is) env s =
     (if \<not> be_sem_ok env i then s
      else if \<not> be_alloc_ok env i then s\<lparr>b_sem := (b_sem s)[i := False]\<rparr>
      else bulk_alloc is env (s\<lparr>b_sem := (b_sem s)[i := True], b_xfer := (b_xfer s)[i := True],
                                b_nslots := b_nslots s + 1\<rparr>))"

definition bulk_xfer_init :: "bulk_env \<Rightarrow> bulk \<Rightarrow> int \<times> bulk" where
  "bulk_xfer_init env s =
     (let s = bulk_alloc [0..<BULK_XFER_SLOTS] env
                (s\<lparr>b_stream := stream_stop (b_stream s), b_dev := True, b_nslots := 0, b_read_idx := 0,
                   b_primed := False\<rparr>)
      in if b_nslots s = 0 then (-1, b_event (Sys_log 4 ''bulk init: no xfer slots'') s) else (0, s))"

primrec bulk_submit_tries :: "nat \<Rightarrow> bulk_env \<Rightarrow> nat \<Rightarrow> int \<Rightarrow> bulk \<Rightarrow> int \<times> bulk" where
  "bulk_submit_tries 0 env i r s = (r, s)"
| "bulk_submit_tries (Suc a) env i r s =
     (let r = be_submit env (b_calls s); s = (b_event (Submit i) s)\<lparr>b_calls := b_calls s + 1\<rparr>
      in if r = 0 then (r, s) else if r = 0x10C then bulk_submit_tries a env i r s else (r, s))"

definition bulk_submit :: "bulk_env \<Rightarrow> nat \<Rightarrow> bulk \<Rightarrow> int \<times> bulk" where
  "bulk_submit env i s = bulk_submit_tries 3 env i (-1) s"

definition bulk_recover :: "bulk \<Rightarrow> bulk" where
  "bulk_recover s =
     (let s = (bulk_endpoint_reset s)\<lparr>b_primed := False, b_read_idx := 0, b_recover_fails := b_recover_fails s + 1\<rparr>
      in if b_recover_fails s < 4 then s
         else let s = s\<lparr>b_recover_fails := 0, b_teardowns := b_teardowns s + 1\<rparr>
              in if 3 \<le> b_teardowns s
                 then b_event Request_recover (b_event (Sys_log 4 ''bulk unrecoverable'') (s\<lparr>b_teardowns := 0\<rparr>))
                 else bulk_teardown (b_event (Sys_log 2 ''bulk repeated fails'') s))"

text \<open>Priming stops at the first submit that fails.\<close>

primrec bulk_prime :: "nat list \<Rightarrow> bulk_env \<Rightarrow> bulk \<Rightarrow> bool \<times> bulk" where
  "bulk_prime [] env s = (True, s\<lparr>b_primed := True\<rparr>)"
| "bulk_prime (i # is) env s =
     (case bulk_submit env i s of (r, s) \<Rightarrow> if r \<noteq> 0 then (False, bulk_recover s) else bulk_prime is env s)"

definition bulk_take :: "bulk_env \<Rightarrow> bulk \<Rightarrow> int \<times> u8 list option \<times> bulk" where
  "bulk_take env s =
     (let idx = b_read_idx s
      in case be_completion env of
           None \<Rightarrow> (-1, None, bulk_recover (b_event (Sys_log 4 ''bulk timeout'') s))
         | Some (ok, data) \<Rightarrow>
             if \<not> ok then (-1, None, bulk_recover (b_event (Sys_log 2 ''bulk STALL'') s))
             else let s = s\<lparr>b_recover_fails := 0, b_teardowns := 0\<rparr>
                  in case bulk_submit env idx s of
                       (r, s) \<Rightarrow> if r \<noteq> 0 then (0, Some data, bulk_recover s)
                                 else (0, Some data, s\<lparr>b_read_idx := (idx + 1) mod b_nslots s\<rparr>))"

definition esp_libusb_bulk_transfer :: "bulk_env \<Rightarrow> bulk \<Rightarrow> int \<times> u8 list option \<times> bulk" where
  "esp_libusb_bulk_transfer env s =
     (let (r, s) = (if \<not> b_xfer s ! 0 then bulk_xfer_init env s else (0, s))
      in if r \<noteq> 0 then (-1, None, s)
         else if b_primed s then bulk_take env s
         else case bulk_prime [0..<b_nslots s] env (s\<lparr>b_read_idx := 0\<rparr>) of
                (primed, s) \<Rightarrow> if primed then bulk_take env s else (-1, None, s))"

text \<open>Starting the stream takes the bulk pool down first.\<close>

definition esp_libusb_stream_start :: "bool \<Rightarrow> bool \<Rightarrow> (nat \<Rightarrow> bool) \<Rightarrow> (nat \<Rightarrow> bool) \<Rightarrow> bulk \<Rightarrow> int \<times> bulk" where
  "esp_libusb_stream_start ring_alloc queue_alloc alloc_ok submit_ok s =
     (let s = bulk_teardown s
      in case stream_start ring_alloc queue_alloc alloc_ok submit_ok (b_stream s) of
           (r, st) \<Rightarrow> (r, s\<lparr>b_stream := st\<rparr>))"

section \<open>Control transfers\<close>

definition CTRL_OUT :: u8 where
  "CTRL_OUT = 0x40"

definition CTRL_IN :: u8 where
  "CTRL_IN = 0xC0"

record adsb_dev =
  ad_response :: "u8 list"
  ad_success :: bool
  ad_bytes :: int

definition ctrl_setup :: "u8 \<Rightarrow> u8 \<Rightarrow> u16 \<Rightarrow> u16 \<Rightarrow> u16 \<Rightarrow> u8 list" where
  "ctrl_setup bm_req_type b_request wValue wIndex wLength =
     [bm_req_type, b_request, ucast wValue, ucast (drop_bit 8 wValue), ucast wIndex, ucast (drop_bit 8 wIndex),
      ucast wLength, ucast (drop_bit 8 wLength)]"

definition transfer_read_cb :: "int \<Rightarrow> u8 list \<Rightarrow> adsb_dev \<Rightarrow> adsb_dev" where
  "transfer_read_cb status received d =
     d\<lparr>ad_response := overlay 0 received (ad_response d), ad_success := (status = 0),
       ad_bytes := int (length received) - 8\<rparr>"

text \<open>
  The buffer sent, then the result with the data read back. The copy loops count in a \<open>uint8_t\<close>, so
  for a length of 256 or more they do not end (None). \<open>completion\<close> is the status and the bytes of the
  reply, setup packet included, or nothing before the timeout.
\<close>

definition ctrl_out_buffer :: "u8 \<Rightarrow> u8 \<Rightarrow> u16 \<Rightarrow> u16 \<Rightarrow> u8 list \<Rightarrow> u16 \<Rightarrow> u8 list" where
  "ctrl_out_buffer bm_req_type b_request wValue wIndex data wLength =
     ctrl_setup bm_req_type b_request wValue wIndex wLength @
     (if bm_req_type = CTRL_OUT then take (unat wLength) data else [])"

definition ctrl_transfer_locked ::
  "int \<Rightarrow> (int \<times> u8 list) option \<Rightarrow> u8 \<Rightarrow> u16 \<Rightarrow> u8 list \<Rightarrow> adsb_dev \<Rightarrow> (int \<times> u8 list \<times> adsb_dev) option" where
  "ctrl_transfer_locked submit_err completion bm_req_type wLength data d =
     (if bm_req_type = CTRL_OUT \<and> 256 \<le> wLength then None
      else if submit_err \<noteq> 0 then Some (-1, data, d)
      else case completion of
             None \<Rightarrow> Some (-1, data, d)
           | Some (status, received) \<Rightarrow>
               let d = transfer_read_cb status received d
               in if \<not> ad_success d then Some (-1, data, d)
                  else if bm_req_type = CTRL_IN \<and> 256 \<le> wLength then None
                  else if bm_req_type = CTRL_IN \<and> 0 < wLength
                  then Some (ad_bytes d, overlay 0 (take (unat wLength) (drop 8 (ad_response d))) data, d)
                  else Some (ad_bytes d, data, d))"

definition esp_libusb_control_transfer ::
  "bool \<Rightarrow> bool \<Rightarrow> int \<Rightarrow> (int \<times> u8 list) option \<Rightarrow> u8 \<Rightarrow> u16 \<Rightarrow> u8 list \<Rightarrow> adsb_dev \<Rightarrow> (int \<times> u8 list \<times> adsb_dev) option" where
  "esp_libusb_control_transfer have_dev mutex_taken submit_err completion bm_req_type wLength data d =
     (if \<not> have_dev then Some (-1, data, d)
      else if \<not> mutex_taken then Some (-1, data, d)
      else ctrl_transfer_locked submit_err completion bm_req_type wLength data d)"

definition get_string_descriptor_ascii :: "u8 \<Rightarrow> u16 list \<Rightarrow> u8 list" where
  "get_string_descriptor_ascii bLength wData = map (\<lambda>i. ucast (wData ! i)) [0..<unat bLength div 2]"

section \<open>The pool stays consistent\<close>

definition bulk_ok :: "bulk \<Rightarrow> bool" where
  "bulk_ok s \<longleftrightarrow> b_nslots s \<le> BULK_XFER_SLOTS \<and>
     b_xfer s = replicate (b_nslots s) True @ replicate (BULK_XFER_SLOTS - b_nslots s) False \<and>
     b_sem s = b_xfer s \<and>
     (b_read_idx s = 0 \<or> b_read_idx s < b_nslots s) \<and> (b_primed s \<longrightarrow> 0 < b_nslots s) \<and>
     0 \<le> b_recover_fails s \<and> b_recover_fails s < 4 \<and> 0 \<le> b_teardowns s \<and> b_teardowns s < 3"

text \<open>How close the driver is to asking for the receiver to be reopened, and how often it did.\<close>

definition bulk_level :: "bulk \<Rightarrow> int" where
  "bulk_level s = 4 * b_teardowns s + b_recover_fails s"

definition reopen_requests :: "bulk \<Rightarrow> int" where
  "reopen_requests s = int (length (filter (\<lambda>e. e = Request_recover) (b_events s)))"

lemma b_event_simps [simp]:
  "bulk_ok (b_event e s) = bulk_ok s" "b_nslots (b_event e s) = b_nslots s" "bulk_level (b_event e s) = bulk_level s"
  "b_xfer (b_event e s) = b_xfer s" "b_sem (b_event e s) = b_sem s" "b_read_idx (b_event e s) = b_read_idx s"
  "b_recover_fails (b_event e s) = b_recover_fails s" "b_teardowns (b_event e s) = b_teardowns s"
  "b_primed (b_event e s) = b_primed s" "b_dev (b_event e s) = b_dev s"
  "reopen_requests (b_event e s) = reopen_requests s + (if e = Request_recover then 1 else 0)"
  by (simp_all add: b_event_def bulk_ok_def bulk_level_def reopen_requests_def)

lemma bulk_reset_simps [simp]:
  "bulk_ok (bulk_endpoint_reset s) = bulk_ok s" "reopen_requests (bulk_endpoint_reset s) = reopen_requests s"
  "b_nslots (bulk_endpoint_reset s) = b_nslots s" "b_xfer (bulk_endpoint_reset s) = b_xfer s"
  "b_sem (bulk_endpoint_reset s) = b_sem s" "b_recover_fails (bulk_endpoint_reset s) = b_recover_fails s"
  "b_teardowns (bulk_endpoint_reset s) = b_teardowns s"
  by (simp_all add: bulk_endpoint_reset_def)

lemma reopen_requests_update [simp]:
  "reopen_requests (s\<lparr>b_xfer := x, b_sem := y, b_nslots := n, b_read_idx := i, b_primed := p\<rparr>) = reopen_requests s"
  "reopen_requests (s\<lparr>b_primed := p, b_read_idx := i, b_recover_fails := f\<rparr>) = reopen_requests s"
  "reopen_requests (s\<lparr>b_recover_fails := f, b_teardowns := t\<rparr>) = reopen_requests s"
  "reopen_requests (s\<lparr>b_teardowns := t\<rparr>) = reopen_requests s"
  by (simp_all add: reopen_requests_def)

lemma bulk_teardown_empty:
  assumes "bulk_ok s"
  shows "bulk_ok (bulk_teardown s)" "bulk_level (bulk_teardown s) = bulk_level s"
    "reopen_requests (bulk_teardown s) = reopen_requests s"
proof -
  let ?f = "\<lambda>i s. if b_xfer s ! i then b_event (Free i) s else s"
  have fold: "reopen_requests (fold ?f is t) = reopen_requests t \<and> bulk_level (fold ?f is t) = bulk_level t \<and>
      b_recover_fails (fold ?f is t) = b_recover_fails t \<and> b_teardowns (fold ?f is t) = b_teardowns t" for "is" t
    by (induction "is" arbitrary: t) simp_all
  show "reopen_requests (bulk_teardown s) = reopen_requests s" by (simp add: bulk_teardown_def Let_def fold)
  show "bulk_level (bulk_teardown s) = bulk_level s"
    by (simp add: bulk_teardown_def Let_def fold bulk_level_def)
  show "bulk_ok (bulk_teardown s)" using assms by (simp add: bulk_teardown_def Let_def fold bulk_ok_def)
qed

lemma bulk_ok_counters:
  "bulk_ok s \<Longrightarrow> 0 \<le> f \<Longrightarrow> f < 4 \<Longrightarrow> 0 \<le> t \<Longrightarrow> t < 3 \<Longrightarrow>
    bulk_ok (s\<lparr>b_primed := False, b_read_idx := 0, b_recover_fails := f, b_teardowns := t\<rparr>)"
  by (simp add: bulk_ok_def)

lemma bulk_recover_level:
  assumes "bulk_ok s"
  shows "bulk_ok (bulk_recover s)" "bulk_level (bulk_recover s) = (bulk_level s + 1) mod 12"
    "reopen_requests (bulk_recover s) = reopen_requests s + (if bulk_level s = 11 then 1 else 0)"
proof -
  have c: "0 \<le> b_recover_fails s" "b_recover_fails s < 4" "0 \<le> b_teardowns s" "b_teardowns s < 3"
    using assms by (simp_all add: bulk_ok_def)
  let ?s = "(bulk_endpoint_reset s)\<lparr>b_primed := False, b_read_idx := 0, b_recover_fails := b_recover_fails s + 1\<rparr>"
  have ok: "bulk_ok (?s\<lparr>b_recover_fails := f, b_teardowns := t\<rparr>)" if "0 \<le> f" "f < 4" "0 \<le> t" "t < 3" for f t
    using assms that by (simp add: bulk_ok_def)
  consider "b_recover_fails s + 1 < 4" | "b_recover_fails s = 3" "b_teardowns s + 1 < 3" | "b_recover_fails s = 3" "b_teardowns s = 2"
    using c by linarith
  then have "bulk_ok (bulk_recover s) \<and> bulk_level (bulk_recover s) = (bulk_level s + 1) mod 12 \<and>
    reopen_requests (bulk_recover s) = reopen_requests s + (if bulk_level s = 11 then 1 else 0)"
  proof cases
    case 1
    then show ?thesis using c ok[of "b_recover_fails s + 1" "b_teardowns s"]
      by (auto simp: bulk_recover_def Let_def bulk_level_def bulk_ok_def)
  next
    case 2
    let ?t = "b_event (Sys_log 2 ''bulk repeated fails'') (?s\<lparr>b_recover_fails := 0, b_teardowns := b_teardowns s + 1\<rparr>)"
    have "bulk_ok ?t" using ok[of 0 "b_teardowns s + 1"] 2 c by simp
    from bulk_teardown_empty[OF this] show ?thesis using 2 c
      by (simp add: bulk_recover_def Let_def bulk_level_def)
  next
    case 3
    then show ?thesis using ok[of 0 0] by (simp add: bulk_recover_def Let_def bulk_level_def)
  qed
  then show "bulk_ok (bulk_recover s)" "bulk_level (bulk_recover s) = (bulk_level s + 1) mod 12"
    "reopen_requests (bulk_recover s) = reopen_requests s + (if bulk_level s = 11 then 1 else 0)" by blast+
qed

lemma bulk_calls_simps [simp]:
  "bulk_ok (s\<lparr>b_calls := n\<rparr>) = bulk_ok s" "bulk_level (s\<lparr>b_calls := n\<rparr>) = bulk_level s"
  "reopen_requests (s\<lparr>b_calls := n\<rparr>) = reopen_requests s"
  by (simp_all add: bulk_ok_def bulk_level_def reopen_requests_def)

lemma bulk_submit_frame:
  assumes "bulk_submit env i s = (r, s')"
  shows "bulk_ok s' = bulk_ok s" "bulk_level s' = bulk_level s" "b_nslots s' = b_nslots s"
    "b_read_idx s' = b_read_idx s" "b_primed s' = b_primed s" "reopen_requests s' = reopen_requests s"
proof -
  have "bulk_submit_tries a env i r0 t = (r, s') \<Longrightarrow>
      bulk_ok s' = bulk_ok t \<and> bulk_level s' = bulk_level t \<and> b_nslots s' = b_nslots t \<and>
      b_read_idx s' = b_read_idx t \<and> b_primed s' = b_primed t \<and> reopen_requests s' = reopen_requests t" for a r0 t
    by (induction a arbitrary: r0 t) (auto simp: Let_def split: if_splits)
  then show "bulk_ok s' = bulk_ok s" "bulk_level s' = bulk_level s" "b_nslots s' = b_nslots s"
    "b_read_idx s' = b_read_idx s" "b_primed s' = b_primed s" "reopen_requests s' = reopen_requests s"
    using assms by (auto simp: bulk_submit_def)
qed

lemma bulk_prime_outcome:
  assumes "bulk_prime is env s = (p, s')" "bulk_ok s" "0 < b_nslots s"
  shows "bulk_ok s' \<and> (if p then b_primed s' \<and> bulk_level s' = bulk_level s \<and> b_nslots s' = b_nslots s \<and>
      b_read_idx s' = b_read_idx s else bulk_level s' = (bulk_level s + 1) mod 12)"
  using assms
proof (induction "is" arbitrary: s)
  case Nil
  then show ?case by (auto simp: bulk_ok_def bulk_level_def)
next
  case (Cons i "is")
  obtain r t where t: "bulk_submit env i s = (r, t)" by fastforce
  note fr = bulk_submit_frame[OF t]
  show ?case
  proof (cases "r = 0")
    case True
    then show ?thesis using Cons.IH[of t] Cons.prems t fr by simp
  next
    case False
    then show ?thesis using Cons.prems t fr bulk_recover_level[of t] by auto
  qed
qed

lemma bulk_take_outcome:
  assumes "bulk_take env s = (r, data, s')" "bulk_ok s" "b_primed s"
  shows "bulk_ok s' \<and> b_read_idx s < b_nslots s \<and>
    (if r = 0 then data = map_option snd (be_completion env) \<and> data \<noteq> None \<and> bulk_level s' \<in> {0, 1}
     else r = -1 \<and> data = None \<and> bulk_level s' = (bulk_level s + 1) mod 12)"
proof -
  have idx: "b_read_idx s < b_nslots s" using assms(2,3) by (auto simp: bulk_ok_def)
  show ?thesis
  proof (cases "be_completion env")
    case None
    then show ?thesis using assms idx bulk_recover_level[of "b_event (Sys_log 4 ''bulk timeout'') s"]
      by (auto simp: bulk_take_def Let_def)
  next
    case (Some c)
    obtain ok d where c: "c = (ok, d)" by (cases c)
    let ?s = "s\<lparr>b_recover_fails := 0, b_teardowns := 0\<rparr>"
    obtain r1 t where t: "bulk_submit env (b_read_idx s) ?s = (r1, t)" by fastforce
    note fr = bulk_submit_frame[OF t]
    have s0: "bulk_ok ?s" "bulk_level ?s = 0" using assms(2) by (simp_all add: bulk_ok_def bulk_level_def)
    have next_idx: "bulk_ok (t\<lparr>b_read_idx := Suc (b_read_idx s) mod b_nslots t\<rparr>)"
      "bulk_level (t\<lparr>b_read_idx := n\<rparr>) = bulk_level t" for n
      using fr s0(1) idx by (auto simp: bulk_ok_def bulk_level_def)
    show ?thesis
    proof (cases ok)
      case False
      then show ?thesis using assms idx Some c bulk_recover_level[of "b_event (Sys_log 2 ''bulk STALL'') s"]
        by (auto simp: bulk_take_def Let_def)
    next
      case True
      then show ?thesis using assms(1) idx Some c t fr s0 next_idx bulk_recover_level[of t]
        by (auto simp: bulk_take_def Let_def split: if_splits)
    qed
  qed
qed

lemma bulk_alloc_ok:
  assumes "bulk_ok s" "b_nslots s + length is = BULK_XFER_SLOTS" "is = [b_nslots s..<BULK_XFER_SLOTS]" "b_read_idx s = 0"
  shows "bulk_ok (bulk_alloc is env s) \<and> bulk_level (bulk_alloc is env s) = bulk_level s"
  using assms
proof (induction "is" arbitrary: s)
  case (Cons i "is")
  let ?n = "b_nslots s"
  have n: "?n < BULK_XFER_SLOTS" "i = ?n" "is = [Suc ?n..<BULK_XFER_SLOTS]" using Cons.prems(3)[symmetric] by (auto simp: upt_eq_Cons_conv)
  have rep: "replicate (BULK_XFER_SLOTS - ?n) False = False # replicate (BULK_XFER_SLOTS - Suc ?n) False"
    using n(1) by (metis Suc_diff_Suc replicate_Suc)
  have same: "(b_sem s)[i := False] = b_sem s"
    using Cons.prems(1) n rep by (simp add: bulk_ok_def list_update_append)
  have up: "(b_xfer s)[?n := True] = replicate (Suc ?n) True @ replicate (BULK_XFER_SLOTS - Suc ?n) False"
    using Cons.prems(1) rep by (simp add: bulk_ok_def list_update_append replicate_append_same)
  let ?s = "s\<lparr>b_sem := (b_sem s)[i := True], b_xfer := (b_xfer s)[i := True], b_nslots := ?n + 1\<rparr>"
  have "bulk_ok ?s" using Cons.prems(1,4) n(1,2) up by (simp add: bulk_ok_def)
  then have IH: "bulk_ok (bulk_alloc is env ?s) \<and> bulk_level (bulk_alloc is env ?s) = bulk_level ?s"
    by (rule Cons.IH) (use n Cons.prems(4) in simp_all)
  have lev: "bulk_level ?s = bulk_level s" "bulk_level (s\<lparr>b_sem := (b_sem s)[i := False]\<rparr>) = bulk_level s"
    by (simp_all add: bulk_level_def)
  have "bulk_ok (s\<lparr>b_sem := (b_sem s)[i := False]\<rparr>)" using Cons.prems(1) unfolding same by (simp add: bulk_ok_def)
  with IH lev Cons.prems(1) show ?case by simp
qed simp

lemma bulk_init_outcome:
  assumes "bulk_xfer_init env s = (r, s')" "bulk_ok s" "\<not> b_xfer s ! 0"
  shows "bulk_ok s' \<and> bulk_level s' = bulk_level s \<and> (r = 0 \<longleftrightarrow> 0 < b_nslots s')"
proof -
  have n: "b_nslots s = 0" using assms(2,3) by (cases "b_nslots s") (simp_all add: bulk_ok_def)
  let ?s = "s\<lparr>b_stream := stream_stop (b_stream s), b_dev := True, b_nslots := 0, b_read_idx := 0, b_primed := False\<rparr>"
  have "bulk_ok ?s" "bulk_level ?s = bulk_level s" using assms(2) n by (simp_all add: bulk_ok_def bulk_level_def)
  then have "bulk_ok (bulk_alloc [0..<BULK_XFER_SLOTS] env ?s) \<and> bulk_level (bulk_alloc [0..<BULK_XFER_SLOTS] env ?s) = bulk_level ?s"
    by (intro bulk_alloc_ok) simp_all
  with \<open>bulk_level ?s = bulk_level s\<close> show ?thesis using assms(1) by (auto simp: bulk_xfer_init_def Let_def split: if_splits)
qed

lemma bulk_transfer_cases:
  assumes "bulk_ok s" "esp_libusb_bulk_transfer env s = (r, data, s')"
  shows "bulk_ok s' \<and>
    (if r = 0 then data = map_option snd (be_completion env) \<and> data \<noteq> None \<and> bulk_level s' \<in> {0, 1}
     else r = -1 \<and> data = None \<and> (b_nslots s' = 0 \<and> bulk_level s' = bulk_level s \<or>
       bulk_level s' = (bulk_level s + 1) mod 12))"
proof -
  obtain r0 t where t: "(if \<not> b_xfer s ! 0 then bulk_xfer_init env s else (0, s)) = (r0, t)" by fastforce
  have "b_xfer s ! 0 \<Longrightarrow> 0 < b_nslots s"
    using assms(1) by (cases "b_nslots s") (simp_all add: bulk_ok_def BULK_XFER_SLOTS_def)
  then have ok: "bulk_ok t" and lev: "bulk_level t = bulk_level s" and pos: "r0 = 0 \<longleftrightarrow> 0 < b_nslots t"
    using t assms(1) bulk_init_outcome[of env s r0 t] by (auto split: if_splits)
  obtain p u where u: "bulk_prime [0..<b_nslots t] env (t\<lparr>b_read_idx := 0\<rparr>) = (p, u)" by fastforce
  have tr: "bulk_ok (t\<lparr>b_read_idx := 0\<rparr>)" "bulk_level (t\<lparr>b_read_idx := 0\<rparr>) = bulk_level s"
    using ok lev by (simp_all add: bulk_ok_def bulk_level_def)
  note prime = bulk_prime_outcome[OF u tr(1)]
  have call: "esp_libusb_bulk_transfer env s =
      (if r0 \<noteq> 0 then (-1, None, t) else if b_primed t then bulk_take env t
       else if p then bulk_take env u else (-1, None, u))"
    using t u by (simp add: esp_libusb_bulk_transfer_def)
  consider "r0 \<noteq> 0" | "r0 = 0" "b_primed t" | "r0 = 0" "\<not> b_primed t" "p" | "r0 = 0" "\<not> b_primed t" "\<not> p" by blast
  then show ?thesis
  proof cases
    case 1
    then show ?thesis using assms(2) call ok lev pos by auto
  next
    case 2
    then show ?thesis using assms(2) call bulk_take_outcome[of env t r data s'] ok lev by auto
  next
    case 3
    then show ?thesis using assms(2) call bulk_take_outcome[of env u r data s'] prime pos tr by auto
  next
    case 4
    then show ?thesis using assms(2) call prime pos tr by auto
  qed
qed

lemma bulk_recovers:
  assumes "bulk_ok s"
  shows "bulk_ok ((bulk_recover ^^ k) s) \<and> bulk_level ((bulk_recover ^^ k) s) = (bulk_level s + int k) mod 12 \<and>
    reopen_requests ((bulk_recover ^^ k) s) = reopen_requests s + (bulk_level s + int k) div 12"
proof (induction k)
  case 0
  have "0 \<le> bulk_level s" "bulk_level s < 12" using assms by (auto simp: bulk_ok_def bulk_level_def)
  then show ?case using assms by simp
next
  case (Suc k)
  define l where "l = bulk_level s + int k"
  have e: "bulk_level s + int (Suc k) = l + 1" by (simp add: l_def)
  let ?t = "(bulk_recover ^^ k) s"
  have t: "bulk_ok ?t" "bulk_level ?t = l mod 12" "reopen_requests ?t = reopen_requests s + l div 12"
    using Suc by (simp_all add: l_def)
  note r = bulk_recover_level[OF t(1), unfolded t(2,3)]
  have "(l mod 12 + 1) mod 12 = (l + 1) mod 12" by (simp add: mod_simps)
  moreover have "(l + 1) div 12 = l div 12 + (if l mod 12 = 11 then 1 else 0)" by presburger
  ultimately show ?case unfolding e using r by simp
qed

text \<open>
  What a bulk read reports. It delivers the bytes of the awaited slot and clears the failure
  count (a failed re-post counts one), or it fails without data and moves one step up the escalation,
  or no slot could be allocated; the pool stays consistent in every case.
\<close>

theorem bulk_transfer_outcome:
  assumes "bulk_ok s" "esp_libusb_bulk_transfer env s = (r, data, s')"
  shows "bulk_ok s' \<and>
    (if r = 0 then data = map_option snd (be_completion env) \<and> data \<noteq> None \<and> bulk_level s' \<in> {0, 1}
     else r = -1 \<and> data = None \<and> (b_nslots s' = 0 \<and> bulk_level s' = bulk_level s \<or>
       bulk_level s' = (bulk_level s + 1) mod 12))"
  by (rule bulk_transfer_cases[OF assms])

definition bulk_example :: bulk where
  "bulk_example = \<lparr>b_xfer = replicate 4 False, b_sem = replicate 4 False, b_nslots = 0, b_read_idx = 0, b_primed = False,
     b_dev = False, b_recover_fails = 0, b_teardowns = 0, b_calls = 0, b_stream = stream_example, b_events = []\<rparr>"

definition bulk_env_example :: bulk_env where
  "bulk_env_example = \<lparr>be_sem_ok = \<lambda>_. True, be_alloc_ok = \<lambda>i. i < 2, be_submit = \<lambda>n. if n = 1 then 0x10C else 0,
     be_completion = Some (True, [0x80, 0x7F])\<rparr>"

lemma bulk_transfer_outcome_witness:
  "\<exists>r data s'. esp_libusb_bulk_transfer bulk_env_example bulk_example = (r, data, s') \<and> bulk_ok s'"
proof -
  obtain r data s' where t: "esp_libusb_bulk_transfer bulk_env_example bulk_example = (r, data, s')"
    by (cases "esp_libusb_bulk_transfer bulk_env_example bulk_example") auto
  have "bulk_ok bulk_example" by (simp add: bulk_ok_def bulk_example_def BULK_XFER_SLOTS_def)
  from bulk_transfer_outcome[OF this t] t show ?thesis by blast
qed

text \<open>
  C31: failures that go on escalate to reopening the receiver once every twelve recoveries, four per
  tear-down and three of those, and never sooner.
\<close>

theorem bulk_escalation:
  assumes "bulk_ok s"
  shows "reopen_requests ((bulk_recover ^^ k) s) = reopen_requests s + (bulk_level s + int k) div 12"
  using bulk_recovers[OF assms] by blast

lemma bulk_escalation_witness: "reopen_requests ((bulk_recover ^^ 24) bulk_example) = 2"
proof -
  have "bulk_ok bulk_example" by (simp add: bulk_ok_def bulk_example_def BULK_XFER_SLOTS_def)
  from bulk_escalation[OF this, of 24] show ?thesis
    by (simp add: bulk_example_def reopen_requests_def bulk_level_def)
qed

end
