(* ===== verification/Tracker.thy ===== *)
theory Tracker
  imports Decode Cpr PlaneCat FeedAvr FeedBeast
begin

text \<open>
  The aircraft table of \<open>main/class_driver.c\<close> and \<open>main/adsb.h\<close>: the record of an aircraft, finding or
  creating its row, positions from CPR frames with their plausibility check, the message callback
  \<open>on_msg\<close> stage by stage, the synthetic contacts and the once-a-second tick. A \<open>float\<close> is the rational it holds, each
  operation rounded (\<open>flt\<close>); \<open>cosf\<close>, \<open>atan2f\<close> and \<open>sqrtf\<close> are the fields of \<open>geo\<close>. A log line is
  recorded with its colour, its tag and the address; the text after them is left out.
\<close>

section \<open>The aircraft record\<close>

definition MAX_TRACKED :: nat where
  "MAX_TRACKED = 64"

definition OPT_FRESH_US :: int where
  "OPT_FRESH_US = 60000000"

definition fresh_at :: "int \<Rightarrow> int \<Rightarrow> bool" where
  "fresh_at us now \<longleftrightarrow> us \<noteq> 0 \<and> now - us < OPT_FRESH_US"

record cpr_frame =
  cf_raw_lat :: int
  cf_raw_lon :: int
  cf_ts_us :: int
  cf_surface :: bool
  cf_valid :: bool

record opt_f =
  o_us :: int
  o_v :: rat
  o_es :: bool

record aircraft_head =
  ac_icao :: u32
  ac_callsign :: string
  ac_cs_adsb_us :: int
  ac_altitude :: int
  ac_alt_geom :: bool
  ac_on_ground :: bool
  ac_velocity :: int
  ac_heading :: int
  ac_vel_us :: int
  ac_lat :: rat
  ac_lon :: rat
  ac_pos_valid :: bool
  ac_pos_us :: int
  ac_pos_rejects :: u8
  ac_dist_km :: rat
  ac_brg_deg :: rat
  ac_rng_valid :: bool
  ac_ew_velocity :: int
  ac_ns_velocity :: int
  ac_vert_rate :: int
  ac_squawk :: int
  ac_emergency :: nat
  ac_emitter :: u8
  ac_alert :: bool
  ac_spi :: bool
  ac_status_us :: int
  ac_ra_active :: bool
  ac_ra_us :: int
  ac_ra_text :: string

record aircraft_opts = aircraft_head +
  ac_ias :: opt_f
  ac_tas :: opt_f
  ac_mach :: opt_f
  ac_roll :: opt_f
  ac_track_rate :: opt_f
  ac_mag_heading :: opt_f
  ac_baro_rate :: opt_f
  ac_geom_rate :: opt_f
  ac_geom_delta :: opt_f
  ac_nav_alt_mcp :: opt_f
  ac_nav_alt_fms :: opt_f
  ac_nav_qnh :: opt_f
  ac_nav_heading :: opt_f
  ac_nav_modes :: opt_f
  ac_nac_v :: opt_f

record aircraft = aircraft_opts +
  ac_acc_us :: int
  ac_nac_p :: nat
  ac_sil :: nat
  ac_sil_type :: nat
  ac_nic_baro :: bool
  ac_ops_us :: int
  ac_version :: nat
  ac_nic_a :: bool
  ac_nic_c :: bool
  ac_gva :: nat
  ac_sda :: nat
  ac_sda_valid :: bool
  ac_gva_valid :: bool
  ac_cc_acas :: bool
  ac_nic :: nat
  ac_sig :: u8
  ac_msg_count :: int
  ac_last_seen_us :: int
  ac_cpr_even :: cpr_frame
  ac_cpr_odd :: cpr_frame
  ac_category :: plane_cat_t
  ac_active :: bool

definition opt_none :: opt_f where
  "opt_none = \<lparr>o_us = 0, o_v = 0, o_es = False\<rparr>"

definition cpr_frame_none :: cpr_frame where
  "cpr_frame_none = \<lparr>cf_raw_lat = 0, cf_raw_lon = 0, cf_ts_us = 0, cf_surface = False, cf_valid = False\<rparr>"

text \<open>\<open>memset(a, 0, sizeof(aircraft_t))\<close>\<close>

definition aircraft_zero :: aircraft where
  "aircraft_zero = \<lparr>ac_icao = 0, ac_callsign = [], ac_cs_adsb_us = 0, ac_altitude = 0, ac_alt_geom = False,
     ac_on_ground = False, ac_velocity = 0, ac_heading = 0, ac_vel_us = 0, ac_lat = 0, ac_lon = 0,
     ac_pos_valid = False, ac_pos_us = 0, ac_pos_rejects = 0, ac_dist_km = 0, ac_brg_deg = 0, ac_rng_valid = False,
     ac_ew_velocity = 0, ac_ns_velocity = 0, ac_vert_rate = 0, ac_squawk = 0, ac_emergency = 0, ac_emitter = 0,
     ac_alert = False, ac_spi = False, ac_status_us = 0, ac_ra_active = False, ac_ra_us = 0, ac_ra_text = [],
     ac_ias = opt_none, ac_tas = opt_none, ac_mach = opt_none, ac_roll = opt_none, ac_track_rate = opt_none,
     ac_mag_heading = opt_none, ac_baro_rate = opt_none, ac_geom_rate = opt_none, ac_geom_delta = opt_none,
     ac_nav_alt_mcp = opt_none, ac_nav_alt_fms = opt_none, ac_nav_qnh = opt_none, ac_nav_heading = opt_none,
     ac_nav_modes = opt_none, ac_nac_v = opt_none, ac_acc_us = 0, ac_nac_p = 0, ac_sil = 0, ac_sil_type = 0,
     ac_nic_baro = False, ac_ops_us = 0, ac_version = 0, ac_nic_a = False, ac_nic_c = False, ac_gva = 0, ac_sda = 0,
     ac_sda_valid = False, ac_gva_valid = False, ac_cc_acas = False, ac_nic = 0, ac_sig = 0, ac_msg_count = 0,
     ac_last_seen_us = 0, ac_cpr_even = cpr_frame_none, ac_cpr_odd = cpr_frame_none, ac_category = PLANE_UNKNOWN,
     ac_active = False\<rparr>"

section \<open>The tracker's state\<close>

datatype audio_evt = AUDIO_NEW_CONTACT | AUDIO_LOST_CONTACT | AUDIO_POSITION

datatype air_event = Air_log nat string u32 | Audio audio_evt

record rx_pos =
  rp_lat :: rat
  rp_lon :: rat
  rp_valid :: bool

record tracker =
  tr_aircraft :: "aircraft list"
  tr_msg_count :: int
  tr_msg_bucket :: int
  tr_msg_rate :: int
  tr_dec_pct :: rat
  tr_fix_pct :: rat
  tr_max_range_km :: rat
  tr_tick_us :: int
  tr_tick_ok :: u32
  tr_tick_bad :: u32
  tr_tick_fix :: u32
  tr_pos :: rx_pos
  tr_pos_cfg :: rx_pos
  tr_avr :: feed
  tr_beast :: feed
  tr_events :: "air_event list"

record geo =
  cosf_fn :: "rat \<Rightarrow> rat"
  atan2f_fn :: "rat \<Rightarrow> rat \<Rightarrow> rat"
  sqrtf_fn :: "rat \<Rightarrow> rat"

definition tr_event :: "air_event \<Rightarrow> tracker \<Rightarrow> tracker" where
  "tr_event e t = t\<lparr>tr_events := tr_events t @ [e]\<rparr>"

definition set_row :: "nat \<Rightarrow> aircraft \<Rightarrow> tracker \<Rightarrow> tracker" where
  "set_row i a t = t\<lparr>tr_aircraft := (tr_aircraft t)[i := a]\<rparr>"

text \<open>The loop returns the live row of the address, and otherwise the first free row.\<close>

definition find_row :: "u32 \<Rightarrow> aircraft list \<Rightarrow> nat option" where
  "find_row icao as = find (\<lambda>i. ac_active (as ! i) \<and> ac_icao (as ! i) = icao) [0..<MAX_TRACKED]"

definition empty_row :: "aircraft list \<Rightarrow> nat option" where
  "empty_row as = find (\<lambda>i. \<not> ac_active (as ! i)) [0..<MAX_TRACKED]"

definition find_or_create :: "u32 \<Rightarrow> tracker \<Rightarrow> nat option \<times> tracker" where
  "find_or_create icao t =
     (case find_row icao (tr_aircraft t) of
        Some i \<Rightarrow> (Some i, t)
      | None \<Rightarrow>
          case empty_row (tr_aircraft t) of
            None \<Rightarrow> (None, t)
          | Some i \<Rightarrow>
              (Some i, tr_event (Audio AUDIO_NEW_CONTACT) (tr_event (Air_log 1 ''CONTACT'' icao)
                 (set_row i (aircraft_zero\<lparr>ac_icao := icao, ac_active := True,
                    ac_category := plane_classify icao None 0\<rparr>) t))))"

section \<open>Range and position\<close>

definition flat_dx :: "geo \<Rightarrow> rat \<Rightarrow> rat \<Rightarrow> rat \<Rightarrow> rat" where
  "flat_dx g lat0 lon0 lon1 =
     flt (flt (flt (lon1 - lon0) * flt (111.32)) * cosf_fn g (flt (flt (lat0 * flt M_PI) / 180)))"

definition flat_dy :: "rat \<Rightarrow> rat \<Rightarrow> rat" where
  "flat_dy lat0 lat1 = flt (flt (lat1 - lat0) * flt (111.32))"

definition flat_dist_km :: "geo \<Rightarrow> rat \<Rightarrow> rat \<Rightarrow> rat \<Rightarrow> rat \<Rightarrow> rat" where
  "flat_dist_km g lat0 lon0 lat1 lon1 =
     (let dy = flat_dy lat0 lat1; dx = flat_dx g lat0 lon0 lon1
      in sqrtf_fn g (flt (flt (dx * dx) + flt (dy * dy))))"

definition flat_bearing :: "geo \<Rightarrow> rat \<Rightarrow> rat \<Rightarrow> rat \<Rightarrow> rat \<Rightarrow> rat" where
  "flat_bearing g lat0 lon0 lat1 lon1 =
     (let b = flt (flt (atan2f_fn g (flat_dx g lat0 lon0 lon1) (flat_dy lat0 lat1) * 180) / flt M_PI)
      in if b < 0 then flt (b + 360) else b)"

definition update_range :: "geo \<Rightarrow> rx_pos \<Rightarrow> aircraft \<Rightarrow> aircraft" where
  "update_range g pos a =
     (let a = a\<lparr>ac_rng_valid := ac_pos_valid a \<and> rp_valid pos\<rparr>
      in if \<not> ac_rng_valid a then a
         else a\<lparr>ac_dist_km := flat_dist_km g (rp_lat pos) (rp_lon pos) (ac_lat a) (ac_lon a),
                ac_brg_deg := flat_bearing g (rp_lat pos) (rp_lon pos) (ac_lat a) (ac_lon a)\<rparr>)"

definition pos_apply :: "geo \<Rightarrow> tracker \<Rightarrow> tracker" where
  "pos_apply g t =
     t\<lparr>tr_pos := tr_pos_cfg t, tr_max_range_km := 0,
       tr_aircraft := map (\<lambda>a. if ac_active a then update_range g (tr_pos_cfg t) a else a) (tr_aircraft t)\<rparr>"

definition POS_REF_MAX_AGE_US :: int where
  "POS_REF_MAX_AGE_US = 10 * 60 * 1000000"

definition POS_PAIR_MAX_DT_US :: int where
  "POS_PAIR_MAX_DT_US = 10 * 1000000"

definition POS_REF_MAX_KM :: rat where
  "POS_REF_MAX_KM = 185"

definition decode_pair :: "rx_pos \<Rightarrow> aircraft \<Rightarrow> bool \<Rightarrow> cpr_result" where
  "decode_pair pos a surface =
     (let e = ac_cpr_even a; od = ac_cpr_odd a; odd_latest = cf_ts_us e \<le> cf_ts_us od
      in if \<not> surface
         then cpr_decode_airborne (cf_raw_lat e) (cf_raw_lon e) (cf_raw_lat od) (cf_raw_lon od) odd_latest
         else if rp_valid pos
         then cpr_decode_surface (rp_lat pos) (rp_lon pos) (cf_raw_lat e) (cf_raw_lon e) (cf_raw_lat od) (cf_raw_lon od) odd_latest
         else if ac_pos_valid a
         then cpr_decode_surface (ac_lat a) (ac_lon a) (cf_raw_lat e) (cf_raw_lon e) (cf_raw_lat od) (cf_raw_lon od) odd_latest
         else Inl (-1))"

definition decode_single :: "geo \<Rightarrow> aircraft \<Rightarrow> mode_s_msg \<Rightarrow> int \<Rightarrow> (rat \<times> rat) option" where
  "decode_single g a mm now =
     (if ac_pos_valid a \<and> now - ac_pos_us a < POS_REF_MAX_AGE_US
      then case cpr_decode_relative (ac_lat a) (ac_lon a) (int (raw_latitude mm)) (int (raw_longitude mm))
                  (fflag mm) (cpr_surface mm) of
             Inl _ \<Rightarrow> None
           | Inr (lat, lon) \<Rightarrow>
               if flat_dist_km g (ac_lat a) (ac_lon a) (flt lat) (flt lon) \<le> POS_REF_MAX_KM then Some (lat, lon) else None
      else None)"

definition decode_position :: "geo \<Rightarrow> rx_pos \<Rightarrow> aircraft \<Rightarrow> mode_s_msg \<Rightarrow> int \<Rightarrow> (rat \<times> rat) option" where
  "decode_position g pos a mm now =
     (let e = ac_cpr_even a; od = ac_cpr_odd a; dt = cf_ts_us e - cf_ts_us od; dt = (if dt < 0 then - dt else dt)
      in if cf_valid e \<and> cf_valid od \<and> cf_surface e = cf_surface od \<and> dt \<le> POS_PAIR_MAX_DT_US
         then case decode_pair pos a (cpr_surface mm) of
                Inr p \<Rightarrow> Some p
              | Inl _ \<Rightarrow> decode_single g a mm now
         else decode_single g a mm now)"

definition max_jump_km :: "int \<Rightarrow> rat" where
  "max_jump_km dt = (let dt_s = flt (flt (of_int dt) / 1000000); m = flt (2 + flt (dt_s / 2))
     in if POS_REF_MAX_KM < m then POS_REF_MAX_KM else m)"

definition position_plausible :: "geo \<Rightarrow> aircraft \<Rightarrow> rat \<Rightarrow> rat \<Rightarrow> int \<Rightarrow> bool \<times> aircraft" where
  "position_plausible g a lat lon now =
     (if \<not> ac_pos_valid a \<or> POS_REF_MAX_AGE_US \<le> now - ac_pos_us a then (True, a)
      else if flat_dist_km g (ac_lat a) (ac_lon a) (flt lat) (flt lon) \<le> max_jump_km (now - ac_pos_us a)
      then (True, a\<lparr>ac_pos_rejects := 0\<rparr>)
      else let a = a\<lparr>ac_pos_rejects := ac_pos_rejects a + 1\<rparr>
           in if ac_pos_rejects a < 3 then (False, a) else (True, a\<lparr>ac_pos_rejects := 0\<rparr>))"

section \<open>The message callback, stage by stage\<close>

definition opt_set :: "int \<Rightarrow> rat \<Rightarrow> bool \<Rightarrow> opt_f \<Rightarrow> opt_f" where
  "opt_set now v es o1 = (if \<not> es \<and> o_es o1 \<and> fresh_at (o_us o1) now then o1 else \<lparr>o_us = now, o_v = v, o_es = es\<rparr>)"

text \<open>
  The blanks are dropped from the eighth character down; a shorter string ends in the zeros
  \<open>strncpy\<close> pads it with, which stop the loop at once.
\<close>

definition trim_callsign :: "string \<Rightarrow> string" where
  "trim_callsign s = (if length s < 8 then s else rev (dropWhile (\<lambda>c. c = CHR '' '') (rev (take 8 s))))"

definition msg_icao :: "mode_s_msg \<Rightarrow> u32" where
  "msg_icao mm = push_bit 16 (ucast (aa1 mm)) OR push_bit 8 (ucast (aa2 mm)) OR ucast (aa3 mm)"

text \<open>A stage maps an aircraft to itself updated and the events it logs.\<close>

type_synonym stage = "aircraft \<Rightarrow> aircraft \<times> air_event list"

definition msg_callsign :: "mode_s_msg \<Rightarrow> int \<Rightarrow> stage" where
  "msg_callsign mm now a =
     (if flight mm \<noteq> [] \<and> (commb_bds mm \<noteq> 0x20 \<or> \<not> fresh_at (ac_cs_adsb_us a) now)
      then let cs = trim_callsign (flight mm);
               a = (if commb_bds mm \<noteq> 0x20 then a\<lparr>ac_cs_adsb_us := now, ac_emitter := of_nat (category mm)\<rparr> else a)
           in if cs \<noteq> ac_callsign a
              then (a\<lparr>ac_callsign := cs, ac_category := plane_classify (msg_icao mm) (Some cs) (ac_emitter a)\<rparr>,
                    [Air_log 2 ''IDENT'' (msg_icao mm)])
              else (a, [])
      else (a, []))"

definition msg_squawk :: "mode_s_msg \<Rightarrow> stage" where
  "msg_squawk mm a =
     (if squawk_valid mm \<and> identity mm \<noteq> 0
      then (a\<lparr>ac_squawk := int (identity mm)\<rparr>,
            if ac_squawk a \<noteq> int (identity mm)
            then [Air_log (if identity mm = 7500 \<or> identity mm = 7600 \<or> identity mm = 7700 then 4 else 2)
                    ''SQUAWK'' (msg_icao mm)]
            else [])
      else (a, []))"

definition msg_emergency :: "mode_s_msg \<Rightarrow> stage" where
  "msg_emergency mm a =
     (if emergency_valid mm \<and> ac_emergency a \<noteq> emergency mm
      then (a\<lparr>ac_emergency := emergency mm\<rparr>,
            if emergency mm \<noteq> 0 \<or> ac_emergency a \<noteq> 0
            then [Air_log (if emergency mm \<noteq> 0 then 4 else 2) ''EMERG'' (msg_icao mm)] else [])
      else (a, []))"

definition last_cpr_us :: "aircraft \<Rightarrow> int" where
  "last_cpr_us a =
     (let l = (if cf_valid (ac_cpr_even a) then cf_ts_us (ac_cpr_even a) else 0)
      in if cf_valid (ac_cpr_odd a) \<and> l < cf_ts_us (ac_cpr_odd a) then cf_ts_us (ac_cpr_odd a) else l)"

definition msg_airground :: "mode_s_msg \<Rightarrow> stage" where
  "msg_airground mm a =
     (if cpr_valid mm then (a\<lparr>ac_on_ground := cpr_surface mm\<rparr>, [])
      else if airground mm \<noteq> 0 \<and> 20000000 < ac_last_seen_us a - last_cpr_us a
      then (a\<lparr>ac_on_ground := (airground mm = 1)\<rparr>, [])
      else (a, []))"

definition msg_status :: "mode_s_msg \<Rightarrow> int \<Rightarrow> stage" where
  "msg_status mm now a =
     (if alert_valid mm \<or> spi_valid mm
      then let a1 = (if alert_valid mm then a\<lparr>ac_alert := alert mm\<rparr> else a);
               a2 = (if spi_valid mm then a1\<lparr>ac_spi := spi mm\<rparr> else a1)
           in (a2\<lparr>ac_status_us := now\<rparr>,
               if spi_valid mm \<and> spi mm \<and> \<not> ac_spi a then [Air_log 2 ''SPI'' (msg_icao mm)] else [])
      else (a, []))"

definition msg_acas :: "mode_s_msg \<Rightarrow> stage" where
  "msg_acas mm a =
     (if acas_ra_valid mm
      then let text = mode_s_acas_ra_text (drop 4 (mm_msg mm)) 48; ended = bit (mm_msg mm ! 7) 5
           in (a\<lparr>ac_ra_text := text, ac_ra_active := \<not> ended, ac_ra_us := ac_last_seen_us a\<rparr>,
               if text \<noteq> ac_ra_text a then [Air_log (if ended then 2 else 4) ''RA'' (msg_icao mm)] else [])
      else (a, []))"

definition msg_altitude :: "mode_s_msg \<Rightarrow> stage" where
  "msg_altitude mm a =
     (if altitude mm \<noteq> 0 then (a\<lparr>ac_altitude := altitude mm, ac_alt_geom := alt_geom mm\<rparr>, []) else (a, []))"

definition msg_velocity :: "mode_s_msg \<Rightarrow> int \<Rightarrow> stage" where
  "msg_velocity mm now a =
     (let commb_vel = (commb_bds mm = 0x50)
      in if \<not> commb_vel \<or> \<not> fresh_at (ac_vel_us a) now
         then let a = (if heading_is_valid mm then a\<lparr>ac_heading := heading mm\<rparr> else a);
                  a = (if gs_valid mm
                       then a\<lparr>ac_velocity := velocity mm,
                              ac_ew_velocity := (if ew_dir mm then - ew_velocity mm else ew_velocity mm),
                              ac_ns_velocity := (if ns_dir mm then - ns_velocity mm else ns_velocity mm),
                              ac_vel_us := (if commb_vel then ac_vel_us a else now)\<rparr>
                       else a)
              in (a, [])
         else (a, []))"

definition msg_rates :: "mode_s_msg \<Rightarrow> int \<Rightarrow> stage" where
  "msg_rates mm now a =
     (let es = (msgtype mm = 17);
          a = (if baro_rate_valid mm
               then a\<lparr>ac_vert_rate := baro_rate mm, ac_baro_rate := opt_set now (flt (of_int (baro_rate mm))) es (ac_baro_rate a)\<rparr>
               else a);
          a = (if geom_rate_valid mm
               then a\<lparr>ac_vert_rate := geom_rate mm, ac_geom_rate := opt_set now (flt (of_int (geom_rate mm))) es (ac_geom_rate a)\<rparr>
               else a)
      in (a, []))"

definition msg_speeds_opts :: "mode_s_msg \<Rightarrow> int \<Rightarrow> stage" where
  "msg_speeds_opts mm now a =
     (let es = (msgtype mm = 17);
          a = (if ias_valid mm then a\<lparr>ac_ias := opt_set now (flt (of_int (ias mm))) es (ac_ias a)\<rparr> else a);
          a = (if tas_valid mm then a\<lparr>ac_tas := opt_set now (flt (of_int (tas mm))) es (ac_tas a)\<rparr> else a);
          a = (if mach_valid mm then a\<lparr>ac_mach := opt_set now (mach mm) es (ac_mach a)\<rparr> else a);
          a = (if roll_valid mm then a\<lparr>ac_roll := opt_set now (roll mm) es (ac_roll a)\<rparr> else a);
          a = (if track_rate_valid mm then a\<lparr>ac_track_rate := opt_set now (track_rate mm) es (ac_track_rate a)\<rparr> else a);
          a = (if mag_heading_valid mm then a\<lparr>ac_mag_heading := opt_set now (mag_heading mm) es (ac_mag_heading a)\<rparr> else a);
          a = (if geom_delta_valid mm then a\<lparr>ac_geom_delta := opt_set now (flt (of_int (geom_delta mm))) es (ac_geom_delta a)\<rparr> else a)
      in (a, []))"

definition msg_nav_opts :: "mode_s_msg \<Rightarrow> int \<Rightarrow> stage" where
  "msg_nav_opts mm now a =
     (let es = (msgtype mm = 17); have_nav = (\<lambda>b. nav_have mm AND b \<noteq> 0);
          a = (if have_nav NAV_HAVE_MCP then a\<lparr>ac_nav_alt_mcp := opt_set now (flt (of_int (nav_alt_mcp mm))) es (ac_nav_alt_mcp a)\<rparr> else a);
          a = (if have_nav NAV_HAVE_FMS then a\<lparr>ac_nav_alt_fms := opt_set now (flt (of_int (nav_alt_fms mm))) es (ac_nav_alt_fms a)\<rparr> else a);
          a = (if have_nav NAV_HAVE_QNH then a\<lparr>ac_nav_qnh := opt_set now (nav_qnh mm) es (ac_nav_qnh a)\<rparr> else a);
          a = (if have_nav NAV_HAVE_HEADING then a\<lparr>ac_nav_heading := opt_set now (nav_heading mm) es (ac_nav_heading a)\<rparr> else a);
          a = (if have_nav NAV_HAVE_MODES then a\<lparr>ac_nav_modes := opt_set now (flt (of_nat (unat (nav_modes mm)))) es (ac_nav_modes a)\<rparr> else a);
          a = (if nac_v_valid mm then a\<lparr>ac_nac_v := opt_set now (flt (of_nat (nac_v mm))) es (ac_nac_v a)\<rparr> else a)
      in (a, []))"

definition msg_accuracy_fields :: "mode_s_msg \<Rightarrow> int \<Rightarrow> stage" where
  "msg_accuracy_fields mm now a =
     (if nac_p_valid mm
      then (a\<lparr>ac_acc_us := now, ac_nac_p := nac_p mm, ac_sil := sil mm,
             ac_sil_type := (if sil_type mm \<noteq> 0 then sil_type mm else ac_sil_type a),
             ac_nic_baro := (if nic_baro_valid mm then nic_baro mm else ac_nic_baro a)\<rparr>, [])
      else (a, []))"

definition msg_opstatus :: "mode_s_msg \<Rightarrow> int \<Rightarrow> stage" where
  "msg_opstatus mm now a =
     (if opstatus_valid mm
      then (a\<lparr>ac_ops_us := now, ac_version := version mm, ac_nic_a := nic_a mm, ac_nic_c := nic_c mm,
             ac_cc_acas := cc_acas mm, ac_gva_valid := gva_valid mm, ac_gva := gva mm,
             ac_sda_valid := sda_valid mm, ac_sda := sda mm\<rparr>, [])
      else (a, []))"

definition store_cpr :: "mode_s_msg \<Rightarrow> int \<Rightarrow> aircraft \<Rightarrow> aircraft" where
  "store_cpr mm ts a =
     (let f = \<lparr>cf_raw_lat = int (raw_latitude mm), cf_raw_lon = int (raw_longitude mm), cf_ts_us = ts,
               cf_surface = cpr_surface mm, cf_valid = True\<rparr>
      in if fflag mm then a\<lparr>ac_cpr_odd := f\<rparr> else a\<lparr>ac_cpr_even := f\<rparr>)"

definition accept_position :: "geo \<Rightarrow> rx_pos \<Rightarrow> mode_s_msg \<Rightarrow> int \<Rightarrow> rat \<times> rat \<Rightarrow> aircraft \<Rightarrow> aircraft" where
  "accept_position g pos mm ts p a =
     (let a = a\<lparr>ac_lat := flt (fst p), ac_lon := flt (snd p), ac_pos_valid := True, ac_pos_us := ts\<rparr>;
          ops = fresh_at (ac_ops_us a) ts;
          a = a\<lparr>ac_nic := mode_s_nic (metype mm) (if ops then ac_version a else 0) (ops \<and> ac_nic_a a)
                  (nic_b_valid mm \<and> nic_b mm) (ops \<and> ac_nic_c a)\<rparr>
      in update_range g pos a)"

text \<open>The position stage also moves the largest range heard, its third component.\<close>

definition msg_position :: "geo \<Rightarrow> rx_pos \<Rightarrow> mode_s_msg \<Rightarrow> int \<Rightarrow> rat \<Rightarrow> aircraft \<Rightarrow> (aircraft \<times> air_event list) \<times> rat" where
  "msg_position g pos mm ts max_range a =
     (if cpr_valid mm
      then let a = store_cpr mm ts a; was_valid = ac_pos_valid a
           in case decode_position g pos a mm ts of
                None \<Rightarrow> ((a, []), max_range)
              | Some p \<Rightarrow>
                  case position_plausible g a (fst p) (snd p) ts of
                    (False, a) \<Rightarrow> ((a, []), max_range)
                  | (True, a) \<Rightarrow>
                      let a = accept_position g pos mm ts p a
                      in ((a, if \<not> was_valid then [Air_log 3 ''FIX'' (msg_icao mm), Audio AUDIO_POSITION] else []),
                          if ac_rng_valid a \<and> max_range < ac_dist_km a \<and> ac_dist_km a < 600 then ac_dist_km a else max_range)
      else ((a, []), max_range))"

definition msg_report :: "mode_s_msg \<Rightarrow> air_event list" where
  "msg_report mm =
     (if msgtype mm = 17
      then if altitude mm \<noteq> 0 then [Air_log 0 ''ALT'' (msg_icao mm)]
           else if cpr_surface mm \<and> gs_valid mm then [Air_log 0 ''GND'' (msg_icao mm)]
           else if metype mm = 19 \<and> gs_valid mm then [Air_log 0 ''VEL'' (msg_icao mm)]
           else if metype mm = 19 \<and> (ias_valid mm \<or> tas_valid mm) then [Air_log 0 ''VEL'' (msg_icao mm)]
           else []
      else if 0x40 \<le> commb_bds mm then [Air_log 0 ''BDS'' (msg_icao mm)] else [])"

text \<open>The stages up to the position, in the order of the code.\<close>

definition then_stage :: "aircraft \<times> air_event list \<Rightarrow> stage \<Rightarrow> aircraft \<times> air_event list" where
  "then_stage ae st = (case st (fst ae) of (a, es) \<Rightarrow> (a, snd ae @ es))"

definition msg_stages :: "mode_s_msg \<Rightarrow> int \<Rightarrow> stage list" where
  "msg_stages mm now =
     [msg_callsign mm now, msg_squawk mm, msg_emergency mm, msg_airground mm, msg_status mm now, msg_acas mm,
      msg_altitude mm, msg_velocity mm now, msg_rates mm now, msg_speeds_opts mm now, msg_nav_opts mm now,
      msg_accuracy_fields mm now, msg_opstatus mm now]"

definition touch :: "mode_s_msg \<Rightarrow> int \<Rightarrow> aircraft \<Rightarrow> aircraft" where
  "touch mm now a = a\<lparr>ac_last_seen_us := now, ac_msg_count := ac_msg_count a + 1, ac_sig := of_nat (signal_level mm)\<rparr>"

definition update_row :: "geo \<Rightarrow> mode_s_msg \<Rightarrow> int \<Rightarrow> int \<Rightarrow> nat \<Rightarrow> tracker \<Rightarrow> tracker" where
  "update_row g mm now ts i t =
     (let (a, es) = foldl then_stage (touch mm now (tr_aircraft t ! i), []) (msg_stages mm now);
          ((a, es'), max_range) = msg_position g (tr_pos t) mm ts (tr_max_range_km t) a
      in (set_row i a t)\<lparr>tr_max_range_km := max_range, tr_events := tr_events t @ es @ es' @ msg_report mm\<rparr>)"

text \<open>\<open>now\<close> is the time read when the row is touched, \<open>ts\<close> the one read for the position.\<close>

definition on_msg :: "geo \<Rightarrow> int \<Rightarrow> int \<Rightarrow> mode_s_msg \<Rightarrow> tracker \<Rightarrow> tracker" where
  "on_msg g now ts mm t =
     (let t = t\<lparr>tr_msg_count := tr_msg_count t + 1, tr_msg_bucket := tr_msg_bucket t + 1\<rparr>
      in if \<not> crcok mm then t
         else
           let t = t\<lparr>tr_avr := feed_avr_push (mm_msg mm) (int (msgbits mm)) (tr_avr t),
                     tr_beast := feed_beast_push (mm_msg mm) (int (msgbits mm)) (timestamp_12mhz mm)
                                   (int (signal_level mm)) (tr_beast t)\<rparr>
           in if msgtype mm = 18 then t
              else case find_or_create (msg_icao mm) t of
                     (None, t) \<Rightarrow> t
                   | (Some i, t) \<Rightarrow> update_row g mm now ts i t)"

section \<open>Synthetic contacts\<close>

definition FAKE :: "(u32 \<times> string) list" where
  "FAKE = [(0x4CA1FA, ''RYR1234''), (0xAE1234, ''RCH567''), (0xA12345, ''N172SP''), (0x780ABC, [])]"

text \<open>The contact's place around the antenna, on a circle of 20 to 189 km.\<close>

definition fake_place :: "(rat \<Rightarrow> rat) \<Rightarrow> geo \<Rightarrow> rx_pos \<Rightarrow> nat \<Rightarrow> nat \<Rightarrow> aircraft \<Rightarrow> aircraft" where
  "fake_place sinf g pos n circle a =
     (if \<not> rp_valid pos then a
      else let ang = flt (flt (flt (of_nat (n * 90 + circle * 17)) * flt M_PI) / 180);
               km = flt (20 + of_nat ((circle * 37) mod 170));
               lat = flt (rp_lat pos + flt (flt (km * cosf_fn g ang) / flt 111.32));
               lon = flt (rp_lon pos + flt (flt (km * sinf ang) /
                       flt (flt 111.32 * cosf_fn g (flt (flt (rp_lat pos * flt M_PI) / 180)))))
           in update_range g pos (a\<lparr>ac_lat := lat, ac_lon := lon, ac_pos_valid := True\<rparr>))"

text \<open>\<open>seq\<close> counts key presses: it is taken not to reach the values at which its products leave an \<open>int\<close>.\<close>

definition fake_values :: "nat \<Rightarrow> aircraft \<Rightarrow> aircraft" where
  "fake_values seq a =
     (let oct = (seq * 2467) mod 4096
      in a\<lparr>ac_altitude := 3000 + int ((seq * 2500) mod 36000), ac_velocity := 180 + int ((seq * 37) mod 320),
           ac_heading := int ((seq * 53) mod 360), ac_vert_rate := - 1600 + int ((seq * 448) mod 3200),
           ac_squawk := (if seq mod 4 = 1 \<and> seq div 4 = 1 then 7700
                         else int ((oct div 512) mod 8 * 1000 + (oct div 64) mod 8 * 100 + (oct div 8) mod 8 * 10 + oct mod 8)),
           ac_sig := of_nat (40 + (seq * 61) mod 200)\<rparr>)"

text \<open>The contact of number \<open>seq\<close>, and whether the table had a row for it.\<close>

definition inject_row :: "(rat \<Rightarrow> rat) \<Rightarrow> geo \<Rightarrow> int \<Rightarrow> nat \<Rightarrow> tracker \<Rightarrow> bool \<times> tracker" where
  "inject_row sinf g now seq t =
     (let n = seq mod 4; circle = seq div 4; (icao, callsign) = FAKE ! n
      in case find_or_create icao t of
           (None, t) \<Rightarrow> (False, t)
         | (Some i, t) \<Rightarrow>
             let a = tr_aircraft t ! i;
                 a = a\<lparr>ac_last_seen_us := now, ac_msg_count := ac_msg_count a + 1\<rparr>;
                 a = (if callsign \<noteq> [] then a\<lparr>ac_callsign := callsign\<rparr> else a);
                 a = a\<lparr>ac_category := plane_classify (ac_icao a) (Some (ac_callsign a)) 0\<rparr>;
                 a = fake_values seq (fake_place sinf g (tr_pos t) n circle a)
             in (True, tr_event (Air_log 3 ''FAKE'' (ac_icao a)) (set_row i a t)))"

section \<open>The tick\<close>

definition expire_flags :: "int \<Rightarrow> aircraft \<Rightarrow> aircraft" where
  "expire_flags now a =
     (let a = (if (ac_alert a \<or> ac_spi a) \<and> 30000000 < now - ac_status_us a then a\<lparr>ac_alert := False, ac_spi := False\<rparr> else a)
      in if ac_ra_us a \<noteq> 0 \<and> 15000000 < now - ac_ra_us a
         then a\<lparr>ac_ra_active := False, ac_ra_text := [], ac_ra_us := 0\<rparr> else a)"

definition CONTACT_TTL_US :: int where
  "CONTACT_TTL_US = 60000000"

definition tick_row :: "int \<Rightarrow> nat \<Rightarrow> tracker \<Rightarrow> tracker" where
  "tick_row now i t =
     (let a = tr_aircraft t ! i
      in if \<not> ac_active a then t
         else let a = expire_flags now a
              in if now - ac_last_seen_us a \<le> CONTACT_TTL_US then set_row i a t
                 else tr_event (Audio AUDIO_LOST_CONTACT) (tr_event (Air_log 4 ''LOST'' (ac_icao a))
                        (set_row i (a\<lparr>ac_active := False\<rparr>) t)))"

definition close_rates :: "u32 \<Rightarrow> u32 \<Rightarrow> u32 \<Rightarrow> tracker \<Rightarrow> tracker" where
  "close_rates ok bad fixed t =
     (let d_ok = ok - tr_tick_ok t; d_bad = bad - tr_tick_bad t; d_fix = fixed - tr_tick_fix t;
          t = t\<lparr>tr_tick_ok := ok, tr_tick_bad := bad, tr_tick_fix := fixed\<rparr>;
          fl = (\<lambda>w :: u32. flt (of_nat (unat w)))
      in if d_ok + d_bad \<noteq> 0
         then let dec = flt (flt (100 * fl d_ok) / fl (d_ok + d_bad));
                  fx = (if d_ok \<noteq> 0 then flt (flt (100 * fl d_fix) / fl d_ok) else 0)
              in t\<lparr>tr_dec_pct := flt (tr_dec_pct t + flt (flt (dec - tr_dec_pct t) * flt (3 / 10))),
                   tr_fix_pct := flt (tr_fix_pct t + flt (flt (fx - tr_fix_pct t) * flt (3 / 10)))\<rparr>
         else t)"

definition tracker_tick :: "int \<Rightarrow> u32 \<Rightarrow> u32 \<Rightarrow> u32 \<Rightarrow> tracker \<Rightarrow> tracker" where
  "tracker_tick now ok bad fixed t =
     (if now - tr_tick_us t < 1000000 then t
      else let t = t\<lparr>tr_tick_us := now, tr_msg_rate := tr_msg_bucket t, tr_msg_bucket := 0\<rparr>;
               t = close_rates ok bad fixed t
           in fold (tick_row now) [0..<MAX_TRACKED] t)"

end
