(* ===== verification/TrackerProps.thy ===== *)
theory TrackerProps
  imports Tracker
begin

text \<open>
  What the aircraft table promises: one live row for each address, rows that expire when and only
  when they fall silent, and what becomes of an implausible position.
\<close>

section \<open>Stages keep the row's identity\<close>

definition same_row :: "aircraft \<Rightarrow> aircraft \<Rightarrow> bool" where
  "same_row a b \<longleftrightarrow> ac_icao a = ac_icao b \<and> ac_active a = ac_active b \<and> ac_last_seen_us a = ac_last_seen_us b \<and>
     ac_msg_count a = ac_msg_count b"

named_theorems stage_same \<open>stages that keep the identity of a row\<close>

lemma same_row_refl [simp]: "same_row a a"
  by (simp add: same_row_def)

lemma same_row_trans: "same_row a b \<Longrightarrow> same_row b c \<Longrightarrow> same_row a c"
  by (simp add: same_row_def)

lemma stages_same [stage_same]:
  "same_row (fst (msg_callsign mm now a)) a" "same_row (fst (msg_squawk mm a)) a"
  "same_row (fst (msg_emergency mm a)) a" "same_row (fst (msg_airground mm a)) a"
  "same_row (fst (msg_status mm now a)) a" "same_row (fst (msg_acas mm a)) a"
  "same_row (fst (msg_altitude mm a)) a" "same_row (fst (msg_velocity mm now a)) a"
  "same_row (fst (msg_rates mm now a)) a"
  "same_row (fst (msg_accuracy_fields mm now a)) a" "same_row (fst (msg_opstatus mm now a)) a"
  by (simp_all add: same_row_def msg_callsign_def msg_squawk_def msg_emergency_def msg_airground_def
      msg_status_def msg_acas_def msg_altitude_def msg_velocity_def msg_rates_def msg_accuracy_fields_def
      msg_opstatus_def Let_def)

lemma same_row_opts [simp]:
  "same_row (a\<lparr>ac_ias := v\<rparr>) b = same_row a b" "same_row (a\<lparr>ac_tas := v\<rparr>) b = same_row a b"
  "same_row (a\<lparr>ac_mach := v\<rparr>) b = same_row a b" "same_row (a\<lparr>ac_roll := v\<rparr>) b = same_row a b"
  "same_row (a\<lparr>ac_track_rate := v\<rparr>) b = same_row a b" "same_row (a\<lparr>ac_mag_heading := v\<rparr>) b = same_row a b"
  "same_row (a\<lparr>ac_geom_delta := v\<rparr>) b = same_row a b" "same_row (a\<lparr>ac_nav_alt_mcp := v\<rparr>) b = same_row a b"
  "same_row (a\<lparr>ac_nav_alt_fms := v\<rparr>) b = same_row a b" "same_row (a\<lparr>ac_nav_qnh := v\<rparr>) b = same_row a b"
  "same_row (a\<lparr>ac_nav_heading := v\<rparr>) b = same_row a b" "same_row (a\<lparr>ac_nav_modes := v\<rparr>) b = same_row a b"
  "same_row (a\<lparr>ac_nac_v := v\<rparr>) b = same_row a b"
  by (simp_all add: same_row_def)

text \<open>The chains of conditional updates are walked one \<open>let\<close> at a time.\<close>

lemma same_row_let:
  assumes "same_row e b" "\<And>x. same_row x b \<Longrightarrow> same_row (fst (f x)) b"
  shows "same_row (fst (Let e f)) b"
  using assms by (simp add: Let_def)

lemma same_row_let_any: "(\<And>x. same_row (fst (f x)) b) \<Longrightarrow> same_row (fst (Let e f)) b"
  by (simp add: Let_def)

lemma opts_same [stage_same]:
  "same_row (fst (msg_speeds_opts mm now a)) a" "same_row (fst (msg_nav_opts mm now a)) a"
  unfolding msg_speeds_opts_def msg_nav_opts_def
   apply (rule same_row_let_any, (rule same_row_let, simp)+, simp)
  apply (rule same_row_let_any, rule same_row_let_any, (rule same_row_let, simp)+, simp)
  done

lemma stages_fold_same:
  assumes "\<forall>st \<in> set sts. \<forall>a. same_row (fst (st a)) a"
  shows "same_row (fst (foldl then_stage ae sts)) (fst ae)"
  using assms
proof (induction sts arbitrary: ae)
  case (Cons st sts)
  have "fst (then_stage ae st) = fst (st (fst ae))" by (simp add: then_stage_def split_beta)
  then have "same_row (fst (then_stage ae st)) (fst ae)" using Cons.prems by simp
  moreover have "same_row (fst (foldl then_stage (then_stage ae st) sts)) (fst (then_stage ae st))"
    using Cons.prems by (intro Cons.IH) simp
  ultimately show ?case using same_row_trans by simp
qed simp

lemma msg_stages_same: "same_row (fst (foldl then_stage (a, es) (msg_stages mm now))) a"
  using stages_fold_same[of "msg_stages mm now" "(a, es)"] by (simp add: msg_stages_def stage_same)

lemma msg_position_same: "same_row (fst (fst (msg_position g pos mm ts r a))) a"
proof -
  have "same_row (store_cpr mm ts a) a" by (simp add: store_cpr_def same_row_def Let_def)
  moreover have "same_row (snd (position_plausible g b x y ts)) b" for b x y
    by (simp add: position_plausible_def same_row_def Let_def)
  moreover have "same_row (accept_position g pos mm ts p b) b" for p b
    by (simp add: accept_position_def update_range_def same_row_def Let_def)
  ultimately have st: "same_row (store_cpr mm ts a) a" and pl: "\<And>b x y. same_row (snd (position_plausible g b x y ts)) b"
    and ac: "\<And>p b. same_row (accept_position g pos mm ts p b) b" by blast+
  let ?a = "store_cpr mm ts a"
  show ?thesis
  proof (cases "decode_position g pos ?a mm ts")
    case None
    then show ?thesis using st by (simp add: msg_position_def Let_def)
  next
    case (Some p)
    obtain ok b where b: "position_plausible g ?a (fst p) (snd p) ts = (ok, b)" by fastforce
    have "same_row b a" using pl[of ?a "fst p" "snd p"] st same_row_trans by (simp add: b)
    moreover have "same_row (accept_position g pos mm ts p b) a" using ac calculation by (rule same_row_trans)
    ultimately show ?thesis using Some b by (cases ok) (simp_all add: msg_position_def Let_def)
  qed
qed

section \<open>One row for each address\<close>

definition table_ok :: "aircraft list \<Rightarrow> bool" where
  "table_ok as \<longleftrightarrow> length as = MAX_TRACKED \<and>
     (\<forall>i < MAX_TRACKED. \<forall>j < MAX_TRACKED. ac_active (as ! i) \<and> ac_active (as ! j) \<and> ac_icao (as ! i) = ac_icao (as ! j) \<longrightarrow> i = j)"

lemma table_ok_update:
  assumes "table_ok as" "i < MAX_TRACKED" "ac_active a \<Longrightarrow> ac_active (as ! i) \<and> ac_icao a = ac_icao (as ! i)"
  shows "table_ok (as[i := a])"
  using assms by (auto simp: table_ok_def nth_list_update)

lemma table_ok_same: "table_ok as \<Longrightarrow> i < MAX_TRACKED \<Longrightarrow> same_row a (as ! i) \<Longrightarrow> table_ok (as[i := a])"
  by (rule table_ok_update) (simp_all add: same_row_def)

lemma set_row_simps [simp]:
  "tr_aircraft (set_row i a t) = (tr_aircraft t)[i := a]" "tr_aircraft (tr_event e t) = tr_aircraft t"
  by (simp_all add: set_row_def tr_event_def)

lemma find_row_SomeD: "find_row icao as = Some i \<Longrightarrow> i < MAX_TRACKED \<and> ac_active (as ! i) \<and> ac_icao (as ! i) = icao"
  unfolding find_row_def by (blast dest: find_upt_SomeD)

lemma find_row_None: "find_row icao as = None \<longleftrightarrow> (\<forall>i < MAX_TRACKED. ac_active (as ! i) \<longrightarrow> ac_icao (as ! i) \<noteq> icao)"
  by (auto simp: find_row_def find_upt_None)

lemma empty_row_SomeD: "empty_row as = Some i \<Longrightarrow> i < MAX_TRACKED \<and> \<not> ac_active (as ! i)"
  unfolding empty_row_def by (blast dest: find_upt_SomeD)

lemma find_or_create_row:
  assumes "table_ok (tr_aircraft t)" "find_or_create icao t = (oi, t')"
  shows "table_ok (tr_aircraft t')"
    "\<And>i. oi = Some i \<Longrightarrow> i < MAX_TRACKED \<and> ac_active (tr_aircraft t' ! i) \<and> ac_icao (tr_aircraft t' ! i) = icao \<and>
      (\<forall>j. j \<noteq> i \<longrightarrow> tr_aircraft t' ! j = tr_aircraft t ! j)"
    "oi = None \<longleftrightarrow> find_row icao (tr_aircraft t) = None \<and> empty_row (tr_aircraft t) = None"
proof -
  have new: "table_ok ((tr_aircraft t)[i := a])"
    if "find_row icao (tr_aircraft t) = None" "empty_row (tr_aircraft t) = Some i" "ac_icao a = icao" for i and a :: aircraft
    using that assms(1) empty_row_SomeD[OF that(2)] by (auto simp: table_ok_def nth_list_update find_row_None)
  have len: "length (tr_aircraft t) = MAX_TRACKED" using assms(1) by (simp add: table_ok_def)
  show "table_ok (tr_aircraft t')"
    using assms new by (auto simp: find_or_create_def split: option.splits)
  show "oi = None \<longleftrightarrow> find_row icao (tr_aircraft t) = None \<and> empty_row (tr_aircraft t) = None"
    using assms(2) by (auto simp: find_or_create_def split: option.splits)
  show "i < MAX_TRACKED \<and> ac_active (tr_aircraft t' ! i) \<and> ac_icao (tr_aircraft t' ! i) = icao \<and>
      (\<forall>j. j \<noteq> i \<longrightarrow> tr_aircraft t' ! j = tr_aircraft t ! j)" if "oi = Some i" for i
    using assms(2) that len find_row_SomeD[of icao "tr_aircraft t" i] empty_row_SomeD[of "tr_aircraft t" i]
    by (auto simp: find_or_create_def split: option.splits)
qed

lemma update_row_table:
  fixes g mm now ts
  assumes "table_ok (tr_aircraft t)" "i < MAX_TRACKED"
  defines "t' \<equiv> update_row g mm now ts i t"
  shows "table_ok (tr_aircraft t')" "same_row (tr_aircraft t' ! i) (touch mm now (tr_aircraft t ! i))"
    "\<And>j. j \<noteq> i \<Longrightarrow> tr_aircraft t' ! j = tr_aircraft t ! j"
proof -
  let ?a0 = "touch mm now (tr_aircraft t ! i)"
  obtain a es where a: "foldl then_stage (?a0, []) (msg_stages mm now) = (a, es)" by fastforce
  obtain b es' r where b: "msg_position g (tr_pos t) mm ts (tr_max_range_km t) a = ((b, es'), r)" by (metis prod.collapse)
  have "same_row a ?a0" using msg_stages_same[of ?a0 "[]" mm now] by (simp add: a)
  moreover have "same_row b a" using msg_position_same[of g "tr_pos t" mm ts "tr_max_range_km t" a] by (simp add: b)
  ultimately have s: "same_row b ?a0" using same_row_trans by blast
  have t': "tr_aircraft t' = (tr_aircraft t)[i := b]" by (simp add: t'_def update_row_def a b)
  have len: "length (tr_aircraft t) = MAX_TRACKED" using assms(1) by (simp add: table_ok_def)
  show "table_ok (tr_aircraft t')" unfolding t'
    using s by (intro table_ok_update assms) (auto simp: same_row_def touch_def)
  show "same_row (tr_aircraft t' ! i) ?a0" using s len assms(2) by (simp add: t')
  show "tr_aircraft t' ! j = tr_aircraft t ! j" if "j \<noteq> i" for j using that by (simp add: t')
qed

lemma on_msg_row:
  assumes "table_ok (tr_aircraft t)"
  shows "table_ok (tr_aircraft (on_msg g now ts mm t))"
    and "crcok mm \<Longrightarrow> msgtype mm \<noteq> 18 \<Longrightarrow>
      find_row (msg_icao mm) (tr_aircraft t) \<noteq> None \<or> empty_row (tr_aircraft t) \<noteq> None \<Longrightarrow>
      \<exists>i < MAX_TRACKED. ac_active (tr_aircraft (on_msg g now ts mm t) ! i) \<and>
        ac_icao (tr_aircraft (on_msg g now ts mm t) ! i) = msg_icao mm \<and>
        ac_last_seen_us (tr_aircraft (on_msg g now ts mm t) ! i) = now \<and>
        (\<forall>j. j \<noteq> i \<longrightarrow> tr_aircraft (on_msg g now ts mm t) ! j = tr_aircraft t ! j)"
proof -
  let ?t = "t\<lparr>tr_msg_count := tr_msg_count t + 1, tr_msg_bucket := tr_msg_bucket t + 1,
    tr_avr := feed_avr_push (mm_msg mm) (int (msgbits mm)) (tr_avr t),
    tr_beast := feed_beast_push (mm_msg mm) (int (msgbits mm)) (timestamp_12mhz mm) (int (signal_level mm)) (tr_beast t)\<rparr>"
  obtain oi u where f: "find_or_create (msg_icao mm) ?t = (oi, u)" by fastforce
  have rows: "tr_aircraft ?t = tr_aircraft t" by simp
  note fc = find_or_create_row[of ?t "msg_icao mm" oi u, unfolded rows, OF assms f]
  have call: "on_msg g now ts mm t =
      (if \<not> crcok mm then t\<lparr>tr_msg_count := tr_msg_count t + 1, tr_msg_bucket := tr_msg_bucket t + 1\<rparr>
       else if msgtype mm = 18 then ?t else case oi of None \<Rightarrow> u | Some i \<Rightarrow> update_row g mm now ts i u)"
    using f by (auto simp: on_msg_def Let_def split: option.split)
  show "table_ok (tr_aircraft (on_msg g now ts mm t))"
    using assms fc(1) fc(2) update_row_table(1)[OF fc(1)] by (simp add: call split: option.split)
  show "\<exists>i < MAX_TRACKED. ac_active (tr_aircraft (on_msg g now ts mm t) ! i) \<and>
        ac_icao (tr_aircraft (on_msg g now ts mm t) ! i) = msg_icao mm \<and>
        ac_last_seen_us (tr_aircraft (on_msg g now ts mm t) ! i) = now \<and>
        (\<forall>j. j \<noteq> i \<longrightarrow> tr_aircraft (on_msg g now ts mm t) ! j = tr_aircraft t ! j)"
    if "crcok mm" "msgtype mm \<noteq> 18"
      "find_row (msg_icao mm) (tr_aircraft t) \<noteq> None \<or> empty_row (tr_aircraft t) \<noteq> None"
  proof -
    from that(3) fc(3) obtain i where i: "oi = Some i" by auto
    have "on_msg g now ts mm t = update_row g mm now ts i u" using that i by (simp add: call)
    then show ?thesis
      using fc(2)[OF i] update_row_table(2,3)[OF fc(1), where i = i and g = g and mm = mm and now = now and ts = ts] by (auto simp: same_row_def touch_def)
  qed
qed

section \<open>The tick\<close>

lemma expire_flags_same: "same_row (expire_flags now a) a"
  by (simp add: expire_flags_def same_row_def Let_def)

lemma tick_row_rows:
  assumes "length (tr_aircraft t) = MAX_TRACKED" "i < MAX_TRACKED"
  shows "length (tr_aircraft (tick_row now i t)) = MAX_TRACKED"
    "\<And>j. j \<noteq> i \<Longrightarrow> tr_aircraft (tick_row now i t) ! j = tr_aircraft t ! j"
    "ac_icao (tr_aircraft (tick_row now i t) ! i) = ac_icao (tr_aircraft t ! i)"
    "ac_active (tr_aircraft (tick_row now i t) ! i) \<longleftrightarrow>
       ac_active (tr_aircraft t ! i) \<and> now - ac_last_seen_us (tr_aircraft t ! i) \<le> CONTACT_TTL_US"
  using assms expire_flags_same[of now "tr_aircraft t ! i"]
  by (auto simp: tick_row_def Let_def same_row_def)

lemma tick_rows:
  fixes now
  assumes "length (tr_aircraft t) = MAX_TRACKED" "set is \<subseteq> {0..<MAX_TRACKED}" "distinct is"
  defines "t' \<equiv> fold (tick_row now) is t"
  shows "length (tr_aircraft t') = MAX_TRACKED \<and>
    (\<forall>j < MAX_TRACKED. ac_icao (tr_aircraft t' ! j) = ac_icao (tr_aircraft t ! j) \<and>
      (if j \<in> set is
       then ac_active (tr_aircraft t' ! j) \<longleftrightarrow>
         ac_active (tr_aircraft t ! j) \<and> now - ac_last_seen_us (tr_aircraft t ! j) \<le> CONTACT_TTL_US
       else tr_aircraft t' ! j = tr_aircraft t ! j))"
  using assms(1-3) unfolding t'_def
proof (induction "is" arbitrary: t)
  case (Cons i "is")
  have i: "i < MAX_TRACKED" using Cons.prems(2) by simp
  note r = tick_row_rows[OF Cons.prems(1) i, where now = now]
  have IH: "length (tr_aircraft (fold (tick_row now) is (tick_row now i t))) = MAX_TRACKED \<and>
    (\<forall>j < MAX_TRACKED. ac_icao (tr_aircraft (fold (tick_row now) is (tick_row now i t)) ! j) = ac_icao (tr_aircraft (tick_row now i t) ! j) \<and>
      (if j \<in> set is
       then ac_active (tr_aircraft (fold (tick_row now) is (tick_row now i t)) ! j) \<longleftrightarrow>
         ac_active (tr_aircraft (tick_row now i t) ! j) \<and> now - ac_last_seen_us (tr_aircraft (tick_row now i t) ! j) \<le> CONTACT_TTL_US
       else tr_aircraft (fold (tick_row now) is (tick_row now i t)) ! j = tr_aircraft (tick_row now i t) ! j))"
    using Cons.prems(2,3) by (intro Cons.IH r(1)) auto
  show ?case
  proof (intro conjI allI impI)
    fix j assume "j < MAX_TRACKED"
    with IH r Cons.prems(3) show "ac_icao (tr_aircraft (fold (tick_row now) (i # is) t) ! j) = ac_icao (tr_aircraft t ! j)"
      "if j \<in> set (i # is)
       then ac_active (tr_aircraft (fold (tick_row now) (i # is) t) ! j) \<longleftrightarrow>
         ac_active (tr_aircraft t ! j) \<and> now - ac_last_seen_us (tr_aircraft t ! j) \<le> CONTACT_TTL_US
       else tr_aircraft (fold (tick_row now) (i # is) t) ! j = tr_aircraft t ! j"
      by (cases "j = i"; simp)+
  qed (use IH in simp)
qed simp

lemma close_rates_rows [simp]: "tr_aircraft (close_rates ok bad fixed t) = tr_aircraft t"
  by (simp add: close_rates_def Let_def)

lemma tracker_tick_rows:
  assumes "length (tr_aircraft t) = MAX_TRACKED" "1000000 \<le> now - tr_tick_us t" "j < MAX_TRACKED"
  shows "length (tr_aircraft (tracker_tick now ok bad fixed t)) = MAX_TRACKED"
    "ac_icao (tr_aircraft (tracker_tick now ok bad fixed t) ! j) = ac_icao (tr_aircraft t ! j)"
    "ac_active (tr_aircraft (tracker_tick now ok bad fixed t) ! j) \<longleftrightarrow>
       ac_active (tr_aircraft t ! j) \<and> now - ac_last_seen_us (tr_aircraft t ! j) \<le> CONTACT_TTL_US"
  using tick_rows[of "close_rates ok bad fixed (t\<lparr>tr_tick_us := now, tr_msg_rate := tr_msg_bucket t, tr_msg_bucket := 0\<rparr>)"
      "[0..<MAX_TRACKED]" now] assms
  by (simp_all add: tracker_tick_def Let_def)

section \<open>Reachable tables\<close>

definition tracker_start :: "rx_pos \<Rightarrow> feed \<Rightarrow> feed \<Rightarrow> int \<Rightarrow> tracker" where
  "tracker_start pos avr beast now = \<lparr>tr_aircraft = replicate MAX_TRACKED aircraft_zero, tr_msg_count = 0, tr_msg_bucket = 0,
     tr_msg_rate = 0, tr_dec_pct = 0, tr_fix_pct = 0, tr_max_range_km = 0, tr_tick_us = now, tr_tick_ok = 0, tr_tick_bad = 0,
     tr_tick_fix = 0, tr_pos = pos, tr_pos_cfg = pos, tr_avr = avr, tr_beast = beast, tr_events = []\<rparr>"

text \<open>
  The writers of the table are messages, synthetic contacts, ticks and a change of the antenna position. Everything
  else that touches the tracker (the readers of the feeds and of the events, the start of the receive task, a
  position that waits to be applied) leaves the rows alone.
\<close>

inductive tracker_reach :: "geo \<Rightarrow> tracker \<Rightarrow> bool" for g where
  tr_start: "tracker_reach g (tracker_start pos avr beast now)"
| tr_msg: "tracker_reach g t \<Longrightarrow> tracker_reach g (on_msg g now ts mm t)"
| tr_tick: "tracker_reach g t \<Longrightarrow> tracker_reach g (tracker_tick now ok bad fixed t)"
| tr_inject: "tracker_reach g t \<Longrightarrow> tracker_reach g (snd (inject_row sinf g now seq t))"
| tr_moved: "tracker_reach g t \<Longrightarrow> tracker_reach g (pos_apply g t)"
| tr_other: "tracker_reach g t \<Longrightarrow> tr_aircraft t' = tr_aircraft t \<Longrightarrow> tracker_reach g t'"

lemma tracker_tick_table:
  assumes "table_ok (tr_aircraft t)"
  shows "table_ok (tr_aircraft (tracker_tick now ok bad fixed t))"
proof (cases "1000000 \<le> now - tr_tick_us t")
  case True
  have len: "length (tr_aircraft t) = MAX_TRACKED" using assms by (simp add: table_ok_def)
  note r = tracker_tick_rows[OF len True, where ok = ok and bad = bad and fixed = fixed]
  have "length (tr_aircraft (tracker_tick now ok bad fixed t)) = MAX_TRACKED" using r(1)[of 0] by (simp add: MAX_TRACKED_def)
  then show ?thesis using assms r(2,3) by (auto simp: table_ok_def)
qed (use assms in \<open>simp add: tracker_tick_def\<close>)

lemma pos_apply_table:
  assumes "table_ok (tr_aircraft t)" shows "table_ok (tr_aircraft (pos_apply g t))"
proof -
  have "ac_icao (update_range g p a) = ac_icao a" "ac_active (update_range g p a) = ac_active a" for p a
    by (simp_all add: update_range_def Let_def)
  then show ?thesis using assms by (auto simp: table_ok_def pos_apply_def)
qed

lemma inject_row_table:
  assumes "table_ok (tr_aircraft t)" shows "table_ok (tr_aircraft (snd (inject_row sinf g now seq t)))"
proof -
  obtain icao callsign where f: "FAKE ! (seq mod 4) = (icao, callsign)" by fastforce
  obtain oi u where c: "find_or_create icao t = (oi, u)" by fastforce
  note row = find_or_create_row[OF assms c]
  have "ac_icao (fake_values k (fake_place s g p n m a)) = ac_icao a" "ac_active (fake_values k (fake_place s g p n m a)) = ac_active a"
    for k s p n m a by (simp_all add: fake_values_def fake_place_def update_range_def Let_def)
  then show ?thesis
    using row(1) row(2) by (cases oi) (auto simp: inject_row_def f c Let_def intro!: table_ok_update)
qed

lemma tracker_reach_table: "tracker_reach g t \<Longrightarrow> table_ok (tr_aircraft t)"
proof (induction rule: tracker_reach.induct)
  case (tr_start pos avr beast now)
  then show ?case by (simp add: table_ok_def tracker_start_def aircraft_zero_def)
qed (simp_all add: on_msg_row tracker_tick_table pos_apply_table inject_row_table)

lemma message_row:
  assumes "tracker_reach g t" "crcok mm" "msgtype mm \<noteq> 18"
    "find_row (msg_icao mm) (tr_aircraft t) \<noteq> None \<or> empty_row (tr_aircraft t) \<noteq> None"
  shows "\<exists>!i. i < MAX_TRACKED \<and> ac_active (tr_aircraft (on_msg g now ts mm t) ! i) \<and>
    ac_icao (tr_aircraft (on_msg g now ts mm t) ! i) = msg_icao mm"
    "\<exists>i < MAX_TRACKED. ac_icao (tr_aircraft (on_msg g now ts mm t) ! i) = msg_icao mm \<and>
      ac_last_seen_us (tr_aircraft (on_msg g now ts mm t) ! i) = now \<and>
      (\<forall>j. j \<noteq> i \<longrightarrow> tr_aircraft (on_msg g now ts mm t) ! j = tr_aircraft t ! j)"
proof -
  have ok: "table_ok (tr_aircraft t)" using assms(1) by (rule tracker_reach_table)
  have ok': "table_ok (tr_aircraft (on_msg g now ts mm t))" by (rule on_msg_row(1)[OF ok])
  from on_msg_row(2)[OF ok assms(2-4), of g now ts] obtain i where i: "i < MAX_TRACKED"
    "ac_active (tr_aircraft (on_msg g now ts mm t) ! i)" "ac_icao (tr_aircraft (on_msg g now ts mm t) ! i) = msg_icao mm"
    "ac_last_seen_us (tr_aircraft (on_msg g now ts mm t) ! i) = now"
    "\<forall>j. j \<noteq> i \<longrightarrow> tr_aircraft (on_msg g now ts mm t) ! j = tr_aircraft t ! j" by blast
  then show "\<exists>i < MAX_TRACKED. ac_icao (tr_aircraft (on_msg g now ts mm t) ! i) = msg_icao mm \<and>
      ac_last_seen_us (tr_aircraft (on_msg g now ts mm t) ! i) = now \<and>
      (\<forall>j. j \<noteq> i \<longrightarrow> tr_aircraft (on_msg g now ts mm t) ! j = tr_aircraft t ! j)" by blast
  show "\<exists>!i. i < MAX_TRACKED \<and> ac_active (tr_aircraft (on_msg g now ts mm t) ! i) \<and>
    ac_icao (tr_aircraft (on_msg g now ts mm t) ! i) = msg_icao mm"
  proof (rule ex1I[of _ i])
    fix j assume "j < MAX_TRACKED \<and> ac_active (tr_aircraft (on_msg g now ts mm t) ! j) \<and>
      ac_icao (tr_aircraft (on_msg g now ts mm t) ! j) = msg_icao mm"
    then show "j = i" using ok' i unfolding table_ok_def by (metis (no_types))
  qed (use i in simp)
qed

text \<open>What is not counted, and what finds no room, leaves the rows as they are.\<close>

lemma message_ignored:
  assumes "\<not> crcok mm \<or> msgtype mm = 18 \<or> (find_row (msg_icao mm) (tr_aircraft t) = None \<and> empty_row (tr_aircraft t) = None)"
  shows "tr_aircraft (on_msg g now ts mm t) = tr_aircraft t"
  using assms by (auto simp: on_msg_def find_or_create_def Let_def)

text \<open>
  C4: the table has one live row for each address. In every reachable table, whatever wrote it before
  (messages, ticks, synthetic contacts, changes of the antenna position), every message
  leaves a table in which no two live rows have the same address. A message that failed its check, a
  DF18, and a message whose address has no row while no row is free leave every row as it was; any
  other message leaves exactly one live row for its address, touched now, and no other row changed.
\<close>

theorem one_row_per_address:
  assumes "tracker_reach g t"
  shows "let old = tr_aircraft t; rows = tr_aircraft (on_msg g now ts mm t)
    in table_ok rows \<and>
      (if \<not> crcok mm \<or> msgtype mm = 18 \<or> (find_row (msg_icao mm) old = None \<and> empty_row old = None)
       then rows = old
       else (\<exists>!i. i < MAX_TRACKED \<and> ac_active (rows ! i) \<and> ac_icao (rows ! i) = msg_icao mm) \<and>
         (\<exists>i < MAX_TRACKED. ac_icao (rows ! i) = msg_icao mm \<and> ac_last_seen_us (rows ! i) = now \<and>
           (\<forall>j. j \<noteq> i \<longrightarrow> rows ! j = old ! j)))"
proof (cases "\<not> crcok mm \<or> msgtype mm = 18 \<or> (find_row (msg_icao mm) (tr_aircraft t) = None \<and> empty_row (tr_aircraft t) = None)")
  case True
  then show ?thesis using message_ignored[OF True] tracker_reach_table[OF assms] by (simp add: Let_def)
next
  case False
  then have c: "crcok mm" "msgtype mm \<noteq> 18"
    "find_row (msg_icao mm) (tr_aircraft t) \<noteq> None \<or> empty_row (tr_aircraft t) \<noteq> None" by (blast, blast, metis)
  show ?thesis
    using message_row[OF assms c, of now ts] tracker_reach_table[OF tr_msg[OF assms], of now ts mm]
    unfolding Let_def if_not_P[OF False] by blast
qed

definition geo_example :: geo where
  "geo_example = \<lparr>cosf_fn = \<lambda>x. 1, atan2f_fn = \<lambda>y x. 0, sqrtf_fn = \<lambda>x. x\<rparr>"

definition tracker_example :: tracker where
  "tracker_example = tracker_start \<lparr>rp_lat = 0, rp_lon = 0, rp_valid = False\<rparr>
     (feed_start (replicate 128 [])) (feed_start (replicate 128 [])) 0"

definition msg_example :: mode_s_msg where
  "msg_example = mm_zero\<lparr>crcok := True, msgtype := 11, aa1 := 0x4B, aa2 := 0x17, aa3 := 0x2A\<rparr>"

lemma one_row_per_address_witness:
  "\<exists>!i. i < MAX_TRACKED \<and> ac_active (tr_aircraft (on_msg geo_example 5 5 msg_example tracker_example) ! i) \<and>
    ac_icao (tr_aircraft (on_msg geo_example 5 5 msg_example tracker_example) ! i) = msg_icao msg_example"
proof -
  have r: "tracker_reach geo_example tracker_example" unfolding tracker_example_def by (rule tr_start)
  have "empty_row (tr_aircraft tracker_example) \<noteq> None"
    by (simp add: empty_row_def find_upt_None tracker_example_def tracker_start_def aircraft_zero_def MAX_TRACKED_def exI[of _ 0])
  moreover have "crcok msg_example" "msgtype msg_example \<noteq> 18" by (simp_all add: msg_example_def)
  ultimately show ?thesis using one_row_per_address[OF r, of 5 5 msg_example] by (simp add: Let_def)
qed

text \<open>
  Contacts expire exactly when they fall silent. A tick that closes a second leaves a row live if
  and only if it was live and heard within the last 60 seconds, and gives no row another address.
\<close>

theorem contact_expiry:
  assumes "tracker_reach g t" "1000000 \<le> now - tr_tick_us t" "j < MAX_TRACKED"
  shows "ac_icao (tr_aircraft (tracker_tick now ok bad fixed t) ! j) = ac_icao (tr_aircraft t ! j) \<and>
    (ac_active (tr_aircraft (tracker_tick now ok bad fixed t) ! j) \<longleftrightarrow>
       ac_active (tr_aircraft t ! j) \<and> now - ac_last_seen_us (tr_aircraft t ! j) \<le> 60000000)"
  using tracker_tick_rows[of t now j] tracker_reach_table[OF assms(1)] assms(2,3)
  by (simp add: table_ok_def CONTACT_TTL_US_def)

lemma contact_expiry_witness:
  "\<not> ac_active (tr_aircraft (tracker_tick 60000006 0 0 0 (on_msg geo_example 5 5 msg_example tracker_example)) ! 0)"
proof -
  let ?t = "on_msg geo_example 5 5 msg_example tracker_example"
  have ex: "tracker_reach geo_example tracker_example" unfolding tracker_example_def by (rule tr_start)
  then have r: "tracker_reach geo_example ?t" by (rule tr_msg)
  have "tr_tick_us ?t = 0 \<and> ac_last_seen_us (tr_aircraft ?t ! 0) = 5" by code_simp
  with contact_expiry[OF r, of 60000006 0 0 0 0] show ?thesis by (simp add: MAX_TRACKED_def)
qed

section \<open>Implausible positions\<close>

definition implausible :: "geo \<Rightarrow> aircraft \<Rightarrow> (rat \<times> rat) \<times> int \<Rightarrow> bool" where
  "implausible g a f \<longleftrightarrow> (case f of ((lat, lon), now) \<Rightarrow>
     ac_pos_valid a \<and> now - ac_pos_us a < POS_REF_MAX_AGE_US \<and>
     max_jump_km (now - ac_pos_us a) < flat_dist_km g (ac_lat a) (ac_lon a) (flt lat) (flt lon))"

text \<open>The verdicts on a list of fixes, none of which is stored.\<close>

primrec verdicts :: "geo \<Rightarrow> ((rat \<times> rat) \<times> int) list \<Rightarrow> aircraft \<Rightarrow> bool list" where
  "verdicts g [] a = []"
| "verdicts g (f # xs) a =
     (case position_plausible g a (fst (fst f)) (snd (fst f)) (snd f) of (ok, a) \<Rightarrow> ok # verdicts g xs a)"

lemma implausible_rejects [simp]: "implausible g (a\<lparr>ac_pos_rejects := k\<rparr>) f = implausible g a f"
  by (simp add: implausible_def split: prod.split)

lemma implausible_verdict:
  assumes "implausible g a f"
  shows "position_plausible g a (fst (fst f)) (snd (fst f)) (snd f) =
    (if ac_pos_rejects a + 1 < 3 then (False, a\<lparr>ac_pos_rejects := ac_pos_rejects a + 1\<rparr>)
     else (True, a\<lparr>ac_pos_rejects := 0\<rparr>))"
  using assms by (auto simp: implausible_def position_plausible_def Let_def split: prod.splits)

lemma every_third:
  assumes "ac_pos_rejects a = of_nat k" "k < 3" "\<forall>f \<in> set xs. implausible g a f"
  shows "verdicts g xs a = map (\<lambda>n. (n + k) mod 3 = 2) [0..<length xs]"
  using assms
proof (induction xs arbitrary: a k)
  case (Cons f xs)
  let ?a = "snd (position_plausible g a (fst (fst f)) (snd (fst f)) (snd f))"
  have v: "position_plausible g a (fst (fst f)) (snd (fst f)) (snd f) =
      (k = 2, a\<lparr>ac_pos_rejects := of_nat ((k + 1) mod 3)\<rparr>)"
  proof -
    consider "k = 0" | "k = 1" | "k = 2" using Cons.prems(2) by linarith
    then show ?thesis using implausible_verdict[of g a f] Cons.prems by cases simp_all
  qed
  have IH: "verdicts g xs (a\<lparr>ac_pos_rejects := of_nat ((k + 1) mod 3)\<rparr>) =
      map (\<lambda>n. (n + (k + 1) mod 3) mod 3 = 2) [0..<length xs]"
    using Cons.prems by (intro Cons.IH) simp_all
  have "[0..<length (f # xs)] = 0 # map Suc [0..<length xs]" by (simp add: map_Suc_upt upt_conv_Cons del: upt_Suc)
  then show ?case using v IH Cons.prems(2) by (simp add: mod_simps del: upt_Suc)
qed simp

text \<open>
  Of a run of implausible fixes every third one is accepted: two are dropped, and the third, not
  the fourth, becomes the new reference.
\<close>

theorem third_jump_accepted:
  assumes "ac_pos_rejects a = 0" "\<forall>f \<in> set xs. implausible g a f"
  shows "verdicts g xs a = map (\<lambda>n. n mod 3 = 2) [0..<length xs]"
  using every_third[of a 0 xs g] assms by simp

definition located :: aircraft where
  "located = aircraft_zero\<lparr>ac_pos_valid := True, ac_pos_us := 1\<rparr>"

text \<open>A geometry that puts everything 1000 km away.\<close>

definition far_away :: geo where
  "far_away = \<lparr>cosf_fn = \<lambda>x. 1, atan2f_fn = \<lambda>y x. 0, sqrtf_fn = \<lambda>x. 1000\<rparr>"

lemma max_jump_le: "max_jump_km dt \<le> 185"
  by (simp add: max_jump_km_def POS_REF_MAX_KM_def Let_def)

lemma third_jump_accepted_witness:
  "verdicts far_away [((10, 0), 1), ((11, 0), 1), ((12, 0), 1)] located = [False, False, True]"
proof -
  have "\<forall>f \<in> set [((10, 0), 1), ((11, 0), 1), ((12, 0), 1)]. implausible far_away located f"
    using le_less_trans[OF max_jump_le, of 1000]
    by (simp add: implausible_def located_def far_away_def flat_dist_km_def POS_REF_MAX_AGE_US_def)
  from third_jump_accepted[OF _ this] show ?thesis by (simp add: located_def aircraft_zero_def upt_rec)
qed

end
