(* ===== verification/AircraftJson.thy ===== *)
theory AircraftJson
  imports Tracker
begin

text \<open>
  The JSON snapshot of the aircraft table, \<open>aircraft_export_ndjson\<close> of \<open>main/class_driver.c\<close>: the
  bounded append every piece goes through and the pieces in their order. The \<open>printf\<close> conversions the
  code uses are written out; \<open>%.Nf\<close> rounds the exact value half to even, as the C library does.
\<close>

section \<open>Conversions\<close>

lemma digits_decrease:
  assumes "\<not> (width = 0 \<and> n = 0 \<or> base < 2)" shows "width - 1 + n div base < width + (n :: nat)"
proof (cases "n = 0")
  case False
  then have "n div base < n" using assms by simp
  then show ?thesis by simp
qed (use assms in simp)

function digits :: "nat \<Rightarrow> nat \<Rightarrow> nat \<Rightarrow> string" where
  "digits base width n =
     (if width = 0 \<and> n = 0 \<or> base < 2 then []
      else digits base (width - 1) (n div base) @
        [let d = n mod base in char_of (if d < 10 then 48 + d else 87 + d)])"
  by pat_completeness auto

termination
  by (relation "measure (\<lambda>(base, width, n). width + n)") (simp_all add: digits_decrease[simplified])

declare digits.simps [simp del]

definition fmt_u :: "nat \<Rightarrow> string" where
  "fmt_u n = digits 10 1 n"

definition fmt_d :: "int \<Rightarrow> string" where
  "fmt_d i = (if i < 0 then ''-'' else []) @ fmt_u (nat \<bar>i\<bar>)"

definition fmt_06x :: "u32 \<Rightarrow> string" where
  "fmt_06x w = digits 16 6 (unat w)"

definition fmt_f :: "nat \<Rightarrow> rat \<Rightarrow> string" where
  "fmt_f prec x =
     (let m = nat (rne (\<bar>x\<bar> * 10 ^ prec))
      in (if x < 0 then ''-'' else []) @ fmt_u (m div 10 ^ prec) @
         (if prec = 0 then [] else ''.'' @ digits 10 prec (m mod 10 ^ prec)))"

section \<open>The bounded append\<close>

text \<open>
  The length so far and the bytes written so far. A piece that does not fit leaves the length at
  \<open>bufsize\<close>, the sentinel, and what \<open>vsnprintf\<close> wrote of it, one byte short for its terminator.
\<close>

definition json_append :: "nat \<Rightarrow> string \<Rightarrow> nat \<times> string \<Rightarrow> nat \<times> string" where
  "json_append bufsize text st =
     (case st of (n, out) \<Rightarrow>
        if bufsize \<le> n then (bufsize, out)
        else let w = length text
             in if w = 0 then (n, out)
                else if bufsize \<le> n + w then (bufsize, take n out @ take (bufsize - n - 1) text)
                else (n + w, take n out @ text))"

section \<open>The pieces\<close>

definition quoted :: "string \<Rightarrow> string" where
  "quoted s = [CHR 0x22] @ s @ [CHR 0x22]"

definition json_key :: "string \<Rightarrow> string" where
  "json_key k = '','' @ quoted k @ '':''"

definition key_value :: "string \<Rightarrow> nat \<Rightarrow> opt_f \<Rightarrow> int \<Rightarrow> string list" where
  "key_value key prec v now =
     (if fresh_at (o_us v) now then [json_key key @ fmt_f prec (o_v v)] else [])"

definition nav_mode_names :: "string list" where
  "nav_mode_names = [''autopilot'', ''vnav'', ''althold'', ''approach'', ''lnav'', ''tcas'']"

definition json_nav_modes :: "opt_f \<Rightarrow> int \<Rightarrow> string list" where
  "json_nav_modes v now =
     (if fresh_at (o_us v) now
      then let names = map (\<lambda>b. nav_mode_names ! b) (filter (\<lambda>b. bit (trunc (o_v v)) b) [0..<6])
           in [json_key ''nav_modes'' @ ''[''] @
              (case names of [] \<Rightarrow> [] | nm # rest \<Rightarrow> quoted nm # map (\<lambda>k. '','' @ quoted k) rest) @ ['']'']
      else [])"

definition value_pieces :: "aircraft \<Rightarrow> int \<Rightarrow> string list" where
  "value_pieces a now = concat
     [key_value ''ias'' 0 (ac_ias a) now, key_value ''tas'' 0 (ac_tas a) now, key_value ''mach'' 3 (ac_mach a) now,
      key_value ''mag_heading'' 1 (ac_mag_heading a) now, key_value ''roll'' 1 (ac_roll a) now,
      key_value ''track_rate'' 2 (ac_track_rate a) now, key_value ''baro_rate'' 0 (ac_baro_rate a) now,
      key_value ''geom_rate'' 0 (ac_geom_rate a) now, key_value ''nav_qnh'' 1 (ac_nav_qnh a) now,
      key_value ''nav_altitude_mcp'' 0 (ac_nav_alt_mcp a) now, key_value ''nav_altitude_fms'' 0 (ac_nav_alt_fms a) now,
      key_value ''nav_heading'' 1 (ac_nav_heading a) now, key_value ''nac_v'' 0 (ac_nac_v a) now]"

definition accuracy_pieces :: "aircraft \<Rightarrow> int \<Rightarrow> string list" where
  "accuracy_pieces a now =
     (if ac_pos_valid a then [json_key ''nic'' @ fmt_u (ac_nic a)] else []) @
     (if fresh_at (ac_acc_us a) now
      then [json_key ''nac_p'' @ fmt_u (ac_nac_p a) @ json_key ''sil'' @ fmt_u (ac_sil a) @ json_key ''sil_type'' @
            quoted (if ac_sil_type a = 2 then ''persample'' else if ac_sil_type a = 1 then ''perhour'' else ''unknown'') @
            json_key ''nic_baro'' @ fmt_u (of_bool (ac_nic_baro a))]
      else []) @
     (if fresh_at (ac_ops_us a) now
      then [json_key ''version'' @ fmt_u (ac_version a)] @
           (if ac_gva_valid a then [json_key ''gva'' @ fmt_u (ac_gva a)] else []) @
           (if ac_sda_valid a then [json_key ''sda'' @ fmt_u (ac_sda a)] else [])
      else [])"

definition json_optional :: "aircraft \<Rightarrow> int \<Rightarrow> string list" where
  "json_optional a now =
     value_pieces a now @ json_nav_modes (ac_nav_modes a) now @ accuracy_pieces a now @
     (if ac_alert a then [json_key ''alert'' @ ''1''] else []) @
     (if ac_spi a then [json_key ''spi'' @ ''1''] else []) @
     (if ac_ra_active a then [json_key ''acas_ra'' @ quoted (ac_ra_text a)] else [])"

definition altitude_text :: "aircraft \<Rightarrow> int \<Rightarrow> string" where
  "altitude_text a now =
     (let geom_ok = fresh_at (o_us (ac_geom_delta a)) now;
          other = ac_altitude a + (if ac_alt_geom a then -1 else 1) * trunc (o_v (ac_geom_delta a))
      in take 39
        (if ac_on_ground a then quoted ''alt_baro'' @ '':'' @ quoted ''ground''
         else if \<not> geom_ok
         then quoted (if ac_alt_geom a then ''alt_geom'' else ''alt_baro'') @ '':'' @ fmt_d (ac_altitude a)
         else quoted ''alt_baro'' @ '':'' @ fmt_d (if ac_alt_geom a then other else ac_altitude a) @
              json_key ''alt_geom'' @ fmt_d (if ac_alt_geom a then ac_altitude a else other)))"

definition degrees_text :: "bool \<Rightarrow> rat \<Rightarrow> string" where
  "degrees_text valid x = (if valid then take 15 (fmt_f 5 x) else ''null'')"

definition row_pieces :: "bool \<Rightarrow> aircraft \<Rightarrow> int \<Rightarrow> string list" where
  "row_pieces first a now =
     [(if first then [] else '','') @ ''{'' @ quoted ''hex'' @ '':'' @ quoted (fmt_06x (ac_icao a)) @
      json_key ''flight'' @ quoted (ac_callsign a) @ '','' @ altitude_text a now @
      json_key ''gs'' @ fmt_d (ac_velocity a) @ json_key ''track'' @ fmt_d (ac_heading a) @
      json_key ''vert_rate'' @ fmt_d (ac_vert_rate a) @
      json_key ''lat'' @ degrees_text (ac_pos_valid a) (ac_lat a) @
      json_key ''lon'' @ degrees_text (ac_pos_valid a) (ac_lon a) @
      json_key ''category'' @ quoted (plane_cat_label (ac_category a)) @
      json_key ''emitter'' @ quoted (plane_emitter_label (ac_emitter a))] @
     json_optional a now @
     [json_key ''messages'' @ fmt_d (ac_msg_count a) @
      json_key ''seen'' @ fmt_f 1 (dbl (dbl (of_int (now - ac_last_seen_us a)) / 1000000)) @ ''}'']"

definition exported :: "int \<Rightarrow> aircraft \<Rightarrow> bool" where
  "exported now a \<longleftrightarrow> ac_active a \<and> now - ac_last_seen_us a \<le> 60000000"

fun rows_pieces :: "bool \<Rightarrow> aircraft list \<Rightarrow> int \<Rightarrow> string list" where
  "rows_pieces first [] now = []"
| "rows_pieces first (a # as) now =
     (if exported now a then row_pieces first a now @ rows_pieces False as now else rows_pieces first as now)"

definition snapshot_pieces :: "int \<Rightarrow> int \<Rightarrow> aircraft list \<Rightarrow> string list" where
  "snapshot_pieces now messages as =
     [''{'' @ quoted ''now'' @ '':'' @ fmt_f 3 (dbl (dbl (of_int now) / 1000000)) @ json_key ''messages'' @ fmt_d messages @
      json_key ''aircraft'' @ ''[''] @
     rows_pieces True as now @ ['']}'' @ [CHR 0x0A]]"

text \<open>The length returned, and the bytes in the buffer.\<close>

definition aircraft_export_ndjson :: "nat \<Rightarrow> int \<Rightarrow> tracker \<Rightarrow> nat \<times> string" where
  "aircraft_export_ndjson bufsize now t =
     (let (n, out) = fold (json_append bufsize) (snapshot_pieces now (tr_msg_count t) (tr_aircraft t)) (0, [])
      in (if bufsize \<le> n then 0 else n, out))"

section \<open>A snapshot is whole or not sent\<close>

lemma json_append_full: "fold (json_append bufsize) ps (bufsize, out) = (bufsize, out)"
  by (induction ps) (simp_all add: json_append_def)

lemma json_append_chain:
  assumes "length out < bufsize"
  shows "if length out + length (concat ps) < bufsize
         then fold (json_append bufsize) ps (length out, out) = (length out + length (concat ps), out @ concat ps)
         else fst (fold (json_append bufsize) ps (length out, out)) = bufsize"
  using assms
proof (induction ps arbitrary: out)
  case (Cons p ps)
  show ?case
  proof (cases "length out + length p < bufsize")
    case True
    then have "json_append bufsize p (length out, out) = (length (out @ p), out @ p)"
      using Cons.prems by (simp add: json_append_def Let_def)
    then show ?thesis using Cons.IH[of "out @ p"] True by (simp add: add.assoc split: if_splits)
  next
    case False
    then have "fst (json_append bufsize p (length out, out)) = bufsize"
      using Cons.prems by (auto simp: json_append_def Let_def)
    then obtain out' where "json_append bufsize p (length out, out) = (bufsize, out')" by (metis prod.collapse)
    then show ?thesis using False json_append_full[of bufsize ps out'] by simp
  qed
qed simp

text \<open>
  C33: the snapshot is returned whole, its length the length of the line and every byte of it written,
  exactly when it is shorter than the buffer; in every other case the function returns 0 and nothing
  is sent. The line ends in its newline.
\<close>

theorem snapshot_whole_or_nothing:
  "let line = concat (snapshot_pieces now (tr_msg_count t) (tr_aircraft t))
   in last line = CHR 0x0A \<and>
      (if length line < bufsize then aircraft_export_ndjson bufsize now t = (length line, line)
       else fst (aircraft_export_ndjson bufsize now t) = 0)"
proof (cases "bufsize = 0")
  case True
  then show ?thesis by (simp add: aircraft_export_ndjson_def snapshot_pieces_def json_append_full[of 0] split: prod.split)
next
  case False
  then show ?thesis using json_append_chain[of "[]" bufsize "snapshot_pieces now (tr_msg_count t) (tr_aircraft t)"]
    by (auto simp: aircraft_export_ndjson_def Let_def snapshot_pieces_def split: prod.split if_splits)
qed

end
