(* ===== verification/EventLog.thy ===== *)
theory EventLog
  imports Prelude
begin

text \<open>
  The event ring of \<open>main/class_driver.c\<close>: what is kept, what is echoed, the reader of the newest
  entries and the dump. The formatted text is an argument; \<open>vsnprintf\<close> keeps 79 characters of it.
\<close>

definition ADSB_LOG_LINES :: nat where
  "ADSB_LOG_LINES = 64"

datatype facility = LOG_SYS | LOG_AIR | LOG_UI

datatype echo_level = ADSB_ECHO_ALL | ADSB_ECHO_BRIEF | ADSB_ECHO_SYS | ADSB_ECHO_OFF

record log_entry =
  le_text :: string
  le_color :: nat
  le_facility :: facility

record event_log =
  lg_ring :: "log_entry list"
  lg_head :: nat
  lg_echo :: echo_level
  lg_printed :: "string list"

definition log_entry_zero :: log_entry where
  "log_entry_zero = \<lparr>le_text = [], le_color = 0, le_facility = LOG_SYS\<rparr>"

definition log_start :: event_log where
  "log_start = \<lparr>lg_ring = replicate ADSB_LOG_LINES log_entry_zero, lg_head = 0, lg_echo = ADSB_ECHO_ALL, lg_printed = []\<rparr>"

definition echo_wanted :: "echo_level \<Rightarrow> facility \<Rightarrow> nat \<Rightarrow> bool" where
  "echo_wanted level fac color =
     (case level of
        ADSB_ECHO_ALL \<Rightarrow> True
      | ADSB_ECHO_BRIEF \<Rightarrow> if fac = LOG_AIR then color = 1 \<or> color = 4 else fac = LOG_SYS
      | ADSB_ECHO_SYS \<Rightarrow> fac = LOG_SYS
      | ADSB_ECHO_OFF \<Rightarrow> False)"

definition log_kept :: "log_entry \<Rightarrow> bool" where
  "log_kept e \<longleftrightarrow> \<not> (le_facility e = LOG_AIR \<and> le_color e = 0)"

definition log_put :: "bool \<Rightarrow> facility \<Rightarrow> nat \<Rightarrow> string \<Rightarrow> event_log \<Rightarrow> event_log" where
  "log_put screen_foreground fac color text l =
     (let e = \<lparr>le_text = take 79 text, le_color = color, le_facility = fac\<rparr>;
          l = (if log_kept e
               then l\<lparr>lg_ring := (lg_ring l)[lg_head l mod ADSB_LOG_LINES := e], lg_head := lg_head l + 1\<rparr>
               else l)
      in if echo_wanted (lg_echo l) fac color \<and> \<not> screen_foreground
         then l\<lparr>lg_printed := lg_printed l @ [take 79 text]\<rparr> else l)"

definition log_back :: "event_log \<Rightarrow> nat \<Rightarrow> log_entry" where
  "log_back l back = lg_ring l ! (nat ((int (lg_head l) - 1 - int back + 2 * int ADSB_LOG_LINES) mod int ADSB_LOG_LINES))"

text \<open>The loop with its counter and the entries found so far.\<close>

function log_recent_loop :: "event_log \<Rightarrow> nat \<Rightarrow> nat \<Rightarrow> log_entry list \<Rightarrow> log_entry list" where
  "log_recent_loop l n back out =
     (if back < ADSB_LOG_LINES \<and> length out < n
      then let e = log_back l back
           in if le_text e = [] \<or> le_facility e = LOG_SYS then log_recent_loop l n (back + 1) out
              else log_recent_loop l n (back + 1) (out @ [e])
      else out)"
  by pat_completeness auto

termination
  by (relation "measure (\<lambda>(l, n, back, out). ADSB_LOG_LINES - back)") auto

declare log_recent_loop.simps [simp del]

definition adsb_log_recent :: "event_log \<Rightarrow> nat \<Rightarrow> log_entry list" where
  "adsb_log_recent l n = log_recent_loop l n 0 []"

definition adsb_log_dump :: "event_log \<Rightarrow> int \<Rightarrow> string list" where
  "adsb_log_dump l n =
     (let n = (if n \<le> 0 \<or> int ADSB_LOG_LINES < n then int ADSB_LOG_LINES else n);
          n = (if int (lg_head l) < n then int (lg_head l) else n)
      in if n = 0 then [''(no receiver events yet)'']
         else filter (\<lambda>t. t \<noteq> []) (map (\<lambda>i. le_text (log_back l i)) (rev [0..<nat n])))"

section \<open>The ring holds the newest entries\<close>

text \<open>\<open>history\<close> is every entry kept so far, oldest first.\<close>

definition log_holds :: "event_log \<Rightarrow> log_entry list \<Rightarrow> bool" where
  "log_holds l history \<longleftrightarrow> length (lg_ring l) = ADSB_LOG_LINES \<and> lg_head l = length history \<and>
     (\<forall>k < ADSB_LOG_LINES. log_back l k = (if k < length history then rev history ! k else log_entry_zero))"

lemma log_index:
  assumes "k < 64"
  shows "nat ((int h - 1 - int k + 2 * int ADSB_LOG_LINES) mod int ADSB_LOG_LINES) = (h + 127 - k) mod 64"
proof -
  have "int h - 1 - int k + 2 * int ADSB_LOG_LINES = int (h + 127 - k)" using assms by (simp add: ADSB_LOG_LINES_def)
  then show ?thesis by (simp only: ADSB_LOG_LINES_def of_nat_mod[symmetric] nat_int)
qed

lemma log_back_index:
  assumes "k < ADSB_LOG_LINES"
  shows "log_back l k = lg_ring l ! ((lg_head l + 127 - k) mod 64)"
proof -
  have "k < 64" using assms by (simp add: ADSB_LOG_LINES_def)
  then show ?thesis unfolding log_back_def by (simp only: log_index)
qed

lemma log_start_holds: "log_holds log_start []"
proof -
  have "log_back log_start k = log_entry_zero" if "k < ADSB_LOG_LINES" for k
  proof -
    have "(lg_head log_start + 127 - k) mod 64 < ADSB_LOG_LINES" by (simp add: ADSB_LOG_LINES_def)
    then show ?thesis using log_back_index[OF that, of log_start] by (simp add: log_start_def)
  qed
  then show ?thesis by (simp add: log_holds_def) (simp add: log_start_def)
qed

lemma other_slot:
  assumes "64 < d" "d < 128" shows "(h + d) mod 64 \<noteq> h mod (64 :: nat)"
proof
  assume "(h + d) mod 64 = h mod 64"
  then have "64 dvd d" by (metis diff_add_inverse le_add1 mod_eq_dvd_iff_nat)
  then show False using assms by (auto simp: dvd_def)
qed

lemma log_push_holds:
  assumes "log_holds l history"
  shows "log_holds (l\<lparr>lg_ring := (lg_ring l)[lg_head l mod ADSB_LOG_LINES := e], lg_head := lg_head l + 1\<rparr>) (history @ [e])"
proof -
  let ?h = "lg_head l" let ?l = "l\<lparr>lg_ring := (lg_ring l)[lg_head l mod ADSB_LOG_LINES := e], lg_head := lg_head l + 1\<rparr>"
  have len: "length (lg_ring l) = ADSB_LOG_LINES" and h: "?h = length history"
    and old: "\<And>k. k < ADSB_LOG_LINES \<Longrightarrow> log_back l k = (if k < length history then rev history ! k else log_entry_zero)"
    using assms by (simp_all add: log_holds_def)
  have in_ring: "?h mod 64 < length (lg_ring l)" by (simp add: len ADSB_LOG_LINES_def)
  have ring: "lg_ring ?l = (lg_ring l)[?h mod 64 := e]" "lg_head ?l = ?h + 1" by (simp_all add: ADSB_LOG_LINES_def)
  have "log_back ?l k = (if k < length (history @ [e]) then rev (history @ [e]) ! k else log_entry_zero)"
    if k: "k < ADSB_LOG_LINES" for k
  proof (cases k)
    case 0
    have "(?h + 1 + 127) mod 64 = ?h mod 64" using mod_mult_self3[of 2 64 ?h] by (simp add: add.commute)
    then show ?thesis using 0 in_ring log_back_index[OF k, of ?l] unfolding ring by simp
  next
    case (Suc m)
    have m: "m < 63" using Suc k by (simp add: ADSB_LOG_LINES_def)
    have i: "?h + 1 + 127 - k = ?h + (127 - m)" "?h + 127 - m = ?h + (127 - m)" using Suc m by simp_all
    have "(?h + (127 - m)) mod 64 \<noteq> ?h mod 64" using m by (intro other_slot) simp_all
    then have "log_back ?l k = log_back l m"
      using log_back_index[OF k, of ?l] log_back_index[of m l] k Suc unfolding ring i by simp
    then show ?thesis using old[of m] Suc k h by simp
  qed
  then show ?thesis using len h by (simp add: log_holds_def)
qed

lemma log_recent_collects:
  assumes "log_holds l history"
  shows "log_recent_loop l n j out =
    out @ take (n - length out) (filter (\<lambda>e. le_text e \<noteq> [] \<and> le_facility e \<noteq> LOG_SYS)
      (drop j (take ADSB_LOG_LINES (rev history))))"
proof (induction "ADSB_LOG_LINES - j" arbitrary: j out)
  case 0
  then show ?case by (subst log_recent_loop.simps) simp
next
  case (Suc d)
  then have b: "j < ADSB_LOG_LINES" by simp
  let ?P = "\<lambda>e. le_text e \<noteq> [] \<and> le_facility e \<noteq> LOG_SYS"
  let ?xs = "take ADSB_LOG_LINES (rev history)"
  have e: "log_back l j = (if j < length history then rev history ! j else log_entry_zero)"
    using assms b by (simp add: log_holds_def)
  have dr: "filter ?P (drop j ?xs) = (if ?P (log_back l j) then [log_back l j] else []) @ filter ?P (drop (Suc j) ?xs)"
  proof (cases "j < length history")
    case True
    then have "drop j ?xs = rev history ! j # drop (Suc j) ?xs"
      using b Cons_nth_drop_Suc[of j ?xs] by simp
    then show ?thesis using True e by auto
  next
    case False
    then show ?thesis using e by (simp add: log_entry_zero_def)
  qed
  have d: "d = ADSB_LOG_LINES - (j + 1)" using Suc.hyps(2) by simp
  show ?case
  proof (cases "length out < n")
    case False
    then show ?thesis by (subst log_recent_loop.simps) simp
  next
    case True
    then obtain m where m: "n - length out = Suc m" by (metis Suc_diff_Suc)
    have "log_recent_loop l n j out =
        log_recent_loop l n (j + 1) (if ?P (log_back l j) then out @ [log_back l j] else out)"
      using True b by (subst log_recent_loop.simps) (auto simp: Let_def)
    moreover have "n - Suc (length out) = m" using m by simp
    ultimately show ?thesis using Suc.hyps(1)[OF d] m unfolding dr by auto
  qed
qed

text \<open>Entries offered to the ring, with the ones it keeps.\<close>

definition log_puts :: "bool \<Rightarrow> log_entry list \<Rightarrow> event_log \<Rightarrow> event_log" where
  "log_puts fg es l = fold (\<lambda>e. log_put fg (le_facility e) (le_color e) (le_text e)) es l"

lemma log_puts_hold:
  assumes "log_holds l history" "\<forall>e \<in> set es. length (le_text e) \<le> 79"
  shows "log_holds (log_puts fg es l) (history @ filter log_kept es)"
  using assms
proof (induction es arbitrary: l history)
  case (Cons e es)
  have t: "\<lparr>le_text = take 79 (le_text e), le_color = le_color e, le_facility = le_facility e\<rparr> = e"
    using Cons.prems(2) by simp
  have frame: "log_holds (m\<lparr>lg_printed := p\<rparr>) hs = log_holds m hs" for m p hs
    by (simp add: log_holds_def log_back_def)
  have "log_holds (log_put fg (le_facility e) (le_color e) (le_text e) l) (history @ (if log_kept e then [e] else []))"
    using Cons.prems(1) log_push_holds[OF Cons.prems(1), of e]
    unfolding log_put_def Let_def t by (auto simp: frame)
  from Cons.IH[OF this] Cons.prems(2) show ?case by (auto simp: log_puts_def)
qed (simp add: log_puts_def)

text \<open>
  C35: whatever was logged since start-up, the panel gets the newest events of the sky and the user
  interface, newest first, out of the last \<open>ADSB_LOG_LINES\<close> lines kept; measurements are not kept and
  so never push an event out.
\<close>

theorem log_recent_newest:
  assumes "\<forall>e \<in> set es. length (le_text e) \<le> 79"
  shows "adsb_log_recent (log_puts fg es log_start) n =
    take n (filter (\<lambda>e. le_text e \<noteq> [] \<and> le_facility e \<noteq> LOG_SYS) (take ADSB_LOG_LINES (rev (filter log_kept es))))"
  using log_recent_collects[OF log_puts_hold[OF log_start_holds assms], of fg n 0 "[]"]
  by (simp add: adsb_log_recent_def)

lemma log_recent_newest_witness:
  "map le_text (adsb_log_recent (log_puts False
      [\<lparr>le_text = ''first'', le_color = 1, le_facility = LOG_AIR\<rparr>, \<lparr>le_text = ''alt'', le_color = 0, le_facility = LOG_AIR\<rparr>,
       \<lparr>le_text = ''boot'', le_color = 1, le_facility = LOG_SYS\<rparr>, \<lparr>le_text = ''key'', le_color = 2, le_facility = LOG_UI\<rparr>]
      log_start) 5) = [''key'', ''first'']"
  by (subst log_recent_newest) (simp_all add: log_kept_def ADSB_LOG_LINES_def)

end
