(* ===== verification/RtlDev.thy ===== *)
theory RtlDev
  imports UsbTransfer Fp "HOL-Library.State_Monad"
begin

unbundle bit_operations_syntax

text \<open>
  The lower half of \<open>main/librtlsdr.c\<close>: the device handle, its control transfers (those of
  \<open>UsbTransfer\<close>), the register accesses of the RTL2832U, GPIO, the I2C repeater, the FIR filter, the base band
  set-up and the EEPROM. The code threads its handle through every call; here that is a state monad.
  The handle is never \<open>NULL\<close>, so the tests for it are left out, and so are the delays.
\<close>

section \<open>The device\<close>

text \<open>
  What the environment answers to one control transfer: whether the mutex was free, the result of the
  submit, and the reply before the timeout. \<open>ca_stack\<close> is what an uninitialised local buffer holds. An
  answer may depend on how many transfers there were and on the length asked for.
\<close>

record ctrl_answer =
  ca_mutex :: bool
  ca_submit :: int
  ca_reply :: "(int \<times> u8 list) option"
  ca_stack :: "u8 list"

record ctrl_xfer =
  cx_type :: u8
  cx_value :: u16
  cx_index :: u16
  cx_out :: "u8 list"
  cx_len :: nat
  cx_ret :: int

text \<open>The tuners \<open>rtlsdr_open\<close> can find; the probes of the other ones are commented out.\<close>

datatype rtlsdr_tuner = RTLSDR_TUNER_UNKNOWN | RTLSDR_TUNER_R820T | RTLSDR_TUNER_R828D

datatype r82xx_chip = CHIP_R820T | CHIP_R828D

datatype r82xx_xtal_cap_value =
  XTAL_LOW_CAP_30P | XTAL_LOW_CAP_20P | XTAL_LOW_CAP_10P | XTAL_LOW_CAP_0P | XTAL_HIGH_CAP_0P

record r82xx_config =
  rc_i2c_addr :: u8
  rc_xtal :: u32
  rc_chip :: r82xx_chip
  rc_max_i2c_msg_len :: nat
  rc_use_predetect :: bool

record r82xx_priv =
  rx_regs :: "u8 list"
  rx_xtal_cap_sel :: r82xx_xtal_cap_value
  rx_int_freq :: u32
  rx_fil_cal_code :: u8
  rx_input :: u8
  rx_has_lock :: bool
  rx_init_done :: bool
  rx_reg_cache :: bool
  rx_delsys :: u32
  rx_type :: int
  rx_bw :: u32

record rtl =
  rt_usb :: adsb_dev
  rt_env :: "nat \<Rightarrow> u16 \<Rightarrow> ctrl_answer"
  rt_trace :: "ctrl_xfer list"
  rt_rate :: u32
  rt_rtl_xtal :: u32
  rt_fir :: "int list"
  rt_direct_sampling :: int
  rt_tuner_type :: rtlsdr_tuner
  rt_tuner :: "rtlsdr_tuner option"
  rt_tun_xtal :: u32
  rt_freq :: u32
  rt_bw :: u32
  rt_offs_freq :: u32
  rt_corr :: int
  rt_gain :: int
  rt_fosc :: u32
  rt_dev_lost :: bool
  rt_repeater :: int
  rt_cfg :: r82xx_config
  rt_priv :: r82xx_priv

type_synonym 'a io = "(rtl, 'a) state"

abbreviation ret :: "'a \<Rightarrow> 'a io" where
  "ret \<equiv> State_Monad.return"

definition modify :: "(rtl \<Rightarrow> rtl) \<Rightarrow> unit io" where
  "modify f = do { s \<leftarrow> State_Monad.get; State_Monad.set (f s) }"

definition the_dev :: "(rtl \<Rightarrow> 'a) \<Rightarrow> 'a io" where
  "the_dev f = do { s \<leftarrow> State_Monad.get; ret (f s) }"

primrec run_all :: "'a io list \<Rightarrow> unit io" where
  "run_all [] = ret ()"
| "run_all (f # fs) = do { _ \<leftarrow> f; run_all fs }"

text \<open>\<open>rc = f; if (rc < 0) return rc;\<close> down a list of calls; the last one's result is returned.\<close>

fun run_checked :: "int io list \<Rightarrow> int io" where
  "run_checked [] = ret 0"
| "run_checked [f] = f"
| "run_checked (f # g # fs) = do { rc \<leftarrow> f; if rc < 0 then ret rc else run_checked (g # fs) }"

text \<open>\<open>r |= f;\<close> down a list of calls.\<close>

fun run_or :: "int \<Rightarrow> int io list \<Rightarrow> int io" where
  "run_or r [] = ret r"
| "run_or r (f # fs) = do { r' \<leftarrow> f; run_or (r OR r') fs }"

section \<open>Control transfers\<close>

definition usb_ctrl :: "u8 \<Rightarrow> u16 \<Rightarrow> u16 \<Rightarrow> u8 list \<Rightarrow> u16 \<Rightarrow> (int \<times> u8 list) io" where
  "usb_ctrl bm_req_type wValue wIndex data wLength = do {
     s \<leftarrow> State_Monad.get;
     let a = rt_env s (length (rt_trace s)) wLength;
     let (r, data', d) = (case esp_libusb_control_transfer True (ca_mutex a) (ca_submit a) (ca_reply a)
                            bm_req_type wLength data (rt_usb s) of
                            Some x \<Rightarrow> x
                          | None \<Rightarrow> (-1, data, rt_usb s));
     State_Monad.set (s\<lparr>rt_usb := d, rt_trace := rt_trace s @
       [\<lparr>cx_type = bm_req_type, cx_value = wValue, cx_index = wIndex,
         cx_out = (if bm_req_type = CTRL_OUT then take (unat wLength) data else []),
         cx_len = unat wLength, cx_ret = r\<rparr>]\<rparr>);
     ret (r, data')
   }"

text \<open>Every caller passes an 8-bit length, and for those a transfer does return.\<close>

lemma short_transfer_returns:
  assumes "wLength < 256"
  shows "esp_libusb_control_transfer h m e c ty wLength data d \<noteq> None"
proof -
  have "\<not> 256 \<le> wLength" using assms by simp
  then show ?thesis by (auto simp: esp_libusb_control_transfer_def ctrl_transfer_locked_def Let_def split: option.split prod.split)
qed

definition stack_bytes :: "u8 list io" where
  "stack_bytes = the_dev (\<lambda>s. take 2 (ca_stack (rt_env s (length (rt_trace s)) 0) @ [0, 0]))"

abbreviation USBB :: u8 where "USBB \<equiv> 1"
abbreviation SYSB :: u8 where "SYSB \<equiv> 2"
abbreviation IICB :: u8 where "IICB \<equiv> 6"

abbreviation USB_SYSCTL :: u16 where "USB_SYSCTL \<equiv> 0x2000"
abbreviation USB_EPA_CTL :: u16 where "USB_EPA_CTL \<equiv> 0x2148"
abbreviation USB_EPA_MAXPKT :: u16 where "USB_EPA_MAXPKT \<equiv> 0x2158"

abbreviation DEMOD_CTL :: u16 where "DEMOD_CTL \<equiv> 0x3000"
abbreviation GPO :: u16 where "GPO \<equiv> 0x3001"
abbreviation GPOE :: u16 where "GPOE \<equiv> 0x3003"
abbreviation GPD :: u16 where "GPD \<equiv> 0x3004"
abbreviation DEMOD_CTL_1 :: u16 where "DEMOD_CTL_1 \<equiv> 0x300b"

definition rtlsdr_read_array :: "u8 \<Rightarrow> u16 \<Rightarrow> u8 list \<Rightarrow> u8 \<Rightarrow> (int \<times> u8 list) io" where
  "rtlsdr_read_array block addr array len = usb_ctrl CTRL_IN addr (push_bit 8 (ucast block)) array (ucast len)"

definition rtlsdr_write_array :: "u8 \<Rightarrow> u16 \<Rightarrow> u8 list \<Rightarrow> u8 \<Rightarrow> int io" where
  "rtlsdr_write_array block addr array len = do {
     (r, _) \<leftarrow> usb_ctrl CTRL_OUT addr (push_bit 8 (ucast block) OR 0x10) array (ucast len);
     ret r
   }"

definition rtlsdr_i2c_write_reg :: "u8 \<Rightarrow> u8 \<Rightarrow> u8 \<Rightarrow> int io" where
  "rtlsdr_i2c_write_reg i2c_addr reg val = rtlsdr_write_array IICB (ucast i2c_addr) [reg, val] 2"

definition rtlsdr_i2c_read_reg :: "u8 \<Rightarrow> u8 \<Rightarrow> u8 io" where
  "rtlsdr_i2c_read_reg i2c_addr reg = do {
     _ \<leftarrow> rtlsdr_write_array IICB (ucast i2c_addr) [reg] 1;
     (_, data) \<leftarrow> rtlsdr_read_array IICB (ucast i2c_addr) [0] 1;
     ret (data ! 0)
   }"

text \<open>The length is an \<open>int\<close> that the call narrows to \<open>uint8_t\<close>.\<close>

definition rtlsdr_i2c_write_fn :: "u8 \<Rightarrow> u8 list \<Rightarrow> nat \<Rightarrow> int io" where
  "rtlsdr_i2c_write_fn addr buffer len = rtlsdr_write_array IICB (ucast addr) buffer (of_nat len)"

definition rtlsdr_i2c_read_fn :: "u8 \<Rightarrow> u8 list \<Rightarrow> nat \<Rightarrow> (int \<times> u8 list) io" where
  "rtlsdr_i2c_read_fn addr buffer len = rtlsdr_read_array IICB (ucast addr) buffer (of_nat len)"

definition reg_value :: "u8 list \<Rightarrow> u16" where
  "reg_value data = push_bit 8 (ucast (data ! 1)) OR ucast (data ! 0)"

definition reg_bytes :: "u16 \<Rightarrow> u8 \<Rightarrow> u8 list" where
  "reg_bytes val len = [if len = 1 then ucast (val AND 0xff) else ucast (drop_bit 8 val), ucast (val AND 0xff)]"

definition rtlsdr_read_reg :: "u8 \<Rightarrow> u16 \<Rightarrow> u8 \<Rightarrow> u16 io" where
  "rtlsdr_read_reg block addr len = do {
     data \<leftarrow> stack_bytes;
     (_, data) \<leftarrow> usb_ctrl CTRL_IN addr (push_bit 8 (ucast block)) data (ucast len);
     ret (reg_value data)
   }"

definition rtlsdr_write_reg :: "u8 \<Rightarrow> u16 \<Rightarrow> u16 \<Rightarrow> u8 \<Rightarrow> int io" where
  "rtlsdr_write_reg block addr val len = do {
     (r, _) \<leftarrow> usb_ctrl CTRL_OUT addr (push_bit 8 (ucast block) OR 0x10) (reg_bytes val len) (ucast len);
     ret r
   }"

definition rtlsdr_demod_read_reg :: "u8 \<Rightarrow> u16 \<Rightarrow> u8 \<Rightarrow> u16 io" where
  "rtlsdr_demod_read_reg page addr len = do {
     (_, data) \<leftarrow> usb_ctrl CTRL_IN (push_bit 8 addr OR 0x20) (ucast page) [0, 0] (ucast len);
     ret (reg_value data)
   }"

definition rtlsdr_demod_write_reg :: "u8 \<Rightarrow> u16 \<Rightarrow> u16 \<Rightarrow> u8 \<Rightarrow> int io" where
  "rtlsdr_demod_write_reg page addr val len = do {
     (r, _) \<leftarrow> usb_ctrl CTRL_OUT (push_bit 8 addr OR 0x20) (0x10 OR ucast page) (reg_bytes val len) (ucast len);
     _ \<leftarrow> rtlsdr_demod_read_reg 0x0a 0x01 1;
     ret (if r = int (unat len) then 0 else -1)
   }"

section \<open>GPIO and the I2C repeater\<close>

definition rtlsdr_set_gpio_bit :: "u8 \<Rightarrow> bool \<Rightarrow> unit io" where
  "rtlsdr_set_gpio_bit gpio val = do {
     let gpio = (push_bit (unat gpio) 1 :: u8);
     r \<leftarrow> rtlsdr_read_reg SYSB GPO 1;
     let r = (if val then r OR ucast gpio else r AND NOT (ucast gpio));
     _ \<leftarrow> rtlsdr_write_reg SYSB GPO r 1;
     ret ()
   }"

definition rtlsdr_set_gpio_output :: "u8 \<Rightarrow> unit io" where
  "rtlsdr_set_gpio_output gpio = do {
     let gpio = (push_bit (unat gpio) 1 :: u8);
     r \<leftarrow> rtlsdr_read_reg SYSB GPD 1;
     _ \<leftarrow> rtlsdr_write_reg SYSB GPD (r AND NOT (ucast gpio)) 1;
     r \<leftarrow> rtlsdr_read_reg SYSB GPOE 1;
     _ \<leftarrow> rtlsdr_write_reg SYSB GPOE (r OR ucast gpio) 1;
     ret ()
   }"

definition rtlsdr_set_bias_tee_gpio :: "u8 \<Rightarrow> bool \<Rightarrow> int io" where
  "rtlsdr_set_bias_tee_gpio gpio on = do { rtlsdr_set_gpio_output gpio; rtlsdr_set_gpio_bit gpio on; ret 0 }"

definition rtlsdr_set_i2c_repeater :: "int \<Rightarrow> unit io" where
  "rtlsdr_set_i2c_repeater on = do {
     cur \<leftarrow> the_dev rt_repeater;
     if on = cur then ret ()
     else do {
       let on = (if on \<noteq> 0 then 1 else 0);
       modify (\<lambda>s. s\<lparr>rt_repeater := on\<rparr>);
       _ \<leftarrow> rtlsdr_demod_write_reg 1 0x01 (if on \<noteq> 0 then 0x18 else 0x10) 1;
       ret ()
     }
   }"

section \<open>The FIR filter\<close>

definition fir_default :: "int list" where
  "fir_default = [-54, -36, -41, -40, -32, -14, 14, 53, 101, 156, 215, 273, 327, 372, 404, 421]"

definition fir_ok :: "int list \<Rightarrow> bool" where
  "fir_ok fir \<longleftrightarrow> list_all (\<lambda>v. -128 \<le> v \<and> v \<le> 127) (take 8 fir) \<and>
     list_all (\<lambda>v. -2048 \<le> v \<and> v \<le> 2047) (drop 8 fir)"

definition fir_bytes :: "int list \<Rightarrow> u8 list" where
  "fir_bytes fir =
     map word_of_int (take 8 fir) @
     concat (map (\<lambda>k. let val0 = fir ! (8 + 2 * k); val1 = fir ! (8 + 2 * k + 1)
                      in [word_of_int (drop_bit 4 val0),
                          word_of_int (push_bit 4 val0 OR (drop_bit 8 val1 AND 0x0f)),
                          word_of_int val1]) [0..<4])"

primrec fir_write :: "nat \<Rightarrow> u8 list \<Rightarrow> int io" where
  "fir_write i [] = ret 0"
| "fir_write i (b # bs) = do {
     r \<leftarrow> rtlsdr_demod_write_reg 1 (0x1c + of_nat i) (ucast b) 1;
     if r \<noteq> 0 then ret (-1) else fir_write (i + 1) bs
   }"

definition rtlsdr_set_fir :: "int io" where
  "rtlsdr_set_fir = do {
     fir \<leftarrow> the_dev rt_fir;
     if \<not> fir_ok fir then ret (-1) else fir_write 0 (fir_bytes fir)
   }"

section \<open>The base band\<close>

definition baseband_fir :: "int io list" where
  "baseband_fir =
     [rtlsdr_demod_write_reg 1 0x1c 0xca 1, rtlsdr_demod_write_reg 1 0x1d 0xdc 1,
      rtlsdr_demod_write_reg 1 0x1e 0xd7 1, rtlsdr_demod_write_reg 1 0x1f 0xd8 1,
      rtlsdr_demod_write_reg 1 0x20 0xe0 1, rtlsdr_demod_write_reg 1 0x21 0xf2 1,
      rtlsdr_demod_write_reg 1 0x22 0x0e 1, rtlsdr_demod_write_reg 1 0x23 0x35 1,
      rtlsdr_demod_write_reg 1 0x24 0x06 1, rtlsdr_demod_write_reg 1 0x25 0x50 1,
      rtlsdr_demod_write_reg 1 0x26 0x9c 1, rtlsdr_demod_write_reg 1 0x27 0x0d 1,
      rtlsdr_demod_write_reg 1 0x28 0x71 1, rtlsdr_demod_write_reg 1 0x29 0x11 1,
      rtlsdr_demod_write_reg 1 0x2a 0x14 1, rtlsdr_demod_write_reg 1 0x2b 0x71 1,
      rtlsdr_demod_write_reg 1 0x2c 0x74 1, rtlsdr_demod_write_reg 1 0x2d 0x19 1,
      rtlsdr_demod_write_reg 1 0x2e 0x41 1, rtlsdr_demod_write_reg 1 0x2f 0xa5 1]"

definition rtlsdr_init_baseband :: "unit io" where
  "rtlsdr_init_baseband = run_all
     ([rtlsdr_write_reg USBB USB_SYSCTL 0x09 1,
       rtlsdr_write_reg USBB USB_EPA_MAXPKT 0x0002 2,
       rtlsdr_write_reg USBB USB_EPA_CTL 0x1002 2,
       rtlsdr_write_reg SYSB DEMOD_CTL_1 0x22 1,
       rtlsdr_write_reg SYSB DEMOD_CTL 0xe8 1,
       rtlsdr_demod_write_reg 1 0x01 0x14 1,
       rtlsdr_demod_write_reg 1 0x01 0x10 1,
       rtlsdr_demod_write_reg 1 0x15 0x00 1,
       rtlsdr_demod_write_reg 1 0x16 0x0000 2] @
      map (\<lambda>i. rtlsdr_demod_write_reg 1 (0x16 + of_nat i) 0x00 1) [0..<6] @
      baseband_fir @
      [rtlsdr_demod_write_reg 0 0x19 0x05 1,
       rtlsdr_demod_write_reg 1 0x93 0xf0 1,
       rtlsdr_demod_write_reg 1 0x94 0x0f 1,
       rtlsdr_demod_write_reg 1 0x11 0x00 1,
       rtlsdr_demod_write_reg 1 0x04 0x00 1,
       rtlsdr_demod_write_reg 0 0x61 0x60 1,
       rtlsdr_demod_write_reg 0 0x06 0x80 1,
       rtlsdr_demod_write_reg 1 0xb1 0x1b 1,
       rtlsdr_demod_write_reg 0 0x0d 0x83 1])"

section \<open>Frequencies\<close>

definition apply_ppm_corr :: "u32 \<Rightarrow> int \<Rightarrow> u32" where
  "apply_ppm_corr val ppm =
     word_of_int (trunc (dbl (of_nat (unat val) * dbl (1 + dbl (of_int ppm / 1000000)))))"

definition corrected_rtl_xtal :: "rtl \<Rightarrow> u32" where
  "corrected_rtl_xtal s = apply_ppm_corr (rt_rtl_xtal s) (rt_corr s)"

definition corrected_tun_xtal :: "rtl \<Rightarrow> u32" where
  "corrected_tun_xtal s = apply_ppm_corr (rt_tun_xtal s) (rt_corr s)"

definition if_freq_value :: "u32 \<Rightarrow> u32 \<Rightarrow> int" where
  "if_freq_value freq rtl_xtal =
     - trunc (dbl (dbl (of_nat (unat freq) * 2 ^ 22) / of_nat (unat rtl_xtal)))"

definition rtlsdr_set_if_freq :: "u32 \<Rightarrow> int io" where
  "rtlsdr_set_if_freq freq = do {
     rtl_xtal \<leftarrow> the_dev corrected_rtl_xtal;
     let if_freq = if_freq_value freq rtl_xtal;
     run_or 0
       [rtlsdr_demod_write_reg 1 0x19 (word_of_int (drop_bit 16 if_freq AND 0x3f)) 1,
        rtlsdr_demod_write_reg 1 0x1a (word_of_int (drop_bit 8 if_freq AND 0xff)) 1,
        rtlsdr_demod_write_reg 1 0x1b (word_of_int (if_freq AND 0xff)) 1]
   }"

text \<open>\<open>int16_t\<close> holds the offset of any correction up to 1953 ppm.\<close>

definition freq_corr_value :: "int \<Rightarrow> int" where
  "freq_corr_value ppm = trunc (dbl (dbl (of_int (- ppm) * 2 ^ 24) / 1000000))"

definition rtlsdr_set_sample_freq_correction :: "int \<Rightarrow> int io" where
  "rtlsdr_set_sample_freq_correction ppm = do {
     let offs = freq_corr_value ppm;
     run_or 0
       [rtlsdr_demod_write_reg 1 0x3f (word_of_int (offs AND 0xff)) 1,
        rtlsdr_demod_write_reg 1 0x3e (word_of_int (drop_bit 8 offs AND 0x3f)) 1]
   }"

section \<open>The EEPROM\<close>

abbreviation EEPROM_ADDR :: u16 where "EEPROM_ADDR \<equiv> 0xa0"

text \<open>\<open>cmd\<close> keeps what the last iteration left in it.\<close>

primrec eeprom_write_loop :: "nat \<Rightarrow> u8 list \<Rightarrow> u8 \<Rightarrow> u8 list \<Rightarrow> int io" where
  "eeprom_write_loop i [] offset cmd = ret 0"
| "eeprom_write_loop i (b # bs) offset cmd = do {
     let cmd = cmd[0 := of_nat i + offset];
     _ \<leftarrow> rtlsdr_write_array IICB EEPROM_ADDR cmd 1;
     (_, got) \<leftarrow> rtlsdr_read_array IICB EEPROM_ADDR [cmd ! 1] 1;
     let cmd = cmd[1 := got ! 0];
     if cmd ! 1 = b then eeprom_write_loop (i + 1) bs offset cmd
     else do {
       let cmd = cmd[1 := b];
       r \<leftarrow> rtlsdr_write_array IICB EEPROM_ADDR cmd 2;
       if r \<noteq> 2 then ret (-3) else eeprom_write_loop (i + 1) bs offset cmd
     }
   }"

definition rtlsdr_write_eeprom :: "u8 list \<Rightarrow> u8 \<Rightarrow> u16 \<Rightarrow> int io" where
  "rtlsdr_write_eeprom data offset len =
     (if 256 < unat len + unat offset then ret (-2)
      else do { cmd \<leftarrow> stack_bytes; eeprom_write_loop 0 (take (unat len) data) offset cmd })"

text \<open>The bytes of the caller's array are returned with the result.\<close>

primrec eeprom_read_loop :: "nat \<Rightarrow> nat \<Rightarrow> int \<Rightarrow> u8 list \<Rightarrow> (int \<times> u8 list) io" where
  "eeprom_read_loop i 0 r data = ret (r, data)"
| "eeprom_read_loop i (Suc n) r data = do {
     (r, got) \<leftarrow> rtlsdr_read_array IICB EEPROM_ADDR [data ! i] 1;
     let data = data[i := got ! 0];
     if r < 0 then ret (-3, data) else eeprom_read_loop (i + 1) n r data
   }"

definition rtlsdr_read_eeprom :: "u8 list \<Rightarrow> u8 \<Rightarrow> u16 \<Rightarrow> (int \<times> u8 list) io" where
  "rtlsdr_read_eeprom data offset len =
     (if 256 < unat len + unat offset then ret (-2, data)
      else do {
        r \<leftarrow> rtlsdr_write_array IICB EEPROM_ADDR [offset] 1;
        if r < 0 then ret (-3, data) else eeprom_read_loop 0 (unat len) r data
      })"

end
