(* ===== verification/R82xx.thy ===== *)
theory R82xx
  imports RtlDev "HOL-Library.Signed_Division"
begin

text \<open>
  The tuner of the supported dongles, \<open>main/tuner_r82xx.c\<close>: the shadow registers and the register
  accesses, the input filters, the synthesiser, the system and bandwidth settings, the gains and the
  set-up. A failed read returns no bytes, since every caller gives up on it.
\<close>

section \<open>Register access\<close>

definition REG_SHADOW_START :: nat where
  "REG_SHADOW_START = 5"

definition NUM_REGS :: nat where
  "NUM_REGS = 30"

definition R828D_XTAL_FREQ :: u32 where
  "R828D_XTAL_FREQ = 16000000"

text \<open>The initialiser names 27 of the registers; C fills the rest with zeros.\<close>

definition r82xx_init_array :: "u8 list" where
  "r82xx_init_array =
     [0x83, 0x32, 0x75, 0xc0, 0x40, 0xd6, 0x6c, 0xf5, 0x63, 0x75, 0x68, 0x6c, 0x83, 0x80, 0x00,
      0x0f, 0x00, 0xc0, 0x30, 0x48, 0xcc, 0x60, 0x00, 0x54, 0xae, 0x4a, 0xc0, 0, 0, 0]"

definition upd_priv :: "(r82xx_priv \<Rightarrow> r82xx_priv) \<Rightarrow> unit io" where
  "upd_priv f = modify (\<lambda>s. s\<lparr>rt_priv := f (rt_priv s)\<rparr>)"

definition upd_cfg :: "(r82xx_config \<Rightarrow> r82xx_config) \<Rightarrow> unit io" where
  "upd_cfg f = modify (\<lambda>s. s\<lparr>rt_cfg := f (rt_cfg s)\<rparr>)"

definition shadow_store :: "u8 \<Rightarrow> u8 list \<Rightarrow> r82xx_priv \<Rightarrow> r82xx_priv" where
  "shadow_store reg val p =
     (let r = int (unat reg) - int REG_SHADOW_START; len = int (length val);
          len = (if r < 0 then len + r else len); r = (if r < 0 then 0 else r)
      in if len \<le> 0 then p
         else let len = (if int NUM_REGS - r < len then int NUM_REGS - r else len)
              in p\<lparr>rx_regs := overlay (nat r) (take (nat len) val) (rx_regs p)\<rparr>)"

text \<open>
  The blocks the write is cut into. \<open>r820t_init\<close> sets \<open>max_i2c_msg_len\<close> to 8, so a block has up to
  seven bytes (the code would not get on with blocks of none).
\<close>

function chunk_list :: "nat \<Rightarrow> 'a list \<Rightarrow> 'a list list" where
  "chunk_list room xs =
     (if room = 0 \<or> length xs \<le> room then [xs] else take room xs # chunk_list room (drop room xs))"
  by pat_completeness auto

termination
  by (relation "measure (\<lambda>(room, xs). length xs)") auto

declare chunk_list.simps [simp del]

primrec write_chunks :: "u8 \<Rightarrow> u8 \<Rightarrow> u8 list list \<Rightarrow> int io" where
  "write_chunks addr reg [] = ret 0"
| "write_chunks addr reg (c # cs) = do {
     rc \<leftarrow> rtlsdr_i2c_write_fn addr (reg # c) (length c + 1);
     if rc \<noteq> int (length c) + 1 then ret (if rc < 0 then rc else -1)
     else write_chunks addr (reg + of_nat (length c)) cs
   }"

definition r82xx_write :: "u8 \<Rightarrow> u8 list \<Rightarrow> int io" where
  "r82xx_write reg val = do {
     upd_priv (shadow_store reg val);
     cfg \<leftarrow> the_dev rt_cfg;
     write_chunks (rc_i2c_addr cfg) reg (chunk_list (rc_max_i2c_msg_len cfg - 1) val)
   }"

definition r82xx_write_reg :: "u8 \<Rightarrow> u8 \<Rightarrow> int io" where
  "r82xx_write_reg reg val = r82xx_write reg [val]"

definition r82xx_read_cache_reg :: "u8 \<Rightarrow> r82xx_priv \<Rightarrow> int" where
  "r82xx_read_cache_reg reg p =
     (if REG_SHADOW_START \<le> unat reg \<and> unat reg - REG_SHADOW_START < NUM_REGS
      then int (unat (rx_regs p ! (unat reg - REG_SHADOW_START))) else -1)"

definition r82xx_write_reg_mask :: "u8 \<Rightarrow> u8 \<Rightarrow> u8 \<Rightarrow> int io" where
  "r82xx_write_reg_mask reg val bit_mask = do {
     rc \<leftarrow> the_dev (\<lambda>s. r82xx_read_cache_reg reg (rt_priv s));
     if rc < 0 then ret rc
     else r82xx_write reg [(word_of_int rc AND NOT bit_mask) OR (val AND bit_mask)]
   }"

definition bitrev_lut :: "u8 list" where
  "bitrev_lut = [0x0, 0x8, 0x4, 0xc, 0x2, 0xa, 0x6, 0xe, 0x1, 0x9, 0x5, 0xd, 0x3, 0xb, 0x7, 0xf]"

definition r82xx_bitrev :: "u8 \<Rightarrow> u8" where
  "r82xx_bitrev b = push_bit 4 (bitrev_lut ! unat (b AND 0xf)) OR bitrev_lut ! unat (drop_bit 4 b)"

definition r82xx_read :: "u8 \<Rightarrow> nat \<Rightarrow> (int \<times> u8 list) io" where
  "r82xx_read reg len = do {
     addr \<leftarrow> the_dev (\<lambda>s. rc_i2c_addr (rt_cfg s));
     rc \<leftarrow> rtlsdr_i2c_write_fn addr [reg] 1;
     if rc \<noteq> 1 then ret (if rc < 0 then rc else -1, [])
     else do {
       (rc, p) \<leftarrow> rtlsdr_i2c_read_fn addr (replicate len 0) len;
       if rc \<noteq> int len then ret (if rc < 0 then rc else -1, [])
       else ret (0, map r82xx_bitrev p)
     }
   }"

section \<open>Input filters\<close>

record r82xx_freq_range =
  fr_freq :: u32
  fr_open_d :: u8
  fr_rf_mux_ploy :: u8
  fr_tf_c :: u8
  fr_xtal_cap20p :: u8
  fr_xtal_cap10p :: u8
  fr_xtal_cap0p :: u8

definition range_of :: "u32 \<Rightarrow> u8 \<Rightarrow> u8 \<Rightarrow> u8 \<Rightarrow> u8 \<Rightarrow> u8 \<Rightarrow> u8 \<Rightarrow> r82xx_freq_range" where
  "range_of f od mux tf c20 c10 c0 = \<lparr>fr_freq = f, fr_open_d = od, fr_rf_mux_ploy = mux, fr_tf_c = tf,
     fr_xtal_cap20p = c20, fr_xtal_cap10p = c10, fr_xtal_cap0p = c0\<rparr>"

definition freq_ranges :: "r82xx_freq_range list" where
  "freq_ranges =
     [range_of 0 0x08 0x02 0xdf 0x02 0x01 0x00,
      range_of 50 0x08 0x02 0xbe 0x02 0x01 0x00,
      range_of 55 0x08 0x02 0x8b 0x02 0x01 0x00,
      range_of 60 0x08 0x02 0x7b 0x02 0x01 0x00,
      range_of 65 0x08 0x02 0x69 0x02 0x01 0x00,
      range_of 70 0x08 0x02 0x58 0x02 0x01 0x00,
      range_of 75 0x00 0x02 0x44 0x02 0x01 0x00,
      range_of 80 0x00 0x02 0x44 0x02 0x01 0x00,
      range_of 90 0x00 0x02 0x34 0x01 0x01 0x00,
      range_of 100 0x00 0x02 0x34 0x01 0x01 0x00,
      range_of 110 0x00 0x02 0x24 0x01 0x01 0x00,
      range_of 120 0x00 0x02 0x24 0x01 0x01 0x00,
      range_of 140 0x00 0x02 0x14 0x01 0x01 0x00,
      range_of 180 0x00 0x02 0x13 0x00 0x00 0x00,
      range_of 220 0x00 0x02 0x13 0x00 0x00 0x00,
      range_of 250 0x00 0x02 0x11 0x00 0x00 0x00,
      range_of 280 0x00 0x02 0x00 0x00 0x00 0x00,
      range_of 310 0x00 0x41 0x00 0x00 0x00 0x00,
      range_of 450 0x00 0x41 0x00 0x00 0x00 0x00,
      range_of 588 0x00 0x40 0x00 0x00 0x00 0x00,
      range_of 650 0x00 0x40 0x00 0x00 0x00 0x00]"

definition mux_range :: "u32 \<Rightarrow> r82xx_freq_range" where
  "mux_range freq =
     freq_ranges ! (case find (\<lambda>i. freq div 1000000 < fr_freq (freq_ranges ! (i + 1))) [0..<length freq_ranges - 1] of
        Some i \<Rightarrow> i | None \<Rightarrow> length freq_ranges - 1)"

definition xtal_cap_value :: "r82xx_xtal_cap_value \<Rightarrow> r82xx_freq_range \<Rightarrow> u8" where
  "xtal_cap_value sel fr =
     (case sel of
        XTAL_LOW_CAP_30P \<Rightarrow> fr_xtal_cap20p fr OR 0x08
      | XTAL_LOW_CAP_20P \<Rightarrow> fr_xtal_cap20p fr OR 0x08
      | XTAL_LOW_CAP_10P \<Rightarrow> fr_xtal_cap10p fr OR 0x08
      | XTAL_HIGH_CAP_0P \<Rightarrow> fr_xtal_cap0p fr OR 0x00
      | XTAL_LOW_CAP_0P \<Rightarrow> fr_xtal_cap0p fr OR 0x08)"

definition r82xx_set_mux :: "u32 \<Rightarrow> int io" where
  "r82xx_set_mux freq = do {
     sel \<leftarrow> the_dev (\<lambda>s. rx_xtal_cap_sel (rt_priv s));
     let fr = mux_range freq;
     run_checked
       [r82xx_write_reg_mask 0x17 (fr_open_d fr) 0x08,
        r82xx_write_reg_mask 0x1a (fr_rf_mux_ploy fr) 0xc3,
        r82xx_write_reg 0x1b (fr_tf_c fr),
        r82xx_write_reg_mask 0x10 (xtal_cap_value sel fr) 0x0b,
        r82xx_write_reg_mask 0x08 0x00 0x3f,
        r82xx_write_reg_mask 0x09 0x00 0x3f]
   }"

section \<open>The synthesiser\<close>

definition freq_in_khz :: "u32 \<Rightarrow> u32" where
  "freq_in_khz freq = (freq + 500) div 1000"

text \<open>The divider \<open>2 ^ (k + 1)\<close> that brings the oscillator into its range, and \<open>k\<close>; 128 and 0 when none does.\<close>

definition pll_divider :: "u32 \<Rightarrow> u8 \<times> u8" where
  "pll_divider freq_khz =
     (case find (\<lambda>k. 1770000 \<le> freq_khz * 2 ^ (k + 1) \<and> freq_khz * 2 ^ (k + 1) < 1770000 * 2) [0..<6] of
        Some k \<Rightarrow> (2 ^ (k + 1), of_nat k)
      | None \<Rightarrow> (128, 0))"

definition fine_tune :: "u8 \<Rightarrow> u8 \<Rightarrow> u8 \<Rightarrow> u8" where
  "fine_tune vco_fine_tune vco_power_ref div_num =
     (if vco_power_ref < vco_fine_tune then div_num - 1
      else if vco_fine_tune < vco_power_ref then div_num + 1 else div_num)"

definition pll_vco :: "u32 \<Rightarrow> u8 \<Rightarrow> u64" where
  "pll_vco freq mix_div = ucast freq * ucast mix_div"

definition pll_nint :: "u64 \<Rightarrow> u32 \<Rightarrow> u8" where
  "pll_nint vco_freq pll_ref = ucast (vco_freq div ucast (2 * pll_ref))"

definition pll_vco_fra :: "u64 \<Rightarrow> u32 \<Rightarrow> u8 \<Rightarrow> u32" where
  "pll_vco_fra vco_freq pll_ref nint = ucast ((vco_freq - ucast (2 * pll_ref * ucast nint)) div 1000)"

definition pll_int_reg :: "u8 \<Rightarrow> u8" where
  "pll_int_reg nint =
     (let ni = (word_of_int ((uint nint - 13) sdiv 4) :: u8);
          si = (word_of_int (uint nint - 4 * uint ni - 13) :: u8)
      in ni + push_bit 6 si)"

text \<open>
  The fraction, with what is left of it. \<open>n_sdm\<close> runs through the powers of two up to 0x8000; after
  the last one it would be zero, and the division by it undefined (\<open>None\<close>).
\<close>

primrec sdm_loop :: "u16 list \<Rightarrow> u32 \<Rightarrow> u32 \<Rightarrow> u16 \<Rightarrow> (u16 \<times> u32) option" where
  "sdm_loop [] pll_ref_khz vco_fra sdm = (if 1 < vco_fra then None else Some (sdm, vco_fra))"
| "sdm_loop (n_sdm # ns) pll_ref_khz vco_fra sdm =
     (if 1 < vco_fra
      then if 2 * pll_ref_khz div ucast n_sdm < vco_fra
           then let sdm = sdm + 32768 div (n_sdm div 2); vco_fra = vco_fra - 2 * pll_ref_khz div ucast n_sdm
                in if 0x8000 \<le> n_sdm then Some (sdm, vco_fra) else sdm_loop ns pll_ref_khz vco_fra sdm
           else sdm_loop ns pll_ref_khz vco_fra sdm
      else Some (sdm, vco_fra))"

definition n_sdm_values :: "u16 list" where
  "n_sdm_values = map (\<lambda>k. 2 ^ (k + 1)) [0..<15]"

definition pll_sdm :: "u32 \<Rightarrow> u32 \<Rightarrow> (u16 \<times> u32) option" where
  "pll_sdm pll_ref_khz vco_fra = sdm_loop n_sdm_values pll_ref_khz vco_fra 0"

text \<open>The lock is looked for twice, the second time with more current. The result is the return code and the lock.\<close>

definition pll_wait_lock :: "(int \<times> bool) io" where
  "pll_wait_lock = do {
     (rc, data) \<leftarrow> r82xx_read 0x00 3;
     if rc < 0 then ret (rc, False)
     else if data ! 2 AND 0x40 \<noteq> 0 then ret (0, True)
     else do {
       rc \<leftarrow> r82xx_write_reg_mask 0x12 0x60 0xe0;
       if rc < 0 then ret (rc, False)
       else do {
         (rc, data) \<leftarrow> r82xx_read 0x00 3;
         if rc < 0 then ret (rc, False) else ret (0, data ! 2 AND 0x40 \<noteq> 0)
       }
     }
   }"

definition pll_program :: "u32 \<Rightarrow> u32 \<Rightarrow> u8 \<Rightarrow> u8 \<Rightarrow> int io" where
  "pll_program freq pll_ref mix_div vco_power_ref =
     (let vco_freq = pll_vco freq mix_div; nint = pll_nint vco_freq pll_ref;
          vco_fra = pll_vco_fra vco_freq pll_ref nint
      in if 128 div vco_power_ref - 1 < nint then ret (-1)
         else case pll_sdm (freq_in_khz pll_ref) vco_fra of
                None \<Rightarrow> ret (-1)
              | Some (sdm, _) \<Rightarrow> run_checked
                  [r82xx_write_reg 0x14 (pll_int_reg nint),
                   r82xx_write_reg_mask 0x12 (if vco_fra = 0 then 0x08 else 0x00) 0x08,
                   r82xx_write_reg 0x16 (ucast (drop_bit 8 sdm)),
                   r82xx_write_reg 0x15 (ucast (sdm AND 0xff))])"

text \<open>\<open>quiet\<close> only decides whether a missing lock is reported.\<close>

definition r82xx_set_pll_ref :: "u32 \<Rightarrow> u32 \<Rightarrow> int io" where
  "r82xx_set_pll_ref freq pll_ref = do {
     rc \<leftarrow> run_checked
       [r82xx_write_reg_mask 0x10 0x00 0x10,
        r82xx_write_reg_mask 0x1a 0x00 0x0c,
        r82xx_write_reg_mask 0x12 0x80 0xe0];
     if rc < 0 then ret rc
     else do {
       let (mix_div, div_num) = pll_divider (freq_in_khz freq);
       (rc, data) \<leftarrow> r82xx_read 0x00 5;
       if rc < 0 then ret rc
       else do {
         chip \<leftarrow> the_dev (\<lambda>s. rc_chip (rt_cfg s));
         let vco_power_ref = (if chip = CHIP_R828D then 1 else 2);
         let div_num = fine_tune (drop_bit 4 (data ! 4 AND 0x30)) vco_power_ref div_num;
         rc \<leftarrow> run_checked
           [r82xx_write_reg_mask 0x10 (push_bit 5 div_num) 0xe0,
            pll_program freq pll_ref mix_div vco_power_ref];
         if rc < 0 then ret rc
         else do {
           (rc, locked) \<leftarrow> pll_wait_lock;
           if rc < 0 then ret rc
           else do {
             upd_priv (\<lambda>p. p\<lparr>rx_has_lock := locked\<rparr>);
             if \<not> locked then ret 0 else r82xx_write_reg_mask 0x1a 0x08 0x08
           }
         }
       }
     }
   }"

definition r82xx_set_pll :: "u32 \<Rightarrow> int io" where
  "r82xx_set_pll freq = do {
     cfg \<leftarrow> the_dev rt_cfg;
     rc \<leftarrow> r82xx_set_pll_ref freq (rc_xtal cfg);
     lock \<leftarrow> the_dev (\<lambda>s. rx_has_lock (rt_priv s));
     if 0 \<le> rc \<and> \<not> lock \<and> rc_chip cfg = CHIP_R828D
     then do {
       let alt = (if rc_xtal cfg = R828D_XTAL_FREQ then 28800000 else R828D_XTAL_FREQ);
       rc \<leftarrow> r82xx_set_pll_ref freq alt;
       lock \<leftarrow> the_dev (\<lambda>s. rx_has_lock (rt_priv s));
       (if 0 \<le> rc \<and> lock then upd_cfg (\<lambda>c. c\<lparr>rc_xtal := alt\<rparr>) else ret ());
       ret rc
     }
     else ret rc
   }"

end
