(* ===== verification/R82xxSetup.thy ===== *)
theory R82xxSetup
  imports R82xx
begin

text \<open>
  The second half of \<open>main/tuner_r82xx.c\<close>: the system settings, the filter calibration, the gain and
  bandwidth settings, tuning, standby and the initialisation.
\<close>

section \<open>System settings\<close>

definition SYS_DVBT :: u32 where
  "SYS_DVBT = 1"

definition SYS_DVBT2 :: u32 where
  "SYS_DVBT2 = 2"

definition SYS_ISDBT :: u32 where
  "SYS_ISDBT = 3"

definition TUNER_ANALOG_TV :: int where
  "TUNER_ANALOG_TV = 2"

definition TUNER_DIGITAL_TV :: int where
  "TUNER_DIGITAL_TV = 3"

record sys_params =
  sy_mixer_top :: u8
  sy_lna_top :: u8
  sy_cp_cur :: u8
  sy_div_buf_cur :: u8
  sy_lna_vth_l :: u8
  sy_mixer_vth_l :: u8
  sy_air_cable1_in :: u8
  sy_cable2_in :: u8
  sy_pre_dect :: u8
  sy_lna_discharge :: u8
  sy_filter_cur :: u8

text \<open>The parameters of DVB-T, which the other systems and the default share up to a field or two.\<close>

definition dvbt_params :: sys_params where
  "dvbt_params = \<lparr>sy_mixer_top = 0x24, sy_lna_top = 0xe5, sy_cp_cur = 0x38, sy_div_buf_cur = 0x30,
     sy_lna_vth_l = 0x53, sy_mixer_vth_l = 0x75, sy_air_cable1_in = 0x00, sy_cable2_in = 0x00,
     sy_pre_dect = 0x40, sy_lna_discharge = 14, sy_filter_cur = 0x40\<rparr>"

definition sysfreq_params :: "u32 \<Rightarrow> u32 \<Rightarrow> sys_params" where
  "sysfreq_params freq delsys =
     (if delsys = SYS_DVBT then
        if freq = 506000000 \<or> freq = 666000000 \<or> freq = 818000000
        then dvbt_params\<lparr>sy_mixer_top := 0x14, sy_cp_cur := 0x28, sy_div_buf_cur := 0x20\<rparr>
        else dvbt_params
      else if delsys = SYS_DVBT2 then dvbt_params
      else if delsys = SYS_ISDBT then dvbt_params\<lparr>sy_lna_vth_l := 0x75\<rparr>
      else dvbt_params)"

definition r82xx_sysfreq_sel :: "u32 \<Rightarrow> int \<Rightarrow> u32 \<Rightarrow> int io" where
  "r82xx_sysfreq_sel freq type delsys =
     (let y = sysfreq_params freq delsys
      in do {
        predetect \<leftarrow> the_dev (\<lambda>s. rc_use_predetect (rt_cfg s));
        rc \<leftarrow> run_checked
          ((if predetect then [r82xx_write_reg_mask 0x06 (sy_pre_dect y) 0x40] else []) @
           [r82xx_write_reg_mask 0x1d (sy_lna_top y) 0xc7,
            r82xx_write_reg_mask 0x1c (sy_mixer_top y) 0xf8,
            r82xx_write_reg 0x0d (sy_lna_vth_l y),
            r82xx_write_reg 0x0e (sy_mixer_vth_l y)]);
        if rc < 0 then ret rc
        else do {
          upd_priv (\<lambda>p. p\<lparr>rx_input := sy_air_cable1_in y\<rparr>);
          run_checked
            ([r82xx_write_reg_mask 0x05 (sy_air_cable1_in y) 0x60,
              r82xx_write_reg_mask 0x06 (sy_cable2_in y) 0x08,
              r82xx_write_reg_mask 0x11 (sy_cp_cur y) 0x38,
              r82xx_write_reg_mask 0x17 (sy_div_buf_cur y) 0x30,
              r82xx_write_reg_mask 0x0a (sy_filter_cur y) 0x60] @
             (if type \<noteq> TUNER_ANALOG_TV
              then [r82xx_write_reg_mask 0x1d 0 0x38,
                    r82xx_write_reg_mask 0x1c 0 0x04,
                    r82xx_write_reg_mask 0x06 0 0x40,
                    r82xx_write_reg_mask 0x1a 0x30 0x30,
                    r82xx_write_reg_mask 0x1d 0x18 0x38,
                    r82xx_write_reg_mask 0x1c (sy_mixer_top y) 0x04,
                    r82xx_write_reg_mask 0x1e (sy_lna_discharge y) 0x1f,
                    r82xx_write_reg_mask 0x1a 0x20 0x30]
              else [r82xx_write_reg_mask 0x06 0 0x40,
                    r82xx_write_reg_mask 0x1d (sy_lna_top y) 0x38,
                    r82xx_write_reg_mask 0x1c (sy_mixer_top y) 0x04,
                    r82xx_write_reg_mask 0x1e (sy_lna_discharge y) 0x1f,
                    r82xx_write_reg_mask 0x1a 0x00 0x30,
                    r82xx_write_reg_mask 0x10 0x00 0x04]))
        }
      })"

section \<open>Filter calibration\<close>

text \<open>
  One round of the calibration: its return code, and whether the function returns here because of an
  error or because the synthesiser did not lock.
\<close>

definition calibrate_once :: "(int \<times> bool) io" where
  "calibrate_once = do {
     rc \<leftarrow> run_checked
       [r82xx_write_reg_mask 0x0b 0x6b 0x60,
        r82xx_write_reg_mask 0x0f 0x04 0x04,
        r82xx_write_reg_mask 0x10 0x00 0x03,
        r82xx_set_pll 56000000];
     lock \<leftarrow> the_dev (\<lambda>s. rx_has_lock (rt_priv s));
     if rc < 0 \<or> \<not> lock then ret (rc, True)
     else do {
       rc \<leftarrow> run_checked
         [r82xx_write_reg_mask 0x0b 0x10 0x10,
          r82xx_write_reg_mask 0x0b 0x00 0x10,
          r82xx_write_reg_mask 0x0f 0x00 0x04];
       if rc < 0 then ret (rc, True)
       else do {
         (rc, data) \<leftarrow> r82xx_read 0x00 5;
         if rc < 0 then ret (rc, True)
         else do {
           upd_priv (\<lambda>p. p\<lparr>rx_fil_cal_code := data ! 4 AND 0x0f\<rparr>);
           ret (0, False)
         }
       }
     }
   }"

text \<open>A second round is run when the first one found no code.\<close>

definition calibrate :: "(int \<times> bool) io" where
  "calibrate = do {
     (rc, stop) \<leftarrow> calibrate_once;
     code \<leftarrow> the_dev (\<lambda>s. rx_fil_cal_code (rt_priv s));
     (rc, stop) \<leftarrow> (if stop \<or> (code \<noteq> 0 \<and> code \<noteq> 0x0f) then ret (rc, stop) else calibrate_once);
     if stop then ret (rc, stop)
     else do {
       upd_priv (\<lambda>p. if rx_fil_cal_code p = 0x0f then p\<lparr>rx_fil_cal_code := 0\<rparr> else p);
       ret (rc, stop)
     }
   }"

definition r82xx_set_tv_standard :: "u32 \<Rightarrow> int \<Rightarrow> u32 \<Rightarrow> int io" where
  "r82xx_set_tv_standard bw type delsys = do {
     upd_priv (\<lambda>p. p\<lparr>rx_regs := r82xx_init_array\<rparr>);
     rc \<leftarrow> run_checked
       ([r82xx_write_reg_mask 0x0c 0x00 0x0f, r82xx_write_reg_mask 0x13 49 0x3f] @
        (if type \<noteq> TUNER_ANALOG_TV then [r82xx_write_reg_mask 0x1d 0x00 0x38] else []));
     if rc < 0 then ret rc
     else do {
       upd_priv (\<lambda>p. p\<lparr>rx_int_freq := 3570 * 1000\<rparr>);
       (rc, stop) \<leftarrow> calibrate;
       if stop then ret rc
       else do {
         code \<leftarrow> the_dev (\<lambda>s. rx_fil_cal_code (rt_priv s));
         rc \<leftarrow> run_checked
           [r82xx_write_reg_mask 0x0a (0x10 OR code) 0x1f,
            r82xx_write_reg_mask 0x0b 0x6b 0xef,
            r82xx_write_reg_mask 0x07 0x00 0x80,
            r82xx_write_reg_mask 0x06 0x10 0x30,
            r82xx_write_reg_mask 0x1e 0x60 0x60,
            r82xx_write_reg_mask 0x05 0x01 0x80,
            r82xx_write_reg_mask 0x1f 0x00 0x80,
            r82xx_write_reg_mask 0x0f 0x00 0x80,
            r82xx_write_reg_mask 0x19 0x60 0x60];
         if rc < 0 then ret rc
         else do {
           upd_priv (\<lambda>p. p\<lparr>rx_delsys := delsys, rx_type := type, rx_bw := bw\<rparr>);
           ret 0
         }
       }
     }
   }"

section \<open>Gain\<close>

definition r82xx_read_gain :: "int io" where
  "r82xx_read_gain = do {
     (rc, data) \<leftarrow> r82xx_read 0x00 4;
     if rc < 0 then ret rc
     else ret (int (unat (data ! 3 AND 0x0f)) * 2 + int (unat (drop_bit 4 (data ! 3 AND 0xf0))))
   }"

definition r82xx_lna_gain_steps :: "int list" where
  "r82xx_lna_gain_steps = [0, 9, 13, 40, 38, 13, 31, 22, 26, 31, 26, 14, 19, 5, 35, 13]"

definition r82xx_mixer_gain_steps :: "int list" where
  "r82xx_mixer_gain_steps = [0, 5, 10, 10, 19, 9, 10, 25, 17, 10, 8, 16, 13, 6, 3, -8]"

text \<open>The gain reached and the two indices, with the number of rounds left.\<close>

primrec gain_loop :: "nat \<Rightarrow> int \<Rightarrow> int \<Rightarrow> nat \<Rightarrow> nat \<Rightarrow> int \<times> nat \<times> nat" where
  "gain_loop 0 gain reached lna mix = (reached, lna, mix)"
| "gain_loop (Suc n) gain reached lna mix =
     (if gain \<le> reached then (reached, lna, mix)
      else let lna = lna + 1; reached = reached + r82xx_lna_gain_steps ! lna
           in if gain \<le> reached then (reached, lna, mix)
              else let mix = mix + 1; reached = reached + r82xx_mixer_gain_steps ! mix
                   in gain_loop n gain reached lna mix)"

definition gain_indices :: "int \<Rightarrow> int \<times> nat \<times> nat" where
  "gain_indices gain = gain_loop 15 gain 0 0 0"

definition r82xx_set_gain :: "bool \<Rightarrow> int \<Rightarrow> int io" where
  "r82xx_set_gain set_manual_gain gain =
     (if set_manual_gain
      then do {
        rc \<leftarrow> run_checked [r82xx_write_reg_mask 0x05 0x10 0x10, r82xx_write_reg_mask 0x07 0 0x10];
        if rc < 0 then ret rc
        else do {
          (rc, _) \<leftarrow> r82xx_read 0x00 4;
          if rc < 0 then ret rc
          else
            let (_, lna_index, mix_index) = gain_indices gain
            in run_checked
              [r82xx_write_reg_mask 0x0c 0x08 0x9f,
               r82xx_write_reg_mask 0x05 (of_nat lna_index) 0x0f,
               r82xx_write_reg_mask 0x07 (of_nat mix_index) 0x0f]
        }
      }
      else run_checked
        [r82xx_write_reg_mask 0x05 0 0x10,
         r82xx_write_reg_mask 0x07 0x10 0x10,
         r82xx_write_reg_mask 0x0c 0x0b 0x9f])"

section \<open>Bandwidth\<close>

definition r82xx_if_low_pass_bw_table :: "int list" where
  "r82xx_if_low_pass_bw_table = [1700000, 1600000, 1550000, 1450000, 1200000, 900000, 700000, 550000, 450000, 350000]"

definition FILT_HP_BW1 :: int where
  "FILT_HP_BW1 = 350000"

definition FILT_HP_BW2 :: int where
  "FILT_HP_BW2 = 380000"

text \<open>The index after the search; the code then steps back by one.\<close>

definition low_pass_search :: "int \<Rightarrow> nat" where
  "low_pass_search bw =
     (case find (\<lambda>i. r82xx_if_low_pass_bw_table ! i < bw) [0..<length r82xx_if_low_pass_bw_table] of
        Some i \<Rightarrow> i | None \<Rightarrow> length r82xx_if_low_pass_bw_table)"

text \<open>The two registers, the intermediate frequency, and the width: \<open>real_bw\<close>, or what the wide filters are for.\<close>

definition narrow_filter :: "int \<Rightarrow> u8 \<times> u8 \<times> int \<times> int" where
  "narrow_filter bw =
     (let t0 = r82xx_if_low_pass_bw_table ! 0;
          (bw, int_freq, real_bw, reg_0b) =
            (if t0 + FILT_HP_BW1 < bw then (bw - FILT_HP_BW2, 2300000 + FILT_HP_BW2, FILT_HP_BW2, 0x80 :: u8)
             else (bw, 2300000, 0, 0x80 OR 0x20));
          (bw, int_freq, real_bw, reg_0b) =
            (if t0 < bw then (bw - FILT_HP_BW1, int_freq + FILT_HP_BW1, real_bw + FILT_HP_BW1, reg_0b)
             else (bw, int_freq, real_bw, reg_0b OR 0x40));
          i = low_pass_search bw - 1;
          reg_0b = reg_0b OR of_nat (15 - i);
          real_bw = real_bw + r82xx_if_low_pass_bw_table ! i
      in (0x00, reg_0b, int_freq - real_bw div 2, real_bw))"

definition bandwidth_filter :: "int \<Rightarrow> u8 \<times> u8 \<times> int \<times> int" where
  "bandwidth_filter bw =
     (if 7000000 < bw then (0x10, 0x0b, 4570000, 8000000)
      else if 6000000 < bw then (0x10, 0x2a, 4570000, 7000000)
      else if r82xx_if_low_pass_bw_table ! 0 + FILT_HP_BW1 + FILT_HP_BW2 < bw then (0x10, 0x6b, 3570000, 6000000)
      else narrow_filter bw)"

definition r82xx_set_bandwidth :: "int \<Rightarrow> int io" where
  "r82xx_set_bandwidth bw =
     (let (reg_0a, reg_0b, int_freq, _) = bandwidth_filter bw
      in do {
        upd_priv (\<lambda>p. p\<lparr>rx_int_freq := word_of_int int_freq\<rparr>);
        rc \<leftarrow> run_checked [r82xx_write_reg_mask 0x0a reg_0a 0x10, r82xx_write_reg_mask 0x0b reg_0b 0xef];
        if rc < 0 then ret rc else ret int_freq
      })"

section \<open>Tuning and standby\<close>

definition r82xx_set_freq :: "u32 \<Rightarrow> int io" where
  "r82xx_set_freq freq = do {
     int_freq \<leftarrow> the_dev (\<lambda>s. rx_int_freq (rt_priv s));
     let lo_freq = freq + int_freq;
     rc \<leftarrow> r82xx_set_mux lo_freq;
     if rc < 0 then ret rc
     else do {
       rc \<leftarrow> r82xx_set_pll lo_freq;
       s \<leftarrow> State_Monad.get;
       if rc < 0 \<or> \<not> rx_has_lock (rt_priv s) then ret rc
       else
         let air_cable1_in = (if 345000000 < freq then 0x00 else 0x60)
         in if rc_chip (rt_cfg s) = CHIP_R828D \<and> air_cable1_in \<noteq> rx_input (rt_priv s)
            then do {
              upd_priv (\<lambda>p. p\<lparr>rx_input := air_cable1_in\<rparr>);
              r82xx_write_reg_mask 0x05 air_cable1_in 0x60
            }
            else ret rc
     }
   }"

definition standby_writes :: "int io list" where
  "standby_writes =
     [r82xx_write_reg 0x06 0xb1, r82xx_write_reg 0x05 0xa0, r82xx_write_reg 0x07 0x3a,
      r82xx_write_reg 0x08 0x40, r82xx_write_reg 0x09 0xc0, r82xx_write_reg 0x0a 0x36,
      r82xx_write_reg 0x0c 0x35, r82xx_write_reg 0x0f 0x68, r82xx_write_reg 0x11 0x03,
      r82xx_write_reg 0x17 0xf4]"

definition r82xx_standby :: "int io" where
  "r82xx_standby = do {
     init_done \<leftarrow> the_dev (\<lambda>s. rx_init_done (rt_priv s));
     if \<not> init_done then ret 0
     else do {
       rc \<leftarrow> run_checked standby_writes;
       if rc < 0 then ret rc
       else do {
         rc \<leftarrow> r82xx_write_reg 0x19 0x0c;
         upd_priv (\<lambda>p. p\<lparr>rx_type := -1\<rparr>);
         ret rc
       }
     }
   }"

section \<open>Initialisation\<close>

definition r82xx_xtal_capacitor :: "(u8 \<times> r82xx_xtal_cap_value) list" where
  "r82xx_xtal_capacitor = [(0x0b, XTAL_LOW_CAP_30P), (0x02, XTAL_LOW_CAP_20P), (0x01, XTAL_LOW_CAP_10P),
     (0x00, XTAL_LOW_CAP_0P), (0x10, XTAL_HIGH_CAP_0P)]"

text \<open>The capacitor found, or the error the function returns.\<close>

primrec xtal_check_loop :: "(u8 \<times> r82xx_xtal_cap_value) list \<Rightarrow> (int + r82xx_xtal_cap_value) io" where
  "xtal_check_loop [] = ret (Inl (-1))"
| "xtal_check_loop (c # cs) = do {
     rc \<leftarrow> r82xx_write_reg_mask 0x10 (fst c) 0x1b;
     if rc < 0 then ret (Inl rc)
     else do {
       (rc, data) \<leftarrow> r82xx_read 0x00 3;
       if rc < 0 then ret (Inl rc)
       else if data ! 2 AND 0x40 = 0 then xtal_check_loop cs
       else do {
         xtal \<leftarrow> the_dev (\<lambda>s. rc_xtal (rt_cfg s));
         let val = data ! 2 AND 0x3f;
         if xtal = 16000000 \<and> (29 < val \<or> val < 23) \<or> val \<noteq> 0x3f then ret (Inr (snd c))
         else xtal_check_loop cs
       }
     }
   }"

definition r82xx_xtal_check :: "(int + r82xx_xtal_cap_value) io" where
  "r82xx_xtal_check = do {
     upd_priv (\<lambda>p. p\<lparr>rx_regs := r82xx_init_array\<rparr>);
     rc \<leftarrow> run_checked
       [r82xx_write_reg_mask 0x10 0x0b 0x0b,
        r82xx_write_reg_mask 0x1a 0x00 0x0c,
        r82xx_write_reg_mask 0x13 0x7f 0x7f,
        r82xx_write_reg_mask 0x13 0x00 0x40];
     if rc < 0 then ret (Inl rc) else xtal_check_loop r82xx_xtal_capacitor
   }"

definition r82xx_init :: "int io" where
  "r82xx_init = do {
     upd_priv (\<lambda>p. p\<lparr>rx_xtal_cap_sel := XTAL_HIGH_CAP_0P, rx_reg_cache := False\<rparr>);
     rc \<leftarrow> r82xx_write 0x05 r82xx_init_array;
     rc' \<leftarrow> r82xx_set_tv_standard 3 TUNER_DIGITAL_TV 0;
     let rc = rc OR rc';
     upd_priv (\<lambda>p. p\<lparr>rx_bw := 2000000, rx_int_freq := 6000000\<rparr>);
     rc' \<leftarrow> r82xx_sysfreq_sel 0 TUNER_DIGITAL_TV SYS_DVBT;
     let rc = rc OR rc';
     upd_priv (\<lambda>p. p\<lparr>rx_init_done := True, rx_reg_cache := True\<rparr>);
     ret rc
   }"

end
