(* ===== verification/Librtlsdr.thy ===== *)
theory Librtlsdr
  imports R82xxSetup
begin

text \<open>
  The upper half of \<open>main/librtlsdr.c\<close>: the operations on the device that use its tuner, opening included.
  The table of tuner functions is split by function; a missing entry (\<open>NULL\<close>) is \<open>None\<close>.
\<close>

section \<open>The tuner's functions\<close>

definition EINVAL :: int where
  "EINVAL = 22"

definition R82XX_IF_FREQ :: u32 where
  "R82XX_IF_FREQ = 3570000"

definition R820T_I2C_ADDR :: u8 where
  "R820T_I2C_ADDR = 0x34"

definition R828D_I2C_ADDR :: u8 where
  "R828D_I2C_ADDR = 0x74"

definition r820t_init :: "int io" where
  "r820t_init = do {
     type \<leftarrow> the_dev rt_tuner_type;
     upd_cfg (\<lambda>c. if type = RTLSDR_TUNER_R828D
       then c\<lparr>rc_i2c_addr := R828D_I2C_ADDR, rc_chip := CHIP_R828D\<rparr>
       else c\<lparr>rc_i2c_addr := R820T_I2C_ADDR, rc_chip := CHIP_R820T\<rparr>);
     xtal \<leftarrow> the_dev corrected_tun_xtal;
     upd_cfg (\<lambda>c. c\<lparr>rc_xtal := xtal, rc_max_i2c_msg_len := 8, rc_use_predetect := False\<rparr>);
     r82xx_init
   }"

definition tuner_init :: "rtlsdr_tuner \<Rightarrow> int io option" where
  "tuner_init t = (if t = RTLSDR_TUNER_UNKNOWN then None else Some r820t_init)"

definition tuner_exit :: "rtlsdr_tuner \<Rightarrow> int io option" where
  "tuner_exit t = (if t = RTLSDR_TUNER_UNKNOWN then None else Some r82xx_standby)"

definition tuner_set_freq :: "rtlsdr_tuner \<Rightarrow> (u32 \<Rightarrow> int io) option" where
  "tuner_set_freq t = (if t = RTLSDR_TUNER_UNKNOWN then None else Some r82xx_set_freq)"

text \<open>A call of the tuner between opening and closing the repeater.\<close>

definition with_repeater :: "'a io \<Rightarrow> 'a io" where
  "with_repeater f = do { rtlsdr_set_i2c_repeater 1; r \<leftarrow> f; rtlsdr_set_i2c_repeater 0; ret r }"

definition rtlsdr_set_center_freq :: "u32 \<Rightarrow> int io" where
  "rtlsdr_set_center_freq freq = do {
     s \<leftarrow> State_Monad.get;
     case rt_tuner s of
       None \<Rightarrow> ret (-1)
     | Some t \<Rightarrow> do {
         r \<leftarrow> (if rt_direct_sampling s \<noteq> 0 then rtlsdr_set_if_freq freq
              else case tuner_set_freq t of
                     None \<Rightarrow> ret (-1)
                   | Some set_freq \<Rightarrow> with_repeater (set_freq (freq - rt_offs_freq s)));
         modify (\<lambda>s. s\<lparr>rt_freq := (if r = 0 then freq else 0)\<rparr>);
         ret r
       }
   }"

definition r820t_set_bw :: "int \<Rightarrow> int io" where
  "r820t_set_bw bw = do {
     r \<leftarrow> r82xx_set_bandwidth bw;
     if r < 0 then ret r
     else do {
       r \<leftarrow> rtlsdr_set_if_freq (word_of_int r);
       if r \<noteq> 0 then ret r
       else do { freq \<leftarrow> the_dev rt_freq; rtlsdr_set_center_freq freq }
     }
   }"

definition tuner_set_bw :: "rtlsdr_tuner \<Rightarrow> (int \<Rightarrow> int io) option" where
  "tuner_set_bw t = (if t = RTLSDR_TUNER_UNKNOWN then None else Some r820t_set_bw)"

definition tuner_set_gain :: "rtlsdr_tuner \<Rightarrow> (int \<Rightarrow> int io) option" where
  "tuner_set_gain t = (if t = RTLSDR_TUNER_UNKNOWN then None else Some (\<lambda>gain. r82xx_set_gain True gain))"

definition tuner_set_gain_mode :: "rtlsdr_tuner \<Rightarrow> (bool \<Rightarrow> int io) option" where
  "tuner_set_gain_mode t = (if t = RTLSDR_TUNER_UNKNOWN then None else Some (\<lambda>manual. r82xx_set_gain manual 0))"

section \<open>Frequency and bandwidth\<close>

definition the_tuner :: "(rtlsdr_tuner \<Rightarrow> 'a option) \<Rightarrow> 'a option io" where
  "the_tuner f = the_dev (\<lambda>s. case rt_tuner s of None \<Rightarrow> None | Some t \<Rightarrow> f t)"

definition rtlsdr_set_tuner_bandwidth :: "u32 \<Rightarrow> int io" where
  "rtlsdr_set_tuner_bandwidth bw = do {
     s \<leftarrow> State_Monad.get;
     case rt_tuner s of
       None \<Rightarrow> ret (-1)
     | Some t \<Rightarrow>
         case tuner_set_bw t of
           None \<Rightarrow> ret 0
         | Some set_bw \<Rightarrow> do {
             r \<leftarrow> with_repeater (set_bw (sint (if 0 < bw then bw else rt_rate s)));
             if r \<noteq> 0 then ret r else do { modify (\<lambda>s. s\<lparr>rt_bw := bw\<rparr>); ret r }
           }
   }"

definition rtlsdr_set_offset_tuning :: "bool \<Rightarrow> int io" where
  "rtlsdr_set_offset_tuning on = do {
     s \<leftarrow> State_Monad.get;
     if rt_tuner_type s = RTLSDR_TUNER_R820T \<or> rt_tuner_type s = RTLSDR_TUNER_R828D then ret (-2)
     else if rt_direct_sampling s \<noteq> 0 then ret (-3)
     else do {
       let offs = (if on then (rt_rate s div 2) * 170 div 100 else 0);
       modify (\<lambda>s. s\<lparr>rt_offs_freq := offs\<rparr>);
       r \<leftarrow> rtlsdr_set_if_freq offs;
       set_bw \<leftarrow> the_tuner tuner_set_bw;
       (case set_bw of
          None \<Rightarrow> ret ()
        | Some set_bw \<Rightarrow> do {
            _ \<leftarrow> with_repeater (set_bw (sint (if on then 2 * offs else if 0 < rt_bw s then rt_bw s else rt_rate s)));
            ret ()
          });
       freq \<leftarrow> the_dev rt_freq;
       if offs < freq then do { r' \<leftarrow> rtlsdr_set_center_freq freq; ret (r OR r') } else ret r
     }
   }"

definition rate_supported :: "u32 \<Rightarrow> bool" where
  "rate_supported samp_rate \<longleftrightarrow>
     \<not> (samp_rate \<le> 225000 \<or> 3200000 < samp_rate \<or> 300000 < samp_rate \<and> samp_rate \<le> 900000)"

definition rsamp_ratio :: "u32 \<Rightarrow> u32 \<Rightarrow> u32" where
  "rsamp_ratio rtl_xtal samp_rate =
     word_of_int (trunc (dbl (dbl (of_nat (unat rtl_xtal) * 2 ^ 22) / of_nat (unat samp_rate)))) AND 0x0ffffffc"

definition real_rsamp_ratio :: "u32 \<Rightarrow> u32" where
  "real_rsamp_ratio ratio = ratio OR push_bit 1 (ratio AND 0x08000000)"

definition real_rate :: "u32 \<Rightarrow> u32 \<Rightarrow> rat" where
  "real_rate rtl_xtal real_ratio = dbl (dbl (of_nat (unat rtl_xtal) * 2 ^ 22) / of_nat (unat real_ratio))"

text \<open>Everything after the rate is known: the filters follow it, and the resampler is programmed and reset.\<close>

definition program_rate :: "u32 \<Rightarrow> u32 \<Rightarrow> int io" where
  "program_rate ratio rate = do {
     set_bw \<leftarrow> the_tuner tuner_set_bw;
     bw \<leftarrow> the_dev rt_bw;
     (case set_bw of
        None \<Rightarrow> ret ()
      | Some set_bw \<Rightarrow> do { _ \<leftarrow> with_repeater (set_bw (sint (if 0 < bw then bw else rate))); ret () });
     corr \<leftarrow> the_dev rt_corr;
     r \<leftarrow> run_or 0
       [rtlsdr_demod_write_reg 1 0x9f (ucast (drop_bit 16 ratio)) 2,
        rtlsdr_demod_write_reg 1 0xa1 (ucast (ratio AND 0xffff)) 2,
        rtlsdr_set_sample_freq_correction corr,
        rtlsdr_demod_write_reg 1 0x01 0x14 1,
        rtlsdr_demod_write_reg 1 0x01 0x10 1];
     offs \<leftarrow> the_dev rt_offs_freq;
     if offs \<noteq> 0 then do { _ \<leftarrow> rtlsdr_set_offset_tuning True; ret r } else ret r
   }"

definition rtlsdr_set_sample_rate :: "u32 \<Rightarrow> int io" where
  "rtlsdr_set_sample_rate samp_rate =
     (if \<not> rate_supported samp_rate then ret (- EINVAL)
      else do {
        rtl_xtal \<leftarrow> the_dev rt_rtl_xtal;
        let ratio = rsamp_ratio rtl_xtal samp_rate;
        let rate = (word_of_int (trunc (real_rate rtl_xtal (real_rsamp_ratio ratio))) :: u32);
        modify (\<lambda>s. s\<lparr>rt_rate := rate\<rparr>);
        program_rate ratio rate
      })"

definition update_tuner_clock :: "unit io" where
  "update_tuner_clock = modify (\<lambda>s. s\<lparr>rt_fosc := corrected_tun_xtal s, rt_cfg := (rt_cfg s)\<lparr>rc_xtal := corrected_tun_xtal s\<rparr>\<rparr>)"

definition rtlsdr_set_xtal_freq :: "u32 \<Rightarrow> u32 \<Rightarrow> int io" where
  "rtlsdr_set_xtal_freq rtl_freq tuner_freq =
     (if 0 < rtl_freq \<and> (rtl_freq < 28800000 - 1000 \<or> 28800000 + 1000 < rtl_freq) then ret (-2)
      else do {
        s \<leftarrow> State_Monad.get;
        r \<leftarrow> (if 0 < rtl_freq \<and> rt_rtl_xtal s \<noteq> rtl_freq
             then do {
               modify (\<lambda>s. s\<lparr>rt_rtl_xtal := rtl_freq\<rparr>);
               if rt_rate s \<noteq> 0 then rtlsdr_set_sample_rate (rt_rate s) else ret 0
             }
             else ret 0);
        s \<leftarrow> State_Monad.get;
        if rt_tun_xtal s \<noteq> tuner_freq
        then do {
          modify (\<lambda>s. s\<lparr>rt_tun_xtal := (if tuner_freq = 0 then rt_rtl_xtal s else tuner_freq)\<rparr>);
          update_tuner_clock;
          if rt_freq s \<noteq> 0 then rtlsdr_set_center_freq (rt_freq s) else ret r
        }
        else ret r
      })"

definition rtlsdr_set_freq_correction :: "int \<Rightarrow> int io" where
  "rtlsdr_set_freq_correction ppm = do {
     rtlsdr_set_i2c_repeater 0;
     s \<leftarrow> State_Monad.get;
     if rt_corr s = ppm then ret (-2)
     else do {
       modify (\<lambda>s. s\<lparr>rt_corr := ppm\<rparr>);
       r \<leftarrow> rtlsdr_set_sample_freq_correction ppm;
       update_tuner_clock;
       if rt_freq s \<noteq> 0 then do { r' \<leftarrow> rtlsdr_set_center_freq (rt_freq s); ret (r OR r') } else ret r
     }
   }"

section \<open>Gain\<close>

definition rtlsdr_set_tuner_gain :: "int \<Rightarrow> int io" where
  "rtlsdr_set_tuner_gain gain = do {
     s \<leftarrow> State_Monad.get;
     case rt_tuner s of
       None \<Rightarrow> ret (-1)
     | Some t \<Rightarrow> do {
         r \<leftarrow> (case tuner_set_gain t of None \<Rightarrow> ret 0 | Some set_gain \<Rightarrow> with_repeater (set_gain gain));
         modify (\<lambda>s. s\<lparr>rt_gain := (if r = 0 then gain else 0)\<rparr>);
         ret r
       }
   }"

definition rtlsdr_set_tuner_gain_mode :: "bool \<Rightarrow> int io" where
  "rtlsdr_set_tuner_gain_mode mode = do {
     s \<leftarrow> State_Monad.get;
     case rt_tuner s of
       None \<Rightarrow> ret (-1)
     | Some t \<Rightarrow>
         case tuner_set_gain_mode t of None \<Rightarrow> ret 0 | Some set_mode \<Rightarrow> with_repeater (set_mode mode)
   }"

text \<open>Only the other tuners have intermediate gain stages.\<close>

definition tuner_set_if_gain :: "rtlsdr_tuner \<Rightarrow> (int \<Rightarrow> int \<Rightarrow> int io) option" where
  "tuner_set_if_gain t = None"

definition rtlsdr_set_tuner_if_gain :: "int \<Rightarrow> int \<Rightarrow> int io" where
  "rtlsdr_set_tuner_if_gain stage gain = do {
     tuner \<leftarrow> the_dev rt_tuner;
     case tuner of
       None \<Rightarrow> ret (-1)
     | Some t \<Rightarrow>
         case tuner_set_if_gain t of None \<Rightarrow> ret 0 | Some set_if_gain \<Rightarrow> with_repeater (set_if_gain stage gain)
   }"

definition rtlsdr_get_tuner_gains :: "rtlsdr_tuner \<Rightarrow> int list" where
  "rtlsdr_get_tuner_gains t =
     (if t = RTLSDR_TUNER_UNKNOWN then [0]
      else [0, 9, 14, 27, 37, 77, 87, 125, 144, 157, 166, 197, 207, 229, 254, 280, 297, 328,
            338, 364, 372, 386, 402, 421, 434, 439, 445, 480, 496])"

section \<open>Modes\<close>

definition rtlsdr_set_testmode :: "bool \<Rightarrow> int io" where
  "rtlsdr_set_testmode on = rtlsdr_demod_write_reg 0 0x19 (if on then 0x03 else 0x05) 1"

definition rtlsdr_set_agc_mode :: "bool \<Rightarrow> int io" where
  "rtlsdr_set_agc_mode on = rtlsdr_demod_write_reg 0 0x19 (if on then 0x25 else 0x05) 1"

definition rtlsdr_set_bias_tee :: "bool \<Rightarrow> int io" where
  "rtlsdr_set_bias_tee on = rtlsdr_set_bias_tee_gpio 0 on"

definition rtlsdr_set_direct_sampling :: "int \<Rightarrow> int io" where
  "rtlsdr_set_direct_sampling on = do {
     type \<leftarrow> the_dev rt_tuner_type;
     r \<leftarrow> (if on \<noteq> 0
          then do {
            leave \<leftarrow> the_tuner tuner_exit;
            r \<leftarrow> (case leave of None \<Rightarrow> ret 0 | Some f \<Rightarrow> with_repeater f);
            r \<leftarrow> run_or r
              [rtlsdr_demod_write_reg 1 0xb1 0x1a 1,
               rtlsdr_demod_write_reg 1 0x15 0x00 1,
               rtlsdr_demod_write_reg 0 0x08 0x4d 1,
               rtlsdr_demod_write_reg 0 0x06 (if 1 < on then 0x90 else 0x80) 1];
            modify (\<lambda>s. s\<lparr>rt_direct_sampling := on\<rparr>);
            ret r
          }
          else do {
            start \<leftarrow> the_tuner tuner_init;
            r \<leftarrow> (case start of None \<Rightarrow> ret 0 | Some f \<Rightarrow> with_repeater f);
            r \<leftarrow> run_or r
              ((if type = RTLSDR_TUNER_R820T \<or> type = RTLSDR_TUNER_R828D
                then [rtlsdr_set_if_freq R82XX_IF_FREQ, rtlsdr_demod_write_reg 1 0x15 0x01 1]
                else [rtlsdr_set_if_freq 0, rtlsdr_demod_write_reg 0 0x08 0xcd 1,
                      rtlsdr_demod_write_reg 1 0xb1 0x1b 1]) @
               [rtlsdr_demod_write_reg 0 0x06 0x80 1]);
            modify (\<lambda>s. s\<lparr>rt_direct_sampling := 0\<rparr>);
            ret r
          });
     freq \<leftarrow> the_dev rt_freq;
     r' \<leftarrow> rtlsdr_set_center_freq freq;
     ret (r OR r')
   }"

section \<open>Opening and closing\<close>

definition known_devices :: "(u16 \<times> u16 \<times> string) list" where
  "known_devices =
     [(0x0bda, 0x2832, ''Generic RTL2832U''),
      (0x0bda, 0x2838, ''Generic RTL2832U OEM''),
      (0x0413, 0x6680, ''DigitalNow Quad DVB-T PCI-E card''),
      (0x0413, 0x6f0f, ''Leadtek WinFast DTV Dongle mini D''),
      (0x0458, 0x707f, ''Genius TVGo DVB-T03 USB dongle (Ver. B)''),
      (0x0ccd, 0x00a9, ''Terratec Cinergy T Stick Black (rev 1)''),
      (0x0ccd, 0x00b3, ''Terratec NOXON DAB/DAB+ USB dongle (rev 1)''),
      (0x0ccd, 0x00b4, ''Terratec Deutschlandradio DAB Stick''),
      (0x0ccd, 0x00b5, ''Terratec NOXON DAB Stick - Radio Energy''),
      (0x0ccd, 0x00b7, ''Terratec Media Broadcast DAB Stick''),
      (0x0ccd, 0x00b8, ''Terratec BR DAB Stick''),
      (0x0ccd, 0x00b9, ''Terratec WDR DAB Stick''),
      (0x0ccd, 0x00c0, ''Terratec MuellerVerlag DAB Stick''),
      (0x0ccd, 0x00c6, ''Terratec Fraunhofer DAB Stick''),
      (0x0ccd, 0x00d3, ''Terratec Cinergy T Stick RC (Rev.3)''),
      (0x0ccd, 0x00d7, ''Terratec T Stick PLUS''),
      (0x0ccd, 0x00e0, ''Terratec NOXON DAB/DAB+ USB dongle (rev 2)''),
      (0x1554, 0x5020, ''PixelView PV-DT235U(RN)''),
      (0x15f4, 0x0131, ''Astrometa DVB-T/DVB-T2''),
      (0x15f4, 0x0133, ''HanfTek DAB+FM+DVB-T''),
      (0x185b, 0x0620, ''Compro Videomate U620F''),
      (0x185b, 0x0650, ''Compro Videomate U650F''),
      (0x185b, 0x0680, ''Compro Videomate U680F''),
      (0x1b80, 0xd393, ''GIGABYTE GT-U7300''),
      (0x1b80, 0xd394, ''DIKOM USB-DVBT HD''),
      (0x1b80, 0xd395, ''Peak 102569AGPK''),
      (0x1b80, 0xd397, ''KWorld KW-UB450-T USB DVB-T Pico TV''),
      (0x1b80, 0xd398, ''Zaapa ZT-MINDVBZP''),
      (0x1b80, 0xd39d, ''SVEON STV20 DVB-T USB & FM''),
      (0x1b80, 0xd3a4, ''Twintech UT-40''),
      (0x1b80, 0xd3a8, ''ASUS U3100MINI_PLUS_V2''),
      (0x1b80, 0xd3af, ''SVEON STV27 DVB-T USB & FM''),
      (0x1b80, 0xd3b0, ''SVEON STV21 DVB-T USB & FM''),
      (0x1d19, 0x1101, ''Dexatek DK DVB-T Dongle (Logilink VG0002A)''),
      (0x1d19, 0x1102, ''Dexatek DK DVB-T Dongle (MSI DigiVox mini II V3.0)''),
      (0x1d19, 0x1103, ''Dexatek Technology Ltd. DK 5217 DVB-T Dongle''),
      (0x1d19, 0x1104, ''MSI DigiVox Micro HD''),
      (0x1f4d, 0xa803, ''Sweex DVB-T USB''),
      (0x1f4d, 0xb803, ''GTek T803''),
      (0x1f4d, 0xc803, ''Lifeview LV5TDeluxe''),
      (0x1f4d, 0xd286, ''MyGica TD312''),
      (0x1f4d, 0xd803, ''PROlectrix DV107669'')]"

definition find_known_device :: "u16 \<Rightarrow> u16 \<Rightarrow> (u16 \<times> u16 \<times> string) option" where
  "find_known_device vid pid = find (\<lambda>d. fst d = vid \<and> fst (snd d) = pid) known_devices"

definition probe_tuner :: "rtlsdr_tuner io" where
  "probe_tuner = do {
     reg \<leftarrow> rtlsdr_i2c_read_reg R820T_I2C_ADDR 0x00;
     if reg = 0x69 then ret RTLSDR_TUNER_R820T
     else do {
       reg \<leftarrow> rtlsdr_i2c_read_reg R828D_I2C_ADDR 0x00;
       if reg = 0x69 then ret RTLSDR_TUNER_R828D
       else do {
         rtlsdr_set_gpio_output 4;
         rtlsdr_set_gpio_bit 4 True;
         rtlsdr_set_gpio_bit 4 False;
         ret RTLSDR_TUNER_UNKNOWN
       }
     }
   }"

definition open_setup :: "rtlsdr_tuner \<Rightarrow> unit io" where
  "open_setup type =
     (if type = RTLSDR_TUNER_UNKNOWN then do { _ \<leftarrow> rtlsdr_set_direct_sampling 1; ret () }
      else do {
        (if type = RTLSDR_TUNER_R828D then modify (\<lambda>s. s\<lparr>rt_tun_xtal := R828D_XTAL_FREQ\<rparr>) else ret ());
        run_all [rtlsdr_demod_write_reg 1 0xb1 0x1a 1,
                 rtlsdr_demod_write_reg 0 0x08 0x4d 1,
                 rtlsdr_set_if_freq R82XX_IF_FREQ,
                 rtlsdr_demod_write_reg 1 0x15 0x01 1]
      })"

definition rtlsdr_open :: "int io" where
  "rtlsdr_open = do {
     _ \<leftarrow> rtlsdr_write_reg USBB USB_SYSCTL 0x09 1;
     modify (\<lambda>s. s\<lparr>rt_rtl_xtal := 28800000\<rparr>);
     rtlsdr_init_baseband;
     modify (\<lambda>s. s\<lparr>rt_dev_lost := False\<rparr>);
     rtlsdr_set_i2c_repeater 1;
     type \<leftarrow> probe_tuner;
     modify (\<lambda>s. s\<lparr>rt_tuner_type := type, rt_tun_xtal := rt_rtl_xtal s, rt_tuner := Some type\<rparr>);
     open_setup type;
     (case tuner_init type of None \<Rightarrow> ret () | Some f \<Rightarrow> do { _ \<leftarrow> f; ret () });
     rtlsdr_set_i2c_repeater 0;
     ret 0
   }"

text \<open>What \<open>rtlsdr_open\<close> allocates: all zeros but the filter and the flag for a lost device.\<close>

definition rtl_zero :: "adsb_dev \<Rightarrow> (nat \<Rightarrow> u16 \<Rightarrow> ctrl_answer) \<Rightarrow> rtl" where
  "rtl_zero usb env = \<lparr>rt_usb = usb, rt_env = env, rt_trace = [], rt_rate = 0, rt_rtl_xtal = 0, rt_fir = fir_default,
     rt_direct_sampling = 0, rt_tuner_type = RTLSDR_TUNER_UNKNOWN, rt_tuner = None, rt_tun_xtal = 0, rt_freq = 0,
     rt_bw = 0, rt_offs_freq = 0, rt_corr = 0, rt_gain = 0, rt_fosc = 0, rt_dev_lost = True, rt_repeater = 0,
     rt_cfg = \<lparr>rc_i2c_addr = 0, rc_xtal = 0, rc_chip = CHIP_R820T, rc_max_i2c_msg_len = 0, rc_use_predetect = False\<rparr>,
     rt_priv = \<lparr>rx_regs = replicate NUM_REGS 0, rx_xtal_cap_sel = XTAL_LOW_CAP_30P, rx_int_freq = 0,
       rx_fil_cal_code = 0, rx_input = 0, rx_has_lock = False, rx_init_done = False, rx_reg_cache = False,
       rx_delsys = 0, rx_type = 0, rx_bw = 0\<rparr>\<rparr>"

definition rtlsdr_deinit_baseband :: "int io" where
  "rtlsdr_deinit_baseband = do {
     leave \<leftarrow> the_tuner tuner_exit;
     r \<leftarrow> (case leave of None \<Rightarrow> ret 0 | Some f \<Rightarrow> with_repeater f);
     _ \<leftarrow> rtlsdr_write_reg SYSB DEMOD_CTL 0x20 1;
     ret r
   }"

definition rtlsdr_reset_buffer :: "int io" where
  "rtlsdr_reset_buffer = do {
     _ \<leftarrow> rtlsdr_write_reg USBB USB_EPA_CTL 0x1002 2;
     _ \<leftarrow> rtlsdr_write_reg USBB USB_EPA_CTL 0x0000 2;
     ret 0
   }"

section \<open>What the callers ask\<close>

definition rtlsdr_get_tuner_pll_locked :: "rtl \<Rightarrow> int" where
  "rtlsdr_get_tuner_pll_locked s =
     (if rt_tuner_type s = RTLSDR_TUNER_UNKNOWN then -1 else if rx_has_lock (rt_priv s) then 1 else 0)"

definition rtlsdr_get_tuner_xtal :: "rtl \<Rightarrow> u32" where
  "rtlsdr_get_tuner_xtal s =
     (if rt_tuner_type s = RTLSDR_TUNER_UNKNOWN then rt_tun_xtal s else rc_xtal (rt_cfg s))"

definition rtlsdr_get_center_freq :: "rtl \<Rightarrow> u32" where
  "rtlsdr_get_center_freq s = rt_freq s"

definition rtlsdr_get_freq_correction :: "rtl \<Rightarrow> int" where
  "rtlsdr_get_freq_correction s = rt_corr s"

definition rtlsdr_get_tuner_type :: "rtl \<Rightarrow> rtlsdr_tuner" where
  "rtlsdr_get_tuner_type s = rt_tuner_type s"

definition rtlsdr_get_tuner_gain :: "rtl \<Rightarrow> int" where
  "rtlsdr_get_tuner_gain s = rt_gain s"

definition rtlsdr_get_sample_rate :: "rtl \<Rightarrow> u32" where
  "rtlsdr_get_sample_rate s = rt_rate s"

definition rtlsdr_get_direct_sampling :: "rtl \<Rightarrow> int" where
  "rtlsdr_get_direct_sampling s = rt_direct_sampling s"

definition rtlsdr_get_offset_tuning :: "rtl \<Rightarrow> int" where
  "rtlsdr_get_offset_tuning s = (if rt_offs_freq s \<noteq> 0 then 1 else 0)"

definition rtlsdr_get_tuner_clock :: "rtl \<Rightarrow> u32" where
  "rtlsdr_get_tuner_clock s = corrected_tun_xtal s"

end
