(* ===== verification/RtlGate.thy ===== *)
theory RtlGate
  imports Librtlsdr
begin

text \<open>
  The I2C repeater. The tuner hangs behind a repeater of the RTL2832U that must be open for every access
  to it, and closed otherwise to keep the tuner's bus quiet. Rules that carry a state predicate through
  the combinators of the model, and the proof that every operation of the library brackets its accesses.
\<close>

section \<open>Predicates along a computation\<close>

definition moves :: "(rtl \<Rightarrow> bool) \<Rightarrow> 'a io \<Rightarrow> (rtl \<Rightarrow> bool) \<Rightarrow> bool" where
  "moves P f Q \<longleftrightarrow> (\<forall>s. P s \<longrightarrow> Q (snd (run_state f s)))"

abbreviation keeps :: "(rtl \<Rightarrow> bool) \<Rightarrow> 'a io \<Rightarrow> bool" where
  "keeps I f \<equiv> moves I f I"

named_theorems keeps_intros \<open>computations that keep a predicate\<close>

lemma moves_bind:
  assumes "moves P f Q" "\<And>x. moves Q (g x) R" shows "moves P (State_Monad.bind f g) R"
  using assms by (auto simp: moves_def split: prod.split)

lemma keeps_bind [keeps_intros]:
  "keeps I f \<Longrightarrow> (\<And>x. keeps I (g x)) \<Longrightarrow> keeps I (State_Monad.bind f g)"
  by (rule moves_bind)

lemma keeps_ret [keeps_intros]: "keeps I (ret x)"
  by (simp add: moves_def)

lemma keeps_get [keeps_intros]: "keeps I State_Monad.get"
  by (simp add: moves_def)

lemma keeps_the_dev [keeps_intros]: "keeps I (the_dev f)"
  by (simp add: the_dev_def moves_def)

lemma keeps_stack_bytes [keeps_intros]: "keeps I stack_bytes"
  by (simp add: stack_bytes_def keeps_the_dev)

lemma keeps_the_tuner [keeps_intros]: "keeps I (the_tuner f)"
  by (simp add: the_tuner_def keeps_the_dev)

lemma keeps_if [keeps_intros]: "(c \<Longrightarrow> keeps I f) \<Longrightarrow> (\<not> c \<Longrightarrow> keeps I g) \<Longrightarrow> keeps I (if c then f else g)"
  by simp

lemma keeps_let [keeps_intros]: "keeps I (f x) \<Longrightarrow> keeps I (Let x f)"
  by simp

lemma keeps_prod [keeps_intros]: "(\<And>a b. keeps I (f a b)) \<Longrightarrow> keeps I (case x of (a, b) \<Rightarrow> f a b)"
  by (cases x) simp

lemma keeps_option [keeps_intros]:
  "(x = None \<Longrightarrow> keeps I f) \<Longrightarrow> (\<And>y. x = Some y \<Longrightarrow> keeps I (g y)) \<Longrightarrow> keeps I (case x of None \<Rightarrow> f | Some y \<Rightarrow> g y)"
  by (cases x) simp_all

lemma moves_modify: "(\<And>s. P s \<Longrightarrow> Q (f s)) \<Longrightarrow> moves P (modify f) Q"
  by (simp add: modify_def moves_def)

lemma keeps_run_checked [keeps_intros]: "list_all (keeps I) fs \<Longrightarrow> keeps I (run_checked fs)"
  by (induction fs rule: run_checked.induct) (auto intro!: keeps_intros)

lemma keeps_run_all [keeps_intros]: "list_all (keeps I) fs \<Longrightarrow> keeps I (run_all fs)"
  by (induction fs) (auto intro!: keeps_intros)

lemma keeps_run_or [keeps_intros]: "list_all (keeps I) fs \<Longrightarrow> keeps I (run_or r fs)"
  by (induction r fs rule: run_or.induct) (auto intro!: keeps_intros)

lemma list_all_intros [keeps_intros]:
  "list_all P []" "P x \<Longrightarrow> list_all P xs \<Longrightarrow> list_all P (x # xs)"
  "list_all P xs \<Longrightarrow> list_all P ys \<Longrightarrow> list_all P (xs @ ys)"
  "(c \<Longrightarrow> list_all P xs) \<Longrightarrow> (\<not> c \<Longrightarrow> list_all P ys) \<Longrightarrow> list_all P (if c then xs else ys)"
  by simp_all

section \<open>Transfers\<close>

definition xfer :: "u8 \<Rightarrow> u16 \<Rightarrow> u16 \<Rightarrow> u8 list \<Rightarrow> u16 \<Rightarrow> int \<Rightarrow> ctrl_xfer" where
  "xfer ty v i data len r = \<lparr>cx_type = ty, cx_value = v, cx_index = i,
     cx_out = (if ty = CTRL_OUT then take (unat len) data else []), cx_len = unat len, cx_ret = r\<rparr>"

lemma usb_ctrl_effect:
  obtains d r data' where "run_state (usb_ctrl ty v i data len) s =
    ((r, data'), s\<lparr>rt_usb := d, rt_trace := rt_trace s @ [xfer ty v i data len r]\<rparr>)"
proof -
  let ?a = "rt_env s (length (rt_trace s)) len"
  obtain r data' d where "(case esp_libusb_control_transfer True (ca_mutex ?a) (ca_submit ?a) (ca_reply ?a)
      ty len data (rt_usb s) of Some x \<Rightarrow> x | None \<Rightarrow> (-1, data, rt_usb s)) = (r, data', d)"
    by (rule prod_cases3)
  then show thesis using that[of r data' d] by (simp add: usb_ctrl_def xfer_def Let_def)
qed

lemma moves_usb_ctrl:
  assumes "\<And>s d r. P s \<Longrightarrow> Q (s\<lparr>rt_usb := d, rt_trace := rt_trace s @ [xfer ty v i data len r]\<rparr>)"
  shows "moves P (usb_ctrl ty v i data len) Q"
  unfolding moves_def
proof (intro allI impI)
  fix s assume "P s"
  obtain d r data' where "run_state (usb_ctrl ty v i data len) s =
      ((r, data'), s\<lparr>rt_usb := d, rt_trace := rt_trace s @ [xfer ty v i data len r]\<rparr>)"
    by (rule usb_ctrl_effect)
  then show "Q (snd (run_state (usb_ctrl ty v i data len) s))" using assms[OF \<open>P s\<close>] by simp
qed

section \<open>The state of the repeater\<close>

text \<open>An access to the tuner's bus. The EEPROM shares the block but not the bus behind the repeater.\<close>

definition tuner_access :: "ctrl_xfer \<Rightarrow> bool" where
  "tuner_access x \<longleftrightarrow> (cx_index x = 0x600 \<or> cx_index x = 0x610) \<and> cx_value x \<noteq> EEPROM_ADDR"

text \<open>Bit 3 of register 1 on page 1 opens the repeater; the soft resets write the same register.\<close>

definition repeater_write :: "ctrl_xfer \<Rightarrow> bool" where
  "repeater_write x \<longleftrightarrow> cx_type x = CTRL_OUT \<and> cx_value x = 0x0120 \<and> cx_index x = 0x11"

text \<open>A transfer went through when the whole of it was carried out.\<close>

definition carried_out :: "ctrl_xfer \<Rightarrow> bool" where
  "carried_out x \<longleftrightarrow> cx_ret x = int (cx_len x)"

text \<open>
  The position of the repeater after a trace, \<open>None\<close> once the tuner was accessed while it was closed. A write of its
  register that failed leaves it where it is.
\<close>

definition gate_step :: "bool option \<Rightarrow> ctrl_xfer \<Rightarrow> bool option" where
  "gate_step g x =
     (case g of
        None \<Rightarrow> None
      | Some on \<Rightarrow>
          if tuner_access x then if on then Some on else None
          else if repeater_write x \<and> carried_out x then Some (bit (cx_out x ! 0) 3)
          else Some on)"

definition gate :: "ctrl_xfer list \<Rightarrow> bool option" where
  "gate tr = foldl gate_step (Some False) tr"

text \<open>
  The library ignores whether the write of the repeater's register went through. So what can be said is about the
  transfers up to the first such write that fails, and about all of them when none does.
\<close>

definition repeater_ok :: "ctrl_xfer \<Rightarrow> bool" where
  "repeater_ok x \<longleftrightarrow> (repeater_write x \<longrightarrow> carried_out x)"

definition bracketed :: "bool \<Rightarrow> ctrl_xfer list \<Rightarrow> bool" where
  "bracketed on tr \<longleftrightarrow> gate (takeWhile repeater_ok tr) \<noteq> None \<and> (list_all repeater_ok tr \<longrightarrow> gate tr = Some on)"

text \<open>The repeater's position on the chip, and the one the library remembers.\<close>

definition gated :: "bool \<Rightarrow> int \<Rightarrow> rtl \<Rightarrow> bool" where
  "gated on r s \<longleftrightarrow> bracketed on (rt_trace s) \<and> rt_repeater s = r"

lemma gate_snoc: "gate (tr @ [x]) = gate_step (gate tr) x"
  by (simp add: gate_def)

lemma bracketed_Nil [simp]: "bracketed False []"
  by (simp add: bracketed_def gate_def)

lemma takeWhile_snoc: "takeWhile P (xs @ [x]) = (if list_all P xs then if P x then xs @ [x] else xs else takeWhile P xs)"
  by (induction xs) auto

lemma bracketed_snoc:
  assumes "bracketed on tr" "repeater_ok x \<Longrightarrow> gate_step (Some on) x = Some on'"
  shows "bracketed on' (tr @ [x])"
  using assms by (auto simp: bracketed_def takeWhile_snoc gate_snoc)

lemma gated_frame [simp]:
  "gated on n (s\<lparr>rt_usb := d\<rparr>) = gated on n s" "gated on n (s\<lparr>rt_cfg := c\<rparr>) = gated on n s"
  "gated on n (s\<lparr>rt_priv := p\<rparr>) = gated on n s" "gated on n (s\<lparr>rt_freq := f\<rparr>) = gated on n s"
  "gated on n (s\<lparr>rt_rate := f\<rparr>) = gated on n s" "gated on n (s\<lparr>rt_bw := f\<rparr>) = gated on n s"
  "gated on n (s\<lparr>rt_offs_freq := f\<rparr>) = gated on n s" "gated on n (s\<lparr>rt_corr := i\<rparr>) = gated on n s"
  "gated on n (s\<lparr>rt_gain := i\<rparr>) = gated on n s" "gated on n (s\<lparr>rt_direct_sampling := i\<rparr>) = gated on n s"
  "gated on n (s\<lparr>rt_rtl_xtal := f\<rparr>) = gated on n s" "gated on n (s\<lparr>rt_tun_xtal := f\<rparr>) = gated on n s"
  "gated on n (s\<lparr>rt_fosc := f\<rparr>) = gated on n s" "gated on n (s\<lparr>rt_dev_lost := b\<rparr>) = gated on n s"
  "gated on n (s\<lparr>rt_tuner := t\<rparr>) = gated on n s" "gated on n (s\<lparr>rt_tuner_type := y\<rparr>) = gated on n s"
  by (simp_all add: gated_def)

lemma keeps_upd_priv [keeps_intros]: "keeps (gated on n) (upd_priv f)"
  by (simp add: upd_priv_def moves_modify)

lemma keeps_upd_cfg [keeps_intros]: "keeps (gated on n) (upd_cfg f)"
  by (simp add: upd_cfg_def moves_modify)

lemma keeps_modify [keeps_intros]: "(\<And>s. gated on n (f s) = gated on n s) \<Longrightarrow> keeps (gated on n) (modify f)"
  by (simp add: moves_modify)

text \<open>A transfer that touches neither the tuner nor the repeater's register.\<close>

lemma keeps_other_ctrl:
  assumes "\<And>r. \<not> tuner_access (xfer ty v i data len r)" "\<And>r. \<not> repeater_write (xfer ty v i data len r)"
  shows "keeps (gated on n) (usb_ctrl ty v i data len)"
  by (rule moves_usb_ctrl) (auto simp: gated_def gate_step_def assms intro: bracketed_snoc)

text \<open>With the repeater open the tuner may be accessed.\<close>

lemma keeps_open_ctrl:
  assumes "\<And>r. tuner_access (xfer ty v i data len r)"
  shows "keeps (gated True n) (usb_ctrl ty v i data len)"
  by (rule moves_usb_ctrl) (auto simp: gated_def gate_step_def assms intro: bracketed_snoc)

section \<open>Registers\<close>

lemma bus_index [simp]:
  "(ucast (p :: u8) :: u16) \<noteq> 0x600" "(ucast p :: u16) \<noteq> 0x610"
  "0x10 OR (ucast p :: u16) \<noteq> 0x600" "0x10 OR (ucast p :: u16) \<noteq> 0x610"
proof -
  have "\<not> bit p 9" using bit_imp_le_length[of p 9] by auto
  then have "\<not> bit (ucast p :: u16) 9" "\<not> bit (0x10 OR ucast p :: u16) 9" by (simp_all add: bit_simps)
  moreover have "bit (0x600 :: u16) 9" "bit (0x610 :: u16) 9" by code_simp+
  ultimately show "(ucast p :: u16) \<noteq> 0x600" "(ucast p :: u16) \<noteq> 0x610"
    "0x10 OR (ucast p :: u16) \<noteq> 0x600" "0x10 OR (ucast p :: u16) \<noteq> 0x610" by metis+
qed

lemma in_not_out [simp]: "CTRL_IN \<noteq> CTRL_OUT"
  by (simp add: CTRL_IN_def CTRL_OUT_def)

lemmas access_defs = tuner_access_def repeater_write_def xfer_def

lemma keeps_demod_read [keeps_intros]: "keeps (gated on n) (rtlsdr_demod_read_reg page addr len)"
  unfolding rtlsdr_demod_read_reg_def by (intro keeps_intros keeps_other_ctrl) (simp_all add: access_defs)

lemma keeps_demod_write:
  assumes "push_bit 8 addr OR 0x20 \<noteq> 0x120 \<or> (0x10 OR ucast page :: u16) \<noteq> 0x11"
  shows "keeps (gated on n) (rtlsdr_demod_write_reg page addr val len)"
  unfolding rtlsdr_demod_write_reg_def
  by (intro keeps_intros keeps_other_ctrl) (use assms in \<open>auto simp: access_defs\<close>)

text \<open>The other registers of page 1, and those of page 0.\<close>

lemma keeps_demod_regs [keeps_intros]:
  "keeps (gated on n) (rtlsdr_demod_write_reg 0 addr val len)"
  "addr AND 0xff \<noteq> 1 \<Longrightarrow> keeps (gated on n) (rtlsdr_demod_write_reg page addr val len)"
proof -
  show "keeps (gated on n) (rtlsdr_demod_write_reg 0 addr val len)"
    by (rule keeps_demod_write) simp
  have "drop_bit 8 (push_bit 8 addr OR push_bit 5 1) = take_bit 8 addr"
    by (rule bit_word_eqI) (auto simp: bit_simps)
  then have "drop_bit 8 (push_bit 8 addr OR 0x20) = addr AND 0xff"
    by (simp add: take_bit_eq_mask mask_numeral)
  moreover have "drop_bit 8 (0x120 :: u16) = 1" by simp
  ultimately have "addr AND 0xff = 1" if "push_bit 8 addr OR 0x20 = (0x120 :: u16)" using that by simp
  then show "keeps (gated on n) (rtlsdr_demod_write_reg page addr val len)" if "addr AND 0xff \<noteq> 1"
    using that by (intro keeps_demod_write) auto
qed

text \<open>The soft reset leaves the repeater closed.\<close>

lemma moves_repeater_reg:
  "moves (gated b n) (rtlsdr_demod_write_reg 1 1 val 1) (gated (bit val 3) n)"
proof -
  let ?x = "xfer CTRL_OUT 0x120 0x11 (reg_bytes val 1) 1"
  have "gate_step (Some b) (?x r) = Some (bit val 3)" if "repeater_ok (?x r)" for r
    using that by (simp add: gate_step_def repeater_ok_def access_defs reg_bytes_def bit_simps)
  then have "moves (gated b n) (usb_ctrl CTRL_OUT 0x120 0x11 (reg_bytes val 1) 1) (gated (bit val 3) n)"
    by (intro moves_usb_ctrl) (auto simp: gated_def intro: bracketed_snoc)
  then show ?thesis unfolding rtlsdr_demod_write_reg_def
    by (intro moves_bind[where Q = "gated (bit val 3) n"]) (auto intro!: keeps_intros)
qed

lemma keeps_write_reg [keeps_intros]:
  "keeps (gated on n) (rtlsdr_write_reg USBB addr val len)" "keeps (gated on n) (rtlsdr_write_reg SYSB addr val len)"
  unfolding rtlsdr_write_reg_def by (intro keeps_intros keeps_other_ctrl; simp add: access_defs)+

lemma keeps_read_reg [keeps_intros]: "keeps (gated on n) (rtlsdr_read_reg SYSB addr len)"
  unfolding rtlsdr_read_reg_def by (intro keeps_intros keeps_other_ctrl; simp add: access_defs)

lemma keeps_gpio [keeps_intros]:
  "keeps (gated on n) (rtlsdr_set_gpio_output gpio)" "keeps (gated on n) (rtlsdr_set_gpio_bit gpio val)"
  unfolding rtlsdr_set_gpio_output_def rtlsdr_set_gpio_bit_def by (intro keeps_intros)+

lemma keeps_if_freq [keeps_intros]: "keeps (gated on n) (rtlsdr_set_if_freq freq)"
  unfolding rtlsdr_set_if_freq_def by (intro keeps_intros; simp)

lemma keeps_freq_correction [keeps_intros]: "keeps (gated on n) (rtlsdr_set_sample_freq_correction ppm)"
  unfolding rtlsdr_set_sample_freq_correction_def by (intro keeps_intros; simp)

section \<open>The tuner with the repeater open\<close>

lemma keeps_bus_write [keeps_intros]: "keeps (gated True n) (rtlsdr_write_array IICB addr data len)"
  unfolding rtlsdr_write_array_def
proof (intro keeps_intros)
  show "keeps (gated True n) (usb_ctrl CTRL_OUT addr (push_bit 8 (ucast IICB) OR 0x10) data (ucast len))"
    by (cases "addr = EEPROM_ADDR"; intro keeps_open_ctrl keeps_other_ctrl; simp add: access_defs)
qed

lemma keeps_bus_read [keeps_intros]: "keeps (gated True n) (rtlsdr_read_array IICB addr data len)"
  unfolding rtlsdr_read_array_def
  by (cases "addr = EEPROM_ADDR"; intro keeps_open_ctrl keeps_other_ctrl; simp add: access_defs)

lemma keeps_write_chunks [keeps_intros]: "keeps (gated True n) (write_chunks addr reg cs)"
  by (induction cs arbitrary: reg) (auto simp: rtlsdr_i2c_write_fn_def intro!: keeps_intros)

lemma keeps_tuner_registers [keeps_intros]:
  "keeps (gated True n) (r82xx_write reg val)" "keeps (gated True n) (r82xx_write_reg reg b)"
  "keeps (gated True n) (r82xx_write_reg_mask reg b m)" "keeps (gated True n) (r82xx_read reg len)"
  unfolding r82xx_write_reg_def r82xx_write_def r82xx_write_reg_mask_def r82xx_read_def
    rtlsdr_i2c_write_fn_def rtlsdr_i2c_read_fn_def
  by (intro keeps_intros)+

lemma keeps_set_pll_ref [keeps_intros]: "keeps (gated True n) (r82xx_set_pll_ref freq pll_ref)"
  unfolding r82xx_set_pll_ref_def pll_program_def pll_wait_lock_def by (intro keeps_intros)

lemma keeps_tuning [keeps_intros]:
  "keeps (gated True n) (r82xx_set_mux freq)" "keeps (gated True n) (r82xx_set_pll freq)"
  unfolding r82xx_set_mux_def r82xx_set_pll_def by (intro keeps_intros)+

lemma keeps_set_freq [keeps_intros]: "keeps (gated True n) (r82xx_set_freq freq)"
  unfolding r82xx_set_freq_def by (intro keeps_intros)

lemma keeps_calibrate [keeps_intros]: "keeps (gated True n) calibrate"
  unfolding calibrate_def calibrate_once_def by (intro keeps_intros)

lemma keeps_tuner_setup [keeps_intros]:
  "keeps (gated True n) (r82xx_set_gain manual gain)" "keeps (gated True n) (r82xx_set_bandwidth bw)"
  "keeps (gated True n) r82xx_standby" "keeps (gated True n) (r82xx_sysfreq_sel freq type delsys)"
  "keeps (gated True n) (r82xx_set_tv_standard bw' type delsys)"
  unfolding r82xx_set_gain_def r82xx_set_bandwidth_def r82xx_standby_def standby_writes_def
    r82xx_sysfreq_sel_def r82xx_set_tv_standard_def
  by (intro keeps_intros)+

lemma keeps_tuner_init [keeps_intros]: "keeps (gated True n) r820t_init"
  unfolding r820t_init_def r82xx_init_def by (intro keeps_intros)

section \<open>The operations\<close>

lemma moves_set_repeater:
  assumes "on = 0 \<or> on = 1"
  shows "moves (gated b (of_bool b)) (rtlsdr_set_i2c_repeater on) (gated (on \<noteq> 0) on)"
proof -
  let ?w = "rtlsdr_demod_write_reg 1 0x01 (if on \<noteq> 0 then 0x18 else 0x10) 1"
  let ?go = "do { modify (\<lambda>s. s\<lparr>rt_repeater := on\<rparr>); _ \<leftarrow> ?w; ret () }"
  have "moves (gated b on) ?w (gated (on \<noteq> 0) on)"
    using moves_repeater_reg[of b on "if on \<noteq> 0 then 0x18 else 0x10"] assms by (auto simp: bit_numeral_rec)
  then have "moves (gated b (of_bool b)) ?go (gated (on \<noteq> 0) on)"
    by (intro moves_bind[OF moves_modify] moves_bind[where Q = "gated (on \<noteq> 0) on"] keeps_ret) (simp_all add: gated_def)
  then show ?thesis
    using assms by (auto simp: moves_def rtlsdr_set_i2c_repeater_def the_dev_def gated_def)
qed

text \<open>Open, with the library knowing it; closed likewise.\<close>

abbreviation bus_open :: "rtl \<Rightarrow> bool" where
  "bus_open \<equiv> gated True 1"

abbreviation bus_closed :: "rtl \<Rightarrow> bool" where
  "bus_closed \<equiv> gated False 0"

lemma moves_open: "moves bus_closed (rtlsdr_set_i2c_repeater 1) bus_open" "moves bus_open (rtlsdr_set_i2c_repeater 1) bus_open"
  using moves_set_repeater[of 1 False] moves_set_repeater[of 1 True] by simp_all

lemma moves_close: "moves bus_open (rtlsdr_set_i2c_repeater 0) bus_closed" "moves bus_closed (rtlsdr_set_i2c_repeater 0) bus_closed"
  using moves_set_repeater[of 0 True] moves_set_repeater[of 0 False] by simp_all

abbreviation settled :: "rtl \<Rightarrow> bool" where
  "settled \<equiv> \<lambda>s. bus_open s \<or> bus_closed s"

lemma keeps_settled: "keeps bus_open f \<Longrightarrow> keeps bus_closed f \<Longrightarrow> keeps settled f"
  by (auto simp: moves_def)

lemma moves_weaken: "moves P f Q \<Longrightarrow> (\<And>s. P' s \<Longrightarrow> P s) \<Longrightarrow> (\<And>s. Q s \<Longrightarrow> Q' s) \<Longrightarrow> moves P' f Q'"
  by (auto simp: moves_def)

lemma moves_settled: "moves settled (rtlsdr_set_i2c_repeater 1) bus_open" "moves settled (rtlsdr_set_i2c_repeater 0) bus_closed"
  using moves_open moves_close by (auto simp: moves_def)

text \<open>A bracketed call may have closed the repeater itself, as a nested one does.\<close>

lemma moves_with_repeater:
  assumes "moves bus_open f settled" shows "moves settled (with_repeater f) bus_closed"
  unfolding with_repeater_def
  by (intro moves_bind[OF moves_settled(1)] moves_bind[OF assms] moves_bind[OF moves_settled(2)] keeps_ret)

lemma keeps_bracket:
  assumes "moves bus_open f settled"
  shows "keeps bus_closed (with_repeater f)" "keeps settled (with_repeater f)"
  using moves_with_repeater[OF assms] by (auto simp: moves_def)

lemma moves_opened_settled: "keeps bus_open f \<Longrightarrow> moves bus_open f settled"
  by (simp add: moves_def)

lemma keeps_settled_modify [keeps_intros]:
  "(\<And>on n s. gated on n (f s) = gated on n s) \<Longrightarrow> keeps settled (modify f)"
  by (simp add: moves_modify)

lemma keeps_settled_if_freq [keeps_intros]: "keeps settled (rtlsdr_set_if_freq freq)"
  by (intro keeps_settled keeps_if_freq)

lemma tuner_functions:
  "tuner_set_freq t = Some set_freq \<Longrightarrow> keeps bus_open (set_freq freq)"
  "tuner_set_gain t = Some set_gain \<Longrightarrow> keeps bus_open (set_gain gain)"
  "tuner_set_gain_mode t = Some set_mode \<Longrightarrow> keeps bus_open (set_mode manual)"
  by (auto simp: tuner_set_freq_def tuner_set_gain_def tuner_set_gain_mode_def split: if_splits intro: keeps_intros)

lemma keeps_center_freq [keeps_intros]:
  "keeps bus_closed (rtlsdr_set_center_freq freq)" "keeps settled (rtlsdr_set_center_freq freq)"
  unfolding rtlsdr_set_center_freq_def 
  by (intro keeps_intros; simp add: keeps_bracket moves_opened_settled tuner_functions)+

lemma moves_set_bw: "tuner_set_bw t = Some set_bw \<Longrightarrow> moves bus_open (set_bw bw) settled"
proof -
  have "moves bus_open (r820t_set_bw bw) settled"
    unfolding r820t_set_bw_def
    by (rule moves_bind[where Q = settled]) (intro moves_opened_settled keeps_intros)+
  then show "tuner_set_bw t = Some set_bw \<Longrightarrow> moves bus_open (set_bw bw) settled"
    by (auto simp: tuner_set_bw_def split: if_splits)
qed

lemma moves_the_tuner:
  assumes "\<And>x. (\<And>y. x = Some y \<Longrightarrow> \<exists>t. f t = Some y) \<Longrightarrow> moves P (g x) Q"
  shows "moves P (State_Monad.bind (the_tuner f) g) Q"
proof -
  have "moves P (g (case rt_tuner s of None \<Rightarrow> None | Some t \<Rightarrow> f t)) Q" for s
    by (rule assms) (auto split: option.splits)
  then show ?thesis by (simp add: moves_def the_tuner_def the_dev_def) blast
qed

lemma moves_some_set_bw:
  "(\<And>y. x = Some y \<Longrightarrow> \<exists>t. tuner_set_bw t = Some y) \<Longrightarrow> x = Some set_bw \<Longrightarrow> moves bus_open (set_bw bw) settled"
  using moves_set_bw by blast

lemmas bracket_rules = keeps_bracket moves_opened_settled tuner_functions moves_some_set_bw

lemma keeps_offset_tuning [keeps_intros]: "keeps bus_closed (rtlsdr_set_offset_tuning on)"
  unfolding rtlsdr_set_offset_tuning_def
  by (intro moves_the_tuner keeps_intros; auto intro: bracket_rules)

lemma keeps_soft_reset: "keeps bus_closed (rtlsdr_demod_write_reg 1 0x01 0x14 1)" "keeps bus_closed (rtlsdr_demod_write_reg 1 0x01 0x10 1)"
  using moves_repeater_reg[of False 0 "0x14"] moves_repeater_reg[of False 0 "0x10"] by (simp_all add: bit_numeral_rec)

lemma keeps_sample_rate [keeps_intros]: "keeps bus_closed (rtlsdr_set_sample_rate rate)"
  unfolding rtlsdr_set_sample_rate_def program_rate_def
  by (intro moves_the_tuner keeps_soft_reset keeps_intros; auto intro: bracket_rules)

lemma keeps_bandwidth [keeps_intros]: "keeps bus_closed (rtlsdr_set_tuner_bandwidth bw)"
  unfolding rtlsdr_set_tuner_bandwidth_def
  by (intro keeps_intros; auto intro: keeps_bracket moves_set_bw)

lemma keeps_gain [keeps_intros]:
  "keeps bus_closed (rtlsdr_set_tuner_gain gain)" "keeps bus_closed (rtlsdr_set_tuner_gain_mode mode)"
  unfolding rtlsdr_set_tuner_gain_def rtlsdr_set_tuner_gain_mode_def
  by (intro keeps_intros; auto intro: keeps_bracket moves_opened_settled tuner_functions)+

lemma keeps_clock [keeps_intros]: "keeps bus_closed update_tuner_clock"
  unfolding update_tuner_clock_def by (intro keeps_intros) simp

lemma keeps_xtal_freq [keeps_intros]: "keeps bus_closed (rtlsdr_set_xtal_freq r t)"
  unfolding rtlsdr_set_xtal_freq_def by (intro keeps_intros; simp)

lemma keeps_ppm [keeps_intros]: "keeps bus_closed (rtlsdr_set_freq_correction ppm)"
  unfolding rtlsdr_set_freq_correction_def by (intro moves_close(2) keeps_intros; simp)

lemma keeps_modes [keeps_intros]:
  "keeps bus_closed (rtlsdr_set_testmode on)" "keeps bus_closed (rtlsdr_set_agc_mode on)" "keeps bus_closed rtlsdr_reset_buffer"
  "keeps bus_closed (rtlsdr_set_bias_tee_gpio gpio on)"
  unfolding rtlsdr_set_testmode_def rtlsdr_set_agc_mode_def rtlsdr_reset_buffer_def rtlsdr_set_bias_tee_gpio_def
  by (intro keeps_intros)+

lemma tuner_exits:
  "(\<And>y. x = Some y \<Longrightarrow> \<exists>t. tuner_exit t = Some y) \<Longrightarrow> x = Some leave \<Longrightarrow> keeps bus_open leave"
  "(\<And>y. x = Some y \<Longrightarrow> \<exists>t. tuner_init t = Some y) \<Longrightarrow> x = Some start \<Longrightarrow> keeps bus_open start"
  by (auto simp: tuner_exit_def tuner_init_def split: if_splits intro: keeps_intros)

lemma keeps_direct_sampling [keeps_intros]: "keeps bus_closed (rtlsdr_set_direct_sampling on)"
  unfolding rtlsdr_set_direct_sampling_def
  by (intro moves_the_tuner keeps_intros; auto intro: keeps_bracket moves_opened_settled tuner_exits)

lemma keeps_deinit [keeps_intros]: "keeps bus_closed rtlsdr_deinit_baseband"
  unfolding rtlsdr_deinit_baseband_def
  by (intro moves_the_tuner keeps_intros; auto intro: keeps_bracket moves_opened_settled tuner_exits)

section \<open>Every access is bracketed\<close>

lemma keeps_settled_regs [keeps_intros]:
  "keeps settled (rtlsdr_demod_write_reg 0 addr val len)"
  "addr AND 0xff \<noteq> 1 \<Longrightarrow> keeps settled (rtlsdr_demod_write_reg page addr val len)"
  by (intro keeps_settled keeps_demod_regs; assumption)+

lemma keeps_settled_direct: "keeps settled (rtlsdr_set_direct_sampling on)"
  unfolding rtlsdr_set_direct_sampling_def
  by (intro moves_the_tuner keeps_intros; auto intro: keeps_bracket moves_opened_settled tuner_exits)

lemma ddc_register:
  assumes "i \<in> set [0..<6]" shows "(0x16 + of_nat i) AND 0xff \<noteq> (1 :: u16)"
proof -
  have "i = 0 \<or> i = 1 \<or> i = 2 \<or> i = 3 \<or> i = 4 \<or> i = 5" using assms by auto
  then show ?thesis by (elim disjE) simp_all
qed

lemma list_all_map_intro: "(\<And>x. x \<in> set xs \<Longrightarrow> P (f x)) \<Longrightarrow> list_all P (map f xs)"
  by (induction xs) simp_all

lemma keeps_baseband: "keeps bus_closed rtlsdr_init_baseband"
  unfolding rtlsdr_init_baseband_def baseband_fir_def
  by (intro keeps_soft_reset list_all_map_intro keeps_intros ddc_register; simp)

lemma keeps_probe [keeps_intros]: "keeps bus_open probe_tuner"
  unfolding probe_tuner_def rtlsdr_i2c_read_reg_def by (intro keeps_intros)

text \<open>From the set-up for the tuner found to the end of \<open>rtlsdr_open\<close>.\<close>

lemma moves_open_end:
  "moves bus_open (do {
     open_setup type;
     (case tuner_init type of None \<Rightarrow> ret () | Some f \<Rightarrow> do { _ \<leftarrow> f; ret () });
     rtlsdr_set_i2c_repeater 0;
     ret 0 }) bus_closed"
proof (cases "type = RTLSDR_TUNER_UNKNOWN")
  case True
  then have "open_setup type = do { _ \<leftarrow> rtlsdr_set_direct_sampling 1; ret () }" by (simp add: open_setup_def)
  then have "moves bus_open (open_setup type) settled"
    by (simp only:) (rule moves_bind[OF moves_weaken[OF keeps_settled_direct] keeps_ret[of settled]]; simp)
  then show ?thesis using True
    by (auto simp: tuner_init_def intro!: moves_bind[of bus_open _ settled] moves_bind[OF moves_settled(2)] keeps_ret)
next
  case False
  then have "keeps bus_open (open_setup type)"
    unfolding open_setup_def by (simp only: if_False, intro keeps_intros; simp)
  moreover have "tuner_init type = Some r820t_init" using False by (simp add: tuner_init_def)
  ultimately show ?thesis
    by (auto intro!: moves_bind[of bus_open _ bus_open] moves_bind[OF moves_close(1)] keeps_intros)
qed

lemma moves_rtlsdr_open: "keeps bus_closed rtlsdr_open"
  unfolding rtlsdr_open_def
  apply (rule keeps_bind, intro keeps_intros)
  apply (rule keeps_bind, intro keeps_intros, simp)
  apply (rule keeps_bind, rule keeps_baseband)
  apply (rule keeps_bind, intro keeps_intros, simp)
  apply (rule moves_bind[OF moves_open(1)])
  apply (rule moves_bind[of bus_open _ bus_open], intro keeps_intros)
  apply (rule moves_bind[of bus_open _ bus_open], intro keeps_intros, simp)
  apply (rule moves_open_end)
  done

text \<open>A device that was opened, and then used through any of the operations.\<close>

inductive rtl_reach :: "rtl \<Rightarrow> bool" where
  reach_open: "rtl_reach (snd (run_state rtlsdr_open (rtl_zero usb env)))"
| reach_freq: "rtl_reach s \<Longrightarrow> rtl_reach (snd (run_state (rtlsdr_set_center_freq freq) s))"
| reach_rate: "rtl_reach s \<Longrightarrow> rtl_reach (snd (run_state (rtlsdr_set_sample_rate freq) s))"
| reach_bandwidth: "rtl_reach s \<Longrightarrow> rtl_reach (snd (run_state (rtlsdr_set_tuner_bandwidth freq) s))"
| reach_gain: "rtl_reach s \<Longrightarrow> rtl_reach (snd (run_state (rtlsdr_set_tuner_gain i) s))"
| reach_gain_mode: "rtl_reach s \<Longrightarrow> rtl_reach (snd (run_state (rtlsdr_set_tuner_gain_mode b) s))"
| reach_ppm: "rtl_reach s \<Longrightarrow> rtl_reach (snd (run_state (rtlsdr_set_freq_correction i) s))"
| reach_xtal: "rtl_reach s \<Longrightarrow> rtl_reach (snd (run_state (rtlsdr_set_xtal_freq x y) s))"
| reach_offset: "rtl_reach s \<Longrightarrow> rtl_reach (snd (run_state (rtlsdr_set_offset_tuning b) s))"
| reach_direct: "rtl_reach s \<Longrightarrow> rtl_reach (snd (run_state (rtlsdr_set_direct_sampling i) s))"
| reach_testmode: "rtl_reach s \<Longrightarrow> rtl_reach (snd (run_state (rtlsdr_set_testmode b) s))"
| reach_agc: "rtl_reach s \<Longrightarrow> rtl_reach (snd (run_state (rtlsdr_set_agc_mode b) s))"
| reach_bias: "rtl_reach s \<Longrightarrow> rtl_reach (snd (run_state (rtlsdr_set_bias_tee_gpio gpio b) s))"
| reach_reset: "rtl_reach s \<Longrightarrow> rtl_reach (snd (run_state rtlsdr_reset_buffer s))"
| reach_deinit: "rtl_reach s \<Longrightarrow> rtl_reach (snd (run_state rtlsdr_deinit_baseband s))"

lemma closed_step: "keeps bus_closed f \<Longrightarrow> bus_closed s \<Longrightarrow> bus_closed (snd (run_state f s))"
  by (simp add: moves_def)

lemma reach_closed:
  assumes "rtl_reach s" shows "bus_closed s"
proof -
  have start: "bus_closed (rtl_zero usb env)" for usb env by (simp add: gated_def rtl_zero_def)
  from assms show ?thesis
    by (induction rule: rtl_reach.induct) (auto intro!: closed_step keeps_intros moves_rtlsdr_open start)
qed

text \<open>A dongle that answers every transfer with one byte, the identity of an R820T.\<close>

definition usb_example :: adsb_dev where
  "usb_example = \<lparr>ad_response = replicate 32 0, ad_success = False, ad_bytes = 0\<rparr>"

text \<open>A bus on which every transfer delivers the length asked for.\<close>

definition bus_example :: "nat \<Rightarrow> u16 \<Rightarrow> ctrl_answer" where
  "bus_example k len = \<lparr>ca_mutex = True, ca_submit = 0, ca_reply = Some (0, replicate (8 + unat len) 0x69), ca_stack = []\<rparr>"

end
