(* ===== verification/RtlFrame.thy ===== *)
theory RtlFrame
  imports RtlGate
begin

text \<open>
  The interface between the tuner's registers and the operations above them: what a predicate on the
  device must survive so that it survives every operation of the library.
\<close>

section \<open>Predicates on the tuner's registers\<close>

lemma short_length [simp]: "(ucast (len :: u8) :: u16) < 256"
proof -
  have "uint len < 256" using uint_lt2p[of len] by simp
  then show ?thesis by (simp add: word_less_def unsigned_ucast_eq take_bit_eq_mod)
qed

lemma keeps_conj: "keeps P f \<Longrightarrow> keeps Q f \<Longrightarrow> keeps (\<lambda>s. P s \<and> Q s) f"
  by (simp add: moves_def)

text \<open>A call whose result is known.\<close>

lemma moves_bind_result:
  assumes "\<And>s. P s \<Longrightarrow> fst (run_state f s) = x" "keeps P f" "moves P (g x) R"
  shows "moves P (State_Monad.bind f g) R"
  using assms unfolding moves_def by (simp add: split_beta)

text \<open>
  \<open>chip_frame\<close>: the predicate may depend on the tuner's registers, on the shadow and on the log of the writes
  to the tuner. A transfer that carries no register of the tuner keeps it, a register write keeps it, and
  the other fields do not matter.
\<close>

locale chip_frame =
  fixes I :: "rtl \<Rightarrow> bool"
  assumes in_ctrl: "len < 256 \<Longrightarrow> keeps I (usb_ctrl CTRL_IN v i data len)"
    and out_ctrl: "len < 256 \<Longrightarrow> i \<noteq> 0x610 \<or> length data \<le> 1 \<Longrightarrow> keeps I (usb_ctrl CTRL_OUT v i data len)"
    and reg_write: "keeps I (r82xx_write reg [b])"
    and priv_frame: "I s \<Longrightarrow> rx_regs p = rx_regs (rt_priv s) \<Longrightarrow> I (s\<lparr>rt_priv := p\<rparr>)"
    and cfg_frame: "I s \<Longrightarrow> rc_i2c_addr c = rc_i2c_addr (rt_cfg s) \<Longrightarrow>
      rc_max_i2c_msg_len c = rc_max_i2c_msg_len (rt_cfg s) \<Longrightarrow> I (s\<lparr>rt_cfg := c\<rparr>)"
    and field_frame: "I s \<Longrightarrow> I (s\<lparr>rt_repeater := n\<rparr>)" "I s \<Longrightarrow> I (s\<lparr>rt_freq := f\<rparr>)"
      "I s \<Longrightarrow> I (s\<lparr>rt_offs_freq := f\<rparr>)"
begin

lemma keeps_regs:
  "keeps I (rtlsdr_demod_write_reg page addr val len)" "keeps I (rtlsdr_read_array block adr data len)"
  "keeps I (rtlsdr_write_reg USBB adr val len)" "keeps I (rtlsdr_write_reg SYSB adr val len)"
  "keeps I (rtlsdr_read_reg block adr len)" "keeps I (rtlsdr_write_array block adr [b] len)"
  unfolding rtlsdr_demod_write_reg_def rtlsdr_demod_read_reg_def rtlsdr_read_array_def rtlsdr_write_array_def
    rtlsdr_write_reg_def rtlsdr_read_reg_def
  by (intro in_ctrl out_ctrl keeps_intros; simp)+

lemma keeps_fields:
  "(\<And>p. rx_regs (f p) = rx_regs p) \<Longrightarrow> keeps I (upd_priv f)"
  "(\<And>c. rc_i2c_addr (g c) = rc_i2c_addr c \<and> rc_max_i2c_msg_len (g c) = rc_max_i2c_msg_len c) \<Longrightarrow> keeps I (upd_cfg g)"
  unfolding upd_priv_def upd_cfg_def by (auto intro!: moves_modify priv_frame cfg_frame)

lemma keeps_repeater: "keeps I (rtlsdr_set_i2c_repeater on)"
  unfolding rtlsdr_set_i2c_repeater_def by (intro keeps_regs moves_modify field_frame keeps_intros)

lemma keeps_tuner_regs:
  "keeps I (r82xx_write_reg reg b)" "keeps I (r82xx_write_reg_mask reg b m)" "keeps I (r82xx_read reg len)"
  unfolding r82xx_write_reg_def r82xx_write_reg_mask_def r82xx_read_def rtlsdr_i2c_write_fn_def rtlsdr_i2c_read_fn_def
  by (intro reg_write keeps_regs keeps_intros)+

lemmas chip_rules = keeps_tuner_regs keeps_regs keeps_fields keeps_repeater

lemma keeps_pll: "keeps I (r82xx_set_pll freq)"
  unfolding r82xx_set_pll_def r82xx_set_pll_ref_def pll_program_def pll_wait_lock_def
  by (intro chip_rules keeps_intros; simp)

lemma keeps_tune: "keeps I (r82xx_set_freq freq)"
  unfolding r82xx_set_freq_def r82xx_set_mux_def
  by (intro keeps_pll chip_rules keeps_intros; simp)

lemma keeps_rest:
  "keeps I (rtlsdr_set_if_freq freq)" "keeps I (rtlsdr_set_sample_freq_correction ppm)" "keeps I (r82xx_set_bandwidth bw)"
  unfolding rtlsdr_set_if_freq_def rtlsdr_set_sample_freq_correction_def r82xx_set_bandwidth_def
  by (intro chip_rules keeps_intros; simp)+

lemma keeps_with_repeater: "keeps I f \<Longrightarrow> keeps I (with_repeater f)"
  unfolding with_repeater_def by (intro keeps_repeater keeps_intros)

lemma keeps_center: "keeps I (rtlsdr_set_center_freq freq)"
  unfolding rtlsdr_set_center_freq_def tuner_set_freq_def
  by (intro keeps_rest keeps_with_repeater moves_modify field_frame keeps_intros; auto split: if_splits intro: keeps_tune)

lemma keeps_set_bw: "(\<And>y. x = Some y \<Longrightarrow> \<exists>t. tuner_set_bw t = Some y) \<Longrightarrow> x = Some set_bw \<Longrightarrow> keeps I (set_bw bw)"
proof -
  have "keeps I (r820t_set_bw bw)"
    unfolding r820t_set_bw_def by (intro keeps_rest keeps_center keeps_intros)
  then show "(\<And>y. x = Some y \<Longrightarrow> \<exists>t. tuner_set_bw t = Some y) \<Longrightarrow> x = Some set_bw \<Longrightarrow> keeps I (set_bw bw)"
    by (auto simp: tuner_set_bw_def split: if_splits)
qed

lemma keeps_offset: "keeps I (rtlsdr_set_offset_tuning on)"
  unfolding rtlsdr_set_offset_tuning_def
  by (intro moves_the_tuner keeps_rest keeps_center keeps_with_repeater moves_modify field_frame keeps_intros;
      auto intro: keeps_set_bw)

lemma keeps_program_rate: "keeps I (program_rate ratio rate)"
  unfolding program_rate_def
  by (intro moves_the_tuner keeps_rest keeps_regs keeps_offset keeps_with_repeater keeps_intros; auto intro: keeps_set_bw)

text \<open>What the first write of a list establishes stays.\<close>

lemma moves_run_or:
  assumes "moves P f I" "list_all (keeps I) fs" shows "moves P (run_or r (f # fs)) I"
  by (simp, intro moves_bind[OF assms(1)] keeps_run_or assms(2))

text \<open>The set-up of the tuner, from the reset of the shadow on.\<close>

lemma keeps_setup: "keeps I (r82xx_set_gain manual gain)" "keeps I r82xx_standby" "keeps I (r82xx_sysfreq_sel freq type delsys)"
  "keeps I calibrate"
  unfolding r82xx_set_gain_def r82xx_standby_def standby_writes_def r82xx_sysfreq_sel_def calibrate_def calibrate_once_def
  by (intro keeps_pll chip_rules keeps_intros; simp)+

lemma moves_tv_standard:
  assumes "moves P (upd_priv (\<lambda>p. p\<lparr>rx_regs := r82xx_init_array\<rparr>)) I"
  shows "moves P (r82xx_set_tv_standard bw type delsys) I"
  unfolding r82xx_set_tv_standard_def
  by (rule moves_bind[OF assms]) (intro keeps_setup chip_rules keeps_intros; simp)

lemma keeps_start:
  assumes "keeps I (upd_priv (\<lambda>p. p\<lparr>rx_regs := r82xx_init_array\<rparr>))" "\<And>f. keeps I (upd_cfg f)"
    and "keeps I (r82xx_write 0x05 r82xx_init_array)"
  shows "keeps I r820t_init"
  unfolding r820t_init_def r82xx_init_def
  by (intro moves_tv_standard[OF assms(1)] assms(2,3) keeps_setup keeps_fields(1) keeps_intros; simp)

lemma keeps_mode_gain: "keeps I (rtlsdr_set_tuner_gain_mode mode)"
  unfolding rtlsdr_set_tuner_gain_mode_def
  by (intro keeps_with_repeater keeps_intros; auto simp: tuner_set_gain_mode_def split: if_splits intro: keeps_setup)

lemma keeps_buffer_reset: "keeps I rtlsdr_reset_buffer"
  unfolding rtlsdr_reset_buffer_def by (intro keeps_regs keeps_intros)

end

section \<open>Predicates that do not look at the tuner at all\<close>

locale io_frame =
  fixes I :: "rtl \<Rightarrow> bool"
  assumes any_xfer: "I s \<Longrightarrow> I (s\<lparr>rt_usb := d, rt_trace := rt_trace s @ [x]\<rparr>)"
    and any_field: "I s \<Longrightarrow> I (s\<lparr>rt_priv := p\<rparr>)" "I s \<Longrightarrow> I (s\<lparr>rt_cfg := c\<rparr>)"
      "I s \<Longrightarrow> I (s\<lparr>rt_repeater := n\<rparr>)" "I s \<Longrightarrow> I (s\<lparr>rt_freq := f\<rparr>)" "I s \<Longrightarrow> I (s\<lparr>rt_offs_freq := f\<rparr>)"
begin

lemma keeps_ctrl: "keeps I (usb_ctrl ty v i data len)"
  by (rule moves_usb_ctrl) (rule any_xfer)

lemma keeps_chunks: "keeps I (write_chunks addr reg cs)"
  by (induction cs arbitrary: reg) (auto simp: rtlsdr_i2c_write_fn_def rtlsdr_write_array_def intro!: keeps_ctrl keeps_intros)

lemma keeps_write: "keeps I (r82xx_write reg val)"
  unfolding r82xx_write_def upd_priv_def by (intro keeps_chunks moves_modify any_field keeps_intros)

end

sublocale io_frame \<subseteq> chip_frame I
  by unfold_locales (simp_all add: keeps_ctrl any_field keeps_write)

section \<open>Predicates on the whole device\<close>

text \<open>The fields the remaining operations set but for the crystal's frequency, and the start of the tuner.\<close>

locale tuner_frame = chip_frame +
  assumes more_frame: "I s \<Longrightarrow> I (s\<lparr>rt_rate := f\<rparr>)" "I s \<Longrightarrow> I (s\<lparr>rt_bw := f\<rparr>)" "I s \<Longrightarrow> I (s\<lparr>rt_corr := n\<rparr>)"
      "I s \<Longrightarrow> I (s\<lparr>rt_gain := n\<rparr>)" "I s \<Longrightarrow> I (s\<lparr>rt_direct_sampling := n\<rparr>)"
      "I s \<Longrightarrow> I (s\<lparr>rt_tun_xtal := f\<rparr>)" "I s \<Longrightarrow> I (s\<lparr>rt_fosc := f\<rparr>)" "I s \<Longrightarrow> I (s\<lparr>rt_dev_lost := b\<rparr>)"
    and tuner_start: "keeps I r820t_init"
begin

lemma op_sample_rate: "keeps I (rtlsdr_set_sample_rate rate)"
  unfolding rtlsdr_set_sample_rate_def by (intro keeps_program_rate moves_modify more_frame keeps_intros)

lemma op_bandwidth: "keeps I (rtlsdr_set_tuner_bandwidth bw)"
  unfolding rtlsdr_set_tuner_bandwidth_def
  by (intro keeps_with_repeater moves_modify more_frame keeps_intros; auto intro: keeps_set_bw)

lemma op_gain: "keeps I (rtlsdr_set_tuner_gain gain)"
  unfolding rtlsdr_set_tuner_gain_def
  by (intro keeps_with_repeater moves_modify more_frame keeps_intros;
      auto simp: tuner_set_gain_def split: if_splits intro: keeps_setup)

lemma op_clock: "keeps I update_tuner_clock"
  unfolding update_tuner_clock_def
  by (intro moves_modify keeps_intros) (auto intro: cfg_frame more_frame)

lemma op_ppm: "keeps I (rtlsdr_set_freq_correction ppm)"
  unfolding rtlsdr_set_freq_correction_def
  by (intro op_clock keeps_rest keeps_center keeps_repeater moves_modify more_frame keeps_intros)

lemma op_gpio: "keeps I (rtlsdr_set_gpio_output gpio)" "keeps I (rtlsdr_set_gpio_bit gpio val)"
  unfolding rtlsdr_set_gpio_output_def rtlsdr_set_gpio_bit_def by (intro keeps_regs keeps_intros)+

lemma op_modes:
  "keeps I (rtlsdr_set_testmode on)" "keeps I (rtlsdr_set_agc_mode on)" "keeps I (rtlsdr_set_bias_tee_gpio gpio on)"
  unfolding rtlsdr_set_testmode_def rtlsdr_set_agc_mode_def rtlsdr_set_bias_tee_gpio_def
  by (intro keeps_regs op_gpio keeps_intros)+

lemma op_direct_sampling: "keeps I (rtlsdr_set_direct_sampling on)"
  unfolding rtlsdr_set_direct_sampling_def
  by (intro moves_the_tuner keeps_with_repeater keeps_rest keeps_regs keeps_center moves_modify more_frame keeps_intros;
      auto simp: tuner_exit_def tuner_init_def split: if_splits intro: keeps_setup tuner_start)

lemma op_deinit: "keeps I rtlsdr_deinit_baseband"
  unfolding rtlsdr_deinit_baseband_def
  by (intro moves_the_tuner keeps_with_repeater keeps_regs keeps_intros;
      auto simp: tuner_exit_def split: if_splits intro: keeps_setup)

lemma op_baseband: "keeps I rtlsdr_init_baseband"
  unfolding rtlsdr_init_baseband_def baseband_fir_def
  by (intro keeps_regs list_all_map_intro keeps_intros)

lemma op_probe: "keeps I probe_tuner"
  unfolding probe_tuner_def rtlsdr_i2c_read_reg_def by (intro keeps_regs op_gpio keeps_intros)

lemma keeps_open_setup: "keeps I (open_setup type)"
  unfolding open_setup_def by (intro op_direct_sampling keeps_regs keeps_rest moves_modify more_frame keeps_intros)

end

text \<open>With the crystal's frequency too the predicate survives every call of the library.\<close>

locale device_frame = tuner_frame +
  assumes xtal_frame: "I s \<Longrightarrow> I (s\<lparr>rt_rtl_xtal := f\<rparr>)"
begin

lemma op_xtal_freq: "keeps I (rtlsdr_set_xtal_freq r t)"
  unfolding rtlsdr_set_xtal_freq_def
  by (intro op_clock op_sample_rate keeps_center moves_modify more_frame xtal_frame keeps_intros)

lemma keeps_open:
  assumes "\<And>s t f. I s \<Longrightarrow> I (s\<lparr>rt_tuner_type := t, rt_tun_xtal := f, rt_tuner := Some t\<rparr>)"
  shows "keeps I rtlsdr_open"
  unfolding rtlsdr_open_def tuner_init_def
  by (intro keeps_regs op_baseband keeps_repeater op_probe keeps_open_setup moves_modify more_frame xtal_frame assms keeps_intros;
      auto split: if_splits intro: tuner_start)

text \<open>Every operation on an open device keeps the predicate.\<close>

lemmas keeps_operation = keeps_center op_sample_rate op_bandwidth op_gain op_ppm op_xtal_freq
  keeps_offset op_direct_sampling op_modes op_deinit keeps_mode_gain keeps_buffer_reset

lemma reachable:
  assumes "rtl_reach s" "\<And>usb env. I (snd (run_state rtlsdr_open (rtl_zero usb env)))"
  shows "I s"
  using assms by (induction rule: rtl_reach.induct) (use keeps_operation in \<open>auto simp: moves_def\<close>)

end

end
