(* ===== verification/RtlRate.thy ===== *)
theory RtlRate
  imports RtlFrame Cpr
begin

text \<open>
  The sample rate: which rates the resampler takes, the ratio programmed for them, and that the rate the
  library reports is the one that was asked for.
\<close>

section \<open>The ratio\<close>

definition ratio_word :: "u32 \<Rightarrow> u32" where
  "ratio_word r = real_rsamp_ratio (r AND 0x0ffffffc)"

text \<open>
  The register has no bit 28, and the chip takes bit 27 for it. That restores the ratio when both bits
  agree, as they do for the rates supported.
\<close>

lemma ratio_word_bits:
  assumes "drop_bit 27 r = 0 \<or> drop_bit 27 r = 3"
  shows "ratio_word r = r AND NOT 3"
proof (rule bit_word_eqI)
  fix n assume n: "n < LENGTH(32)"
  have m: "(0x0ffffffc :: u32) = push_bit 2 (mask 26)" "(0x08000000 :: u32) = push_bit 27 1" "(3 :: u32) = mask 2"
    by (simp_all add: mask_numeral)
  have d: "bit r (27 + k) \<longleftrightarrow> bit (drop_bit 27 r) k" for k by (simp add: bit_simps)
  have b3: "bit (3 :: u32) k \<longleftrightarrow> k < 2" if "k < 32" for k using that unfolding m(3) by (auto simp: bit_simps)
  have high: "\<not> bit r n" if "29 \<le> n"
    using assms d[of "n - 27"] b3[of "n - 27"] that n by auto
  have top: "bit r 28 = bit r 27" using assms d[of 1] d[of 0] b3[of 1] b3[of 0] by auto
  consider "n < 27" | "n = 27" | "n = 28" | "29 \<le> n" by linarith
  moreover have "bit (ratio_word r) n \<longleftrightarrow> (bit r n \<and> 2 \<le> n \<and> n < 28) \<or> n = 28 \<and> bit r 27"
    using n unfolding ratio_word_def real_rsamp_ratio_def m
    by (cases "n = 28"; simp only: bit_or_iff bit_and_iff bit_push_bit_iff bit_mask_iff bit_1_iff possible_bit_word; auto)
  moreover have "bit (r AND NOT 3) n \<longleftrightarrow> bit r n \<and> 2 \<le> n"
    using n unfolding m by (auto simp: bit_simps)
  ultimately show "bit (ratio_word r) n = bit (r AND NOT 3) n"
    using n top high by cases auto
qed

text \<open>Clearing the two low bits rounds down to a multiple of four.\<close>

lemma clear_low_bits: "uint (r AND NOT 3 :: u32) = uint r - uint r mod 4"
proof -
  have "r AND NOT (mask 2) = push_bit 2 (drop_bit 2 r)"
    by (rule bit_word_eqI) (auto simp: bit_simps not_less le_iff_add)
  then have "uint (r AND NOT 3) = uint (push_bit 2 (drop_bit 2 r))" by (simp add: mask_numeral)
  also have "\<dots> = uint r mod 2 ^ 32 div 4 * 4 mod 2 ^ 32"
    by (simp only: unsigned_push_bit_eq unsigned_drop_bit_eq) (simp add: take_bit_eq_mod push_bit_eq_mult drop_bit_eq_div)
  also have "\<dots> = uint r div 4 * 4"
  proof -
    have "0 \<le> uint r" "uint r < 2 ^ 32" using uint_lt2p[of r] by simp_all
    then have "uint r div 4 * 4 < 2 ^ 32" "0 \<le> uint r div 4 * 4"
      by (linarith, simp add: pos_imp_zdiv_nonneg_iff)
    then show ?thesis using \<open>uint r < 2 ^ 32\<close> by (simp add: mod_pos_pos_trivial)
  qed
  finally show ?thesis by (simp add: minus_mod_eq_div_mult)
qed

section \<open>Rates\<close>

abbreviation xtal_product :: rat where
  "xtal_product \<equiv> 28800000 * 2 ^ 22"

lemma product_exact: "dbl (of_nat (unat (28800000 :: u32)) * 2 ^ 22) = xtal_product"
  using dbl_int[of "28800000 * 2 ^ 22"] by simp

text \<open>The quotient is rounded up to an integer only where it is one.\<close>

lemma quotient_floor:
  fixes f :: int
  assumes "225000 < f" "f \<le> 3200000"
  defines "q \<equiv> xtal_product / of_int f"
  shows "trunc (dbl q) = \<lfloor>q\<rfloor>"
proof -
  let ?d = "\<lfloor>dbl q\<rfloor>"
  have f: "0 < (of_int f :: rat)" "225000 < (of_int f :: rat)" "(of_int f :: rat) \<le> 3200000" using assms by auto
  have q0: "0 < q" "q < 2 ^ 30" using f by (simp_all add: q_def divide_less_eq)
  have t: "trunc (dbl q) = ?d" using fp_round_nonneg[of q 53] q0 by (simp add: trunc_def)
  have "\<bar>dbl q - q\<bar> \<le> q / 2 ^ 53" using fp_round_error[of 53 q] q0 by simp
  moreover have "q / 2 ^ 53 < 1 / 2 ^ 23" using q0 by (simp add: divide_less_eq)
  ultimately have err: "\<bar>dbl q - q\<bar> < 1 / 2 ^ 23" by linarith
  have lo: "\<lfloor>q\<rfloor> \<le> ?d"
  proof -
    have "dbl (of_int \<lfloor>q\<rfloor>) \<le> dbl q" by (intro fp_round_mono) simp_all
    moreover have "\<lfloor>q\<rfloor> < 2 ^ 30" "0 \<le> \<lfloor>q\<rfloor>" using q0 by (simp_all add: floor_less_iff)
    ultimately have "of_int \<lfloor>q\<rfloor> \<le> dbl q" using dbl_int[of "\<lfloor>q\<rfloor>"] by simp
    then show ?thesis by (simp add: le_floor_iff)
  qed
  have "of_int ?d \<le> q"
  proof (rule ccontr)
    assume "\<not> of_int ?d \<le> q"
    then have "xtal_product < of_int ?d * of_int f" using f by (simp add: q_def divide_less_eq not_le)
    then have "(of_int (28800000 * 2 ^ 22) :: rat) < of_int (?d * f)" by simp
    then have "28800000 * 2 ^ 22 + 1 \<le> ?d * f" unfolding of_int_less_iff by linarith
    then have "(of_int (28800000 * 2 ^ 22 + 1) :: rat) \<le> of_int (?d * f)" by (simp only: of_int_le_iff)
    then have "xtal_product + 1 \<le> of_int ?d * of_int f" by simp
    then have "q + 1 / of_int f \<le> of_int ?d" using f by (simp add: q_def field_simps)
    moreover have "1 / 2 ^ 23 \<le> 1 / (of_int f :: rat)" using f by (simp add: field_simps)
    moreover have "of_int ?d \<le> dbl q" by simp
    ultimately show False using err by linarith
  qed
  then have "?d \<le> \<lfloor>q\<rfloor>" by (simp add: le_floor_iff)
  then show ?thesis using lo t by simp
qed

lemma supported_cases:
  assumes "rate_supported f"
  shows "225000 < uint f" "uint f \<le> 3200000" "uint f \<le> 300000 \<or> 900000 < uint f"
  using assms by (auto simp: rate_supported_def word_less_def word_le_def)

lemma ratio_programmed:
  fixes n :: int
  assumes "rate_supported f" "uint f = n"
  defines "q \<equiv> \<lfloor>xtal_product / of_int n :: rat\<rfloor>"
  shows "uint (real_rsamp_ratio (rsamp_ratio 28800000 f)) = q - q mod 4"
proof -
  note f = supported_cases[OF assms(1), unfolded assms(2)]
  let ?F = "of_int n :: rat"
  have F: "225001 \<le> ?F" "?F \<le> 3200000" "?F \<le> 300000 \<or> 900001 \<le> ?F" using f by auto
  have q: "0 \<le> q" "q < 2 ^ 27 \<or> 402653184 \<le> q \<and> q < 2 ^ 29"
    using F by (auto simp: q_def le_floor_iff floor_less_iff field_simps)
  then have b: "0 \<le> q" "q < 2 ^ 32" by auto
  then have u: "uint (word_of_int q :: u32) = q" by (simp add: uint_word_of_int)
  have "drop_bit 27 (word_of_int q :: u32) = 0 \<or> drop_bit 27 (word_of_int q :: u32) = 3"
  proof -
    have "uint (drop_bit 27 (word_of_int q :: u32)) = q div 2 ^ 27"
      using u b by (simp add: drop_bit_eq_div uint_div)
    moreover have "q div 2 ^ 27 = 0 \<or> q div 2 ^ 27 = 3" using q by auto
    ultimately show ?thesis by (simp add: word_uint_eq_iff)
  qed
  from ratio_word_bits[OF this] have "uint (ratio_word (word_of_int q)) = q - q mod 4"
    by (simp only: clear_low_bits u)
  moreover have "rsamp_ratio 28800000 f = word_of_int q AND 0x0ffffffc"
    using quotient_floor[of n] f
    unfolding rsamp_ratio_def product_exact q_def assms(2)[symmetric] by simp
  ultimately show ?thesis by (simp add: ratio_word_def)
qed

lemma real_rate_near:
  fixes n :: int
  assumes "rate_supported f" "uint f = n"
  defines "r \<equiv> real_rate 28800000 (real_rsamp_ratio (rsamp_ratio 28800000 f))"
  shows "of_int n \<le> r" "r \<le> of_int n + 1 / 2"
proof -
  note f = supported_cases[OF assms(1), unfolded assms(2)]
  let ?F = "of_int n :: rat" let ?q = "xtal_product / ?F"
  define R where "R = \<lfloor>?q\<rfloor> - \<lfloor>?q\<rfloor> mod 4"
  have F: "225001 \<le> ?F" "?F \<le> 3200000" using f by auto
  have R: "of_int R \<le> ?q" "?q - 4 < of_int R"
  proof -
    have "R \<le> \<lfloor>?q\<rfloor>" "\<lfloor>?q\<rfloor> - 3 \<le> R" by (auto simp: R_def)
    then show "of_int R \<le> ?q" "?q - 4 < of_int R" using floor_correct[of ?q] by linarith+
  qed
  have "?F * ?F \<le> 3200000 * 3200000" using F by (intro mult_mono) auto
  then have "xtal_product / (?F + 1 / 2) \<le> ?q - 4" using F by (simp add: field_simps)
  then have up: "xtal_product / (?F + 1 / 2) \<le> of_int R" using R by linarith
  moreover have "0 < xtal_product / (?F + 1 / 2)" using F by simp
  ultimately have R0: "0 < (of_int R :: rat)" by linarith
  have lower: "?F \<le> xtal_product / of_int R" using R(1) R0 F by (simp add: field_simps)
  have upper: "xtal_product / of_int R \<le> ?F + 1 / 2" using up R0 F by (simp add: field_simps)
  have "r = dbl (xtal_product / of_int R)"
    using ratio_programmed[OF assms(1,2)] unfolding r_def real_rate_def product_exact R_def by (metis of_int_of_nat_eq uint_nat)
  moreover have "dbl ?F = ?F" using dbl_int[of n] f by simp
  moreover have "dbl (?F + 1 / 2) = ?F + 1 / 2" using dbl_dyadic[of "2 * n + 1" 1] f by (simp add: add_divide_distrib)
  ultimately show "?F \<le> r" "r \<le> ?F + 1 / 2"
    using fp_round_mono[OF lower, of 53] fp_round_mono[OF upper, of 53] by simp_all
qed

lemma rate_kept:
  assumes "rate_supported f"
  shows "word_of_int (trunc (real_rate 28800000 (real_rsamp_ratio (rsamp_ratio 28800000 f)))) = f"
proof -
  let ?r = "real_rate 28800000 (real_rsamp_ratio (rsamp_ratio 28800000 f))"
  obtain n where n: "uint f = n" by simp
  note near = real_rate_near[OF assms n]
  have "(0 :: rat) \<le> of_int n" using n uint_ge_0[of f] by (simp only: of_int_0_le_iff)
  then have "0 \<le> ?r" using near(1) by linarith
  moreover have "\<lfloor>?r\<rfloor> = n" using near by (intro floor_unique) linarith+
  ultimately show ?thesis by (simp add: trunc_def flip: n)
qed

section \<open>What tuning leaves alone\<close>

interpretation rate_frame: io_frame "\<lambda>s. rt_rate s = f"
  by unfold_locales simp_all

text \<open>A write of some bytes to a register of the demodulator.\<close>

definition sent :: "u16 \<Rightarrow> u16 \<Rightarrow> u8 list \<Rightarrow> rtl \<Rightarrow> bool" where
  "sent v i bytes s \<longleftrightarrow> (\<exists>x \<in> set (rt_trace s). cx_type x = CTRL_OUT \<and> cx_value x = v \<and> cx_index x = i \<and> cx_out x = bytes)"

interpretation sent_frame: io_frame "sent v i bytes"
  by unfold_locales (auto simp: sent_def)

lemma moves_sent:
  "moves P (rtlsdr_demod_write_reg page addr val 2) (sent (push_bit 8 addr OR 0x20) (0x10 OR ucast page) (reg_bytes val 2))"
  unfolding rtlsdr_demod_write_reg_def
  by (rule moves_bind[where Q = "sent (push_bit 8 addr OR 0x20) (0x10 OR ucast page) (reg_bytes val 2)"])
     (auto simp: sent_def xfer_def reg_bytes_def rtlsdr_demod_read_reg_def
       intro!: moves_usb_ctrl sent_frame.keeps_ctrl keeps_intros)

text \<open>Both halves of the ratio reach the resampler.\<close>

lemma moves_anything: "moves P f (\<lambda>_. True)"
  by (simp add: moves_def)

lemmas ignore_first = moves_bind[OF moves_anything]

lemma program_rate_sent:
  "moves P (program_rate ratio rate) (sent 0x9f20 0x11 (reg_bytes (ucast (drop_bit 16 ratio)) 2))"
  "moves P (program_rate ratio rate) (sent 0xa120 0x11 (reg_bytes (ucast (ratio AND 0xffff)) 2))"
proof -
  let ?hi = "sent 0x9f20 0x11 (reg_bytes (ucast (drop_bit 16 ratio)) 2)"
  let ?lo = "sent 0xa120 0x11 (reg_bytes (ucast (ratio AND 0xffff)) 2)"
  have hi: "moves Q (rtlsdr_demod_write_reg 1 0x9f (ucast (drop_bit 16 ratio)) 2) ?hi" for Q
    using moves_sent[of Q 1 "0x9f"] by simp
  have lo: "moves Q (rtlsdr_demod_write_reg 1 0xa1 (ucast (ratio AND 0xffff)) 2) ?lo" for Q
    using moves_sent[of Q 1 "0xa1"] by simp
  show "moves P (program_rate ratio rate) ?hi"
    unfolding program_rate_def
    by (rule ignore_first, rule ignore_first, rule ignore_first, rule ignore_first)
       (intro moves_bind[where Q = ?hi] sent_frame.moves_run_or hi sent_frame.keeps_regs
        sent_frame.keeps_rest sent_frame.keeps_offset keeps_intros)
  have both: "moves Q (run_or 0 (rtlsdr_demod_write_reg 1 0x9f h 2 # rtlsdr_demod_write_reg 1 0xa1 (ucast (ratio AND 0xffff)) 2 # fs)) ?lo"
    if "list_all (keeps ?lo) fs" for Q h fs
    by (subst run_or.simps(2)) (rule ignore_first, rule sent_frame.moves_run_or[OF lo that])
  show "moves P (program_rate ratio rate) ?lo"
    unfolding program_rate_def
    by (rule ignore_first, rule ignore_first, rule ignore_first, rule ignore_first)
       (intro moves_bind[where Q = ?lo] both sent_frame.keeps_regs
        sent_frame.keeps_rest sent_frame.keeps_offset keeps_intros)
qed

lemma sample_rate_programmed:
  assumes "rt_rtl_xtal s = 28800000"
  shows "if rate_supported f
    then let s' = snd (run_state (rtlsdr_set_sample_rate f) s); ratio = rsamp_ratio 28800000 f
         in rt_rate s' = f \<and>
           sent 0x9f20 0x11 (reg_bytes (ucast (drop_bit 16 ratio)) 2) s' \<and>
           sent 0xa120 0x11 (reg_bytes (ucast (ratio AND 0xffff)) 2) s' \<and>
           \<bar>real_rate 28800000 (real_rsamp_ratio ratio) - of_nat (unat f)\<bar> \<le> 1 / 2
    else run_state (rtlsdr_set_sample_rate f) s = (- EINVAL, s)"
proof (cases "rate_supported f")
  case True
  let ?ratio = "rsamp_ratio 28800000 f" let ?s = "s\<lparr>rt_rate := f\<rparr>"
  have run: "snd (run_state (rtlsdr_set_sample_rate f) s) = snd (run_state (program_rate ?ratio f) ?s)"
    using True rate_kept[OF True] by (simp add: rtlsdr_set_sample_rate_def the_dev_def modify_def assms)
  have "\<bar>real_rate 28800000 (real_rsamp_ratio ?ratio) - of_nat (unat f)\<bar> \<le> 1 / 2"
    using real_rate_near[OF True uint_nat] by (simp add: abs_le_iff)
  moreover have "rt_rate (snd (run_state (program_rate ?ratio f) ?s)) = f"
    by (rule rate_frame.keeps_program_rate[of f, unfolded moves_def, rule_format]) simp
  ultimately show ?thesis
    using True program_rate_sent[of "\<lambda>_. True" ?ratio f] by (simp add: run Let_def moves_def)
next
  case False
  then show ?thesis by (simp add: rtlsdr_set_sample_rate_def)
qed

text \<open>
  C32: with the crystal at its nominal 28.8 MHz every rate the resampler supports is set exactly: the
  library reports it, both halves of the ratio are sent to the chip, and the rate the chip makes of the
  ratio differs by at most half a hertz. Any other rate is refused without a transfer.
\<close>

theorem sample_rate_exact:
  assumes "rt_rtl_xtal s = 28800000"
  shows "if rate_supported f
    then let s' = snd (run_state (rtlsdr_set_sample_rate f) s); ratio = rsamp_ratio 28800000 f
         in rt_rate s' = f \<and>
           sent 0x9f20 0x11 (reg_bytes (ucast (drop_bit 16 ratio)) 2) s' \<and>
           sent 0xa120 0x11 (reg_bytes (ucast (ratio AND 0xffff)) 2) s' \<and>
           \<bar>real_rate 28800000 (real_rsamp_ratio ratio) - of_nat (unat f)\<bar> \<le> 1 / 2
    else run_state (rtlsdr_set_sample_rate f) s = (- EINVAL, s)"
  by (rule sample_rate_programmed[OF assms])

lemma sample_rate_exact_witness:
  "rt_rate (snd (run_state (rtlsdr_set_sample_rate 2000000) ((rtl_zero usb_example bus_example)\<lparr>rt_rtl_xtal := 28800000\<rparr>))) = 2000000"
proof -
  have "rate_supported 2000000" by (simp add: rate_supported_def)
  then show ?thesis
    using sample_rate_exact[of "(rtl_zero usb_example bus_example)\<lparr>rt_rtl_xtal := 28800000\<rparr>" 2000000]
    by (simp add: Let_def)
qed

end
