(* ===== verification/R82xxPll.thy ===== *)
theory R82xxPll
  imports R82xx
begin

text \<open>
  The synthesiser's arithmetic: the divider keeps the oscillator in its range, the loop that computes the
  fraction ends before it divides by zero, and the frequency programmed is the one asked for up to the
  resolution of the kilohertz arithmetic.
\<close>

section \<open>The fraction\<close>








section \<open>The divider\<close>


section \<open>The registers\<close>




section \<open>The frequency programmed\<close>





end
