(* ===== verification/R82xxShadow.thy ===== *)
theory R82xxShadow
  imports RtlFrame
begin

text \<open>
  The shadow registers of the tuner. Most of the chip's registers cannot be read back, so the driver keeps
  a copy and changes single bits in it. The copy is compared with what a chip holds that has seen the
  logged transfers: as long as no write to the tuner has failed they agree, whatever was done with the
  device.
\<close>

section \<open>The chip, as the transfers leave it\<close>

definition tuner_addr :: "rtlsdr_tuner \<Rightarrow> u8" where
  "tuner_addr t = (if t = RTLSDR_TUNER_R828D then R828D_I2C_ADDR else R820T_I2C_ADDR)"

text \<open>A transfer of values for the registers, beyond the number of the first register alone.\<close>

definition value_write :: "u8 \<Rightarrow> ctrl_xfer \<Rightarrow> bool" where
  "value_write a x \<longleftrightarrow> cx_type x = CTRL_OUT \<and> cx_index x = 0x610 \<and> cx_value x = ucast a \<and> 2 \<le> length (cx_out x)"

text \<open>Values written one after the other from a register on.\<close>

definition store_values :: "u8 \<Rightarrow> u8 list \<Rightarrow> (u8 \<Rightarrow> u8) \<Rightarrow> u8 \<Rightarrow> u8" where
  "store_values reg xs c r = (if unat (r - reg) < length xs then xs ! unat (r - reg) else c r)"

definition chip_step :: "u8 \<Rightarrow> (u8 \<Rightarrow> u8) \<Rightarrow> ctrl_xfer \<Rightarrow> u8 \<Rightarrow> u8" where
  "chip_step a c x = (if value_write a x then store_values (hd (cx_out x)) (tl (cx_out x)) c else c)"

definition chip_regs :: "u8 \<Rightarrow> ctrl_xfer list \<Rightarrow> u8 \<Rightarrow> u8" where
  "chip_regs a tr = foldl (chip_step a) (\<lambda>_. 0) tr"

definition writes_ok :: "u8 \<Rightarrow> ctrl_xfer list \<Rightarrow> bool" where
  "writes_ok a tr \<longleftrightarrow> (\<forall>x \<in> set tr. value_write a x \<longrightarrow> cx_ret x = int (cx_len x))"

lemma chip_regs_snoc: "chip_regs a (tr @ [x]) = chip_step a (chip_regs a tr) x"
  by (simp add: chip_regs_def)

lemma writes_ok_snoc: "writes_ok a (tr @ [x]) \<longleftrightarrow> writes_ok a tr \<and> (value_write a x \<longrightarrow> cx_ret x = int (cx_len x))"
  by (auto simp: writes_ok_def)

lemma store_values_Nil [simp]: "store_values reg [] c = c"
  by (simp add: fun_eq_iff store_values_def)

lemma store_values_append:
  assumes "length xs < 256" "length xs + length ys \<le> 256"
  shows "store_values reg (xs @ ys) c = store_values (reg + of_nat (length xs)) ys (store_values reg xs c)"
proof
  fix r
  have n: "unat (of_nat (length xs) :: u8) = length xs" using assms by (simp add: unat_of_nat)
  have "r - (reg + of_nat (length xs)) = (r - reg) - of_nat (length xs)" by simp
  then have "unat (r - (reg + of_nat (length xs))) =
      (if length xs \<le> unat (r - reg) then unat (r - reg) - length xs else unat (r - reg) + 256 - length xs)"
    by (simp only: unat_sub_if_size n) (simp add: word_size)
  then show "store_values reg (xs @ ys) c r = store_values (reg + of_nat (length xs)) ys (store_values reg xs c) r"
    using assms by (auto simp: store_values_def nth_append)
qed

section \<open>Writing a run of registers\<close>

lemma bus_write_effect:
  assumes "length c < 255"
  obtains d r where "run_state (rtlsdr_i2c_write_fn a (reg # c) (length c + 1)) s =
    (r, s\<lparr>rt_usb := d, rt_trace := rt_trace s @ [xfer CTRL_OUT (ucast a) 0x610 (reg # c) (of_nat (length c + 1)) r]\<rparr>)"
proof -
  have len: "(ucast (of_nat (Suc (length c)) :: u8) :: u16) = of_nat (Suc (length c))"
    using assms by (simp add: unsigned_of_nat take_bit_nat_eq_self del: of_nat_add of_nat_Suc)
  obtain d r data' where "run_state (usb_ctrl CTRL_OUT (ucast a) 0x610 (reg # c) (of_nat (length c + 1))) s =
      ((r, data'), s\<lparr>rt_usb := d, rt_trace := rt_trace s @ [xfer CTRL_OUT (ucast a) 0x610 (reg # c) (of_nat (length c + 1)) r]\<rparr>)"
    by (rule usb_ctrl_effect)
  then show thesis
    by (intro that[of r d]) (simp add: rtlsdr_i2c_write_fn_def rtlsdr_write_array_def len del: of_nat_add of_nat_Suc)
qed

text \<open>The chunks are stored one behind the other, unless a transfer fails.\<close>

lemma write_chunks_effect:
  assumes "\<forall>c\<in>set cs. 0 < length c \<and> length c < 255" "length (concat cs) \<le> 256" "run_state (write_chunks a reg cs) s = (rc, s')"
  obtains d tr where "s' = s\<lparr>rt_usb := d, rt_trace := rt_trace s @ tr\<rparr>"
    "writes_ok a (rt_trace s') \<Longrightarrow> writes_ok a (rt_trace s) \<and>
      chip_regs a (rt_trace s') = store_values reg (concat cs) (chip_regs a (rt_trace s))"
  using assms
proof (induction cs arbitrary: reg s thesis)
  case Nil
  then show ?case by (intro Nil.prems(1)[of "[]" "rt_usb s"]) simp_all
next
  case (Cons c cs)
  have c: "0 < length c" "length c < 255" using Cons.prems(2) by simp_all
  obtain d r where w: "run_state (rtlsdr_i2c_write_fn a (reg # c) (length c + 1)) s =
    (r, s\<lparr>rt_usb := d, rt_trace := rt_trace s @ [xfer CTRL_OUT (ucast a) 0x610 (reg # c) (of_nat (length c + 1)) r]\<rparr>)"
    (is "_ = (r, ?s)") by (rule bus_write_effect[OF c(2)])
  let ?x = "xfer CTRL_OUT (ucast a) 0x610 (reg # c) (of_nat (length c + 1)) r"
  have len: "unat (of_nat (length c + 1) :: u16) = length c + 1" using c by (simp add: unat_of_nat del: of_nat_add of_nat_Suc)
  have x: "value_write a ?x" "cx_len ?x = length c + 1" "cx_ret ?x = r" "cx_out ?x = reg # c"
    using c len by (simp_all add: value_write_def xfer_def Suc_le_eq del: of_nat_add of_nat_Suc)
  show ?case
  proof (cases "r = int (length c) + 1")
    case False
    then have "s' = ?s" using Cons.prems(4) w by (auto split: if_splits)
    moreover have "\<not> writes_ok a (rt_trace ?s)" using False x by (simp add: writes_ok_snoc)
    ultimately show ?thesis using Cons.prems(1) by blast
  next
    case True
    then have run: "run_state (write_chunks a (reg + of_nat (length c)) cs) ?s = (rc, s')"
      using Cons.prems(4) w by simp
    obtain d' tr where s': "s' = ?s\<lparr>rt_usb := d', rt_trace := rt_trace ?s @ tr\<rparr>"
      "writes_ok a (rt_trace s') \<Longrightarrow> writes_ok a (rt_trace ?s) \<and>
        chip_regs a (rt_trace s') = store_values (reg + of_nat (length c)) (concat cs) (chip_regs a (rt_trace ?s))"
      using Cons.IH[OF _ _ _ run] Cons.prems(2,3) by auto
    moreover have "chip_regs a (rt_trace ?s) = store_values reg c (chip_regs a (rt_trace s))"
      using x by (simp add: chip_regs_snoc chip_step_def)
    ultimately show ?thesis
      using Cons.prems(1)[of "?x # tr" d'] Cons.prems(3) c store_values_append[of c "concat cs" reg]
      by (simp add: writes_ok_snoc)
  qed
qed

section \<open>The shadow\<close>

definition mirrored :: "u8 \<Rightarrow> rtl \<Rightarrow> bool" where
  "mirrored a s \<longleftrightarrow> rc_i2c_addr (rt_cfg s) = a \<and> rc_max_i2c_msg_len (rt_cfg s) = 8 \<and> length (rx_regs (rt_priv s)) = NUM_REGS \<and>
     (writes_ok a (rt_trace s) \<longrightarrow> (\<forall>i < NUM_REGS. rx_regs (rt_priv s) ! i = chip_regs a (rt_trace s) (of_nat (i + REG_SHADOW_START))))"

lemma chunk_list_single [simp]: "chunk_list n [x] = [[x]]"
  by (cases n) (simp_all add: chunk_list.simps)

lemma shadow_store_single:
  assumes "length (rx_regs p) = NUM_REGS"
  shows "rx_regs (shadow_store reg [b] p) =
    (if REG_SHADOW_START \<le> unat reg \<and> unat reg < REG_SHADOW_START + NUM_REGS
     then (rx_regs p)[unat reg - REG_SHADOW_START := b] else rx_regs p)"
proof -
  define n where "n = unat reg"
  consider "n < 5" | "5 \<le> n" "n < 35" | "35 \<le> n" by linarith
  then show ?thesis
    unfolding shadow_store_def Let_def REG_SHADOW_START_def NUM_REGS_def n_def[symmetric]
    by cases (use assms in \<open>auto simp: overlay_def upd_conv_take_nth_drop NUM_REGS_def nat_diff_distrib\<close>)
qed

lemma shadow_index:
  assumes "i < NUM_REGS"
  shows "unat (of_nat (i + REG_SHADOW_START) - reg :: u8) < 1 \<longleftrightarrow> unat reg = i + REG_SHADOW_START"
proof -
  have "unat (of_nat (i + REG_SHADOW_START) :: u8) = i + REG_SHADOW_START"
    using assms by (simp add: unat_of_nat NUM_REGS_def REG_SHADOW_START_def del: of_nat_add)
  then show ?thesis by (metis eq_iff_diff_eq_0 less_one unat_0 unat_eq_0 word_unat_eq_iff)
qed

lemma mirrored_write: "keeps (mirrored a) (r82xx_write reg [b])"
  unfolding moves_def
proof (intro allI impI)
  fix s :: rtl assume m: "mirrored a s"
  let ?p = "shadow_store reg [b] (rt_priv s)" let ?s = "s\<lparr>rt_priv := ?p\<rparr>"
  obtain rc s' where w: "run_state (write_chunks a reg [[b]]) ?s = (rc, s')" by force
  obtain d tr where s': "s' = ?s\<lparr>rt_usb := d, rt_trace := rt_trace ?s @ tr\<rparr>"
    "writes_ok a (rt_trace s') \<Longrightarrow> writes_ok a (rt_trace ?s) \<and>
      chip_regs a (rt_trace s') = store_values reg (concat [[b]]) (chip_regs a (rt_trace ?s))"
    by (rule write_chunks_effect[OF _ _ w]) auto
  have run: "snd (run_state (r82xx_write reg [b]) s) = s'"
    using m w by (simp add: r82xx_write_def upd_priv_def modify_def the_dev_def mirrored_def del: write_chunks.simps)
  have len: "length (rx_regs (rt_priv s)) = NUM_REGS" using m by (simp add: mirrored_def)
  have "rx_regs ?p ! i = chip_regs a (rt_trace s') (of_nat (i + REG_SHADOW_START))"
    if "writes_ok a (rt_trace s')" "i < NUM_REGS" for i
    using s'(2)[OF that(1)] m that(2) shadow_index[OF that(2), of reg]
    by (auto simp: mirrored_def shadow_store_single[OF len] store_values_def nth_list_update)
  then show "mirrored a (snd (run_state (r82xx_write reg [b]) s))"
    using m unfolding run s'(1) by (auto simp: mirrored_def shadow_store_single[OF len])
qed

text \<open>Other transfers leave the registers alone.\<close>

lemma mirrored_xfer:
  assumes "mirrored a s" "\<not> value_write a x"
  shows "mirrored a (s\<lparr>rt_usb := d, rt_trace := rt_trace s @ [x]\<rparr>)"
  using assms by (auto simp: mirrored_def writes_ok_snoc chip_regs_snoc chip_step_def)

lemma other_writes:
  "\<not> value_write a (xfer CTRL_IN v i data len r)"
  "i \<noteq> 0x610 \<or> length data \<le> 1 \<Longrightarrow> \<not> value_write a (xfer CTRL_OUT v i data len r)"
  by (auto simp: value_write_def xfer_def)

lemma mirrored_ctrl:
  "keeps (mirrored a) (usb_ctrl CTRL_IN v i data len)"
  "i \<noteq> 0x610 \<or> length data \<le> 1 \<Longrightarrow> keeps (mirrored a) (usb_ctrl CTRL_OUT v i data len)"
  by (auto intro!: moves_usb_ctrl mirrored_xfer simp: other_writes)

interpretation shadow: chip_frame "mirrored a"
proof unfold_locales
qed (auto simp: mirrored_write mirrored_ctrl, auto simp: mirrored_def)

section \<open>From the initialisation on\<close>

lemma init_array_chunks:
  "concat (chunk_list 7 r82xx_init_array) = r82xx_init_array"
  "\<forall>c\<in>set (chunk_list 7 r82xx_init_array). 0 < length c \<and> length c < 255"
  "length r82xx_init_array = NUM_REGS"
  by (simp_all add: chunk_list.simps r82xx_init_array_def NUM_REGS_def)

definition fresh_shadow :: "u8 \<Rightarrow> rtl \<Rightarrow> bool" where
  "fresh_shadow a s \<longleftrightarrow> mirrored a s \<and> rx_regs (rt_priv s) = r82xx_init_array"

lemma moves_init_write:
  "moves (\<lambda>s. rc_i2c_addr (rt_cfg s) = a \<and> rc_max_i2c_msg_len (rt_cfg s) = 8 \<and> length (rx_regs (rt_priv s)) = NUM_REGS)
    (r82xx_write 0x05 r82xx_init_array) (fresh_shadow a)"
  unfolding moves_def
proof (intro allI impI)
  fix s :: rtl assume cfg: "rc_i2c_addr (rt_cfg s) = a \<and> rc_max_i2c_msg_len (rt_cfg s) = 8 \<and> length (rx_regs (rt_priv s)) = NUM_REGS"
  let ?p = "shadow_store 0x05 r82xx_init_array (rt_priv s)" let ?s = "s\<lparr>rt_priv := ?p\<rparr>"
  have p: "rx_regs ?p = r82xx_init_array"
    using cfg init_array_chunks(3) by (simp add: shadow_store_def overlay_def REG_SHADOW_START_def NUM_REGS_def)
  obtain rc s' where w: "run_state (write_chunks a 0x05 (chunk_list 7 r82xx_init_array)) ?s = (rc, s')" by force
  obtain d tr where s': "s' = ?s\<lparr>rt_usb := d, rt_trace := rt_trace ?s @ tr\<rparr>"
    "writes_ok a (rt_trace s') \<Longrightarrow> writes_ok a (rt_trace ?s) \<and>
      chip_regs a (rt_trace s') = store_values 0x05 r82xx_init_array (chip_regs a (rt_trace ?s))"
    by (rule write_chunks_effect[OF init_array_chunks(2) _ w])
       (auto simp: init_array_chunks NUM_REGS_def)
  have "snd (run_state (r82xx_write 0x05 r82xx_init_array) s) = s'"
    using cfg w by (simp add: r82xx_write_def upd_priv_def modify_def the_dev_def)
  moreover have "unat (of_nat (i + REG_SHADOW_START) - 0x05 :: u8) = i" if "i < NUM_REGS" for i
    using that by (simp add: REG_SHADOW_START_def NUM_REGS_def unat_of_nat)
  ultimately show "fresh_shadow a (snd (run_state (r82xx_write 0x05 r82xx_init_array) s))"
    using s' cfg p init_array_chunks(3)
    by (auto simp: fresh_shadow_def mirrored_def store_values_def)
qed

lemma moves_r82xx_init:
  "moves (\<lambda>s. rc_i2c_addr (rt_cfg s) = a \<and> rc_max_i2c_msg_len (rt_cfg s) = 8 \<and> length (rx_regs (rt_priv s)) = NUM_REGS)
    r82xx_init (mirrored a)" (is "moves ?P _ _")
proof -
  have reset: "moves (fresh_shadow a) (upd_priv (\<lambda>p. p\<lparr>rx_regs := r82xx_init_array\<rparr>)) (mirrored a)"
    unfolding upd_priv_def by (rule moves_modify) (auto simp: fresh_shadow_def mirrored_def)
  have "moves ?P (upd_priv (\<lambda>p. p\<lparr>rx_xtal_cap_sel := XTAL_HIGH_CAP_0P, rx_reg_cache := False\<rparr>)) ?P"
    unfolding upd_priv_def by (rule moves_modify) simp
  then show ?thesis unfolding r82xx_init_def
    by (rule moves_bind)
       (rule moves_bind[OF moves_init_write], rule moves_bind[OF shadow.moves_tv_standard[OF reset]],
        intro shadow.keeps_setup shadow.chip_rules keeps_intros; simp)
qed

text \<open>The tuner a device has, with a shadow of the right length.\<close>

definition tuner_is :: "rtlsdr_tuner option \<Rightarrow> rtlsdr_tuner \<Rightarrow> rtl \<Rightarrow> bool" where
  "tuner_is x y s \<longleftrightarrow> rt_tuner s = x \<and> rt_tuner_type s = y \<and> length (rx_regs (rt_priv s)) = NUM_REGS"

lemma length_shadow_store:
  assumes "length (rx_regs p) = NUM_REGS" shows "length (rx_regs (shadow_store reg val p)) = NUM_REGS"
  using assms by (auto simp: shadow_store_def Let_def overlay_def min_def NUM_REGS_def REG_SHADOW_START_def le_nat_iff)
    (simp flip: length_0_conv)

lemma tuner_is_write: "keeps (tuner_is x y) (r82xx_write reg val)"
proof -
  have "keeps (tuner_is x y) (write_chunks a r cs)" for a r cs
    by (induction cs arbitrary: r)
       (auto simp: rtlsdr_i2c_write_fn_def rtlsdr_write_array_def tuner_is_def intro!: moves_usb_ctrl keeps_intros)
  then show ?thesis
    unfolding r82xx_write_def upd_priv_def
    by (intro moves_modify keeps_intros) (simp_all add: tuner_is_def length_shadow_store)
qed

lemma tuner_is_ctrl: "keeps (tuner_is x y) (usb_ctrl ty v i data len)"
  by (rule moves_usb_ctrl) (simp add: tuner_is_def)

interpretation kept_chip: chip_frame "tuner_is x y"
  by unfold_locales (auto simp: tuner_is_write tuner_is_ctrl, auto simp: tuner_is_def)

lemma tuner_is_start: "keeps (tuner_is x y) r820t_init"
  by (rule kept_chip.keeps_start[OF _ _ tuner_is_write])
     (auto simp: upd_priv_def upd_cfg_def tuner_is_def init_array_chunks intro!: moves_modify)

interpretation kept: device_frame "tuner_is x y"
  by unfold_locales (auto simp: tuner_is_start, auto simp: tuner_is_def)

text \<open>What holds of every device: the tuner found is the one in use, and its shadow is right.\<close>

definition shadow_right :: "rtl \<Rightarrow> bool" where
  "shadow_right s \<longleftrightarrow> length (rx_regs (rt_priv s)) = NUM_REGS \<and>
     (\<forall>t. rt_tuner s = Some t \<longrightarrow> t \<noteq> RTLSDR_TUNER_UNKNOWN \<longrightarrow> rt_tuner_type s = t \<and> mirrored (tuner_addr t) s)"

lemma keeps_shadow_right:
  assumes "\<And>x y. keeps (tuner_is x y) f"
    and "\<And>t. t \<noteq> RTLSDR_TUNER_UNKNOWN \<Longrightarrow> moves (\<lambda>s. rt_tuner_type s = t \<and> mirrored (tuner_addr t) s) f (mirrored (tuner_addr t))"
  shows "keeps shadow_right f"
  using assms unfolding moves_def shadow_right_def tuner_is_def by metis

lemma moves_start: "t \<noteq> RTLSDR_TUNER_UNKNOWN \<Longrightarrow> moves (tuner_is x t) r820t_init (mirrored (tuner_addr t))"
  unfolding moves_def
proof (intro allI impI)
  fix s :: rtl assume t: "t \<noteq> RTLSDR_TUNER_UNKNOWN" "tuner_is x t s"
  let ?c = "(if t = RTLSDR_TUNER_R828D then (rt_cfg s)\<lparr>rc_i2c_addr := R828D_I2C_ADDR, rc_chip := CHIP_R828D\<rparr>
      else (rt_cfg s)\<lparr>rc_i2c_addr := R820T_I2C_ADDR, rc_chip := CHIP_R820T\<rparr>)"
  let ?s = "s\<lparr>rt_cfg := ?c\<lparr>rc_xtal := corrected_tun_xtal s, rc_max_i2c_msg_len := 8, rc_use_predetect := False\<rparr>\<rparr>"
  have "run_state r820t_init s = run_state r82xx_init ?s"
    using t by (simp add: r820t_init_def upd_cfg_def the_dev_def modify_def tuner_is_def corrected_tun_xtal_def)
  moreover have "mirrored (tuner_addr t) (snd (run_state r82xx_init ?s))"
    using t by (intro moves_r82xx_init[unfolded moves_def, rule_format]) (auto simp: tuner_addr_def tuner_is_def)
  ultimately show "mirrored (tuner_addr t) (snd (run_state r820t_init s))" by simp
qed

lemma shadow_right_start: "keeps shadow_right r820t_init"
proof (rule keeps_shadow_right[OF tuner_is_start])
  fix t assume t: "t \<noteq> RTLSDR_TUNER_UNKNOWN"
  have "tuner_is (rt_tuner s) t s" if "rt_tuner_type s = t \<and> mirrored (tuner_addr t) s" for s
    using that by (simp add: tuner_is_def mirrored_def)
  then show "moves (\<lambda>s. rt_tuner_type s = t \<and> mirrored (tuner_addr t) s) r820t_init (mirrored (tuner_addr t))"
    using moves_start[OF t] unfolding moves_def by blast
qed

lemma shadow_right_write: "keeps shadow_right (r82xx_write reg [b])"
  using mirrored_write by (intro keeps_shadow_right tuner_is_write) (simp add: moves_def)

lemma shadow_right_ctrl:
  "keeps shadow_right (usb_ctrl CTRL_IN v i data len)"
  "i \<noteq> 0x610 \<or> length data \<le> 1 \<Longrightarrow> keeps shadow_right (usb_ctrl CTRL_OUT v i data len)"
  by (auto intro!: moves_usb_ctrl simp: shadow_right_def mirrored_xfer other_writes)

interpretation right: device_frame shadow_right
  by unfold_locales
    (auto simp: shadow_right_start shadow_right_write shadow_right_ctrl, auto simp: shadow_right_def mirrored_def)

text \<open>Opening finds the tuner, then initialises it before anything is written to its registers.\<close>

lemma moves_found:
  "moves (tuner_is (Some t) t) (do {
     open_setup t;
     (case tuner_init t of None \<Rightarrow> ret () | Some f \<Rightarrow> do { _ \<leftarrow> f; ret () });
     rtlsdr_set_i2c_repeater 0;
     ret 0 }) shadow_right"
proof (cases "t = RTLSDR_TUNER_UNKNOWN")
  case True
  have kept: "keeps (tuner_is (Some t) t) (do {
     open_setup t;
     (case tuner_init t of None \<Rightarrow> ret () | Some f \<Rightarrow> do { _ \<leftarrow> f; ret () });
     rtlsdr_set_i2c_repeater 0;
     ret 0 })" using True
    by (auto simp: tuner_init_def intro!: kept.keeps_open_setup kept_chip.keeps_repeater keeps_intros)
  then show ?thesis using True unfolding moves_def shadow_right_def tuner_is_def by fastforce
next
  case False
  have "shadow_right s" if "tuner_is (Some t) t s \<and> mirrored (tuner_addr t) s" for s
    using that by (simp add: shadow_right_def tuner_is_def)
  moreover have "moves (tuner_is (Some t) t) r820t_init (\<lambda>s. tuner_is (Some t) t s \<and> mirrored (tuner_addr t) s)"
    using moves_start[OF False] tuner_is_start by (simp add: moves_def)
  ultimately have "moves (tuner_is (Some t) t) r820t_init shadow_right" by (simp add: moves_def)
  then show ?thesis using False
    by (auto simp: tuner_init_def intro!: moves_bind[OF kept.keeps_open_setup] moves_bind[where Q = shadow_right]
        right.keeps_repeater keeps_intros)
qed

lemma shadow_right_open: "shadow_right (snd (run_state rtlsdr_open (rtl_zero usb env)))"
proof -
  have "moves (tuner_is None RTLSDR_TUNER_UNKNOWN) rtlsdr_open shadow_right"
    unfolding rtlsdr_open_def
    by (rule moves_bind[where Q = "tuner_is None RTLSDR_TUNER_UNKNOWN"],
        intro kept_chip.keeps_regs,
        rule moves_bind[OF moves_modify[where Q = "tuner_is None RTLSDR_TUNER_UNKNOWN"]], simp add: tuner_is_def,
        rule moves_bind[OF kept.op_baseband],
        rule moves_bind[OF moves_modify[where Q = "tuner_is None RTLSDR_TUNER_UNKNOWN"]], simp add: tuner_is_def,
        rule moves_bind[OF kept_chip.keeps_repeater], rule moves_bind[OF kept.op_probe],
        rule moves_bind[OF moves_modify], rule_tac [2] moves_found, simp add: tuner_is_def)
  then show ?thesis by (simp add: moves_def tuner_is_def rtl_zero_def)
qed

text \<open>
  C5: the driver's copy of the tuner's registers is what the chip holds. In every history of a device with a
  tuner, through tuning, gain, bandwidth, standby and new starts, as long as no write of values to the tuner
  has failed, the thirty shadow registers are the registers 5 to 34 of a chip that has received the logged
  transfers.
\<close>

theorem shadow_mirrors_chip:
  assumes "rtl_reach s" "rt_tuner s = Some t" "t \<noteq> RTLSDR_TUNER_UNKNOWN" "writes_ok (tuner_addr t) (rt_trace s)"
  shows "rx_regs (rt_priv s) = map (\<lambda>r. chip_regs (tuner_addr t) (rt_trace s) (of_nat r)) [5..<35]"
proof -
  have "shadow_right s" by (rule right.reachable[OF assms(1)]) (rule shadow_right_open)
  then have "mirrored (tuner_addr t) s" using assms(2,3) by (simp add: shadow_right_def)
  then show ?thesis
    using assms(4) by (intro nth_equalityI) (simp_all add: mirrored_def NUM_REGS_def REG_SHADOW_START_def add.commute del: upt_rec_numeral)
qed

section \<open>A device on a working bus\<close>

definition working :: "rtl \<Rightarrow> bool" where
  "working s \<longleftrightarrow> rt_env s = bus_example \<and> (\<forall>x \<in> set (rt_trace s). cx_ret x = int (cx_len x))"

lemma working_ctrl_run:
  assumes "working s" "len < 256"
  obtains d where "run_state (usb_ctrl ty v i data len) s =
    ((int (unat len), if ty = CTRL_IN \<and> 0 < len then overlay 0 (replicate (unat len) 0x69) data else data),
     s\<lparr>rt_usb := d, rt_trace := rt_trace s @ [xfer ty v i data len (int (unat len))]\<rparr>)"
proof -
  let ?a = "bus_example (length (rt_trace s)) len" let ?data = "if ty = CTRL_IN \<and> 0 < len then overlay 0 (replicate (unat len) 0x69) data else data"
  have "\<not> 256 \<le> len" using assms(2) by simp
  then have "esp_libusb_control_transfer True (ca_mutex ?a) (ca_submit ?a) (ca_reply ?a) ty len data (rt_usb s) =
      Some (int (unat len), ?data, transfer_read_cb 0 (replicate (8 + unat len) 0x69) (rt_usb s))"
    by (simp add: bus_example_def esp_libusb_control_transfer_def ctrl_transfer_locked_def transfer_read_cb_def overlay_def
        Let_def)
  then show thesis
    using that assms(1) by (simp add: usb_ctrl_def working_def Let_def xfer_def)
qed

lemma working_ctrl: "len < 256 \<Longrightarrow> keeps working (usb_ctrl ty v i data len)"
  unfolding moves_def
proof (intro allI impI)
  fix s assume w: "working s" and len: "len < 256"
  obtain d where "run_state (usb_ctrl ty v i data len) s =
    ((int (unat len), if ty = CTRL_IN \<and> 0 < len then overlay 0 (replicate (unat len) 0x69) data else data),
     s\<lparr>rt_usb := d, rt_trace := rt_trace s @ [xfer ty v i data len (int (unat len))]\<rparr>)"
    by (rule working_ctrl_run[OF w len])
  then show "working (snd (run_state (usb_ctrl ty v i data len) s))"
    using w by (auto simp: working_def xfer_def)
qed

lemma working_write: "keeps working (r82xx_write reg val)"
proof -
  have "keeps working (write_chunks a r cs)" for a r cs
    by (induction cs arbitrary: r)
       (auto simp: rtlsdr_i2c_write_fn_def rtlsdr_write_array_def intro!: working_ctrl keeps_intros)
  then show ?thesis
    unfolding r82xx_write_def upd_priv_def by (intro moves_modify keeps_intros) (simp_all add: working_def)
qed

interpretation work_chip: chip_frame working
  by unfold_locales (auto simp: working_write working_ctrl, auto simp: working_def)

interpretation work: device_frame working
  by unfold_locales
    (auto intro!: work_chip.keeps_start working_write simp: upd_priv_def upd_cfg_def, auto simp: working_def intro!: moves_modify)

lemma working_read:
  assumes "working s" shows "fst (run_state (rtlsdr_i2c_read_reg addr reg) s) = 0x69"
proof -
  let ?w = "rtlsdr_write_array IICB (ucast addr) [reg] 1"
  obtain r s' where w: "run_state ?w s = (r, s')" by force
  have one: "(1 :: u16) < 256" by simp
  have "keeps working ?w" by (rule work_chip.keeps_regs)
  then have "working s'" using assms w by (auto simp: moves_def)
  then obtain d where "run_state (usb_ctrl CTRL_IN (ucast addr) (push_bit 8 (ucast IICB)) [0] 1) s' =
    ((int (unat (1 :: u16)), if CTRL_IN = CTRL_IN \<and> (0 :: u16) < 1 then overlay 0 (replicate (unat (1 :: u16)) 0x69) [0] else [0]),
     s'\<lparr>rt_usb := d, rt_trace := rt_trace s' @ [xfer CTRL_IN (ucast addr) (push_bit 8 (ucast IICB)) [0] 1 (int (unat (1 :: u16)))]\<rparr>)"
    by (rule working_ctrl_run[OF _ one])
  then show ?thesis
    using w by (simp add: rtlsdr_i2c_read_reg_def rtlsdr_read_array_def overlay_def)
qed

lemma working_probe:
  assumes "working s" shows "fst (run_state probe_tuner s) = RTLSDR_TUNER_R820T"
  using working_read[OF assms, of R820T_I2C_ADDR 0] by (simp add: probe_tuner_def split_beta)

lemma working_open:
  "moves (\<lambda>s. working s \<and> tuner_is None RTLSDR_TUNER_UNKNOWN s) rtlsdr_open
    (tuner_is (Some RTLSDR_TUNER_R820T) RTLSDR_TUNER_R820T)" (is "moves ?P _ ?Q")
proof -
  have mods: "moves ?P (modify (\<lambda>s. s\<lparr>rt_rtl_xtal := 28800000\<rparr>)) ?P" "moves ?P (modify (\<lambda>s. s\<lparr>rt_dev_lost := False\<rparr>)) ?P"
    "moves ?P (modify (\<lambda>s. s\<lparr>rt_tuner_type := RTLSDR_TUNER_R820T, rt_tun_xtal := rt_rtl_xtal s, rt_tuner := Some RTLSDR_TUNER_R820T\<rparr>)) ?Q"
    by (intro moves_modify; simp add: working_def tuner_is_def)+
  have rest: "keeps ?Q (do {
     open_setup RTLSDR_TUNER_R820T;
     (case tuner_init RTLSDR_TUNER_R820T of None \<Rightarrow> ret () | Some f \<Rightarrow> do { _ \<leftarrow> f; ret () });
     rtlsdr_set_i2c_repeater 0;
     ret 0 })"
    by (auto simp: tuner_init_def intro!: kept.keeps_open_setup kept_chip.keeps_repeater tuner_is_start keeps_intros)
  show ?thesis
    unfolding rtlsdr_open_def
    by (rule moves_bind[OF keeps_conj[OF work_chip.keeps_regs(3) kept_chip.keeps_regs(3)]], rule moves_bind[OF mods(1)],
        rule moves_bind[OF keeps_conj[OF work.op_baseband kept.op_baseband]], rule moves_bind[OF mods(2)],
        rule moves_bind[OF keeps_conj[OF work_chip.keeps_repeater kept_chip.keeps_repeater]],
        rule moves_bind_result[OF _ keeps_conj[OF work.op_probe kept.op_probe]],
        simp add: working_probe, rule moves_bind[OF mods(3)], rule rest)
qed

lemma shadow_mirrors_chip_witness:
  "let s = snd (run_state (rtlsdr_set_center_freq 1090000000) (snd (run_state rtlsdr_open (rtl_zero usb_example bus_example))))
   in rx_regs (rt_priv s) = map (\<lambda>r. chip_regs 0x34 (rt_trace s) (of_nat r)) [5..<35]"
proof -
  let ?o = "snd (run_state rtlsdr_open (rtl_zero usb_example bus_example))"
  let ?s = "snd (run_state (rtlsdr_set_center_freq 1090000000) ?o)"
  have zero: "working (rtl_zero usb_example bus_example)" "tuner_is None RTLSDR_TUNER_UNKNOWN (rtl_zero usb_example bus_example)"
    by (simp_all add: working_def tuner_is_def rtl_zero_def)
  have "keeps working rtlsdr_open" by (rule work.keeps_open) (simp add: working_def)
  then have "working ?s" using zero(1) work_chip.keeps_center by (simp add: moves_def)
  moreover have "tuner_is (Some RTLSDR_TUNER_R820T) RTLSDR_TUNER_R820T ?s"
    using working_open zero kept_chip.keeps_center by (simp add: moves_def)
  ultimately show ?thesis
    using shadow_mirrors_chip[OF reach_freq[OF reach_open], of 1090000000 usb_example bus_example RTLSDR_TUNER_R820T]
    by (simp add: working_def tuner_is_def writes_ok_def tuner_addr_def R820T_I2C_ADDR_def Let_def del: upt_rec_numeral)
qed

end
