(* ===== verification/RtlBracket.thy ===== *)
theory RtlBracket
  imports R82xxShadow
begin

text \<open>
  The repeater over every history of a device: the accesses to the tuner that \<open>librtlsdr.c\<close> makes, and the position of
  the repeater they find.
\<close>

section \<open>Every access finds the repeater open\<close>

text \<open>
  C15: in every history of a device, from opening it on, the tuner is accessed only while the repeater
  is open on the chip, for as long as the writes of the repeater's register go through: in the
  transfers up to the first such write that fails, no access finds the repeater closed, and when none
  fails the repeater is closed on the chip after each operation. Whatever the transfers answer, the library takes
  the repeater to be closed after each operation. The other transfers may answer anything. (The library
  ignores the result of the write: after one that fails it goes on to access the tuner.)
\<close>

theorem tuner_access_bracketed:
  assumes "rtl_reach s"
  shows "rt_repeater s = 0 \<and> gate (takeWhile repeater_ok (rt_trace s)) \<noteq> None \<and>
    (list_all repeater_ok (rt_trace s) \<longrightarrow> gate (rt_trace s) = Some False)"
  using reach_closed[OF assms] by (simp add: gated_def bracketed_def)

lemma working_tuned:
  "working (snd (run_state (rtlsdr_set_center_freq freq) (snd (run_state rtlsdr_open (rtl_zero usb_example bus_example)))))"
proof -
  have zero: "working (rtl_zero usb_example bus_example)" by (simp add: working_def rtl_zero_def)
  have "keeps working rtlsdr_open" by (rule work.keeps_open) (simp add: working_def)
  then show ?thesis using zero work_chip.keeps_center by (simp add: moves_def)
qed

lemma tuner_access_bracketed_witness:
  "let s = snd (run_state (rtlsdr_set_center_freq 1090000000) (snd (run_state rtlsdr_open (rtl_zero usb_example bus_example))))
   in list_all repeater_ok (rt_trace s) \<and> gate (rt_trace s) = Some False"
proof -
  let ?s = "snd (run_state (rtlsdr_set_center_freq 1090000000) (snd (run_state rtlsdr_open (rtl_zero usb_example bus_example))))"
  have "list_all repeater_ok (rt_trace ?s)"
    using working_tuned[of 1090000000] by (simp add: working_def list_all_iff repeater_ok_def carried_out_def)
  moreover have "rtl_reach ?s" by (rule reach_freq[OF reach_open])
  ultimately show ?thesis using tuner_access_bracketed[of ?s] by (simp only: Let_def)
qed

end
