(* ===== verification/Screen.thy ===== *)
theory Screen
  imports Prelude
begin

text \<open>
  The full-screen displays (\<open>main/screen.c\<close>): the two slots through which a display reaches a terminal, the
  frame buffer that collects a frame and hands it on in runs with the line ends expanded, the probe of
  the frame costs, and one pass of the drawing task. What a display draws is an argument, as a list of
  calls of the \<open>fb_\<close> functions.
\<close>

section \<open>State\<close>

datatype screen_id = SCREEN_NONE | SCREEN_TUI | SCREEN_TOP

text \<open>The two transports \<open>shell.c\<close> attaches a display to.\<close>

datatype sink = Uart_sink | Ssh_sink

record sink_slot =
  sk_fn :: "sink option"
  sk_screen :: screen_id

record screen =
  sn_name :: string
  sn_cols :: int
  sn_period_ms :: u32
  sn_draw :: bool
  sn_last_draw :: int

record screen_probe =
  sp_fps :: u32
  sp_bytes :: u32
  sp_asm_ms :: u32
  sp_out_ms :: u32

text \<open>
  \<open>sc_fb\<close> is the used part of \<open>s_fb\<close>; \<open>sc_sent\<close> logs the calls of the sinks, \<open>sc_printed\<close> what went through
  \<open>stdout\<close>, which leads to the transport \<open>sc_stdout\<close>; \<open>sc_clock\<close> answers the readings of the clock.
\<close>

record display =
  sc_screens :: "screen_id \<Rightarrow> screen"
  sc_sinks :: "sink_slot list"
  sc_fb :: "u8 list"
  sc_painting :: screen_id
  sc_sent :: "(sink \<times> u8 list) list"
  sc_stdout :: sink
  sc_printed :: "(sink \<times> u8 list) list"
  sc_clock :: "nat \<Rightarrow> int"
  sc_reads :: nat
  sc_pf_bytes :: u32
  sc_pf_out_us :: u32
  sc_probe :: screen_probe
  sc_win :: int
  sc_n :: u32
  sc_sum_bytes :: u32
  sc_sum_out_us :: u32
  sc_sum_us :: u32

definition FB_SIZE :: nat where
  "FB_SIZE = 4096"

definition SCREEN_MAX_SINKS :: nat where
  "SCREEN_MAX_SINKS = 2"

definition read_clock :: "display \<Rightarrow> int \<times> display" where
  "read_clock s = (sc_clock s (sc_reads s), s\<lparr>sc_reads := sc_reads s + 1\<rparr>)"

definition ascii :: "string \<Rightarrow> u8 list" where
  "ascii t = map of_char t"

definition screen_print :: "u8 list \<Rightarrow> display \<Rightarrow> display" where
  "screen_print p s = s\<lparr>sc_printed := sc_printed s @ [(sc_stdout s, p)]\<rparr>"

text \<open>Clear the terminal and go to its first corner.\<close>

definition CLS :: "u8 list" where
  "CLS = [27] @ ascii ''[2J'' @ [27] @ ascii ''[H''"

section \<open>Screens and their viewers\<close>

definition valid_screen :: "screen_id \<Rightarrow> bool" where
  "valid_screen i \<longleftrightarrow> i \<noteq> SCREEN_NONE"

definition screen_register :: "screen_id \<Rightarrow> string \<Rightarrow> int \<Rightarrow> u32 \<Rightarrow> display \<Rightarrow> display" where
  "screen_register i name cols period_ms s =
     (if \<not> valid_screen i then s
      else s\<lparr>sc_screens := (sc_screens s)(i := \<lparr>sn_name = name, sn_cols = cols, sn_period_ms = period_ms,
        sn_draw = True, sn_last_draw = 0\<rparr>)\<rparr>)"

definition screen_cols :: "screen_id \<Rightarrow> display \<Rightarrow> int" where
  "screen_cols i s = (if valid_screen i then sn_cols (sc_screens s i) else 0)"

definition screen_name :: "screen_id \<Rightarrow> display \<Rightarrow> string" where
  "screen_name i s = (if valid_screen i then sn_name (sc_screens s i) else ''?'')"

definition screen_period :: "screen_id \<Rightarrow> display \<Rightarrow> u32" where
  "screen_period i s = (if valid_screen i then sn_period_ms (sc_screens s i) else 0)"

definition screen_set_period :: "screen_id \<Rightarrow> u32 \<Rightarrow> display \<Rightarrow> display" where
  "screen_set_period i period_ms s =
     (if valid_screen i then s\<lparr>sc_screens := (sc_screens s)(i := (sc_screens s i)\<lparr>sn_period_ms := period_ms\<rparr>)\<rparr> else s)"

definition screen_wake :: "screen_id \<Rightarrow> display \<Rightarrow> display" where
  "screen_wake i s =
     (if valid_screen i then s\<lparr>sc_screens := (sc_screens s)(i := (sc_screens s i)\<lparr>sn_last_draw := 0\<rparr>)\<rparr> else s)"

definition screen_viewers :: "screen_id \<Rightarrow> display \<Rightarrow> nat" where
  "screen_viewers i s = length (filter (\<lambda>k. sk_fn k \<noteq> None \<and> sk_screen k = i) (sc_sinks s))"

text \<open>The first free slot is taken, after the terminal is cleared; the result tells whether there was one.\<close>

definition screen_attach :: "screen_id \<Rightarrow> sink \<Rightarrow> display \<Rightarrow> bool \<times> display" where
  "screen_attach i fn s =
     (case find (\<lambda>j. sk_fn (sc_sinks s ! j) = None) [0..<SCREEN_MAX_SINKS] of
        None \<Rightarrow> (False, s)
      | Some j \<Rightarrow> let s = screen_print CLS s
                  in (True, screen_wake i (s\<lparr>sc_sinks := (sc_sinks s)[j := \<lparr>sk_fn = Some fn, sk_screen = i\<rparr>]\<rparr>)))"

definition screen_detach :: "sink \<Rightarrow> display \<Rightarrow> display" where
  "screen_detach fn s =
     s\<lparr>sc_sinks := map (\<lambda>k. if sk_fn k = Some fn then k\<lparr>sk_fn := None\<rparr> else k) (sc_sinks s)\<rparr>"

section \<open>The frame buffer\<close>

definition fb_out :: "u8 list \<Rightarrow> display \<Rightarrow> display" where
  "fb_out p s = s\<lparr>sc_sent := sc_sent s @
     concat (map (\<lambda>k. case sk_fn k of None \<Rightarrow> [] | Some fn \<Rightarrow> if sk_screen k = sc_painting s then [(fn, p)] else [])
       (sc_sinks s))\<rparr>"

text \<open>The runs a buffer is handed on in: the text between the line ends, and CR LF for each of these.\<close>

function flush_runs :: "u8 list \<Rightarrow> u8 list list" where
  "flush_runs p =
     (if p = [] then []
      else let run = takeWhile (\<lambda>c. c \<noteq> 10) p
           in (if run = [] then [] else [run]) @
              (if length run = length p then [] else [13, 10] # flush_runs (drop (length run + 1) p)))"
  by pat_completeness auto

termination
  by (relation "measure length") auto

declare flush_runs.simps [simp del]

definition fb_flush :: "display \<Rightarrow> display" where
  "fb_flush s =
     (if sc_fb s = [] then s
      else let (t0, s) = read_clock s; p = sc_fb s;
               s = s\<lparr>sc_pf_bytes := sc_pf_bytes s + of_nat (length p), sc_fb := []\<rparr>;
               s = fold fb_out (flush_runs p) s;
               (t1, s) = read_clock s
           in s\<lparr>sc_pf_out_us := sc_pf_out_us s + of_int (t1 - t0)\<rparr>)"

definition fb_room :: "nat \<Rightarrow> display \<Rightarrow> display" where
  "fb_room need s = (if FB_SIZE < length (sc_fb s) + need then fb_flush s else s)"

definition fb_puts :: "u8 list \<Rightarrow> display \<Rightarrow> display" where
  "fb_puts text s = (let s = fb_room (length text) s in s\<lparr>sc_fb := sc_fb s @ take FB_SIZE text\<rparr>)"

definition fb_putc :: "u8 \<Rightarrow> display \<Rightarrow> display" where
  "fb_putc c s = (let s = fb_room 1 s in s\<lparr>sc_fb := sc_fb s @ [c]\<rparr>)"

text \<open>
  A chunk is never empty: \<open>fb_room\<close> leaves room for a byte, so the loop ends. The number of rounds is bounded by
  the number of bytes, which the recursion counts.
\<close>

primrec fb_rep_loop :: "nat \<Rightarrow> u8 \<Rightarrow> nat \<Rightarrow> display \<Rightarrow> display" where
  "fb_rep_loop 0 c n s = s"
| "fb_rep_loop (Suc m) c n s =
     (if n = 0 then s
      else let s = fb_room 1 s; chunk = min n (FB_SIZE - length (sc_fb s))
           in fb_rep_loop m c (n - chunk) (s\<lparr>sc_fb := sc_fb s @ replicate chunk c\<rparr>))"

definition fb_rep :: "u8 \<Rightarrow> int \<Rightarrow> display \<Rightarrow> display" where
  "fb_rep c n s = fb_rep_loop (nat n) c (nat n) s"

text \<open>\<open>text\<close> is what the format and its arguments give; \<open>vsnprintf\<close> cuts it to the room less its NUL.\<close>

definition fb_printf :: "u8 list \<Rightarrow> display \<Rightarrow> display" where
  "fb_printf text s =
     (let s = fb_room 512 s; room = FB_SIZE - length (sc_fb s)
      in s\<lparr>sc_fb := sc_fb s @ take (if length text < room then length text else room - 1) text\<rparr>)"

section \<open>Painting\<close>

datatype fb_call = Fb_puts "u8 list" | Fb_putc u8 | Fb_rep u8 int | Fb_printf "u8 list"

primrec fb_do :: "fb_call \<Rightarrow> display \<Rightarrow> display" where
  "fb_do (Fb_puts text) = fb_puts text"
| "fb_do (Fb_putc c) = fb_putc c"
| "fb_do (Fb_rep c n) = fb_rep c n"
| "fb_do (Fb_printf text) = fb_printf text"

definition probe_frame :: "int \<Rightarrow> u32 \<Rightarrow> display \<Rightarrow> display" where
  "probe_frame now frame_us s =
     (let s = s\<lparr>sc_n := sc_n s + 1, sc_sum_bytes := sc_sum_bytes s + sc_pf_bytes s,
                sc_sum_out_us := sc_sum_out_us s + sc_pf_out_us s, sc_sum_us := sc_sum_us s + frame_us\<rparr>
      in if sc_win s = 0 then s\<lparr>sc_win := now\<rparr>
         else if now - sc_win s < 1000000 then s
         else s\<lparr>sc_probe := \<lparr>sp_fps = sc_n s, sp_bytes = sc_sum_bytes s div sc_n s,
                  sp_asm_ms = (sc_sum_us s - sc_sum_out_us s) div 1000, sp_out_ms = sc_sum_out_us s div 1000\<rparr>,
                sc_win := now, sc_n := 0, sc_sum_bytes := 0, sc_sum_out_us := 0, sc_sum_us := 0\<rparr>)"

definition paint :: "(int \<Rightarrow> fb_call list) \<Rightarrow> screen_id \<Rightarrow> int \<Rightarrow> display \<Rightarrow> display" where
  "paint draw i now s =
     (if screen_viewers i s = 0 then s
      else let s = s\<lparr>sc_pf_bytes := 0, sc_pf_out_us := 0, sc_painting := i\<rparr>;
               s = fold fb_do (draw now) s;
               s = (fb_flush s)\<lparr>sc_painting := SCREEN_NONE\<rparr>;
               (t, s) = read_clock s
           in probe_frame now (of_int (t - now)) s)"

definition draw_due :: "(screen_id \<Rightarrow> int \<Rightarrow> fb_call list) \<Rightarrow> int \<Rightarrow> screen_id \<Rightarrow> display \<Rightarrow> display" where
  "draw_due draw now i s =
     (let sn = sc_screens s i
      in if \<not> sn_draw sn \<or> screen_viewers i s = 0 then s
         else if now - sn_last_draw sn < int (unat (sn_period_ms sn)) * 1000 then s
         else paint (draw i) i now (s\<lparr>sc_screens := (sc_screens s)(i := sn\<lparr>sn_last_draw := now\<rparr>)\<rparr>))"

text \<open>One pass of the drawing task over the screens.\<close>

definition draw_pass :: "(screen_id \<Rightarrow> int \<Rightarrow> fb_call list) \<Rightarrow> display \<Rightarrow> display" where
  "draw_pass draw s = (let (now, s) = read_clock s in fold (draw_due draw now) [SCREEN_TUI, SCREEN_TOP] s)"

section \<open>A frame reaches its viewers whole\<close>

text \<open>The line ends expanded.\<close>

definition crlf :: "u8 list \<Rightarrow> u8 list" where
  "crlf p = concat (map (\<lambda>c. if c = 10 then [13, 10] else [c]) p)"

primrec fb_text :: "fb_call \<Rightarrow> u8 list" where
  "fb_text (Fb_puts text) = text"
| "fb_text (Fb_putc c) = [c]"
| "fb_text (Fb_rep c n) = replicate (nat n) c"
| "fb_text (Fb_printf text) = text"

text \<open>What the buffer takes in one piece.\<close>

primrec fb_fits :: "fb_call \<Rightarrow> bool" where
  "fb_fits (Fb_puts text) = (length text \<le> FB_SIZE)"
| "fb_fits (Fb_putc c) = True"
| "fb_fits (Fb_rep c n) = True"
| "fb_fits (Fb_printf text) = (length text < 512)"

definition received :: "sink \<Rightarrow> display \<Rightarrow> u8 list" where
  "received k s = concat (map snd (filter (\<lambda>x. fst x = k) (sc_sent s)))"

definition watching :: "sink \<Rightarrow> screen_id \<Rightarrow> display \<Rightarrow> nat" where
  "watching k i s = length (filter (\<lambda>l. sk_fn l = Some k \<and> sk_screen l = i) (sc_sinks s))"

lemma crlf_append [simp]: "crlf (p @ q) = crlf p @ crlf q"
  by (simp add: crlf_def)

lemma crlf_plain: "\<forall>c\<in>set p. c \<noteq> 10 \<Longrightarrow> crlf p = p"
  by (induction p) (simp_all add: crlf_def)

lemma crlf_Nil [simp]: "crlf [] = []"
  by (simp add: crlf_def)

lemma flush_runs_crlf: "concat (flush_runs p) = crlf p"
proof (induction p rule: flush_runs.induct)
  case (1 p)
  let ?r = "takeWhile (\<lambda>c. c \<noteq> 10) p"
  have r: "crlf ?r = ?r" by (rule crlf_plain) (auto dest: set_takeWhileD)
  show ?case
  proof (cases "length ?r = length p")
    case True
    define q where "q = ?r"
    have "q = p" unfolding q_def using takeWhile_eq_take[of "\<lambda>c. c \<noteq> 10" p] True by (metis order_refl take_all)
    then show ?thesis using r by (subst flush_runs.simps) (simp add: Let_def q_def[symmetric])
  next
    case False
    then have "length ?r < length p" using length_takeWhile_le[of _ p] by (simp add: less_le)
    then have p: "p = ?r @ 10 # drop (length ?r + 1) p"
      using nth_length_takeWhile[of "\<lambda>c. c \<noteq> 10" p] takeWhile_eq_take[of "\<lambda>c. c \<noteq> 10" p]
      by (metis Suc_eq_plus1 append_take_drop_id Cons_nth_drop_Suc)
    then have "p \<noteq> []" by auto
    then have "concat (flush_runs p) = ?r @ [13, 10] @ crlf (drop (length ?r + 1) p)"
      using 1 False by (subst flush_runs.simps) (simp add: Let_def)
    also have "\<dots> = crlf (?r @ 10 # drop (length ?r + 1) p)" using r by (simp add: crlf_def)
    finally show ?thesis unfolding p[symmetric] .
  qed
qed

lemma fb_out_frame [simp]:
  "sc_sinks (fb_out p s) = sc_sinks s" "sc_painting (fb_out p s) = sc_painting s" "sc_fb (fb_out p s) = sc_fb s"
  by (simp_all add: fb_out_def)

lemma watching_frame: "sc_sinks s' = sc_sinks s \<Longrightarrow> watching k i s' = watching k i s"
  by (simp add: watching_def)

lemma received_fb_out:
  assumes "watching k (sc_painting s) s \<le> 1"
  shows "received k (fb_out p s) = received k s @ (if watching k (sc_painting s) s = 1 then p else [])"
proof -
  let ?calls = "\<lambda>ls. concat (map (\<lambda>l. case sk_fn l of None \<Rightarrow> [] | Some fn \<Rightarrow>
      if sk_screen l = sc_painting s then [(fn, p)] else []) ls)"
  have "concat (map snd (filter (\<lambda>x. fst x = k) (?calls ls))) =
      concat (replicate (length (filter (\<lambda>l. sk_fn l = Some k \<and> sk_screen l = sc_painting s) ls)) p)" for ls
    by (induction ls) (auto split: option.splits)
  from this[of "sc_sinks s"]
  have "received k (fb_out p s) = received k s @ concat (replicate (watching k (sc_painting s) s) p)"
    by (simp add: received_def fb_out_def watching_def)
  then show ?thesis using assms by (cases "watching k (sc_painting s) s") simp_all
qed

text \<open>What a viewer has received and what the buffer still holds for it.\<close>

definition shown :: "sink \<Rightarrow> display \<Rightarrow> u8 list" where
  "shown k s = received k s @ (if watching k (sc_painting s) s = 1 then crlf (sc_fb s) else [])"

lemma shown_empty: "sc_fb s = [] \<Longrightarrow> shown k s = received k s"
  by (simp add: shown_def)

text \<open>A step of the drawing: the same viewers, within the buffer, \<open>text\<close> more to show.\<close>

definition draws :: "u8 list \<Rightarrow> display \<Rightarrow> display \<Rightarrow> bool" where
  "draws text s s' \<longleftrightarrow> sc_sinks s' = sc_sinks s \<and> sc_painting s' = sc_painting s \<and> length (sc_fb s') \<le> FB_SIZE \<and>
     (\<forall>k. watching k (sc_painting s) s \<le> 1 \<longrightarrow>
        shown k s' = shown k s @ (if watching k (sc_painting s) s = 1 then crlf text else []))"

lemma draws_refl: "length (sc_fb s) \<le> FB_SIZE \<Longrightarrow> draws [] s s"
  by (simp add: draws_def shown_def)

lemma draws_same:
  assumes "sc_sinks s' = sc_sinks s" "sc_painting s' = sc_painting s" "sc_fb s' = sc_fb s" "sc_sent s' = sc_sent s"
    "length (sc_fb s) \<le> FB_SIZE"
  shows "draws [] s s'"
  using assms by (simp add: draws_def shown_def received_def watching_def)

lemma draws_trans: "draws t s s' \<Longrightarrow> draws u s' s'' \<Longrightarrow> draws (t @ u) s s''"
  by (auto simp: draws_def watching_def)

lemma draws_append:
  assumes "length (sc_fb s) + length text \<le> FB_SIZE"
  shows "draws text s (s\<lparr>sc_fb := sc_fb s @ text\<rparr>)"
  using assms by (simp add: draws_def shown_def received_def watching_def)

lemma fold_fb_out:
  "sc_sinks (fold fb_out rs s) = sc_sinks s \<and> sc_painting (fold fb_out rs s) = sc_painting s \<and> sc_fb (fold fb_out rs s) = sc_fb s \<and>
    (watching k (sc_painting s) s \<le> 1 \<longrightarrow>
      received k (fold fb_out rs s) = received k s @ (if watching k (sc_painting s) s = 1 then concat rs else []))"
proof (induction rs arbitrary: s)
  case (Cons r rs)
  have "watching k (sc_painting (fb_out r s)) (fb_out r s) = watching k (sc_painting s) s" by (simp add: watching_def)
  then show ?case using Cons[of "fb_out r s"] received_fb_out[of k s r] by simp
qed simp

lemma fb_flush_draws: "draws [] s (fb_flush s)" "sc_fb (fb_flush s) = []"
proof -
  let ?s = "s\<lparr>sc_reads := sc_reads s + 1, sc_pf_bytes := sc_pf_bytes s + of_nat (length (sc_fb s)), sc_fb := []\<rparr>"
  let ?f = "fold fb_out (flush_runs (sc_fb s)) ?s"
  have f: "sc_sinks ?f = sc_sinks s" "sc_painting ?f = sc_painting s" "sc_fb ?f = []"
    using fold_fb_out[of "flush_runs (sc_fb s)" ?s undefined] by simp_all
  have "received k ?f = received k s @ (if watching k (sc_painting s) s = 1 then crlf (sc_fb s) else [])"
    if "watching k (sc_painting s) s \<le> 1" for k
    using fold_fb_out[of "flush_runs (sc_fb s)" ?s k] that by (simp add: watching_def received_def flush_runs_crlf)
  then have "draws [] s ?f" using f by (simp add: draws_def shown_def watching_def)
  moreover have "fb_flush s = (if sc_fb s = [] then s else snd (read_clock ?f)\<lparr>sc_pf_out_us :=
      sc_pf_out_us ?f + of_int (fst (read_clock ?f) - fst (read_clock s))\<rparr>)"
    by (simp add: fb_flush_def read_clock_def Let_def)
  moreover have "draws [] ?f (snd (read_clock ?f)\<lparr>sc_pf_out_us := x\<rparr>)" for x
    using f(3) by (intro draws_same) (simp_all add: read_clock_def)
  ultimately show "draws [] s (fb_flush s)"
    using draws_trans[of "[]" s ?f "[]"] draws_refl[of s] by simp
  show "sc_fb (fb_flush s) = []" using f by (simp add: fb_flush_def read_clock_def Let_def)
qed

lemma fb_room_draws:
  assumes "length (sc_fb s) \<le> FB_SIZE" "n \<le> FB_SIZE"
  shows "draws [] s (fb_room n s)" "length (sc_fb (fb_room n s)) + n \<le> FB_SIZE"
  using assms fb_flush_draws[of s] by (simp_all add: fb_room_def draws_refl)

lemma fb_rep_draws:
  assumes "length (sc_fb s) \<le> FB_SIZE" "n \<le> m"
  shows "draws (replicate n c) s (fb_rep_loop m c n s)"
  using assms
proof (induction m arbitrary: n s)
  case 0
  then show ?case by (simp add: draws_def shown_def)
next
  case (Suc m)
  show ?case
  proof (cases "n = 0")
    case True
    then show ?thesis using Suc.prems by (simp add: draws_def shown_def)
  next
    case False
    let ?s = "fb_room 1 s"
    let ?chunk = "min n (FB_SIZE - length (sc_fb ?s))"
    let ?t = "?s\<lparr>sc_fb := sc_fb ?s @ replicate ?chunk c\<rparr>"
    have room: "draws [] s ?s" "length (sc_fb ?s) + 1 \<le> FB_SIZE"
      using fb_room_draws[OF Suc.prems(1), of 1] by (simp_all add: FB_SIZE_def)
    have t: "draws (replicate ?chunk c) ?s ?t" using room(2) by (intro draws_append) simp
    have "length (sc_fb ?t) \<le> FB_SIZE" using t by (simp only: draws_def)
    moreover have "n - ?chunk \<le> m" using room(2) False Suc.prems(2) by simp
    ultimately have "draws (replicate (n - ?chunk) c) ?t (fb_rep_loop m c (n - ?chunk) ?t)" by (rule Suc.IH)
    then have "draws ([] @ replicate ?chunk c @ replicate (n - ?chunk) c) s (fb_rep_loop m c (n - ?chunk) ?t)"
      by (intro draws_trans[OF room(1)] draws_trans[OF t])
    moreover have "replicate ?chunk c @ replicate (n - ?chunk) c = replicate n c" using replicate_add[of ?chunk "n - ?chunk" c] by simp
    ultimately show ?thesis using False by (simp add: Let_def)
  qed
qed

lemma fb_do_draws:
  assumes "length (sc_fb s) \<le> FB_SIZE" "fb_fits c"
  shows "draws (fb_text c) s (fb_do c s)"
proof (cases c)
  case (Fb_puts u)
  then have room: "draws [] s (fb_room (length u) s)" "length (sc_fb (fb_room (length u) s)) + length u \<le> FB_SIZE"
    using assms fb_room_draws by simp_all
  from draws_trans[OF room(1) draws_append[OF room(2)]] show ?thesis
    using Fb_puts assms(2) by (simp add: fb_puts_def Let_def)
next
  case (Fb_putc b)
  have room: "draws [] s (fb_room 1 s)" "length (sc_fb (fb_room 1 s)) + length [b] \<le> FB_SIZE"
    using fb_room_draws[OF assms(1), of 1] by (simp_all add: FB_SIZE_def)
  from draws_trans[OF room(1) draws_append[OF room(2)]] show ?thesis
    using Fb_putc by (simp add: fb_putc_def Let_def)
next
  case (Fb_rep b n)
  then show ?thesis using fb_rep_draws[OF assms(1)] by (simp add: fb_rep_def)
next
  case (Fb_printf u)
  have room: "draws [] s (fb_room 512 s)" "length (sc_fb (fb_room 512 s)) + 512 \<le> FB_SIZE"
    using fb_room_draws[OF assms(1), of 512] by (simp_all add: FB_SIZE_def)
  then have cut: "length u < FB_SIZE - length (sc_fb (fb_room 512 s))" using Fb_printf assms(2) by simp
  then have "length (sc_fb (fb_room 512 s)) + length u \<le> FB_SIZE" by simp
  from draws_trans[OF room(1) draws_append[OF this]] show ?thesis
    using Fb_printf cut by (simp add: fb_printf_def Let_def)
qed

lemma fold_fb_do_draws:
  assumes "length (sc_fb s) \<le> FB_SIZE" "\<forall>c\<in>set cs. fb_fits c"
  shows "draws (concat (map fb_text cs)) s (fold fb_do cs s)"
  using assms
proof (induction cs arbitrary: s)
  case Nil
  then show ?case by (simp add: draws_def shown_def)
next
  case (Cons c cs)
  have c: "draws (fb_text c) s (fb_do c s)" using Cons.prems by (intro fb_do_draws) simp_all
  then have "length (sc_fb (fb_do c s)) \<le> FB_SIZE" by (simp add: draws_def)
  from draws_trans[OF c Cons.IH[OF this]] Cons.prems show ?case by simp
qed

lemma probe_frame_frame [simp]:
  "sc_sinks (probe_frame now t s) = sc_sinks s" "sc_fb (probe_frame now t s) = sc_fb s" "sc_sent (probe_frame now t s) = sc_sent s"
  by (simp_all add: probe_frame_def Let_def)

text \<open>
  C21: a display reaches every terminal that shows it whole and once. Whatever calls a screen draws with, as long as
  each fits the buffer in one piece, painting sends to each transport that views the screen exactly the
  text drawn, with every line feed turned into carriage return and line feed, across all flushes of
  the buffer on the way; a transport that does not view the screen gets nothing, and nothing is left
  behind in the buffer.
\<close>

theorem frame_delivered:
  assumes "sc_fb s = []" "\<forall>c\<in>set (draw now). fb_fits c" "watching k i s \<le> 1"
  shows "received k (paint draw i now s) =
      received k s @ (if watching k i s = 1 then crlf (concat (map fb_text (draw now))) else []) \<and>
    sc_fb (paint draw i now s) = []"
proof -
  let ?s = "s\<lparr>sc_pf_bytes := 0, sc_pf_out_us := 0, sc_painting := i\<rparr>"
  let ?f = "fb_flush (fold fb_do (draw now) ?s)"
  have "draws (concat (map fb_text (draw now))) ?s (fold fb_do (draw now) ?s)"
    using assms(1,2) by (intro fold_fb_do_draws) simp_all
  from draws_trans[OF this fb_flush_draws(1)]
  have f: "shown k ?f = shown k ?s @ (if watching k i ?s = 1 then crlf (concat (map fb_text (draw now))) else [])"
    using assms(3) by (simp add: draws_def watching_def)
  have paint: "received k (paint draw i now s) = (if screen_viewers i s = 0 then received k s else received k ?f)"
    "sc_fb (paint draw i now s) = []"
    using assms(1) fb_flush_draws(2) by (simp_all add: paint_def Let_def read_clock_def received_def)
  have "watching k i s = 0" if "screen_viewers i s = 0"
    using that by (auto simp: watching_def screen_viewers_def filter_empty_conv)
  moreover have "shown k ?s = received k s" "watching k i ?s = watching k i s"
    using assms(1) by (simp_all add: shown_empty received_def watching_def)
  then have "received k ?f = received k s @ (if watching k i s = 1 then crlf (concat (map fb_text (draw now))) else [])"
    using f shown_empty[OF fb_flush_draws(2), of k "fold fb_do (draw now) ?s"] by simp
  ultimately show ?thesis unfolding paint(1) using paint(2) by simp
qed

text \<open>The UART shows the table while the SSH client has the processor list: the frame is longer than the buffer, so it is flushed on the way.\<close>

definition display_example :: display where
  "display_example = \<lparr>sc_screens = (\<lambda>i. \<lparr>sn_name = ''adsb'', sn_cols = 97, sn_period_ms = 500, sn_draw = True, sn_last_draw = 0\<rparr>),
     sc_sinks = [\<lparr>sk_fn = Some Uart_sink, sk_screen = SCREEN_TUI\<rparr>, \<lparr>sk_fn = Some Ssh_sink, sk_screen = SCREEN_TOP\<rparr>],
     sc_fb = [], sc_painting = SCREEN_NONE, sc_sent = [], sc_stdout = Uart_sink, sc_printed = [], sc_clock = int, sc_reads = 0, sc_pf_bytes = 0, sc_pf_out_us = 0,
     sc_probe = \<lparr>sp_fps = 0, sp_bytes = 0, sp_asm_ms = 0, sp_out_ms = 0\<rparr>,
     sc_win = 0, sc_n = 0, sc_sum_bytes = 0, sc_sum_out_us = 0, sc_sum_us = 0\<rparr>"

definition frame_example :: "int \<Rightarrow> fb_call list" where
  "frame_example now = [Fb_puts [27, 91, 72], Fb_rep 45 4094, Fb_putc 10, Fb_printf [65, 10, 66]]"

lemma frame_delivered_witness:
  "received Uart_sink (paint frame_example SCREEN_TUI 5 display_example) =
      received Uart_sink display_example @ crlf (concat (map fb_text (frame_example 5))) \<and>
   received Ssh_sink (paint frame_example SCREEN_TUI 5 display_example) = received Ssh_sink display_example"
proof -
  have fits: "sc_fb display_example = []" "\<forall>c\<in>set (frame_example 5). fb_fits c"
    by (simp_all add: display_example_def frame_example_def FB_SIZE_def)
  have "watching Uart_sink SCREEN_TUI display_example = 1" "watching Ssh_sink SCREEN_TUI display_example = 0"
    by (simp_all add: watching_def display_example_def)
  with frame_delivered[where draw = frame_example and now = 5, OF fits, of Uart_sink SCREEN_TUI]
    frame_delivered[where draw = frame_example and now = 5, OF fits, of Ssh_sink SCREEN_TUI]
  show ?thesis by simp
qed

end
