(* ===== verification/NetWifi.thy ===== *)
theory NetWifi
  imports Prelude
begin

text \<open>
  The wireless half of the network (\<open>main/net_wifi.c\<close>): stored credentials and switches, the events of the radio,
  the task that joins the upstream network with a growing interval, and the bring-up. The answers of
  the flash and of the radio are arguments; the calls made to the radio are logged.
\<close>

section \<open>State\<close>

datatype wifi_state = NET_WIFI_OFF | NET_WIFI_INIT | NET_WIFI_AP | NET_WIFI_STA

datatype nvs_value = Nvs_str string | Nvs_u8 u8

datatype radio_call = Radio_init | Radio_ap_config | Radio_sta_config string string | Radio_mode_apsta | Radio_mode_sta
  | Radio_start | Radio_ps_none | Radio_scan_params | Radio_ap_protocol | Radio_sta_protocol | Radio_connect | Radio_disconnect

record wifi =
  wf_state :: wifi_state
  wf_ap_clients :: int
  wf_sta_ip4 :: u32
  wf_sta_want :: bool
  wf_join_fail :: int
  wf_join_tries :: u32
  wf_waited_ms :: u32
  wf_sta_on :: bool
  wf_ap_on :: bool
  wf_task :: bool
  wf_notified :: bool
  wf_ssid :: string
  wf_pass :: string
  wf_nvs :: "string \<Rightarrow> nvs_value option"
  wf_nvs_calls :: nat
  wf_radio :: "radio_call list"

text \<open>The answer to the n-th call of the flash that may fail and of the radio; 0 is \<open>ESP_OK\<close>.\<close>

record wifi_env =
  we_nvs :: "nat \<Rightarrow> int"
  we_radio :: "nat \<Rightarrow> int"

definition STA_RETRY_MS :: u32 where "STA_RETRY_MS = 30000"
definition STA_BACKOFF_SHIFTS :: u32 where "STA_BACKOFF_SHIFTS = 4"
definition STA_QUIET_MS :: u32 where "STA_QUIET_MS = 300000"
definition STA_SLICE_MS :: u32 where "STA_SLICE_MS = 5000"
definition ESP_ERR_INVALID_STATE :: int where "ESP_ERR_INVALID_STATE = 0x103"

text \<open>What \<open>strlcpy\<close> leaves in a buffer of \<open>n\<close> bytes.\<close>

definition strlcpy :: "nat \<Rightarrow> string \<Rightarrow> string" where
  "strlcpy n t = take (n - 1) t"

definition nvs_call :: "wifi_env \<Rightarrow> wifi \<Rightarrow> int \<times> wifi" where
  "nvs_call env w = (we_nvs env (wf_nvs_calls w), w\<lparr>wf_nvs_calls := wf_nvs_calls w + 1\<rparr>)"

definition nvs_set :: "wifi_env \<Rightarrow> string \<Rightarrow> nvs_value \<Rightarrow> wifi \<Rightarrow> int \<times> wifi" where
  "nvs_set env key v w =
     (let (err, w) = nvs_call env w in (err, if err = 0 then w\<lparr>wf_nvs := (wf_nvs w)(key \<mapsto> v)\<rparr> else w))"

definition radio :: "wifi_env \<Rightarrow> radio_call \<Rightarrow> wifi \<Rightarrow> int \<times> wifi" where
  "radio env call w = (we_radio env (length (wf_radio w)), w\<lparr>wf_radio := wf_radio w @ [call]\<rparr>)"

text \<open>Steps one after another until one fails.\<close>

fun until_error :: "('s \<Rightarrow> int \<times> 's) list \<Rightarrow> 's \<Rightarrow> int \<times> 's" where
  "until_error [] s = (0, s)"
| "until_error (f # fs) s = (let (err, s) = f s in if err \<noteq> 0 then (err, s) else until_error fs s)"

section \<open>Credentials and switches\<close>

definition net_wifi_sta_ssid :: "nat \<Rightarrow> wifi \<Rightarrow> string" where
  "net_wifi_sta_ssid n w = strlcpy n (wf_ssid w)"

text \<open>The driver's record has 32 bytes for the name and 64 for the password.\<close>

definition sta_config_apply :: "wifi_env \<Rightarrow> wifi \<Rightarrow> int \<times> wifi" where
  "sta_config_apply env w =
     radio env (Radio_sta_config (strlcpy 32 (wf_ssid w)) (strlcpy 64 (wf_pass w))) (w\<lparr>wf_sta_want := wf_ssid w \<noteq> []\<rparr>)"

definition nvs_flag :: "string \<Rightarrow> wifi \<Rightarrow> bool" where
  "nvs_flag key w = (case wf_nvs w key of Some (Nvs_u8 v) \<Rightarrow> v \<noteq> 0 | _ \<Rightarrow> True)"

definition nvs_set_flag :: "wifi_env \<Rightarrow> string \<Rightarrow> bool \<Rightarrow> wifi \<Rightarrow> int \<times> wifi" where
  "nvs_set_flag env key on =
     until_error [nvs_call env, nvs_set env key (Nvs_u8 (if on then 1 else 0)), nvs_call env]"

text \<open>\<open>nvs_get_str\<close> refuses a string that does not fit the buffer with its end.\<close>

definition nvs_get_str :: "string \<Rightarrow> nat \<Rightarrow> wifi \<Rightarrow> string" where
  "nvs_get_str key n w = (case wf_nvs w key of Some (Nvs_str t) \<Rightarrow> if length t < n then t else [] | _ \<Rightarrow> [])"

definition sta_creds_load :: "wifi_env \<Rightarrow> wifi \<Rightarrow> wifi" where
  "sta_creds_load env w =
     (let (err, w) = nvs_call env (w\<lparr>wf_ssid := [], wf_pass := []\<rparr>)
      in if err \<noteq> 0 then w
         else w\<lparr>wf_ssid := nvs_get_str ''sta_ssid'' 33 w, wf_pass := nvs_get_str ''sta_pass'' 65 w,
                wf_sta_on := nvs_flag ''sta_on'' w, wf_ap_on := nvs_flag ''ap_on'' w\<rparr>)"

definition notify_task :: "wifi \<Rightarrow> wifi" where
  "notify_task w = (if wf_task w then w\<lparr>wf_notified := True\<rparr> else w)"

definition net_wifi_set_sta :: "wifi_env \<Rightarrow> string \<Rightarrow> string \<Rightarrow> wifi \<Rightarrow> int \<times> wifi" where
  "net_wifi_set_sta env ssid pass w =
     (let (err, w) = until_error [nvs_call env, nvs_set env ''sta_ssid'' (Nvs_str ssid),
                       nvs_set env ''sta_pass'' (Nvs_str pass), nvs_call env] w
      in if err \<noteq> 0 then (err, w)
         else let w = w\<lparr>wf_ssid := strlcpy 33 ssid, wf_pass := strlcpy 65 pass\<rparr>;
                  w = snd (radio env Radio_disconnect w);
                  (err, w) = sta_config_apply env w
              in (err, notify_task w))"

definition net_wifi_set_sta_enabled :: "wifi_env \<Rightarrow> bool \<Rightarrow> wifi \<Rightarrow> int \<times> wifi" where
  "net_wifi_set_sta_enabled env on w =
     (let (err, w) = nvs_set_flag env ''sta_on'' on w; w = w\<lparr>wf_sta_on := on\<rparr>
      in (err, if \<not> on then snd (radio env Radio_disconnect w) else notify_task (w\<lparr>wf_join_tries := 0\<rparr>)))"

definition net_wifi_set_ap_enabled :: "wifi_env \<Rightarrow> bool \<Rightarrow> wifi \<Rightarrow> int \<times> wifi" where
  "net_wifi_set_ap_enabled env on w =
     (if wf_state w = NET_WIFI_OFF \<or> wf_state w = NET_WIFI_INIT then (ESP_ERR_INVALID_STATE, w)
      else let (err, w) = radio env (if on then Radio_mode_apsta else Radio_mode_sta) w
           in if err \<noteq> 0 then (err, w)
              else let w = w\<lparr>wf_ap_on := on\<rparr>;
                       w = (if \<not> on then w\<lparr>wf_ap_clients := 0\<rparr> else snd (radio env Radio_ap_protocol w))
                   in nvs_set_flag env ''ap_on'' on w)"

section \<open>Events\<close>

datatype wifi_event = Ap_start | Ap_sta_connected | Ap_sta_disconnected | Sta_disconnected int | Sta_got_ip u32

primrec on_wifi_event :: "wifi_event \<Rightarrow> wifi \<Rightarrow> wifi" where
  "on_wifi_event Ap_start w = (if wf_state w \<noteq> NET_WIFI_STA then w\<lparr>wf_state := NET_WIFI_AP\<rparr> else w)"
| "on_wifi_event Ap_sta_connected w = w\<lparr>wf_ap_clients := wf_ap_clients w + 1\<rparr>"
| "on_wifi_event Ap_sta_disconnected w = (if 0 < wf_ap_clients w then w\<lparr>wf_ap_clients := wf_ap_clients w - 1\<rparr> else w)"
| "on_wifi_event (Sta_disconnected reason) w =
     (let w = w\<lparr>wf_sta_ip4 := 0\<rparr>
      in if wf_state w = NET_WIFI_STA then w\<lparr>wf_state := NET_WIFI_AP\<rparr>
         else if wf_sta_want w \<and> wf_sta_on w \<and> reason \<noteq> wf_join_fail w then w\<lparr>wf_join_fail := reason\<rparr>
         else w)"
| "on_wifi_event (Sta_got_ip addr) w =
     w\<lparr>wf_sta_ip4 := addr, wf_state := NET_WIFI_STA, wf_join_fail := -1, wf_join_tries := 0\<rparr>"

section \<open>The bring-up and the task\<close>

text \<open>The calls whose failure is only reported leave the rest going.\<close>

definition tolerated :: "('s \<Rightarrow> int \<times> 's) \<Rightarrow> 's \<Rightarrow> int \<times> 's" where
  "tolerated f s = (0, snd (f s))"

definition wifi_bringup :: "wifi_env \<Rightarrow> wifi \<Rightarrow> int \<times> wifi" where
  "wifi_bringup env =
     until_error [radio env Radio_init, (\<lambda>w. (0, sta_creds_load env w)), radio env Radio_mode_apsta,
       radio env Radio_ap_config, sta_config_apply env,
       (\<lambda>w. if wf_ap_on w then (0, w) else radio env Radio_mode_sta w), radio env Radio_start,
       tolerated (radio env Radio_ps_none), tolerated (radio env Radio_scan_params),
       (\<lambda>w. tolerated (until_error [(\<lambda>w. if wf_ap_on w then radio env Radio_ap_protocol w else (0, w)),
          radio env Radio_sta_protocol]) w)]"

definition retry_delay_ms :: "wifi \<Rightarrow> u32" where
  "retry_delay_ms w =
     (let tries = wf_join_tries w;
          ms = push_bit (unat (if tries < STA_BACKOFF_SHIFTS then tries else STA_BACKOFF_SHIFTS)) STA_RETRY_MS
      in if 0 < wf_ap_clients w \<and> ms < STA_QUIET_MS then STA_QUIET_MS else ms)"

definition net_wifi_sta_retry :: "wifi \<Rightarrow> int \<times> int" where
  "net_wifi_sta_retry w =
     (let due = retry_delay_ms w; done = wf_waited_ms w
      in (sint (wf_join_tries w), int (unat ((if done < due then due - done else 0) div 1000))))"

text \<open>The two halves of a round of the task: the attempt, and what the wait ends with.\<close>

definition join_half :: "wifi_env \<Rightarrow> bool \<times> wifi \<Rightarrow> bool \<times> wifi" where
  "join_half env fw =
     (case fw of (force, w) \<Rightarrow>
        if wf_sta_want w \<and> wf_sta_on w \<and> wf_state w \<noteq> NET_WIFI_STA \<and> (force \<or> retry_delay_ms w \<le> wf_waited_ms w)
        then (False, snd (radio env Radio_connect (w\<lparr>wf_waited_ms := 0, wf_join_tries := wf_join_tries w + 1\<rparr>)))
        else (force, w))"

definition wait_half :: "bool \<times> wifi \<Rightarrow> bool \<times> wifi" where
  "wait_half fw =
     (case fw of (force, w) \<Rightarrow>
        if wf_notified w then (True, w\<lparr>wf_notified := False, wf_join_tries := 0\<rparr>)
        else (force, w\<lparr>wf_waited_ms := wf_waited_ms w + STA_SLICE_MS\<rparr>))"

text \<open>A round, with what happens to the radio's state while the task waits.\<close>

definition wifi_round :: "wifi_env \<Rightarrow> (wifi \<Rightarrow> wifi) \<Rightarrow> bool \<times> wifi \<Rightarrow> bool \<times> wifi" where
  "wifi_round env meanwhile fw = wait_half (map_prod id meanwhile (join_half env fw))"

definition net_wifi_start :: "bool \<Rightarrow> bool \<Rightarrow> wifi \<Rightarrow> int \<times> wifi" where
  "net_wifi_start mutex created w =
     (if \<not> mutex then (0x101, w\<lparr>wf_state := NET_WIFI_OFF\<rparr>)
      else if \<not> created then (- 1, w\<lparr>wf_state := NET_WIFI_OFF\<rparr>)
      else (0, w\<lparr>wf_state := NET_WIFI_INIT, wf_task := True\<rparr>))"

text \<open>The task up to its loop: whether it goes on.\<close>

definition wifi_task_start :: "wifi_env \<Rightarrow> wifi \<Rightarrow> bool \<times> wifi" where
  "wifi_task_start env w =
     (let (err, w) = wifi_bringup env w in if err \<noteq> 0 then (False, w\<lparr>wf_state := NET_WIFI_OFF\<rparr>) else (True, w))"

section \<open>When the next attempt goes out\<close>

text \<open>Rounds of the task, each with the events that arrive while it waits.\<close>

fun wifi_run :: "wifi_env \<Rightarrow> wifi_event list list \<Rightarrow> bool \<times> wifi \<Rightarrow> bool \<times> wifi" where
  "wifi_run env [] fw = fw"
| "wifi_run env (es # ess) fw = wifi_run env ess (wifi_round env (fold on_wifi_event es) fw)"

definition join_failed :: "wifi_event \<Rightarrow> bool" where
  "join_failed e \<longleftrightarrow> (\<exists>reason. e = Sta_disconnected reason)"

definition seeking :: "wifi \<Rightarrow> bool" where
  "seeking w \<longleftrightarrow> wf_sta_want w \<and> wf_sta_on w \<and> wf_state w \<noteq> NET_WIFI_STA \<and> \<not> wf_notified w"

definition join_delay :: "wifi \<Rightarrow> nat" where
  "join_delay w = max (30000 * 2 ^ min (unat (wf_join_tries w)) 4) (if 0 < wf_ap_clients w then 300000 else 0)"

lemma retry_delay_value: "unat (retry_delay_ms w) = join_delay w"
proof -
  define k where "k = min (unat (wf_join_tries w)) 4"
  have k: "unat (if wf_join_tries w < STA_BACKOFF_SHIFTS then wf_join_tries w else STA_BACKOFF_SHIFTS) = k"
    by (simp add: k_def STA_BACKOFF_SHIFTS_def word_less_nat_alt)
  have "k \<in> {0, 1, 2, 3, 4}" by (auto simp: k_def)
  then show ?thesis
    unfolding join_delay_def retry_delay_ms_def k Let_def k_def[symmetric]
    by (auto simp: STA_RETRY_MS_def STA_QUIET_MS_def)
qed

lemma join_delay_bounds: "30000 \<le> join_delay w" "join_delay w \<le> 480000" "5000 dvd join_delay w"
proof -
  have "min (unat (wf_join_tries w)) 4 \<in> {0, 1, 2, 3, 4 :: nat}" by auto
  then have "(2 :: nat) ^ min (unat (wf_join_tries w)) 4 \<in> {1, 2, 4, 8, 16}" by auto
  then show "30000 \<le> join_delay w" "join_delay w \<le> 480000" "5000 dvd join_delay w"
    by (auto simp: join_delay_def)
qed

text \<open>Failed joins change nothing the interval depends on.\<close>

lemma join_failed_frame:
  assumes "seeking w" "\<forall>e\<in>set es. join_failed e"
  shows "seeking (fold on_wifi_event es w) \<and> wf_join_tries (fold on_wifi_event es w) = wf_join_tries w \<and>
    wf_ap_clients (fold on_wifi_event es w) = wf_ap_clients w \<and> wf_waited_ms (fold on_wifi_event es w) = wf_waited_ms w \<and>
    wf_radio (fold on_wifi_event es w) = wf_radio w"
  using assms
proof (induction es arbitrary: w)
  case (Cons e es)
  then obtain reason where e: "e = Sta_disconnected reason" by (auto simp: join_failed_def)
  let ?w = "on_wifi_event e w"
  have w: "seeking ?w" "wf_join_tries ?w = wf_join_tries w" "wf_ap_clients ?w = wf_ap_clients w"
    "wf_waited_ms ?w = wf_waited_ms w" "wf_radio ?w = wf_radio w"
    using Cons.prems(1) by (auto simp: e seeking_def Let_def)
  from Cons.IH[OF w(1)] Cons.prems(2) w show ?case by simp
qed simp

lemma waiting_rounds:
  assumes "seeking w" "\<forall>es\<in>set ess. \<forall>e\<in>set es. join_failed e"
    "unat (wf_waited_ms w) + 5000 * length ess \<le> join_delay w"
  shows "\<exists>w'. wifi_run env ess (False, w) = (False, w') \<and> seeking w' \<and> wf_radio w' = wf_radio w \<and>
    wf_join_tries w' = wf_join_tries w \<and> wf_ap_clients w' = wf_ap_clients w \<and>
    unat (wf_waited_ms w') = unat (wf_waited_ms w) + 5000 * length ess"
  using assms
proof (induction ess arbitrary: w)
  case (Cons es ess)
  let ?v = "fold on_wifi_event es w"
  let ?w = "?v\<lparr>wf_waited_ms := wf_waited_ms ?v + STA_SLICE_MS\<rparr>"
  have v: "seeking ?v" "wf_join_tries ?v = wf_join_tries w" "wf_ap_clients ?v = wf_ap_clients w"
    "wf_waited_ms ?v = wf_waited_ms w" "wf_radio ?v = wf_radio w"
    using join_failed_frame[OF Cons.prems(1), of es] Cons.prems(2) by simp_all
  have "unat (wf_waited_ms w) + 5000 \<le> 480000" using Cons.prems(3) join_delay_bounds(2)[of w] by simp
  then have "unat (wf_waited_ms w + 5000) = unat (wf_waited_ms w) + 5000"
    by (subst unat_add_lem[THEN iffD1]) simp_all
  then have w: "unat (wf_waited_ms ?w) = unat (wf_waited_ms w) + 5000" by (simp add: v(4) STA_SLICE_MS_def)
  have "\<not> retry_delay_ms w \<le> wf_waited_ms w"
    using Cons.prems(3) by (simp add: word_le_nat_alt retry_delay_value)
  then have round: "wifi_round env (fold on_wifi_event es) (False, w) = (False, ?w)"
    using v(1) by (simp add: wifi_round_def join_half_def wait_half_def seeking_def)
  have "seeking ?w" "join_delay ?w = join_delay w" using v by (simp_all add: seeking_def join_delay_def)
  then obtain w' where "wifi_run env ess (False, ?w) = (False, w')" "seeking w'" "wf_radio w' = wf_radio ?w"
    "wf_join_tries w' = wf_join_tries ?w" "wf_ap_clients w' = wf_ap_clients ?w"
    "unat (wf_waited_ms w') = unat (wf_waited_ms ?w) + 5000 * length ess"
    using Cons.IH[of ?w] Cons.prems(2,3) w by auto
  with w v show ?case by (intro exI[of _ w']) (simp add: round)
qed simp

text \<open>The attempt is made in the first half of a round; the wait that follows is a wait of that round.\<close>

lemma attempt_round:
  fixes env
  assumes "seeking w" "force \<or> retry_delay_ms w \<le> wf_waited_ms w"
  defines "a \<equiv> snd (radio env Radio_connect (w\<lparr>wf_waited_ms := 0, wf_join_tries := wf_join_tries w + 1\<rparr>))"
  shows "seeking a" "wf_waited_ms a = 0" "wf_radio a = wf_radio w @ [Radio_connect]" "wf_join_tries a = wf_join_tries w + 1"
    "wf_ap_clients a = wf_ap_clients w" "ess \<noteq> [] \<Longrightarrow> wifi_run env ess (force, w) = wifi_run env ess (False, a)"
proof -
  show a: "seeking a" "wf_waited_ms a = 0" "wf_radio a = wf_radio w @ [Radio_connect]" "wf_join_tries a = wf_join_tries w + 1"
    "wf_ap_clients a = wf_ap_clients w"
    using assms(1) by (simp_all add: a_def radio_def seeking_def)
  have "join_half env (force, w) = (False, a)" using assms(1,2) by (auto simp: join_half_def seeking_def a_def)
  moreover have "join_half env (False, a) = (False, a)"
    using a(2) join_delay_bounds(1)[of a] by (simp add: join_half_def word_le_nat_alt retry_delay_value)
  ultimately show "ess \<noteq> [] \<Longrightarrow> wifi_run env ess (force, w) = wifi_run env ess (False, a)"
    by (cases ess) (simp_all add: wifi_round_def)
qed

text \<open>
  C36: how often a missing network is looked for. A task that looks for its network makes an attempt, because it was told
  to or because the last wait has been served. While it gets no lease, nothing wakes it up, no station
  joins or leaves the access point and the only events are the radio's failures, for whatever reasons, no other attempt is
  made for 30 s doubled for each attempt since the last lease, this one included, at most four times, and
  for 300 s at least while a station is on the access point; when exactly that time has been served the next attempt goes
  out and is counted. So without such a station the first retry comes after 60 s, the next ones after 120 s
  and 240 s, and then every 480 s. The comments in the source promise a first retry after 30 s; the code
  counts the attempt before it waits.
\<close>

theorem join_cadence:
  assumes "seeking w" "force \<or> retry_delay_ms w \<le> wf_waited_ms w"
    and "wait = max (30000 * 2 ^ min (unat (wf_join_tries w + 1)) 4) (if 0 < wf_ap_clients w then 300000 else 0)"
    and "\<forall>es\<in>set ess. \<forall>e\<in>set es. join_failed e" "ess \<noteq> []" "5000 * length ess \<le> wait"
  shows "wf_radio (snd (wifi_run env ess (force, w))) = wf_radio w @ [Radio_connect] \<and>
    (5000 * length ess = wait \<longrightarrow>
      wf_radio (snd (join_half env (wifi_run env ess (force, w)))) = wf_radio w @ [Radio_connect, Radio_connect] \<and>
      wf_join_tries (snd (join_half env (wifi_run env ess (force, w)))) = wf_join_tries w + 2) \<and>
    (wf_join_tries w = 0 \<and> \<not> 0 < wf_ap_clients w \<longrightarrow> wait = 60000)"
proof -
  define a where "a = snd (radio env Radio_connect (w\<lparr>wf_waited_ms := 0, wf_join_tries := wf_join_tries w + 1\<rparr>))"
  note a = attempt_round[OF assms(1,2), where env = env, folded a_def]
  have wait: "join_delay a = wait" by (simp add: assms(3) join_delay_def a(4,5))
  obtain w' where w': "wifi_run env ess (False, a) = (False, w')" "seeking w'" "wf_radio w' = wf_radio a"
    "wf_join_tries w' = wf_join_tries a" "wf_ap_clients w' = wf_ap_clients a" "unat (wf_waited_ms w') = 5000 * length ess"
    using waiting_rounds[of a ess env] a(1,2) assms(4,6) wait by auto
  have "retry_delay_ms w' \<le> wf_waited_ms w'" if "5000 * length ess = wait"
    using w'(4-6) that wait by (simp add: word_le_nat_alt retry_delay_value join_delay_def)
  moreover have "wf_join_tries w + 1 + 1 = wf_join_tries w + 2" by simp
  ultimately show ?thesis
    using w' a(3,4) a(6)[OF assms(5)] assms(3) by (auto simp: join_half_def seeking_def radio_def)
qed

text \<open>A board whose upstream network is out of range, before its first attempt.\<close>

definition wifi_example :: wifi where
  "wifi_example = \<lparr>wf_state = NET_WIFI_AP, wf_ap_clients = 0, wf_sta_ip4 = 0, wf_sta_want = True, wf_join_fail = -1,
     wf_join_tries = 0, wf_waited_ms = 0, wf_sta_on = True, wf_ap_on = True, wf_task = True, wf_notified = False,
     wf_ssid = ''home'', wf_pass = ''secret12'', wf_nvs = (\<lambda>k. None), wf_nvs_calls = 0, wf_radio = []\<rparr>"

definition wifi_env_example :: wifi_env where
  "wifi_env_example = \<lparr>we_nvs = (\<lambda>n. 0), we_radio = (\<lambda>n. 0)\<rparr>"

lemma join_cadence_witness:
  "wf_radio (snd (join_half wifi_env_example (wifi_run wifi_env_example (replicate 12 [Sta_disconnected 201]) (True, wifi_example)))) =
   [Radio_connect, Radio_connect]"
proof -
  have "seeking wifi_example" "\<forall>es\<in>set (replicate 12 [Sta_disconnected 201]). \<forall>e\<in>set es. join_failed e"
    by (simp_all add: seeking_def wifi_example_def join_failed_def)
  from join_cadence[OF this(1) disjI1[OF TrueI] refl this(2), of wifi_env_example] show ?thesis by (simp add: wifi_example_def)
qed

section \<open>A radio that comes up without its access point\<close>

definition keeps_state :: "(wifi \<Rightarrow> int \<times> wifi) \<Rightarrow> bool" where
  "keeps_state f \<longleftrightarrow> (\<forall>w. wf_state (snd (f w)) = wf_state w)"

lemma keeps_state_until_error: "list_all keeps_state fs \<Longrightarrow> keeps_state (until_error fs)"
  by (induction fs) (auto simp: keeps_state_def split_beta Let_def)

lemma keeps_state_steps:
  "keeps_state (radio env call)" "keeps_state (sta_config_apply env)" "keeps_state (\<lambda>w. (0, sta_creds_load env w))"
  "keeps_state (\<lambda>w. (0, w))" "keeps_state f \<Longrightarrow> keeps_state (tolerated f)"
  "keeps_state f \<Longrightarrow> keeps_state g \<Longrightarrow> keeps_state (\<lambda>w. if wf_ap_on w then f w else g w)"
  by (simp_all add: keeps_state_def radio_def sta_config_apply_def sta_creds_load_def nvs_call_def tolerated_def Let_def)

lemma bringup_state: "keeps_state (wifi_bringup env)"
  unfolding wifi_bringup_def
  by (intro keeps_state_until_error) (simp add: keeps_state_until_error keeps_state_steps)

text \<open>
  Only an event of the access point, or a lease, tells the rest that the radio is up. A board that was left with the access
  point off and whose upstream network is missing sees neither, so it refuses to switch the access
  point back on.
\<close>

lemma ap_stays_off:
  assumes "net_wifi_start True True w = (0, w0)" "wifi_task_start env w0 = (True, w1)"
    "\<forall>e\<in>set es. e \<noteq> Ap_start \<and> (\<forall>a. e \<noteq> Sta_got_ip a)"
  shows "net_wifi_set_ap_enabled env on (fold on_wifi_event es w1) = (ESP_ERR_INVALID_STATE, fold on_wifi_event es w1)"
proof -
  have "wf_state w1 = NET_WIFI_INIT"
    using assms(1,2) bringup_state[of env] by (auto simp: keeps_state_def net_wifi_start_def wifi_task_start_def split_beta Let_def split: if_splits)
  moreover have "wf_state (fold on_wifi_event es v) = NET_WIFI_INIT" if "wf_state v = NET_WIFI_INIT" for v
    using that assms(3)
  proof (induction es arbitrary: v)
    case (Cons e es)
    then show ?case by (cases e) (auto simp: Let_def)
  qed simp
  ultimately show ?thesis by (simp add: net_wifi_set_ap_enabled_def)
qed

end
