(* ===== verification/NetConfig.thy ===== *)
theory NetConfig
  imports NetWifi
begin

text \<open>
  The two places the network is configured from: the forms of the web page (\<open>main/web_config.c\<close>) and the \<open>wifi\<close>
  command of the console (\<open>main/shell.c\<close>), with the state of the cable (\<open>main/net_eth.c\<close>) both ask for.
\<close>

section \<open>The cable\<close>

datatype eth_state = NET_ETH_OFF | NET_ETH_NOLINK | NET_ETH_LINK | NET_ETH_READY

record eth =
  et_state :: eth_state
  et_ip4 :: u32

datatype eth_event = Eth_connected | Eth_disconnected | Eth_got_ip u32

primrec on_eth_event :: "eth_event \<Rightarrow> eth \<Rightarrow> eth" where
  "on_eth_event Eth_connected e = e\<lparr>et_state := NET_ETH_LINK\<rparr>"
| "on_eth_event Eth_disconnected e = e\<lparr>et_ip4 := 0, et_state := NET_ETH_NOLINK\<rparr>"
| "on_eth_event (Eth_got_ip addr) e = e\<lparr>et_ip4 := addr, et_state := NET_ETH_READY\<rparr>"

section \<open>Texts of a form and of a page\<close>

definition hexval :: "char \<Rightarrow> int" where
  "hexval c =
     (let n = int (of_char c :: nat)
      in if 48 \<le> n \<and> n \<le> 57 then n - 48 else if 97 \<le> n \<and> n \<le> 102 then n - 97 + 10
         else if 65 \<le> n \<and> n \<le> 70 then n - 65 + 10 else - 1)"

fun url_decode :: "string \<Rightarrow> string" where
  "url_decode [] = []"
| "url_decode (c # r) =
     (if c = CHR ''+'' then CHR '' '' # url_decode r
      else case r of
          a # b # r' \<Rightarrow>
            if c = CHR ''%'' \<and> 0 \<le> hexval a \<and> 0 \<le> hexval b
            then char_of (nat (hexval a * 16 + hexval b)) # url_decode r' else c # url_decode r
        | _ \<Rightarrow> c # url_decode r)"

text \<open>What C makes of a buffer: the text up to its first NUL.\<close>

definition c_string :: "string \<Rightarrow> string" where
  "c_string t = takeWhile (\<lambda>c. c \<noteq> CHR 0x00) t"

definition html_char :: "char \<Rightarrow> string" where
  "html_char c =
     (if c = CHR ''<'' then ''&lt;'' else if c = CHR ''>'' then ''&gt;'' else if c = CHR ''&'' then ''&amp;''
      else if c = CHR 0x22 then ''&quot;'' else [c])"

fun html_loop :: "nat \<Rightarrow> string \<Rightarrow> string \<Rightarrow> string" where
  "html_loop n [] out = out"
| "html_loop n (c # p) out = (if length out + 7 < n then html_loop n p (out @ html_char c) else out)"

definition html_escape :: "nat \<Rightarrow> string \<Rightarrow> string" where
  "html_escape n t = html_loop n t []"

section \<open>The forms\<close>

datatype web_reply = See_other | Bad_request | Forbidden | Server_error

text \<open>
  \<open>query\<close> finds the raw value of a key in a body, as \<open>httpd_query_key_value\<close> does before it copies what fits;
  \<open>recv\<close> is what the socket gives for a request of so many bytes, or nothing.
\<close>

definition form_field :: "(string \<Rightarrow> string \<Rightarrow> string option) \<Rightarrow> string \<Rightarrow> string \<Rightarrow> nat \<Rightarrow> string" where
  "form_field query body key n = (case query body key of None \<Rightarrow> [] | Some v \<Rightarrow> strlcpy n v)"

definition form_text :: "(string \<Rightarrow> string \<Rightarrow> string option) \<Rightarrow> string \<Rightarrow> string \<Rightarrow> nat \<Rightarrow> string" where
  "form_text query body key n = c_string (url_decode (form_field query body key n))"

definition wifi_post ::
  "wifi_env \<Rightarrow> (string \<Rightarrow> string \<Rightarrow> string option) \<Rightarrow> (nat \<Rightarrow> string option) \<Rightarrow> nat \<Rightarrow> wifi \<Rightarrow> web_reply \<times> wifi" where
  "wifi_post env query recv content_len w =
     (case recv (min content_len 255) of
        None \<Rightarrow> (Bad_request, w)
      | Some body \<Rightarrow>
          let ssid = form_text query body ''ssid'' 33; pass = form_text query body ''pass'' 65;
              (err, w) = (if ssid = [] then net_wifi_set_sta env [] [] w
                          else if pass = []
                          then if net_wifi_sta_ssid 33 w = ssid then (0, w) else net_wifi_set_sta env ssid [] w
                          else net_wifi_set_sta env ssid pass w)
          in (if err \<noteq> 0 then Server_error else See_other, w))"

definition radio_post ::
  "wifi_env \<Rightarrow> (string \<Rightarrow> string \<Rightarrow> string option) \<Rightarrow> (nat \<Rightarrow> string option) \<Rightarrow> nat \<Rightarrow> eth_state \<Rightarrow> wifi \<Rightarrow> web_reply \<times> wifi" where
  "radio_post env query recv content_len eth w =
     (case recv (min content_len 63) of
        None \<Rightarrow> (Bad_request, w)
      | Some body \<Rightarrow>
          let fits = (\<lambda>key. case query body key of None \<Rightarrow> False | Some v \<Rightarrow> length v < 8); is_ap = fits ''ap''
          in if \<not> is_ap \<and> \<not> fits ''sta'' then (Bad_request, w)
             else let val = form_field query body (if is_ap then ''ap'' else ''sta'') 8; on = (val = ''on'')
                  in if is_ap \<and> \<not> on \<and> eth \<noteq> NET_ETH_READY \<and> wf_state w \<noteq> NET_WIFI_STA then (Forbidden, w)
                     else let (err, w) = (if is_ap then net_wifi_set_ap_enabled env on w else net_wifi_set_sta_enabled env on w)
                          in (if err \<noteq> 0 then Server_error else See_other, w))"

section \<open>The command\<close>

definition onoff :: "string \<Rightarrow> int" where
  "onoff t = (if t = ''on'' then 1 else if t = ''off'' then 0 else - 1)"

definition reachable_without_ap :: "eth_state \<Rightarrow> wifi \<Rightarrow> bool" where
  "reachable_without_ap eth w \<longleftrightarrow> eth = NET_ETH_READY \<or> wf_state w = NET_WIFI_STA"

text \<open>The result of the command; without arguments it only reports.\<close>

definition cmd_wifi :: "wifi_env \<Rightarrow> eth_state \<Rightarrow> string list \<Rightarrow> wifi \<Rightarrow> int \<times> wifi" where
  "cmd_wifi env eth argv w =
     (if length argv = 1 then (0, w)
      else if argv ! 1 = ''sta'' then
        if length argv = 3 \<and> argv ! 2 = ''clear'' then net_wifi_set_sta env [] [] w
        else if length argv = 3 \<and> 0 \<le> onoff (argv ! 2) then net_wifi_set_sta_enabled env (onoff (argv ! 2) \<noteq> 0) w
        else if length argv \<noteq> 4 then (0x102, w)
        else net_wifi_set_sta env (argv ! 2) (argv ! 3) w
      else if argv ! 1 = ''ap'' \<and> 3 \<le> length argv \<and> 0 \<le> onoff (argv ! 2) then
        let on = (onoff (argv ! 2) \<noteq> 0); force = (3 < length argv \<and> argv ! 3 = ''force'')
        in if \<not> on \<and> \<not> force \<and> \<not> reachable_without_ap eth w then (ESP_ERR_INVALID_STATE, w)
           else net_wifi_set_ap_enabled env on w
      else (0x102, w))"

section \<open>The access point is never the last way in\<close>

definition keeps_ap :: "(wifi \<Rightarrow> int \<times> wifi) \<Rightarrow> bool" where
  "keeps_ap f \<longleftrightarrow> (\<forall>w. wf_ap_on (snd (f w)) = wf_ap_on w)"

lemma keeps_ap_until_error: "list_all keeps_ap fs \<Longrightarrow> keeps_ap (until_error fs)"
  by (induction fs) (auto simp: keeps_ap_def split_beta Let_def)

lemma keeps_ap_steps: "keeps_ap (nvs_call env)" "keeps_ap (nvs_set env key v)" "keeps_ap (radio env call)"
  by (simp_all add: keeps_ap_def nvs_call_def nvs_set_def radio_def Let_def)

lemma keeps_ap_set_sta: "wf_ap_on (snd (net_wifi_set_sta env ssid pass w)) = wf_ap_on w"
  and keeps_ap_set_sta_enabled: "wf_ap_on (snd (net_wifi_set_sta_enabled env on w)) = wf_ap_on w"
proof -
  have a: "keeps_ap (until_error [nvs_call env, nvs_set env k v, nvs_set env k' v', nvs_call env])"
    "keeps_ap (until_error [nvs_call env, nvs_set env k v, nvs_call env])" for k v k' v'
    by (intro keeps_ap_until_error; simp add: keeps_ap_steps)+
  show "wf_ap_on (snd (net_wifi_set_sta env ssid pass w)) = wf_ap_on w"
    using a(1)[of "''sta_ssid''" "Nvs_str ssid" "''sta_pass''" "Nvs_str pass"]
    by (simp add: net_wifi_set_sta_def Let_def split_beta notify_task_def sta_config_apply_def radio_def keeps_ap_def)
  show "wf_ap_on (snd (net_wifi_set_sta_enabled env on w)) = wf_ap_on w"
    using a(2)[of "''sta_on''" "Nvs_u8 (if on then 1 else 0)"]
    by (simp add: net_wifi_set_sta_enabled_def nvs_set_flag_def Let_def split_beta notify_task_def radio_def keeps_ap_def)
qed

lemma set_ap_on: "wf_ap_on w \<Longrightarrow> wf_ap_on (snd (net_wifi_set_ap_enabled env True w))"
proof -
  have "keeps_ap (nvs_set_flag env k b)" for k b
    unfolding nvs_set_flag_def by (intro keeps_ap_until_error) (simp add: keeps_ap_steps)
  moreover assume "wf_ap_on w"
  ultimately show ?thesis by (simp add: net_wifi_set_ap_enabled_def Let_def split_beta radio_def keeps_ap_def)
qed

text \<open>
  C20: the access point is never switched off while it is the only way to the board. Whatever is posted to the
  page, and whatever is typed at the console short of the word \<open>force\<close>, the access point goes from on
  to off only while the cable has an address or the upstream network has given one.
\<close>

theorem ap_never_stranded:
  assumes "wf_ap_on w" "\<not> wf_ap_on w'"
    "w' = snd (radio_post env query recv content_len eth w) \<or> w' = snd (wifi_post env query recv content_len w) \<or>
     w' = snd (cmd_wifi env eth argv w) \<and> \<not> (3 < length argv \<and> argv ! 3 = ''force'')"
  shows "eth = NET_ETH_READY \<or> wf_state w = NET_WIFI_STA"
proof -
  have on: "wf_ap_on (snd (net_wifi_set_ap_enabled env on w))" if "on" for on using that set_ap_on[OF assms(1)] by simp
  from assms(3) show ?thesis
  proof (elim disjE conjE)
    assume "w' = snd (radio_post env query recv content_len eth w)"
    then show ?thesis using assms(1,2) on keeps_ap_set_sta_enabled[of env _ w]
      by (auto simp: radio_post_def Let_def split_beta split: option.splits if_splits)
  next
    assume "w' = snd (wifi_post env query recv content_len w)"
    then show ?thesis using assms(1,2) keeps_ap_set_sta[of env _ _ w]
      by (auto simp: wifi_post_def Let_def split_beta split: option.splits if_splits)
  next
    assume "w' = snd (cmd_wifi env eth argv w)" "\<not> (3 < length argv \<and> argv ! 3 = ''force'')"
    then show ?thesis using assms(1,2) on keeps_ap_set_sta[of env _ _ w] keeps_ap_set_sta_enabled[of env _ w]
      by (auto simp: cmd_wifi_def Let_def reachable_without_ap_def split: if_splits)
  qed
qed

text \<open>With the cable up the page may switch it off.\<close>

definition query_example :: "string \<Rightarrow> string \<Rightarrow> string option" where
  "query_example body key = (if key = ''ap'' then Some ''off'' else None)"

lemma ap_never_stranded_witness:
  "wf_ap_on wifi_example \<and>
   \<not> wf_ap_on (snd (radio_post wifi_env_example query_example (\<lambda>n. Some ''ap=off'') 6 NET_ETH_READY wifi_example)) \<and>
   (NET_ETH_READY = NET_ETH_READY \<or> wf_state wifi_example = NET_WIFI_STA)"
proof -
  let ?w = "snd (radio_post wifi_env_example query_example (\<lambda>n. Some ''ap=off'') 6 NET_ETH_READY wifi_example)"
  have "wf_ap_on wifi_example" "\<not> wf_ap_on ?w"
    by (simp_all add: radio_post_def query_example_def form_field_def strlcpy_def wifi_example_def wifi_env_example_def
        net_wifi_set_ap_enabled_def radio_def nvs_set_flag_def nvs_call_def nvs_set_def)
  with ap_never_stranded[OF this, of wifi_env_example query_example "\<lambda>n. Some ''ap=off''" 6 NET_ETH_READY "[]"]
  show ?thesis by simp
qed

section \<open>Forms and pages keep the text\<close>

text \<open>How a browser encodes a form field.\<close>

definition hex_upper :: "nat \<Rightarrow> char" where
  "hex_upper n = char_of (if n < 10 then n + 48 else n + 55)"

definition form_plain :: "nat \<Rightarrow> bool" where
  "form_plain n \<longleftrightarrow> (48 \<le> n \<and> n \<le> 57) \<or> (65 \<le> n \<and> n \<le> 90) \<or> (97 \<le> n \<and> n \<le> 122) \<or> n \<in> {42, 45, 46, 95}"

definition form_char :: "char \<Rightarrow> string" where
  "form_char c =
     (let n = of_char c :: nat
      in if form_plain n then [c]
         else if n = 32 then ''+'' else [CHR ''%'', hex_upper (n div 16), hex_upper (n mod 16)])"

definition form_encode :: "string \<Rightarrow> string" where
  "form_encode t = concat (map form_char t)"

lemma hexval_upper: "n < 16 \<Longrightarrow> hexval (hex_upper n) = int n"
  by (auto simp: hexval_def hex_upper_def Let_def)

lemma url_decode_char: "url_decode (form_char c @ r) = c # url_decode r"
proof -
  define n where "n = (of_char c :: nat)"
  have c: "c = char_of n" "n < 256" by (simp_all add: n_def)
  have lit: "(of_char CHR ''+'' :: nat) = 43" "(of_char CHR ''%'' :: nat) = 37" "(of_char CHR '' '' :: nat) = 32" by simp_all
  consider "form_char c = [c]" "n \<noteq> 43" "n \<noteq> 37" | "n = 32" "form_char c = ''+''"
    | "form_char c = [CHR ''%'', hex_upper (n div 16), hex_upper (n mod 16)]"
    by (cases "form_plain n"; cases "n = 32"; simp add: form_char_def Let_def flip: n_def) (auto simp: form_plain_def)
  then show ?thesis
  proof cases
    case 1
    then have "c \<noteq> CHR ''+''" "c \<noteq> CHR ''%''" using lit by (auto simp: n_def)
    then show ?thesis using 1 by (auto split: list.split)
  next
    case 2
    then have "of_char c = (of_char CHR '' '' :: nat)" using lit(3) by (simp add: n_def)
    then have "c = CHR '' ''" by (simp only: of_char_eq_iff)
    then show ?thesis using 2 by simp
  next
    case 3
    have "n div 16 < 16" "n mod 16 < 16" using c(2) by auto
    then have "nat (hexval (hex_upper (n div 16)) * 16 + hexval (hex_upper (n mod 16))) = n"
      "0 \<le> hexval (hex_upper (n div 16))" "0 \<le> hexval (hex_upper (n mod 16))"
      by (simp_all add: hexval_upper nat_add_distrib nat_mult_distrib)
    then show ?thesis using 3 c(1) by simp
  qed
qed

lemma url_decode_append: "url_decode (form_encode t @ r) = t @ url_decode r"
  by (induction t) (simp_all add: form_encode_def url_decode_char)

lemma url_decode_encode: "url_decode (form_encode t) = t"
  using url_decode_append[of t "[]"] by simp

lemma c_string_id: "CHR 0x00 \<notin> set t \<Longrightarrow> c_string t = t"
  unfolding c_string_def by (rule takeWhile_eq_all_conv[THEN iffD2]) auto

lemma form_text_encoded:
  assumes "query body key = Some (form_encode t)" "length (form_encode t) < n" "CHR 0x00 \<notin> set t"
  shows "form_text query body key n = t"
  using assms by (simp add: form_text_def form_field_def strlcpy_def url_decode_encode c_string_id)

lemma form_encode_Nil [simp]: "form_encode t = [] \<longleftrightarrow> t = []"
  by (cases t) (simp_all add: form_encode_def form_char_def Let_def)

lemma form_encode_length: "length t \<le> length (form_encode t)"
  by (induction t) (auto simp: form_encode_def form_char_def Let_def)

text \<open>What setting the credentials does: the flash takes four calls, and the first that fails ends it.\<close>

lemma all_less_four: "(\<forall>n<4. P n) \<longleftrightarrow> P 0 \<and> P 1 \<and> P 2 \<and> P (3 :: nat)"
  by (auto simp: numeral_eq_Suc less_Suc_eq)

lemma set_sta_works:
  assumes "\<forall>n<4. we_nvs env (wf_nvs_calls w + n) = 0"
  shows "net_wifi_set_sta env ssid pass w =
    (let v = w\<lparr>wf_nvs := (wf_nvs w)(''sta_ssid'' \<mapsto> Nvs_str ssid, ''sta_pass'' \<mapsto> Nvs_str pass),
               wf_nvs_calls := wf_nvs_calls w + 4, wf_ssid := strlcpy 33 ssid, wf_pass := strlcpy 65 pass,
               wf_radio := wf_radio w @ [Radio_disconnect]\<rparr>;
         (err, v) = sta_config_apply env v
     in (err, notify_task v))"
proof -
  have "until_error [nvs_call env, nvs_set env ''sta_ssid'' (Nvs_str ssid), nvs_set env ''sta_pass'' (Nvs_str pass), nvs_call env] w =
      (0, w\<lparr>wf_nvs := (wf_nvs w)(''sta_ssid'' \<mapsto> Nvs_str ssid, ''sta_pass'' \<mapsto> Nvs_str pass), wf_nvs_calls := wf_nvs_calls w + 4\<rparr>)"
    using assms by (simp add: all_less_four nvs_call_def nvs_set_def numeral_2_eq_2 numeral_3_eq_3)
  then show ?thesis by (simp add: net_wifi_set_sta_def Let_def radio_def)
qed

lemma set_sta_fails:
  assumes "\<not> (\<forall>n<4. we_nvs env (wf_nvs_calls w + n) = 0)" "net_wifi_set_sta env ssid pass w = (err, w')"
  shows "err \<noteq> 0" "wf_ssid w' = wf_ssid w" "wf_pass w' = wf_pass w" "wf_radio w' = wf_radio w"
proof -
  obtain e v where u: "until_error [nvs_call env, nvs_set env ''sta_ssid'' (Nvs_str ssid),
      nvs_set env ''sta_pass'' (Nvs_str pass), nvs_call env] w = (e, v)" by fastforce
  then have "e \<noteq> 0 \<and> wf_ssid v = wf_ssid w \<and> wf_pass v = wf_pass w \<and> wf_radio v = wf_radio w"
    using assms(1) by (auto simp: all_less_four nvs_call_def nvs_set_def numeral_2_eq_2 numeral_3_eq_3 split: if_splits)
  moreover from this have "(err, w') = (e, v)" using assms(2) u by (simp add: net_wifi_set_sta_def)
  ultimately show "err \<noteq> 0" "wf_ssid w' = wf_ssid w" "wf_pass w' = wf_pass w" "wf_radio w' = wf_radio w" by simp_all
qed

lemma wifi_post_set:
  assumes "recv (min content_len 255) = Some body" "form_text query body ''ssid'' 33 = ssid" "form_text query body ''pass'' 65 = pass"
    "ssid \<noteq> []" "pass \<noteq> [] \<or> net_wifi_sta_ssid 33 w \<noteq> ssid"
  shows "wifi_post env query recv content_len w =
    (let (err, w') = net_wifi_set_sta env ssid pass w in (if err \<noteq> 0 then Server_error else See_other, w'))"
  using assms by (auto simp: wifi_post_def Let_def)

text \<open>
  C37: credentials typed into the page arrive as they were typed. The body has been received, and the name and the password,
  neither of them empty, are ones that the browser encodes into at most 32 and 64 characters, which is what the handler's
  buffers hold. When the four calls of the flash succeed, both are stored in flash and kept as the very
  text that was typed, blanks, percent signs and accented letters included; the radio is told to drop its association, and the
  join task is woken if it runs. The radio is given them through its own fields: at most 31 characters
  of the name and 63 of the password, so a name of exactly 32 characters, though stored whole, reaches
  it one character short. When a call of the flash fails the page answers with an error, and the
  credentials in use and the radio are left alone.
\<close>

theorem wifi_form_stored:
  assumes "recv (min content_len 255) = Some body"
    "query body ''ssid'' = Some (form_encode ssid)" "query body ''pass'' = Some (form_encode pass)"
    "length (form_encode ssid) \<le> 32" "length (form_encode pass) \<le> 64" "ssid \<noteq> []" "pass \<noteq> []"
    "CHR 0x00 \<notin> set ssid" "CHR 0x00 \<notin> set pass"
  shows "let (reply, w') = wifi_post env query recv content_len w
    in if \<forall>n<4. we_nvs env (wf_nvs_calls w + n) = 0
       then wf_nvs w' = (wf_nvs w)(''sta_ssid'' \<mapsto> Nvs_str ssid, ''sta_pass'' \<mapsto> Nvs_str pass) \<and>
         wf_ssid w' = ssid \<and> wf_pass w' = pass \<and> wf_sta_want w' \<and> (wf_notified w' \<longleftrightarrow> wf_task w \<or> wf_notified w) \<and>
         wf_radio w' = wf_radio w @ [Radio_disconnect, Radio_sta_config (take 31 ssid) (take 63 pass)]
       else reply = Server_error \<and> wf_ssid w' = wf_ssid w \<and> wf_pass w' = wf_pass w \<and> wf_radio w' = wf_radio w"
proof -
  have t: "form_text query body ''ssid'' 33 = ssid" "form_text query body ''pass'' 65 = pass"
    using assms by (simp_all add: form_text_encoded)
  have l: "length ssid \<le> 32" "length pass \<le> 64"
    using assms(4,5) form_encode_length[of ssid] form_encode_length[of pass] by simp_all
  have post: "wifi_post env query recv content_len w =
      (let (err, w') = net_wifi_set_sta env ssid pass w in (if err \<noteq> 0 then Server_error else See_other, w'))"
    using wifi_post_set[of recv content_len body query ssid pass w env] assms(1,6,7) t by blast
  show ?thesis
  proof (cases "\<forall>n<4. we_nvs env (wf_nvs_calls w + n) = 0")
    case True
    then show ?thesis
      using assms(6) l unfolding post set_sta_works[OF True]
      by (simp add: Let_def strlcpy_def sta_config_apply_def radio_def notify_task_def)
  next
    case False
    obtain err w' where set_: "net_wifi_set_sta env ssid pass w = (err, w')" by fastforce
    from set_sta_fails[OF False set_] show ?thesis unfolding post set_ if_not_P[OF False] by simp
  qed
qed

definition form_example :: "string \<Rightarrow> string \<Rightarrow> string option" where
  "form_example body key =
     (if key = ''ssid'' then Some (form_encode ''my net'') else if key = ''pass'' then Some (form_encode ''50% more!'') else None)"

lemma wifi_form_stored_witness:
  "wf_ssid (snd (wifi_post wifi_env_example form_example (\<lambda>n. Some []) 40 wifi_example)) = ''my net'' \<and>
   wf_pass (snd (wifi_post wifi_env_example form_example (\<lambda>n. Some []) 40 wifi_example)) = ''50% more!''"
proof -
  have enc: "form_encode ''my net'' = ''my+net''" "form_encode ''50% more!'' = ''50%25+more%21''" by code_simp+
  have "form_example [] ''ssid'' = Some (form_encode ''my net'')" "form_example [] ''pass'' = Some (form_encode ''50% more!'')"
    by (simp_all add: form_example_def)
  from wifi_form_stored[of "\<lambda>n. Some []" 40 "[]" form_example, OF _ this, of wifi_env_example wifi_example]
  show ?thesis by (simp add: enc wifi_env_example_def wifi_example_def Let_def split_beta)
qed

text \<open>The value is cut before it is decoded: a name of twelve signs is a legal one, but does not survive its encoding.\<close>

lemma long_name_mangled:
  "form_text (\<lambda>body key. Some (form_encode (replicate 12 CHR ''!''))) [] ''ssid'' 33 = replicate 10 CHR ''!'' @ ''%2''"
proof -
  have c: "form_char CHR ''!'' = ''%21''" by code_simp
  have enc: "form_encode (replicate n CHR ''!'') = concat (replicate n ''%21'')" for n by (simp add: form_encode_def c)
  have "strlcpy 33 (concat (replicate 12 ''%21'')) = concat (replicate 10 ''%21'') @ ''%2''" by code_simp
  then have cut: "strlcpy 33 (form_encode (replicate 12 CHR ''!'')) = form_encode (replicate 10 CHR ''!'') @ ''%2''"
    by (simp only: enc)
  have "url_decode ''%2'' = ''%2''" "c_string (replicate 10 CHR ''!'' @ ''%2'') = replicate 10 CHR ''!'' @ ''%2''" by code_simp+
  then show ?thesis
    unfolding form_text_def form_field_def by (simp only: option.case cut url_decode_append)
qed

text \<open>A new name with the password left blank: the stored password is wiped.\<close>

lemma blank_password_wipes:
  assumes "recv (min content_len 255) = Some body" "form_text query body ''ssid'' 33 = ssid" "form_text query body ''pass'' 65 = []"
    "ssid \<noteq> []" "net_wifi_sta_ssid 33 w \<noteq> ssid" "\<And>n. we_nvs env n = 0"
  shows "wf_nvs (snd (wifi_post env query recv content_len w)) ''sta_pass'' = Some (Nvs_str [])"
  using wifi_post_set[of recv content_len body query ssid "[]" w env] set_sta_works[of env w ssid "[]"] assms
  by (simp add: Let_def sta_config_apply_def radio_def notify_task_def)

text \<open>A name of 32 characters, which the standard allows, reaches the driver one short.\<close>

lemma full_name_cut:
  assumes "length (wf_ssid w) = 32"
  shows "\<exists>ssid pass. wf_radio (snd (sta_config_apply env w)) = wf_radio w @ [Radio_sta_config ssid pass] \<and> length ssid = 31"
  using assms by (simp add: sta_config_apply_def radio_def strlcpy_def)

section \<open>A name on the page is only a name\<close>

text \<open>How a browser reads the text of a page back.\<close>

fun html_text :: "string \<Rightarrow> string" where
  "html_text [] = []"
| "html_text (c # r) =
     (if c = CHR ''&'' \<and> take 3 r = ''lt;'' then CHR ''<'' # html_text (drop 3 r)
      else if c = CHR ''&'' \<and> take 3 r = ''gt;'' then CHR ''>'' # html_text (drop 3 r)
      else if c = CHR ''&'' \<and> take 4 r = ''amp;'' then CHR ''&'' # html_text (drop 4 r)
      else if c = CHR ''&'' \<and> take 5 r = ''quot;'' then CHR 0x22 # html_text (drop 5 r)
      else c # html_text r)"

lemma html_text_char: "html_text (html_char c @ r) = c # html_text r"
  by (simp add: html_char_def)

lemma html_char_safe: "d \<in> set (html_char c) \<Longrightarrow> d \<noteq> CHR ''<'' \<and> d \<noteq> CHR ''>'' \<and> d \<noteq> CHR 0x22"
  by (auto simp: html_char_def split: if_splits)

lemma html_char_length: "1 \<le> length (html_char c)" "length (html_char c) \<le> 6"
  by (simp_all add: html_char_def)

lemma html_loop_spec:
  "length out < n \<Longrightarrow> \<exists>k\<le>length t. html_loop n t out = out @ concat (map html_char (take k t)) \<and>
     length (html_loop n t out) < n \<and> (length out + 6 * length t + 1 < n \<longrightarrow> k = length t)"
proof (induction t arbitrary: out)
  case (Cons c t)
  show ?case
  proof (cases "length out + 7 < n")
    case True
    then have "length (out @ html_char c) < n" using html_char_length(2)[of c] by simp
    from Cons.IH[OF this] obtain k where k: "k \<le> length t"
      "html_loop n t (out @ html_char c) = (out @ html_char c) @ concat (map html_char (take k t))"
      "length (html_loop n t (out @ html_char c)) < n"
      "length (out @ html_char c) + 6 * length t + 1 < n \<longrightarrow> k = length t" by blast
    show ?thesis using k True html_char_length(2)[of c] by (intro exI[of _ "Suc k"]) auto
  next
    case False
    then show ?thesis using Cons.prems by (intro exI[of _ 0]) auto
  qed
qed simp

lemma html_text_chars: "html_text (concat (map html_char t)) = t"
  by (induction t) (simp_all add: html_text_char)

text \<open>
  A network's name cannot break out of the page. Whatever the name, its escaped form fits the buffer with its
  end, has no angle bracket and no quote in it, and reads back as the name itself, or as its beginning
  when the buffer is too small; the 224 bytes of the page are enough for any name of 32 characters.
\<close>

theorem html_escape_safe:
  assumes "0 < n"
  shows "length (html_escape n t) < n \<and> set (html_escape n t) \<inter> {CHR ''<'', CHR ''>'', CHR 0x22} = {} \<and>
    (\<exists>k. html_text (html_escape n t) = take k t) \<and>
    (length t \<le> 32 \<and> 224 \<le> n \<longrightarrow> html_text (html_escape n t) = t)"
proof -
  have "length ([] :: string) < n" using assms by simp
  from html_loop_spec[OF this, of t] obtain k where "html_loop n t [] = [] @ concat (map html_char (take k t))"
    "length (html_loop n t []) < n" "length ([] :: string) + 6 * length t + 1 < n \<longrightarrow> k = length t" by blast
  then have k: "html_escape n t = concat (map html_char (take k t))" "length (html_escape n t) < n"
    "6 * length t + 1 < n \<longrightarrow> k = length t"
    by (simp_all add: html_escape_def)
  have "html_text (html_escape n t) = take k t" by (simp only: k(1) html_text_chars)
  moreover have "set (html_escape n t) \<inter> {CHR ''<'', CHR ''>'', CHR 0x22} = {}"
    unfolding k(1) using html_char_safe by fastforce
  ultimately show ?thesis using k(2,3) by auto
qed

lemma html_escape_safe_witness:
  "html_text (html_escape 224 ''<b>caf&eacute;'') = ''<b>caf&eacute;'' \<and> length (html_escape 224 ''<b>caf&eacute;'') < 224"
  using html_escape_safe[of 224 "''<b>caf&eacute;''"] by simp

end
