(* ===== verification/Antenna.thy ===== *)
theory Antenna
  imports NetConfig TrackerProps
begin

text \<open>
  The position of the antenna (\<open>main/class_driver.c\<close>): its copy in flash, in whole microdegrees, the copy the
  receive task works with, and the web form and the console command that change it.
\<close>

section \<open>State\<close>

text \<open>
  \<open>rv_tracker\<close> holds both copies of the position, \<open>rv_flash\<close> the two numbers of the name space \<open>rxcfg\<close>. \<open>rv_running\<close>
  says that the receive task is up; then a request is left for it in \<open>rv_pos_req\<close> or \<open>rv_inject_req\<close>.
\<close>

record receiver =
  rv_tracker :: tracker
  rv_flash :: "string \<Rightarrow> int option"
  rv_flash_calls :: nat
  rv_running :: bool
  rv_pos_req :: bool
  rv_inject_req :: bool
  rv_seq :: nat

definition flash_call :: "(nat \<Rightarrow> int) \<Rightarrow> receiver \<Rightarrow> int \<times> receiver" where
  "flash_call nvs v = (nvs (rv_flash_calls v), v\<lparr>rv_flash_calls := rv_flash_calls v + 1\<rparr>)"

definition flash_set :: "(nat \<Rightarrow> int) \<Rightarrow> string \<Rightarrow> int \<Rightarrow> receiver \<Rightarrow> int \<times> receiver" where
  "flash_set nvs key n v =
     (let (err, v) = flash_call nvs v in (err, if err = 0 then v\<lparr>rv_flash := (rv_flash v)(key \<mapsto> n)\<rparr> else v))"

definition flash_erase :: "(nat \<Rightarrow> int) \<Rightarrow> receiver \<Rightarrow> int \<times> receiver" where
  "flash_erase nvs v = (let (err, v) = flash_call nvs v in (err, if err = 0 then v\<lparr>rv_flash := (\<lambda>k. None)\<rparr> else v))"

section \<open>Operations\<close>

definition microdegrees :: "rat \<Rightarrow> int" where
  "microdegrees x = lround (flt (x * 1000000))"

definition from_microdegrees :: "int \<Rightarrow> rat" where
  "from_microdegrees n = flt (flt (of_int n) / 1000000)"

text \<open>The statics of the table are zero when this is called, and there is no receive task yet.\<close>

definition adsb_pos_init :: "(nat \<Rightarrow> int) \<Rightarrow> receiver \<Rightarrow> receiver" where
  "adsb_pos_init nvs v =
     (let t = rv_tracker v; v = v\<lparr>rv_tracker := t\<lparr>tr_pos_cfg := (tr_pos_cfg t)\<lparr>rp_valid := False\<rparr>\<rparr>\<rparr>;
          (err, v) = flash_call nvs v; t = rv_tracker v
      in if err \<noteq> 0 then v
         else let cfg = (case (rv_flash v ''lat'', rv_flash v ''lon'') of
                           (Some ulat, Some ulon) \<Rightarrow>
                             \<lparr>rp_lat = from_microdegrees ulat, rp_lon = from_microdegrees ulon, rp_valid = True\<rparr>
                         | _ \<Rightarrow> tr_pos_cfg t)
              in v\<lparr>rv_tracker := t\<lparr>tr_pos_cfg := cfg, tr_pos := cfg\<rparr>\<rparr>)"

definition adsb_pos_get :: "receiver \<Rightarrow> (rat \<times> rat) \<times> bool" where
  "adsb_pos_get v = (let p = tr_pos_cfg (rv_tracker v) in ((rp_lat p, rp_lon p), rp_valid p))"

definition pos_request_apply :: "geo \<Rightarrow> receiver \<Rightarrow> receiver" where
  "pos_request_apply g v =
     (if rv_running v then v\<lparr>rv_pos_req := True\<rparr> else v\<lparr>rv_tracker := pos_apply g (rv_tracker v)\<rparr>)"

definition pos_in_range :: "rat \<Rightarrow> rat \<Rightarrow> bool" where
  "pos_in_range lat lon \<longleftrightarrow> \<not> (90 < \<bar>lat\<bar> \<or> 180 < \<bar>lon\<bar>)"

text \<open>
  \<open>strtof\<close> gives the number a text begins with and what follows it, and nothing when there is none or it is not a
  finite number; neither is in range.
\<close>

definition adsb_pos_parse :: "(string \<Rightarrow> (rat \<times> string) option) \<Rightarrow> string \<Rightarrow> string \<Rightarrow> (rat \<times> rat) option" where
  "adsb_pos_parse strtof lat_s lon_s =
     (case (strtof lat_s, strtof lon_s) of
        (Some (la, e1), Some (lo, e2)) \<Rightarrow>
          if e1 \<noteq> [] \<or> e2 \<noteq> [] \<or> \<not> pos_in_range la lo then None else Some (la, lo)
      | _ \<Rightarrow> None)"

definition adsb_pos_set :: "geo \<Rightarrow> (nat \<Rightarrow> int) \<Rightarrow> rat \<Rightarrow> rat \<Rightarrow> receiver \<Rightarrow> int \<times> receiver" where
  "adsb_pos_set g nvs lat lon v =
     (if \<not> pos_in_range lat lon then (0x102, v)
      else let (err, v) = until_error [flash_call nvs, flash_set nvs ''lat'' (microdegrees lat),
                            flash_set nvs ''lon'' (microdegrees lon), flash_call nvs] v
           in if err \<noteq> 0 then (err, v)
              else (0, pos_request_apply g (v\<lparr>rv_tracker := (rv_tracker v)\<lparr>tr_pos_cfg :=
                     \<lparr>rp_lat = lat, rp_lon = lon, rp_valid = True\<rparr>\<rparr>\<rparr>)))"

definition adsb_pos_clear :: "geo \<Rightarrow> (nat \<Rightarrow> int) \<Rightarrow> receiver \<Rightarrow> int \<times> receiver" where
  "adsb_pos_clear g nvs v =
     (let (err, v) = until_error [flash_call nvs, flash_erase nvs, flash_call nvs] v
      in if err \<noteq> 0 then (err, v)
         else (0, pos_request_apply g (v\<lparr>rv_tracker := (rv_tracker v)\<lparr>tr_pos_cfg :=
                \<lparr>rp_lat = 0, rp_lon = 0, rp_valid = False\<rparr>\<rparr>\<rparr>)))"

definition pos_post ::
  "geo \<Rightarrow> (nat \<Rightarrow> int) \<Rightarrow> (string \<Rightarrow> (rat \<times> string) option) \<Rightarrow> (string \<Rightarrow> string \<Rightarrow> string option) \<Rightarrow>
   (nat \<Rightarrow> string option) \<Rightarrow> nat \<Rightarrow> receiver \<Rightarrow> web_reply \<times> receiver" where
  "pos_post g nvs strtof query recv content_len v =
     (case recv (min content_len 95) of
        None \<Rightarrow> (Bad_request, v)
      | Some body \<Rightarrow>
          let lat_s = form_text query body ''lat'' 24; lon_s = form_text query body ''lon'' 24;
              reply = (\<lambda>(err, v). (if err \<noteq> 0 then Server_error else See_other, v))
          in if lat_s = [] \<and> lon_s = [] then reply (adsb_pos_clear g nvs v)
             else case adsb_pos_parse strtof lat_s lon_s of
                 None \<Rightarrow> (Bad_request, v)
               | Some (lat, lon) \<Rightarrow> reply (adsb_pos_set g nvs lat lon v))"

definition cmd_pos :: "geo \<Rightarrow> (nat \<Rightarrow> int) \<Rightarrow> (string \<Rightarrow> (rat \<times> string) option) \<Rightarrow> string list \<Rightarrow> receiver \<Rightarrow> int \<times> receiver" where
  "cmd_pos g nvs strtof argv v =
     (if length argv = 1 then (0, v)
      else if length argv = 2 \<and> argv ! 1 = ''clear'' then adsb_pos_clear g nvs v
      else case (if length argv = 3 then adsb_pos_parse strtof (argv ! 1) (argv ! 2) else None) of
          Some (lat, lon) \<Rightarrow> adsb_pos_set g nvs lat lon v
        | None \<Rightarrow> (0x102, v))"

section \<open>What comes back after a reboot\<close>

lemma near_trans: "\<bar>a - b\<bar> \<le> d \<Longrightarrow> \<bar>b - c\<bar> \<le> e \<Longrightarrow> \<bar>a - c\<bar> \<le> d + (e :: rat)"
  unfolding abs_le_iff by linarith

lemma near_size: "\<bar>a - b\<bar> \<le> d \<Longrightarrow> \<bar>b\<bar> \<le> e \<Longrightarrow> \<bar>a\<bar> \<le> d + (e :: rat)"
  unfolding abs_le_iff by linarith

lemma flt_error: "\<bar>x\<bar> \<le> b \<Longrightarrow> \<bar>flt x - x\<bar> \<le> b / 16777216"
  using fp_round_error[of 24 x] by (simp add: divide_le_eq field_simps)

text \<open>
  Three roundings to 24 bits and one to a whole microdegree: half a microdegree and three times the 24th part of the
  mantissa, with a little to spare.
\<close>

lemma microdegrees_error:
  assumes "\<bar>x\<bar> \<le> 180" shows "\<bar>from_microdegrees (microdegrees x) - x\<bar> \<le> 1 / 25000"
proof -
  let ?n = "of_int (microdegrees x) :: rat" and ?m = "x * 1000000"
  have big: "\<bar>?m\<bar> \<le> 180000000" using assms by (simp add: abs_mult)
  have n: "\<bar>?n - ?m\<bar> \<le> 12"
    using near_trans[OF lround_error flt_error[OF big]] by (simp add: microdegrees_def)
  have "\<bar>?n\<bar> \<le> 180000012" using near_size[OF n big] by simp
  from near_trans[OF flt_error[OF this] n] have f: "\<bar>flt ?n - ?m\<bar> \<le> 23" by simp
  then have q: "\<bar>flt ?n / 1000000 - x\<bar> \<le> 23 / 1000000" unfolding abs_le_iff by (simp add: field_simps)
  have "\<bar>flt ?n / 1000000\<bar> \<le> 181" using near_size[OF q assms] by simp
  from near_trans[OF flt_error[OF this] q] show ?thesis by (simp add: from_microdegrees_def)
qed

lemma pos_set_stores:
  assumes "fst (adsb_pos_set g nvs lat lon v) = 0"
  shows "pos_in_range lat lon"
    "rv_flash (snd (adsb_pos_set g nvs lat lon v)) = (rv_flash v)(''lat'' \<mapsto> microdegrees lat, ''lon'' \<mapsto> microdegrees lon)"
    "rv_running v \<Longrightarrow> rv_pos_req (snd (adsb_pos_set g nvs lat lon v))"
    "\<not> rv_running v \<Longrightarrow> tr_pos (rv_tracker (snd (adsb_pos_set g nvs lat lon v))) = \<lparr>rp_lat = lat, rp_lon = lon, rp_valid = True\<rparr>"
  using assms
  by (auto simp: adsb_pos_set_def flash_set_def flash_call_def pos_request_apply_def pos_apply_def split_beta Let_def split: if_splits)

text \<open>
  C34: the position of the antenna survives a power cycle. Once a position was accepted, a board without a dongle
  works with exactly it and a running receive task is told to take it over; and after a reboot the
  receiver works with a position that is off by less than five metres, the 40 microdegrees that
  storing whole microdegrees through single precision may cost.
\<close>

theorem antenna_survives_reboot:
  assumes "adsb_pos_set g nvs lat lon v = (0, v')" "rv_flash w = rv_flash v'" "nvs' (rv_flash_calls w) = 0"
  shows "(rv_running v \<longrightarrow> rv_pos_req v') \<and>
    (\<not> rv_running v \<longrightarrow> tr_pos (rv_tracker v') = \<lparr>rp_lat = lat, rp_lon = lon, rp_valid = True\<rparr>) \<and>
    (let p = tr_pos (rv_tracker (adsb_pos_init nvs' w))
     in rp_valid p \<and> \<bar>rp_lat p - lat\<bar> \<le> 1 / 25000 \<and> \<bar>rp_lon p - lon\<bar> \<le> 1 / 25000)"
proof -
  have "fst (adsb_pos_set g nvs lat lon v) = 0" and v': "v' = snd (adsb_pos_set g nvs lat lon v)" using assms(1) by simp_all
  note s = pos_set_stores[OF this(1), folded v']
  have "\<bar>lat\<bar> \<le> 180" "\<bar>lon\<bar> \<le> 180" using s(1) by (auto simp: pos_in_range_def)
  then have "\<bar>from_microdegrees (microdegrees lat) - lat\<bar> \<le> 1 / 25000" "\<bar>from_microdegrees (microdegrees lon) - lon\<bar> \<le> 1 / 25000"
    by (simp_all only: microdegrees_error)
  moreover have "tr_pos (rv_tracker (adsb_pos_init nvs' w)) = \<lparr>rp_lat = from_microdegrees (microdegrees lat),
      rp_lon = from_microdegrees (microdegrees lon), rp_valid = True\<rparr>"
    using assms(2,3) s(2) by (simp add: adsb_pos_init_def flash_call_def Let_def)
  ultimately show ?thesis using s(3,4) by (simp add: Let_def)
qed

definition receiver_example :: receiver where
  "receiver_example = \<lparr>rv_tracker = tracker_example, rv_flash = (\<lambda>k. None), rv_flash_calls = 0, rv_running = False,
     rv_pos_req = False, rv_inject_req = False, rv_seq = 0\<rparr>"

lemma antenna_survives_reboot_witness:
  "\<exists>v'. adsb_pos_set geo_example (\<lambda>n. 0) (- 37) 145 receiver_example = (0, v') \<and>
    \<bar>rp_lat (tr_pos (rv_tracker (adsb_pos_init (\<lambda>n. 0) (receiver_example\<lparr>rv_flash := rv_flash v'\<rparr>)))) - (- 37)\<bar> \<le> 1 / 25000"
proof -
  obtain v' where v': "adsb_pos_set geo_example (\<lambda>n. 0) (- 37) 145 receiver_example = (0, v')"
    by (simp add: adsb_pos_set_def pos_in_range_def flash_set_def flash_call_def split_beta Let_def)
  with antenna_survives_reboot[OF this, of "receiver_example\<lparr>rv_flash := rv_flash v'\<rparr>" "\<lambda>n. 0"]
  show ?thesis by (simp add: Let_def)
qed

end
