(* ===== verification/Demod.thy ===== *)
theory Demod
  imports Decode
begin

text \<open>
  The demodulator of \<open>main/mode-s.c\<close>: the magnitude table and vector, the phase heuristics and
  \<open>mode_s_detect\<close>, which walks a buffer of magnitudes, slices each candidate frame into bits,
  decodes it and retries a failed candidate once with phase correction.

  The loop is split as the code is: \<open>preamble_ok\<close> (the guards before \<open>good_preamble\<close>),
  \<open>slice_bits\<close>, \<open>pack_bits\<close>, \<open>avg_delta\<close>, and \<open>detect_step\<close> for one iteration, whose result is the
  next sample index, the flag \<open>use_correction\<close>, the buffer, the decoder state and the messages
  handed to the callback. A buffer is the list \<open>mag\<close>; its length is \<open>maglen\<close>.
\<close>

section \<open>Magnitudes\<close>

text \<open>
  \<open>round(sqrt(i * i + q * q) * 360)\<close>. The product is never within the rounding error of a
  half-integer (its square is an integer multiple of 360 squared), so the table entry is the
  integer nearest to the exact value.
\<close>

definition maglut_entry :: "nat \<Rightarrow> nat \<Rightarrow> u16" where
  "maglut_entry i q = of_nat ((isqrt (4 * 360 * 360 * (i * i + q * q)) + 1) div 2)"

definition maglut :: "u16 list" where
  "maglut = concat (map (\<lambda>i. map (\<lambda>q. maglut_entry i q) [0..<129]) [0..<129])"

definition sample_abs :: "u8 \<Rightarrow> nat" where
  "sample_abs x = nat \<bar>int (unat x) - 127\<bar>"

definition mode_s_compute_magnitude_vector :: "u8 list \<Rightarrow> u16 list" where
  "mode_s_compute_magnitude_vector data =
     map (\<lambda>k. maglut ! (sample_abs (data ! (2 * k)) * 129 + sample_abs (data ! (2 * k + 1)))) [0..<length data div 2]"

section \<open>Phase heuristics\<close>

text \<open>\<open>sm k\<close> is the sample at \<open>mag[j + k]\<close>; the C function is called with \<open>mag + j\<close>.\<close>

definition detect_out_of_phase :: "u16 list \<Rightarrow> nat \<Rightarrow> int" where
  "detect_out_of_phase mag j =
     (let sm = (\<lambda>k. unat (mag ! (j + k)))
      in if sm 2 div 3 < sm 3 then 1
         else if sm 9 div 3 < sm 10 then 1
         else if sm 7 div 3 < sm 6 then -1
         else if sm 1 div 3 < unat (mag ! (j - 1)) then -1
         else 0)"

definition phase_step :: "nat \<Rightarrow> u16 list \<Rightarrow> u16 list" where
  "phase_step p mag =
     (let v = unat (mag ! (p + 2))
      in if mag ! (p + 1) < mag ! p then mag[p + 2 := of_nat (v * 5 div 4)]
         else mag[p + 2 := of_nat (v * 4 div 5)])"

definition apply_phase_correction :: "u16 list \<Rightarrow> nat \<Rightarrow> u16 list" where
  "apply_phase_correction mag j =
     fold (\<lambda>k. phase_step (j + 16 + 2 * k)) [0..<MODE_S_LONG_MSG_BITS - 1] mag"

section \<open>Detection\<close>

definition MODE_S_PREAMBLE_US :: nat where "MODE_S_PREAMBLE_US = 8"
definition MODE_S_FULL_LEN :: nat where "MODE_S_FULL_LEN = MODE_S_PREAMBLE_US + MODE_S_LONG_MSG_BITS"

definition preamble_ok :: "u16 list \<Rightarrow> nat \<Rightarrow> bool" where
  "preamble_ok mag j =
     (let sm = (\<lambda>k. unat (mag ! (j + k)))
      in if \<not> (sm 1 < sm 0 \<and> sm 1 < sm 2 \<and> sm 3 < sm 2 \<and> sm 3 < sm 0 \<and> sm 4 < sm 0 \<and> sm 5 < sm 0 \<and>
               sm 6 < sm 0 \<and> sm 8 < sm 7 \<and> sm 8 < sm 9 \<and> sm 6 < sm 9) then False
         else let high = (sm 0 + sm 2 + sm 7 + sm 9) div 6
              in if high \<le> sm 4 \<or> high \<le> sm 5 then False
                 else if high \<le> sm 11 \<or> high \<le> sm 12 \<or> high \<le> sm 13 \<or> high \<le> sm 14 then False
                 else True)"

text \<open>One bit: the previous bit when the two samples are within 256, else the comparison; 2 for a tie.\<close>

definition slice_bit :: "u16 list \<Rightarrow> nat \<Rightarrow> nat list \<Rightarrow> nat \<Rightarrow> nat" where
  "slice_bit mag j bits k =
     (let low = int (unat (mag ! (j + 2 * k + 16))); high = int (unat (mag ! (j + 2 * k + 17)))
      in if 0 < k \<and> \<bar>low - high\<bar> < 256 then last bits
         else if low = high then 2
         else if high < low then 1 else 0)"

definition slice_bits :: "u16 list \<Rightarrow> nat \<Rightarrow> nat list" where
  "slice_bits mag j = fold (\<lambda>k bits. bits @ [slice_bit mag j bits k]) [0..<MODE_S_LONG_MSG_BITS] []"

text \<open>A tie is counted as an error at the very position it is found, if in the first 56 bits.\<close>

definition slice_errors :: "u16 list \<Rightarrow> nat \<Rightarrow> nat" where
  "slice_errors mag j = length (filter (\<lambda>k. \<not> (0 < k \<and> \<bar>int (unat (mag ! (j + 2 * k + 16))) - int (unat (mag ! (j + 2 * k + 17)))\<bar> < 256)
      \<and> mag ! (j + 2 * k + 16) = mag ! (j + 2 * k + 17)) [0..<MODE_S_SHORT_MSG_BITS])"

definition pack_bits :: "nat list \<Rightarrow> u8 list" where
  "pack_bits bits = map (\<lambda>i. fold (\<lambda>b w. w OR push_bit (7 - b) (of_nat (bits ! (8 * i + b)))) [0..<8] 0)
     [0..<MODE_S_LONG_MSG_BITS div 8]"

definition avg_delta :: "u16 list \<Rightarrow> nat \<Rightarrow> nat \<Rightarrow> nat" where
  "avg_delta mag j msglen =
     sum_list (map (\<lambda>k. nat \<bar>int (unat (mag ! (j + 2 * k + 16))) - int (unat (mag ! (j + 2 * k + 17)))\<bar>) [0..<msglen * 8])
     div (msglen * 4)"

record detector =
  d_self :: mode_s_t
  d_mag :: "u16 list"
  d_j :: nat
  d_corr :: bool
  d_out :: "mode_s_msg list"

text \<open>The samples the demodulator looks at: corrected on a retry, the buffer itself otherwise.\<close>

definition corrected :: "bool \<Rightarrow> u16 list \<Rightarrow> nat \<Rightarrow> u16 list" where
  "corrected corr mag j =
     (if corr \<and> 0 < j \<and> detect_out_of_phase mag j \<noteq> 0 then apply_phase_correction mag j else mag)"

text \<open>\<open>memcpy(mag + j + 16, aux, sizeof aux)\<close>, \<open>aux\<close> the 224 samples saved before the correction.\<close>

definition restore :: "bool \<Rightarrow> u16 list \<Rightarrow> u16 list \<Rightarrow> nat \<Rightarrow> u16 list" where
  "restore corr saved mag j =
     (if corr then take (j + 16) mag @ take (MODE_S_LONG_MSG_BITS * 2) (drop (j + 16) saved) @
        drop (j + 16 + MODE_S_LONG_MSG_BITS * 2) mag
      else mag)"

text \<open>What happens to a sliced frame that passes the noise filter: decoding, counters, callback.\<close>

definition emit :: "libm \<Rightarrow> int \<Rightarrow> u64 \<Rightarrow> nat \<Rightarrow> nat \<Rightarrow> u8 list \<Rightarrow> detector \<Rightarrow> detector \<times> bool" where
  "emit lm now base_ts_us msg_start delta msg d =
     (case mode_s_decode lm now (d_self d) msg of (self, mm) \<Rightarrow>
        let mm = mm\<lparr>timestamp_12mhz := base_ts_us * 12 + of_nat msg_start * 6,
                   signal_level := (if 0xFF00 < delta then 255 else delta div 256)\<rparr>;
            good = crcok mm;
            d = (if good
                 then d\<lparr>d_j := d_j d + (MODE_S_PREAMBLE_US + msgbits mm) * 2,
                        d_self := self\<lparr>stat_goodcrc := stat_goodcrc self + 1,
                          stat_fixed := stat_fixed self + (if errorbit mm \<noteq> -1 then 1 else 0)\<rparr>\<rparr>
                 else if d_corr d then d\<lparr>d_self := self\<lparr>stat_badcrc := stat_badcrc self + 1\<rparr>\<rparr>
                 else d\<lparr>d_self := self\<rparr>);
            mm = (if good \<and> d_corr d then mm\<lparr>phase_corrected := True\<rparr> else mm)
        in (if \<not> check_crc self \<or> crcok mm then d\<lparr>d_out := d_out d @ [mm]\<rparr> else d, good))"

text \<open>
  One iteration of the loop, the \<open>j++\<close> included. A retry steps \<open>j\<close> back before that, so it stays on
  the same sample with \<open>use_correction\<close> set.
\<close>

definition detect_step :: "libm \<Rightarrow> (nat \<Rightarrow> int) \<Rightarrow> u64 \<Rightarrow> detector \<Rightarrow> detector" where
  "detect_step lm clock base_ts_us d =
     (let j = d_j d; mag = d_mag d; corr = d_corr d
      in if \<not> corr \<and> \<not> preamble_ok mag j then d\<lparr>d_j := j + 1\<rparr>
         else
           let seen = corrected corr mag j;
               bits = slice_bits seen j;
               errors = slice_errors seen j;
               mag = restore corr mag seen j;
               msg = pack_bits bits;
               msglen = mode_s_msg_len_by_type (unat (drop_bit 3 (msg ! 0))) div 8;
               delta = avg_delta mag j msglen;
               d = d\<lparr>d_mag := mag\<rparr>
           in if delta < 10 * 255 then d\<lparr>d_j := j + 1, d_corr := False\<rparr>
              else case (if errors = 0 \<or> aggressive (d_self d) \<and> errors < 3
                         then emit lm (clock j) base_ts_us j delta msg d else (d, False)) of
                (d, good) \<Rightarrow>
                  if \<not> good \<and> \<not> corr then d\<lparr>d_corr := True\<rparr>
                  else d\<lparr>d_j := d_j d + 1, d_corr := False\<rparr>)"

text \<open>
  The whole loop. \<open>maglen - MODE_S_FULL_LEN * 2\<close> is computed in \<open>uint32_t\<close>, so a buffer shorter
  than one frame makes the bound wrap and the loop read past the buffer: \<open>None\<close>.
\<close>

function detect_loop :: "libm \<Rightarrow> (nat \<Rightarrow> int) \<Rightarrow> u64 \<Rightarrow> nat \<Rightarrow> detector \<Rightarrow> detector" where
  "detect_loop lm clock ts n d =
     (if d_j d < n then detect_loop lm clock ts n (detect_step lm clock ts d) else d)"
  by pat_completeness auto

definition mode_s_detect :: "libm \<Rightarrow> (nat \<Rightarrow> int) \<Rightarrow> mode_s_t \<Rightarrow> u16 list \<Rightarrow> u64 \<Rightarrow> (mode_s_t \<times> u16 list \<times> mode_s_msg list) option" where
  "mode_s_detect lm clock self mag ts =
     (if length mag < MODE_S_FULL_LEN * 2 then None
      else let d = detect_loop lm clock ts (length mag - MODE_S_FULL_LEN * 2)
                     \<lparr>d_self = self, d_mag = mag, d_j = 0, d_corr = False, d_out = []\<rparr>
           in Some (d_self d, d_mag d, d_out d))"

section \<open>Termination\<close>

text \<open>Either the sample index moves on, or a first attempt becomes a retry at the same index.\<close>

lemma emit_j: "d_j d \<le> d_j (fst (emit lm now ts k delta msg d))" "d_corr (fst (emit lm now ts k delta msg d)) = d_corr d"
  by (auto simp: emit_def Let_def split: prod.split)

definition detect_measure :: "nat \<Rightarrow> detector \<Rightarrow> nat" where
  "detect_measure n d = 2 * (n - d_j d) + (if d_corr d then 0 else 1)"

lemma detect_step_moves:
  "d_j d < d_j (detect_step lm clock ts d) \<or>
   d_j (detect_step lm clock ts d) = d_j d \<and> \<not> d_corr d \<and> d_corr (detect_step lm clock ts d)"
proof -
  have emit: "d_j d' \<le> d_j d2 \<and> (\<not> good \<longrightarrow> d_j d2 = d_j d')"
    if "emit lm now base k delta msg d' = (d2, good)" for now base k delta msg d' d2 good
    using that by (auto simp: emit_def Let_def split: prod.splits if_splits)
  show ?thesis
    unfolding detect_step_def Let_def
    by (auto split: prod.split dest!: emit)
qed

termination detect_loop
proof (relation "measure (\<lambda>(lm, clock, ts, n, d). detect_measure n d)")
  fix lm clock ts n and d :: detector
  assume "d_j d < n"
  then show "((lm, clock, ts, n, detect_step lm clock ts d), (lm, clock, ts, n, d))
      \<in> measure (\<lambda>(lm, clock, ts, n, d). detect_measure n d)"
    using detect_step_moves[of d lm clock ts] by (auto simp: detect_measure_def)
qed simp

declare detect_loop.simps [simp del]

end
