(* ===== verification/Receiver.thy ===== *)
theory Receiver
  imports Antenna UsbStream Demod
begin

text \<open>
  The receive task (\<open>main/class_driver.c\<close>): requests of other tasks, the synthetic contacts, the loop that fills a
  buffer from the sample stream, the demodulation of a full one and the tick.
\<close>

section \<open>Synthetic contacts\<close>

text \<open>The row itself is the business of the table (\<open>inject_row\<close>); the number of the next contact moves on when it got one.\<close>

definition inject_fake_aircraft :: "(rat \<Rightarrow> rat) \<Rightarrow> geo \<Rightarrow> int \<Rightarrow> receiver \<Rightarrow> receiver" where
  "inject_fake_aircraft sinf g now v =
     (let (made, t) = inject_row sinf g now (rv_seq v) (rv_tracker v)
      in v\<lparr>rv_tracker := t, rv_seq := rv_seq v + (if made then 1 else 0)\<rparr>)"

definition adsb_inject_test :: "(rat \<Rightarrow> rat) \<Rightarrow> geo \<Rightarrow> int \<Rightarrow> receiver \<Rightarrow> receiver" where
  "adsb_inject_test sinf g now v = (if rv_running v then v\<lparr>rv_inject_req := True\<rparr> else inject_fake_aircraft sinf g now v)"

section \<open>A buffer of samples\<close>

definition DEFAULT_BUF_LENGTH :: nat where
  "DEFAULT_BUF_LENGTH = 16384 * 2"

text \<open>
  The loop that fills the buffer, from what it has got, the empty reads in a row and the number of reads so far;
  \<open>feed k\<close> is what the pump does to the ring before the k-th read.
\<close>

function fill_loop :: "(nat \<Rightarrow> stream \<Rightarrow> stream) \<Rightarrow> nat \<Rightarrow> u8 list \<Rightarrow> nat \<Rightarrow> stream \<Rightarrow> u8 list \<times> stream" where
  "fill_loop feed k got stall_ticks s =
     (if DEFAULT_BUF_LENGTH \<le> length got then (got, s)
      else let (r, s) = stream_read (of_nat (DEFAULT_BUF_LENGTH - length got)) (feed k s)
           in if r \<noteq> [] then fill_loop feed (k + 1) (got @ r) 0 s
              else if 200 < stall_ticks + 1 then (got, s)
              else fill_loop feed (k + 1) got (stall_ticks + 1) s)"
  by pat_completeness auto

termination
  by (relation "measures [\<lambda>(feed, k, got, stall_ticks, s). DEFAULT_BUF_LENGTH - length got,
      \<lambda>(feed, k, got, stall_ticks, s). 200 - stall_ticks]") (auto simp: diff_less_mono2)

declare fill_loop.simps [simp del]

text \<open>
  \<open>at_end\<close> is the clock when the last sample is in, \<open>clock\<close> what the decoder reads at each sample, \<open>seen k\<close> what
  \<open>on_msg\<close> reads for the k-th message.
\<close>

definition demodulate ::
  "libm \<Rightarrow> geo \<Rightarrow> int \<Rightarrow> (nat \<Rightarrow> int) \<Rightarrow> (nat \<Rightarrow> int \<times> int) \<Rightarrow> u8 list \<Rightarrow> mode_s_t \<times> tracker \<Rightarrow> (mode_s_t \<times> tracker) option" where
  "demodulate lm g at_end clock seen source st =
     (if source = [] then Some st
      else let source = take DEFAULT_BUF_LENGTH source;
               mag = mode_s_compute_magnitude_vector source;
               base_ts_us = of_int at_end - of_nat (length mag div 2)
           in case mode_s_detect lm clock (fst st) mag base_ts_us of
                None \<Rightarrow> None
              | Some (self, mag, out) \<Rightarrow>
                  Some (self, fold (\<lambda>(k, mm). on_msg g (fst (seen k)) (snd (seen k)) mm) (enumerate 0 out) (snd st)))"

section \<open>The task\<close>

record rx =
  rx_shared :: receiver
  rx_stream :: stream
  rx_self :: mode_s_t
  rx_started :: bool
  rx_last_yield :: int
  rx_short :: "nat list"

text \<open>What a turn is given: the functions of the C library, the pump, the clocks and the answers of the USB calls.\<close>

record rx_env =
  re_libm :: libm
  re_geo :: geo
  re_sinf :: "rat \<Rightarrow> rat"
  re_feed :: "nat \<Rightarrow> stream \<Rightarrow> stream"
  re_ring_alloc :: bool
  re_queue_alloc :: bool
  re_alloc_ok :: "nat \<Rightarrow> bool"
  re_submit_ok :: "nat \<Rightarrow> bool"
  re_inject_us :: int
  re_end_us :: int
  re_clock :: "nat \<Rightarrow> int"
  re_seen :: "nat \<Rightarrow> int \<times> int"
  re_tick_us :: int

definition rx_start :: "rx_env \<Rightarrow> rx \<Rightarrow> rx" where
  "rx_start env x =
     (let (r, s) = stream_start (re_ring_alloc env) (re_queue_alloc env) (re_alloc_ok env) (re_submit_ok env) (rx_stream x)
      in x\<lparr>rx_stream := s, rx_started := r = 0\<rparr>)"

text \<open>The task up to its loop, once its buffer is allocated.\<close>

definition rx_begin :: "rx_env \<Rightarrow> rx \<Rightarrow> rx" where
  "rx_begin env x =
     (let v = rx_shared x;
          x = x\<lparr>rx_shared := v\<lparr>rv_tracker := (rv_tracker v)\<lparr>tr_tick_us := re_inject_us env\<rparr>, rv_running := True\<rparr>,
                rx_self := mode_s_init\<rparr>;
          x = rx_start env x
      in x\<lparr>rx_last_yield := re_tick_us env\<rparr>)"

definition rx_requests :: "rx_env \<Rightarrow> rx \<Rightarrow> rx" where
  "rx_requests env x =
     (let v = rx_shared x;
          v = (if rv_inject_req v then inject_fake_aircraft (re_sinf env) (re_geo env) (re_inject_us env) (v\<lparr>rv_inject_req := False\<rparr>) else v);
          v = (if rv_pos_req v then v\<lparr>rv_pos_req := False, rv_tracker := pos_apply (re_geo env) (rv_tracker v)\<rparr> else v)
      in x\<lparr>rx_shared := v\<rparr>)"

definition rx_samples :: "rx_env \<Rightarrow> rx \<Rightarrow> rx option" where
  "rx_samples env x =
     (if \<not> rx_started x then Some (rx_start env x)
      else let (buf, s) = fill_loop (re_feed env) 0 [] 0 (rx_stream x); x = x\<lparr>rx_stream := s\<rparr>
           in if DEFAULT_BUF_LENGTH \<le> length buf
              then case demodulate (re_libm env) (re_geo env) (re_end_us env) (re_clock env) (re_seen env) buf
                          (rx_self x, rv_tracker (rx_shared x)) of
                     None \<Rightarrow> None
                   | Some (self, t) \<Rightarrow> Some (x\<lparr>rx_self := self, rx_shared := (rx_shared x)\<lparr>rv_tracker := t\<rparr>\<rparr>)
              else Some (if 0 < length buf then x\<lparr>rx_short := rx_short x @ [length buf]\<rparr> else x))"

definition rx_tick :: "int \<Rightarrow> rx \<Rightarrow> rx" where
  "rx_tick now x =
     (let v = rx_shared x; self = rx_self x
      in x\<lparr>rx_shared := v\<lparr>rv_tracker := tracker_tick now (stat_goodcrc self) (stat_badcrc self) (stat_fixed self) (rv_tracker v)\<rparr>\<rparr>)"

text \<open>Without a receive task the display keeps the table's time.\<close>

definition adsb_tick :: "int \<Rightarrow> rx \<Rightarrow> rx" where
  "adsb_tick now x = (if \<not> rv_running (rx_shared x) then rx_tick now x else x)"

text \<open>One turn of the loop; the flag says whether the core is handed back for a tick.\<close>

definition rx_turn :: "rx_env \<Rightarrow> rx \<Rightarrow> (bool \<times> rx) option" where
  "rx_turn env x =
     (case rx_samples env (rx_requests env x) of
        None \<Rightarrow> None
      | Some x \<Rightarrow>
          let now = re_tick_us env; x = rx_tick now x
          in if 500000 \<le> now - rx_last_yield x then Some (True, x\<lparr>rx_last_yield := now\<rparr>) else Some (False, x))"

end
