(* ===== verification/DemodProps.thy ===== *)
theory DemodProps
  imports Demod DecodeRepair
begin

text \<open>
  Properties of the demodulator: the loop ends after a bounded number of iterations, the sample
  buffer is left as it was, what is delivered has passed the parity check and is what the
  counters count, and an undisturbed frame is demodulated to the bytes that were sent.
\<close>

section \<open>The buffer\<close>

lemma length_phase_step [simp]: "length (phase_step p mag) = length mag"
  by (simp add: phase_step_def Let_def)

lemma phase_step_other: "i \<noteq> p + 2 \<Longrightarrow> phase_step p mag ! i = mag ! i"
  by (simp add: phase_step_def Let_def)

lemma phase_fold:
  "length (fold (\<lambda>k. phase_step (q + 2 * k)) ks mag) = length mag \<and>
   (\<forall>i. (\<forall>k\<in>set ks. i \<noteq> q + 2 * k + 2) \<longrightarrow> fold (\<lambda>k. phase_step (q + 2 * k)) ks mag ! i = mag ! i)"
  by (induction ks arbitrary: mag) (simp_all add: phase_step_other)

lemma length_corrected [simp]: "length (corrected c mag j) = length mag"
  by (simp add: corrected_def apply_phase_correction_def phase_fold)

text \<open>The correction changes only samples that \<open>aux\<close> saved.\<close>

lemma corrected_outside:
  assumes "i < j + 16 \<or> j + 240 \<le> i"
  shows "corrected c mag j ! i = mag ! i"
proof -
  have "\<forall>k\<in>set [0..<MODE_S_LONG_MSG_BITS - 1]. i \<noteq> j + 16 + 2 * k + 2"
    using assms by (auto simp: MODE_S_LONG_MSG_BITS_def)
  then show ?thesis
    unfolding corrected_def apply_phase_correction_def using phase_fold[of "j + 16"] by simp
qed

lemma restore_corrected:
  assumes "j + 240 \<le> length mag"
  shows "restore c mag (corrected c mag j) j = mag"
proof (cases c)
  case True
  have "take (j + 16) (corrected c mag j) = take (j + 16) mag"
    by (rule nth_take_lemma) (use assms corrected_outside in auto)
  moreover have "drop (j + 240) (corrected c mag j) = drop (j + 240) mag"
    by (rule nth_equalityI) (use assms corrected_outside in \<open>auto simp: nth_drop\<close>)
  moreover have "take 224 (drop (j + 16) mag) @ drop (j + 240) mag = drop (j + 16) mag"
    using append_take_drop_id[of 224 "drop (j + 16) mag"] by (simp add: add.commute)
  ultimately show ?thesis
    using True append_take_drop_id[of "j + 16" mag]
    by (simp add: restore_def MODE_S_LONG_MSG_BITS_def add.commute[of 240])
qed (simp add: restore_def corrected_def)

lemma emit_mag [simp]: "d_mag (fst (emit lm now ts k delta msg d)) = d_mag d"
  by (auto simp: emit_def Let_def split: prod.split)

lemma detect_step_mag:
  assumes "d_j d + 240 \<le> length (d_mag d)"
  shows "d_mag (detect_step lm clock ts d) = d_mag d"
proof -
  have "d_mag d2 = d_mag d'" if "emit lm now base k delta msg d' = (d2, good)" for now base k delta msg d' d2 good
    using emit_mag[of lm now base k delta msg d'] that by simp
  note e = this
  show ?thesis
    unfolding detect_step_def Let_def
    by (auto simp: restore_corrected[OF assms] split: prod.split dest!: e)
qed

section \<open>The loop\<close>

text \<open>An invariant of the iterations inside the buffer holds at the end of the loop.\<close>

lemma detect_loop_invariant:
  assumes "I d" "\<And>d. I d \<Longrightarrow> d_j d < n \<Longrightarrow> I (detect_step lm clock ts d)"
  shows "I (detect_loop lm clock ts n d)"
  using assms(1)
proof (induction lm\<equiv>lm clock\<equiv>clock ts\<equiv>ts n\<equiv>n d rule: detect_loop.induct)
  case (1 d)
  then show ?case using assms(2) by (subst detect_loop.simps) simp
qed

lemma detect_loop_steps:
  "\<exists>k\<le>detect_measure n d. detect_loop lm clock ts n d = (detect_step lm clock ts ^^ k) d \<and>
     n \<le> d_j (detect_loop lm clock ts n d)"
proof (induction lm\<equiv>lm clock\<equiv>clock ts\<equiv>ts n\<equiv>n d rule: detect_loop.induct)
  case (1 d)
  show ?case
  proof (cases "d_j d < n")
    case True
    from 1[OF True] obtain k where k: "k \<le> detect_measure n (detect_step lm clock ts d)"
      "detect_loop lm clock ts n (detect_step lm clock ts d) = (detect_step lm clock ts ^^ k) (detect_step lm clock ts d)"
      "n \<le> d_j (detect_loop lm clock ts n (detect_step lm clock ts d))" by blast
    have "detect_measure n (detect_step lm clock ts d) < detect_measure n d"
      using detect_step_moves[of d lm clock ts] True by (auto simp: detect_measure_def)
    then have "Suc k \<le> detect_measure n d" using k(1) by simp
    moreover have "detect_loop lm clock ts n d = (detect_step lm clock ts ^^ Suc k) d"
      using True k(2) by (subst detect_loop.simps) (simp add: funpow_swap1)
    ultimately show ?thesis using k(3) True by (metis detect_loop.simps)
  next
    case False
    then have "detect_loop lm clock ts n d = d" by (subst detect_loop.simps) simp
    then show ?thesis using False by (intro exI[of _ 0]) simp
  qed
qed

text \<open>
  The demodulator always finishes: on a buffer of at least one frame length it stops after at
  most two iterations for every sample position, in one pass of \<open>detect_step\<close> at a time.
\<close>

theorem detect_terminates:
  assumes "MODE_S_FULL_LEN * 2 \<le> length mag"
  shows "\<exists>k d. k \<le> 2 * (length mag - MODE_S_FULL_LEN * 2) + 1 \<and>
    d = (detect_step lm clock ts ^^ k) \<lparr>d_self = self, d_mag = mag, d_j = 0, d_corr = False, d_out = []\<rparr> \<and>
    length mag - MODE_S_FULL_LEN * 2 \<le> d_j d \<and>
    mode_s_detect lm clock self mag ts = Some (d_self d, d_mag d, d_out d)"
proof -
  let ?n = "length mag - MODE_S_FULL_LEN * 2"
  let ?d = "\<lparr>d_self = self, d_mag = mag, d_j = 0, d_corr = False, d_out = []\<rparr>"
  obtain k where "k \<le> detect_measure ?n ?d" "detect_loop lm clock ts ?n ?d = (detect_step lm clock ts ^^ k) ?d"
    "?n \<le> d_j (detect_loop lm clock ts ?n ?d)"
    using detect_loop_steps by blast
  then show ?thesis
    using assms by (intro exI[of _ k] exI[of _ "detect_loop lm clock ts ?n ?d"])
      (simp add: mode_s_detect_def detect_measure_def Let_def)
qed

lemma detect_terminates_witness:
  "\<exists>k d. k \<le> 2 * (length (replicate 300 (7 :: u16)) - MODE_S_FULL_LEN * 2) + 1 \<and>
    d = (detect_step example_libm (\<lambda>_. 0) 0 ^^ k)
      \<lparr>d_self = mode_s_init, d_mag = replicate 300 7, d_j = 0, d_corr = False, d_out = []\<rparr> \<and>
    length (replicate 300 (7 :: u16)) - MODE_S_FULL_LEN * 2 \<le> d_j d \<and>
    mode_s_detect example_libm (\<lambda>_. 0) mode_s_init (replicate 300 7) 0 = Some (d_self d, d_mag d, d_out d)"
  by (rule detect_terminates) (simp add: MODE_S_FULL_LEN_def MODE_S_PREAMBLE_US_def MODE_S_LONG_MSG_BITS_def)

section \<open>What is delivered\<close>

lemma decode_settings:
  assumes "length msg = 14"
  shows "check_crc (fst (mode_s_decode lm now self msg)) = check_crc self"
    "stat_goodcrc (fst (mode_s_decode lm now self msg)) = stat_goodcrc self"
    "stat_fixed (fst (mode_s_decode lm now self msg)) = stat_fixed self"
  using assms by (auto simp: decode_state add_recently_seen_icao_addr_def Let_def split: option.split)

lemma length_pack_bits [simp]: "length (pack_bits bits) = 14"
  by (simp add: pack_bits_def MODE_S_LONG_MSG_BITS_def)

definition delivered_ok :: "mode_s_t \<Rightarrow> detector \<Rightarrow> bool" where
  "delivered_ok self d \<longleftrightarrow>
     check_crc (d_self d) = check_crc self \<and>
     (check_crc self \<longrightarrow>
        (\<forall>mm\<in>set (d_out d). crcok mm) \<and>
        stat_goodcrc (d_self d) = stat_goodcrc self + of_nat (length (d_out d)) \<and>
        stat_fixed (d_self d) = stat_fixed self + of_nat (length (filter (\<lambda>mm. errorbit mm \<noteq> -1) (d_out d))))"

lemma emit_delivered:
  assumes "delivered_ok self d" "length msg = 14"
  shows "delivered_ok self (fst (emit lm now ts k delta msg d))"
  using assms decode_settings[OF assms(2), of lm now "d_self d"]
  unfolding emit_def delivered_ok_def
  by (auto simp: Let_def split: prod.split)

lemma detect_step_delivered:
  assumes "delivered_ok self d" shows "delivered_ok self (detect_step lm clock ts d)"
proof -
  have upd: "delivered_ok self (d'\<lparr>d_j := j\<rparr>) = delivered_ok self d'"
    "delivered_ok self (d'\<lparr>d_corr := c\<rparr>) = delivered_ok self d'"
    "delivered_ok self (d'\<lparr>d_mag := m\<rparr>) = delivered_ok self d'" for d' j c m
    by (simp_all add: delivered_ok_def)
  have e: "delivered_ok self d2"
    if "emit lm now base k delta (pack_bits b) d' = (d2, good)" "delivered_ok self d'"
    for now base k delta b d' d2 good
    using emit_delivered[OF that(2), of "pack_bits b" lm now base k delta] that(1) by simp
  show ?thesis
    unfolding detect_step_def Let_def
    by (auto simp: upd assms split: prod.split intro: e)
qed

text \<open>
  C27: with \<open>check_crc\<close> set, a detection pass hands the callback only messages whose parity was
  verified, counts each of them once in \<open>stat_goodcrc\<close> and each repaired one once in \<open>stat_fixed\<close>
  (32-bit counters), and returns the sample buffer exactly as it was, phase correction included.
\<close>

theorem detect_delivers:
  assumes "mode_s_detect lm clock self mag ts = Some (self', mag', out)"
  shows "mag' = mag \<and> (check_crc self \<longrightarrow> (\<forall>mm\<in>set out. crcok mm) \<and>
    stat_goodcrc self' = stat_goodcrc self + of_nat (length out) \<and>
    stat_fixed self' = stat_fixed self + of_nat (length (filter (\<lambda>mm. errorbit mm \<noteq> -1) out)))"
proof -
  let ?n = "length mag - MODE_S_FULL_LEN * 2"
  let ?d = "\<lparr>d_self = self, d_mag = mag, d_j = 0, d_corr = False, d_out = []\<rparr>"
  have len: "MODE_S_FULL_LEN * 2 = 240"
    by (simp add: MODE_S_FULL_LEN_def MODE_S_PREAMBLE_US_def MODE_S_LONG_MSG_BITS_def)
  have d: "self' = d_self (detect_loop lm clock ts ?n ?d)" "mag' = d_mag (detect_loop lm clock ts ?n ?d)"
    "out = d_out (detect_loop lm clock ts ?n ?d)"
    using assms by (auto simp: mode_s_detect_def Let_def split: if_splits)
  have "(\<lambda>d. d_mag d = mag \<and> delivered_ok self d) (detect_loop lm clock ts ?n ?d)"
  proof (rule detect_loop_invariant)
    show "d_mag (detect_step lm clock ts d) = mag \<and> delivered_ok self (detect_step lm clock ts d)"
      if "d_mag d = mag \<and> delivered_ok self d" "d_j d < ?n" for d
      using that detect_step_mag[of d lm clock ts] detect_step_delivered[of self d lm clock ts] by (simp add: len)
  qed (simp add: delivered_ok_def)
  then show ?thesis by (simp add: d delivered_ok_def)
qed

section \<open>An undisturbed frame\<close>

text \<open>
  The samples of a frame received without noise: two samples a bit, the pulse of height \<open>A\<close> in the
  first half of a one and in the second half of a zero, after the preamble's four pulses.
\<close>

definition preamble_samples :: "u16 \<Rightarrow> u16 list" where
  "preamble_samples A = map (\<lambda>k. if k \<in> {0, 2, 7, 9 :: nat} then A else 0) [0..<16]"

definition bit_samples :: "u16 \<Rightarrow> bool \<Rightarrow> u16 list" where
  "bit_samples A b = (if b then [A, 0] else [0, A])"

definition frame_samples :: "u16 \<Rightarrow> u8 list \<Rightarrow> u16 list" where
  "frame_samples A m = preamble_samples A @ concat (map (\<lambda>k. bit_samples A (msg_bit m k)) [0..<112])"

definition frame_at :: "u16 \<Rightarrow> u8 list \<Rightarrow> u16 list \<Rightarrow> nat \<Rightarrow> bool" where
  "frame_at A m mag j \<longleftrightarrow> j + 240 \<le> length mag \<and> take 240 (drop j mag) = frame_samples A m"

lemma bit_samples_nth: "bit_samples A b ! 0 = (if b then A else 0)" "bit_samples A b ! Suc 0 = (if b then 0 else A)"
    "length (bit_samples A b) = 2"
  by (simp_all add: bit_samples_def)

lemma nth_pairs:
  "k < n \<Longrightarrow> concat (map (\<lambda>k. bit_samples A (P k)) [0..<n]) ! (2 * k) = (if P k then A else 0) \<and>
     concat (map (\<lambda>k. bit_samples A (P k)) [0..<n]) ! (2 * k + 1) = (if P k then 0 else A)"
  and length_pairs: "length (concat (map (\<lambda>k. bit_samples A (P k)) [0..<n])) = 2 * n"
proof -
  show len: "length (concat (map (\<lambda>k. bit_samples A (P k)) [0..<n])) = 2 * n" for n
    by (induction n) (auto simp: bit_samples_nth)
  show "k < n \<Longrightarrow> concat (map (\<lambda>k. bit_samples A (P k)) [0..<n]) ! (2 * k) = (if P k then A else 0) \<and>
     concat (map (\<lambda>k. bit_samples A (P k)) [0..<n]) ! (2 * k + 1) = (if P k then 0 else A)"
  proof (induction n)
    case (Suc n)
    then show ?case
      by (cases "k = n") (auto simp: nth_append len bit_samples_nth)
  qed simp
qed

lemma frame_at_nth:
  assumes "frame_at A m mag j" "i < 240"
  shows "mag ! (j + i) = frame_samples A m ! i"
proof -
  have "take 240 (drop j mag) ! i = drop j mag ! i" by (rule nth_take) (rule assms(2))
  also have "\<dots> = mag ! (j + i)" by (rule nth_drop) (use assms(1) in \<open>simp add: frame_at_def\<close>)
  finally show ?thesis using assms(1) by (simp add: frame_at_def)
qed

lemma frame_at_bit:
  assumes "frame_at A m mag j" "k < 112"
  shows "mag ! (j + 2 * k + 16) = (if msg_bit m k then A else 0)"
    "mag ! (j + 2 * k + 17) = (if msg_bit m k then 0 else A)"
proof -
  have len: "length (preamble_samples A) = 16" by (simp add: preamble_samples_def)
  have "frame_samples A m ! (16 + i) = concat (map (\<lambda>k. bit_samples A (msg_bit m k)) [0..<112]) ! i" for i
    by (simp add: frame_samples_def nth_append len)
  from this[of "2 * k"] this[of "2 * k + 1"]
  show "mag ! (j + 2 * k + 16) = (if msg_bit m k then A else 0)"
    "mag ! (j + 2 * k + 17) = (if msg_bit m k then 0 else A)"
    using frame_at_nth[OF assms(1), of "16 + 2 * k"] frame_at_nth[OF assms(1), of "17 + 2 * k"]
      nth_pairs[OF assms(2), of A "msg_bit m"] assms(2)
    by (simp_all add: ac_simps)
qed

lemma frame_at_preamble:
  assumes "frame_at A m mag j" "i < 16"
  shows "mag ! (j + i) = (if i \<in> {0, 2, 7, 9} then A else 0)"
  using frame_at_nth[OF assms(1), of i] assms(2)
  by (simp add: frame_samples_def nth_append preamble_samples_def)

lemma slice_bits_prefix:
  assumes "\<And>k bits. k < n \<Longrightarrow> slice_bit mag j bits k = f k"
  shows "fold (\<lambda>k bits. bits @ [slice_bit mag j bits k]) [0..<n] [] = map f [0..<n]"
  using assms by (induction n) auto

lemma bit_pack8:
  "bit (fold (\<lambda>b w. w OR push_bit (7 - b) (of_bool (P b))) [0..<8] (0 :: u8)) n \<longleftrightarrow> n < 8 \<and> P (7 - n)"
proof -
  have u: "[0..<8] = [0, 1, 2, 3, 4, 5, 6, 7 :: nat]" by code_simp
  show ?thesis
  proof (cases "n < 8")
    case True
    then have "n \<in> {0, 1, 2, 3, 4, 5, 6, 7}" by auto
    then show ?thesis unfolding u by (elim insertE) (auto simp: bit_or_iff bit_push_bit_iff bit_of_bool_iff)
  qed (auto dest: bit_imp_le_length)
qed

lemma pack_message:
  assumes "length m = 14"
  shows "pack_bits (map (\<lambda>k. of_bool (msg_bit m k)) [0..<112]) = m"
proof (rule nth_equalityI)
  fix i assume "i < length (pack_bits (map (\<lambda>k. of_bool (msg_bit m k)) [0..<112]))"
  then have i: "i < 14" by simp
  show "pack_bits (map (\<lambda>k. of_bool (msg_bit m k)) [0..<112]) ! i = m ! i"
  proof (rule bit_word_eqI)
    fix n assume "n < LENGTH(8)"
    then have n: "n < 8" by simp
    have "fold (\<lambda>b w. w OR push_bit (7 - b) (of_nat (map (\<lambda>k. of_bool (msg_bit m k)) [0..<112] ! (8 * i + b)))) [0..<8] (0 :: u8)
        = fold (\<lambda>b w. w OR push_bit (7 - b) (of_bool (msg_bit m (8 * i + b)))) [0..<8] 0"
      by (rule fold_cong) (use i in auto)
    then have "pack_bits (map (\<lambda>k. of_bool (msg_bit m k)) [0..<112]) ! i
        = fold (\<lambda>b w. w OR push_bit (7 - b) (of_bool (msg_bit m (8 * i + b)))) [0..<8] 0"
      using i by (simp add: pack_bits_def MODE_S_LONG_MSG_BITS_def)
    then show "bit (pack_bits (map (\<lambda>k. of_bool (msg_bit m k)) [0..<112]) ! i) n = bit (m ! i) n"
      by (simp only: bit_pack8 byte_bit_of_msg_bit[OF n] n simp_thms)
  qed
qed (simp add: assms)

text \<open>What the demodulator computes on such a window.\<close>

lemma clean_window:
  assumes "frame_at A m mag j" "1275 \<le> unat A" "length m = 14"
  shows "preamble_ok mag j" "pack_bits (slice_bits mag j) = m" "slice_errors mag j = 0"
    "0 < l \<Longrightarrow> l \<le> 14 \<Longrightarrow> avg_delta mag j l = 2 * unat A"
proof -
  let ?at = "\<lambda>k. unat (mag ! (j + k))"
  have at: "?at 0 = unat A" "?at 1 = 0" "?at 2 = unat A" "?at 3 = 0" "?at 4 = 0" "?at 5 = 0" "?at 6 = 0"
      "?at 7 = unat A" "?at 8 = 0" "?at 9 = unat A" "?at 11 = 0" "?at 12 = 0" "?at 13 = 0" "?at 14 = 0"
    by (subst frame_at_preamble[OF assms(1)]; simp)+
  show "preamble_ok mag j" unfolding preamble_ok_def Let_def at using assms(2) by simp
  have "int 1275 \<le> int (unat A)" using assms(2) by (simp only: of_nat_le_iff)
  then have big: "1275 \<le> uint A" by simp
  have diff: "\<bar>int (unat (mag ! (j + 2 * k + 16))) - int (unat (mag ! (j + 2 * k + 17)))\<bar> = int (unat A)"
    if "k < 112" for k
    by (simp add: frame_at_bit[OF assms(1) that])
  have "slice_bit mag j bits k = of_bool (msg_bit m k)" if "k < 112" for bits k
    unfolding slice_bit_def Let_def diff[OF that] frame_at_bit[OF assms(1) that] using big by (cases "k = 0") auto
  then have "slice_bits mag j = map (\<lambda>k. of_bool (msg_bit m k)) [0..<112]"
    unfolding slice_bits_def MODE_S_LONG_MSG_BITS_def by (rule slice_bits_prefix)
  then show "pack_bits (slice_bits mag j) = m" by (simp add: pack_message assms(3))
  have "mag ! (j + 2 * k + 16) \<noteq> mag ! (j + 2 * k + 17)" if "k < 56" for k
    using frame_at_bit[OF assms(1), of k] that assms(2) by auto
  then show "slice_errors mag j = 0"
    by (simp add: slice_errors_def MODE_S_SHORT_MSG_BITS_def filter_empty_conv)
  show "avg_delta mag j l = 2 * unat A" if l: "0 < l" "l \<le> 14"
  proof -
    have "map (\<lambda>k. nat \<bar>int (unat (mag ! (j + 2 * k + 16))) - int (unat (mag ! (j + 2 * k + 17)))\<bar>) [0..<l * 8]
        = map (\<lambda>_. unat A) [0..<l * 8]"
      by (rule map_cong) (use l diff in auto)
    then have "avg_delta mag j l = (l * 8 * unat A) div (l * 4)"
      unfolding avg_delta_def by (simp add: map_replicate_const sum_list_replicate)
    also have "l * 8 * unat A = 2 * unat A * (l * 4)" by simp
    also have "\<dots> div (l * 4) = 2 * unat A" using l by (intro nonzero_mult_div_cancel_right) simp
    finally show ?thesis .
  qed
qed

text \<open>The message an accepted frame at sample \<open>j\<close> is delivered as.\<close>

definition delivered :: "u64 \<Rightarrow> nat \<Rightarrow> u16 \<Rightarrow> mode_s_msg \<Rightarrow> mode_s_msg" where
  "delivered ts j A mm = mm\<lparr>timestamp_12mhz := ts * 12 + of_nat j * 6,
     signal_level := (if 0xFF00 < 2 * unat A then 255 else 2 * unat A div 256)\<rparr>"

lemma detect_step_clean:
  assumes "frame_at A m (d_mag d) (d_j d)" "1275 \<le> unat A" "length m = 14" "\<not> d_corr d"
    and "mode_s_decode lm (clock (d_j d)) (d_self d) m = (self', mm)" "crcok mm"
  shows "d_j (detect_step lm clock ts d) = d_j d + (MODE_S_PREAMBLE_US + msgbits mm) * 2 + 1 \<and>
    \<not> d_corr (detect_step lm clock ts d) \<and> d_mag (detect_step lm clock ts d) = d_mag d \<and>
    d_out (detect_step lm clock ts d) = d_out d @ [delivered ts (d_j d) A mm]"
proof -
  note w = clean_window[OF assms(1-3)]
  let ?l = "mode_s_msg_len_by_type (unat (drop_bit 3 (m ! 0))) div 8"
  have "0 < ?l" "?l \<le> 14"
    using frame_bits_cases[OF mode_s_msg_len_frame[of "unat (drop_bit 3 (m ! 0))"]] by auto
  note delta = w(4)[OF this]
  have "j + 240 \<le> length (d_mag d)" if "j = d_j d" for j using assms(1) that by (simp add: frame_at_def)
  then have same: "corrected False (d_mag d) (d_j d) = d_mag d" "restore False (d_mag d) (d_mag d) (d_j d) = d_mag d"
    by (simp_all add: corrected_def restore_def)
  show ?thesis
    unfolding detect_step_def Let_def
    using assms(2,4,5,6)
    by (simp add: w same delta emit_def Let_def delivered_def)
qed

text \<open>A sample of magnitude zero starts no preamble.\<close>

lemma skip_silence:
  assumes "\<And>i. j \<le> i \<Longrightarrow> i < e \<Longrightarrow> mag ! i = 0" "e \<le> n" "j \<le> e" "d_mag d = mag" "\<not> d_corr d" "d_j d = j"
  shows "detect_loop lm clock ts n d = detect_loop lm clock ts n (d\<lparr>d_j := e\<rparr>)"
  using assms
proof (induction "e - j" arbitrary: j d)
  case 0
  then have "d\<lparr>d_j := e\<rparr> = d" by simp
  then show ?case by simp
next
  case (Suc l)
  then have j: "j < e" "j < n" by simp_all
  have "\<not> preamble_ok mag j"
    using Suc.prems(1)[of j] j by (simp add: preamble_ok_def Let_def)
  then have "detect_step lm clock ts d = d\<lparr>d_j := j + 1\<rparr>"
    using Suc.prems by (simp add: detect_step_def Let_def)
  then have "detect_loop lm clock ts n d = detect_loop lm clock ts n (d\<lparr>d_j := j + 1\<rparr>)"
    using j Suc.prems(6) by (subst detect_loop.simps) simp
  also have "\<dots> = detect_loop lm clock ts n (d\<lparr>d_j := j + 1, d_j := e\<rparr>)"
    by (rule Suc.hyps(1)) (use Suc.hyps(2) Suc.prems j in auto)
  finally show ?case by simp
qed

lemma length_frame_samples: "length (frame_samples A m) = 240"
  using length_pairs[where n = 112 and P = "msg_bit m"] by (simp add: frame_samples_def preamble_samples_def)

lemma frame_in_silence:
  assumes "length m = 14" "1275 \<le> unat A" "0 < b"
    and "mode_s_decode lm (clock a) self m = (self', mm)" "crcok mm" "msgbits mm = 112"
  defines "mag \<equiv> replicate a 0 @ frame_samples A m @ replicate b 0"
  shows "\<exists>self''. mode_s_detect lm clock self mag ts = Some (self'', mag, [delivered ts a A mm])"
proof -
  let ?n = "length mag - MODE_S_FULL_LEN * 2"
  let ?d = "\<lparr>d_self = self, d_mag = mag, d_j = 0, d_corr = False, d_out = []\<rparr>"
  let ?L = "detect_loop lm clock ts ?n"
  have full: "MODE_S_FULL_LEN * 2 = 240"
    by (simp add: MODE_S_FULL_LEN_def MODE_S_PREAMBLE_US_def MODE_S_LONG_MSG_BITS_def)
  have n: "?n = a + b" "length mag = a + 240 + b"
    by (simp_all add: mag_def length_frame_samples full)
  have low: "mag ! i = 0" if "i < a" for i using that by (simp add: mag_def nth_append)
  have high: "mag ! i = 0" if "a + 240 \<le> i" "i < a + 240 + b" for i
  proof -
    have "\<not> i - a < 240" using that by linarith
    then show ?thesis using that by (simp add: mag_def nth_append length_frame_samples)
  qed
  have fr: "frame_at A m mag a"
    by (simp add: frame_at_def n(2)) (simp add: mag_def length_frame_samples)
  define d1 where "d1 = detect_step lm clock ts (?d\<lparr>d_j := a\<rparr>)"
  have d1: "d_j d1 = a + 241" "\<not> d_corr d1" "d_mag d1 = mag" "d_out d1 = [delivered ts a A mm]"
    using detect_step_clean[of A m "?d\<lparr>d_j := a\<rparr>" lm clock self' mm ts] fr assms
    by (simp_all add: d1_def MODE_S_PREAMBLE_US_def)
  have "?L ?d = ?L (?d\<lparr>d_j := a\<rparr>)"
    by (rule skip_silence[where j = 0 and mag = mag]) (use low n(1) in auto)
  also have "\<dots> = ?L d1"
    unfolding d1_def using assms(3) n(1) by (subst detect_loop.simps) simp
  also have "d_mag (?L d1) = mag \<and> d_out (?L d1) = [delivered ts a A mm]"
  proof (cases "a + 241 < ?n")
    case True
    have "?L d1 = ?L (d1\<lparr>d_j := ?n\<rparr>)"
      by (rule skip_silence[where j = "a + 241" and mag = mag]) (use high n(1) True d1 in auto)
    also have "\<dots> = d1\<lparr>d_j := ?n\<rparr>" by (subst detect_loop.simps) simp
    finally show ?thesis using d1 by simp
  next
    case False
    then have "?L d1 = d1" using d1 by (subst detect_loop.simps) simp
    then show ?thesis using d1 by simp
  qed
  finally have "d_mag (?L ?d) = mag \<and> d_out (?L ?d) = [delivered ts a A mm]" .
  then show ?thesis by (auto simp: mode_s_detect_def Let_def full n(2))
qed

text \<open>
  A 112-bit frame received without noise, as pulses of any height from 1275 to the full scale
  with silence before and after it, is delivered exactly once: the one message handed over is what
  the decoder makes of the bytes sent, stamped with the sample position at 6 ticks a sample.
\<close>

theorem clean_frame_delivered:
  assumes "length m = 14" "1275 \<le> unat A" "0 < b"
    and "mode_s_decode lm (clock a) self m = (self', mm)" "crcok mm" "msgbits mm = 112"
  shows "\<exists>self''. mode_s_detect lm clock self (replicate a 0 @ frame_samples A m @ replicate b 0) ts =
    Some (self'', replicate a 0 @ frame_samples A m @ replicate b 0, [delivered ts a A mm])"
  using assms by (rule frame_in_silence)

lemma sample_decodes:
  "crcok (snd (mode_s_decode example_libm t mode_s_init sample_frame))"
  "msgbits (snd (mode_s_decode example_libm t mode_s_init sample_frame)) = 112"
proof -
  have "df_of sample_frame = 17" "length sample_frame = 14" "crc_passes sample_frame 112" by code_simp+
  moreover from this have "patch_df mode_s_init (take 14 sample_frame) = (17, -1, sample_frame)"
    by (simp add: patch_none)
  note decode_header_fields[OF this]
  ultimately show "crcok (snd (mode_s_decode example_libm t mode_s_init sample_frame))"
    "msgbits (snd (mode_s_decode example_libm t mode_s_init sample_frame)) = 112"
    unfolding decode_stages addressed_def repaired_def
    by (simp_all add: decode_address_def decode_repair_def Let_def)
qed

lemma clean_frame_delivered_witness:
  "\<exists>self''. mode_s_detect example_libm (\<lambda>_. 1000) mode_s_init (replicate 50 0 @ frame_samples 5000 sample_frame @ replicate 20 0) 7 =
    Some (self'', replicate 50 0 @ frame_samples 5000 sample_frame @ replicate 20 0,
      [delivered 7 50 5000 (snd (mode_s_decode example_libm 1000 mode_s_init sample_frame))])"
  by (rule clean_frame_delivered[where self' = "fst (mode_s_decode example_libm 1000 mode_s_init sample_frame)"])
    (simp_all add: sample_decodes, code_simp)

lemma detect_delivers_witness:
  "\<exists>self' out. mode_s_detect example_libm (\<lambda>_. 1000) mode_s_init (replicate 50 0 @ frame_samples 5000 sample_frame @ replicate 20 0) 7
      = Some (self', replicate 50 0 @ frame_samples 5000 sample_frame @ replicate 20 0, out) \<and>
    length out = 1 \<and> (\<forall>mm\<in>set out. crcok mm) \<and> stat_goodcrc self' = 1"
proof -
  let ?mag = "replicate 50 0 @ frame_samples 5000 sample_frame @ replicate 20 0"
  have "\<exists>self''. mode_s_detect example_libm (\<lambda>_. 1000) mode_s_init ?mag 7 = Some (self'', ?mag,
      [delivered 7 50 5000 (snd (mode_s_decode example_libm 1000 mode_s_init sample_frame))])"
    by (rule frame_in_silence[where self' = "fst (mode_s_decode example_libm 1000 mode_s_init sample_frame)"])
      (simp_all add: sample_decodes, code_simp)
  then obtain self'' where r: "mode_s_detect example_libm (\<lambda>_. 1000) mode_s_init ?mag 7 = Some (self'', ?mag,
      [delivered 7 50 5000 (snd (mode_s_decode example_libm 1000 mode_s_init sample_frame))])" by blast
  have "check_crc mode_s_init" "stat_goodcrc mode_s_init = 0" by (simp_all add: mode_s_init_def)
  with detect_delivers[OF r] r show ?thesis by simp
qed

end
