(* ===== verification/ReceiverProps.thy ===== *)
theory ReceiverProps
  imports Receiver DemodProps
begin

text \<open>
  From the bytes of the dongle to the table of aircraft: the buffer is filled in the order of the stream, the
  magnitudes of a carrier that is keyed on and off are the pulses of the frame, and the frame that the
  demodulator finds in them is the row of its aircraft.
\<close>

section \<open>The buffer\<close>

text \<open>A pump adds to the stream and nothing else.\<close>

definition feeding :: "(nat \<Rightarrow> stream \<Rightarrow> stream) \<Rightarrow> bool" where
  "feeding feed \<longleftrightarrow> (\<forall>k s. stream_ok s \<longrightarrow>
     stream_ok (feed k s) \<and> (\<exists>p. ring_content (st_ring (feed k s)) = ring_content (st_ring s) @ p))"

lemma stream_read_length:
  assumes "stream_ok s" "stream_read m s = (r, s')"
  shows "length r = min (unat m) (length (ring_content (st_ring s)))"
proof -
  let ?r = "st_ring s" let ?a = "r_head ?r - r_tail ?r" let ?len = "if ?a < m then ?a else m"
  have a: "length (ring_content ?r) = unat ?a" by (simp add: ring_count_def)
  have "?len \<le> ?a" by (auto simp: not_less)
  then have "?a \<noteq> 0 \<Longrightarrow> r = take (unat ?len) (ring_content ?r)"
    using assms ring_copy_out_content[OF assms(1)] by (auto simp: stream_read_def Let_def)
  moreover have "?a = 0 \<Longrightarrow> r = []" using assms(2) by (simp add: stream_read_def)
  moreover have "unat ?len = min (unat m) (unat ?a)" by (auto simp: word_less_nat_alt min_def)
  ultimately show ?thesis using a by (cases "?a = 0") auto
qed

lemma buf_length_small: "unat (of_nat (DEFAULT_BUF_LENGTH - n) :: u32) = DEFAULT_BUF_LENGTH - n"
proof -
  have "unat (of_nat k :: u32) = k" if "k \<le> 32768" for k using that by (simp add: unat_of_nat)
  then show ?thesis by (simp add: DEFAULT_BUF_LENGTH_def)
qed

text \<open>What was in the stream and what came in is what the buffer got and what is left, in this order.\<close>

lemma fill_loop_order:
  assumes "feeding feed" "stream_ok s" "fill_loop feed k got stall_ticks s = (buf, s')" "length got \<le> DEFAULT_BUF_LENGTH"
  shows "stream_ok s' \<and> length buf \<le> DEFAULT_BUF_LENGTH \<and>
    (\<exists>p. got @ ring_content (st_ring s) @ p = buf @ ring_content (st_ring s')) \<and>
    (DEFAULT_BUF_LENGTH \<le> length got + length (ring_content (st_ring s)) \<longrightarrow> length buf = DEFAULT_BUF_LENGTH)"
  using assms
proof (induction feed k got stall_ticks s rule: fill_loop.induct)
  case (1 feed k got stall_ticks s)
  show ?case
  proof (cases "DEFAULT_BUF_LENGTH \<le> length got")
    case True
    then show ?thesis using "1.prems" by (auto simp: fill_loop.simps)
  next
    case False
    let ?m = "of_nat (DEFAULT_BUF_LENGTH - length got) :: u32"
    obtain r t where r: "stream_read ?m (feed k s) = (r, t)" by fastforce
    obtain p where p: "stream_ok (feed k s)" "ring_content (st_ring (feed k s)) = ring_content (st_ring s) @ p"
      using "1.prems"(1,2) by (auto simp: feeding_def)
    note read = stream_read_content[OF p(1) r]
    have len: "length r = min (DEFAULT_BUF_LENGTH - length got) (length (ring_content (st_ring (feed k s))))"
      using stream_read_length[OF p(1) r] by (simp add: buf_length_small)
    have step: "fill_loop feed k got stall_ticks s = (if r \<noteq> [] then fill_loop feed (k + 1) (got @ r) 0 t
        else if 200 < stall_ticks + 1 then (got, t) else fill_loop feed (k + 1) got (stall_ticks + 1) t)"
      using False r by (subst fill_loop.simps) simp
    have order: "got @ ring_content (st_ring s) @ p = (got @ r) @ ring_content (st_ring t)"
      using p(2) read(2) by simp
    have nil: "ring_content (st_ring s) = []" if "r = []"
    proof -
      have "length (ring_content (st_ring s)) = 0" using len that False p(2) by (auto simp: min_def split: if_splits)
      then show ?thesis by (simp only: length_0_conv)
    qed
    consider "r \<noteq> []" | "r = []" "200 < stall_ticks + 1" | "r = []" "\<not> 200 < stall_ticks + 1" by blast
    then show ?thesis
    proof cases
      case a: 1
      have le: "length (got @ r) \<le> DEFAULT_BUF_LENGTH" using len False by simp
      have "fill_loop feed (k + 1) (got @ r) 0 t = (buf, s')" using step a "1.prems"(3) by simp
      from "1.IH"(1)[OF False r[symmetric] refl a "1.prems"(1) read(1) this le] obtain q where q:
        "stream_ok s'" "length buf \<le> DEFAULT_BUF_LENGTH"
        "(got @ r) @ ring_content (st_ring t) @ q = buf @ ring_content (st_ring s')"
        "DEFAULT_BUF_LENGTH \<le> length (got @ r) + length (ring_content (st_ring t)) \<longrightarrow> length buf = DEFAULT_BUF_LENGTH"
        by blast
      have "got @ ring_content (st_ring s) @ (p @ q) = buf @ ring_content (st_ring s')"
        using order q(3) by (metis append.assoc)
      moreover have "length got + length (ring_content (st_ring s)) \<le> length (got @ r) + length (ring_content (st_ring t))"
        using arg_cong[OF order, of length] by simp
      ultimately show ?thesis using q(1,2,4) by fastforce
    next
      case b: 2
      then have "buf = got" "s' = t" using step "1.prems"(3) by auto
      moreover have "ring_content (st_ring s) = []" using b(1) by (rule nil)
      ultimately show ?thesis using read(1) order "1.prems"(4) b(1) False by fastforce
    next
      case c: 3
      have "fill_loop feed (k + 1) got (stall_ticks + 1) t = (buf, s')" using step c "1.prems"(3) by simp
      from "1.IH"(2)[OF False r[symmetric] refl _ c(2) "1.prems"(1) read(1) this "1.prems"(4)] c(1) obtain q where q:
        "stream_ok s'" "length buf \<le> DEFAULT_BUF_LENGTH"
        "got @ ring_content (st_ring t) @ q = buf @ ring_content (st_ring s')" by blast
      have "got @ ring_content (st_ring s) @ (p @ q) = buf @ ring_content (st_ring s')"
        using order q(3) c(1) by (metis append.assoc append_Nil2)
      moreover have "ring_content (st_ring s) = []" using c(1) by (rule nil)
      ultimately show ?thesis using q(1,2) False by fastforce
    qed
  qed
qed

section \<open>The signal\<close>

text \<open>The samples of a frame on a carrier of strength \<open>d\<close> that is keyed on and off, around the converter's zero.\<close>

definition iq_of :: "nat \<Rightarrow> u16 \<Rightarrow> u8 list" where
  "iq_of d s = (if s = 0 then [127, 127] else [127 + of_nat d, 127])"

definition signal :: "nat \<Rightarrow> u8 list \<Rightarrow> u8 list" where
  "signal d m = concat (map (iq_of d) (frame_samples 1 m))"

definition silence :: "nat \<Rightarrow> u8 list" where
  "silence n = concat (replicate n [127, 127])"

definition pulse :: "nat \<Rightarrow> u16" where
  "pulse d = of_nat (360 * d)"

lemma magnitude_append:
  "mode_s_compute_magnitude_vector ([a, b] @ r) =
   maglut ! (sample_abs a * 129 + sample_abs b) # mode_s_compute_magnitude_vector r"
proof -
  have "[0..<length ([a, b] @ r) div 2] = 0 # map Suc [0..<length r div 2]"
    by (simp add: map_Suc_upt upt_conv_Cons del: upt_Suc)
  then show ?thesis by (simp add: mode_s_compute_magnitude_vector_def comp_def)
qed

lemma maglut_nth:
  assumes "i < 129" "q < 129" shows "maglut ! (i * 129 + q) = maglut_entry i q"
proof -
  have len: "length (concat (map (\<lambda>i. map (\<lambda>q. maglut_entry i q) [0..<129]) [0..<n])) = n * 129" for n
    by (induction n) simp_all
  have "concat (map (\<lambda>i. map (\<lambda>q. maglut_entry i q) [0..<129]) [0..<n]) ! (i * 129 + q) = maglut_entry i q"
    if "i < n" for n
    using that
  proof (induction n)
    case (Suc n)
    then show ?case using assms(2) by (cases "i = n") (auto simp: nth_append len)
  qed simp
  then show ?thesis using assms(1) unfolding maglut_def .
qed

lemma sample_abs_values: "sample_abs 127 = 0" "d \<le> 128 \<Longrightarrow> sample_abs (127 + of_nat d) = d"
proof -
  have "unat (127 + of_nat d :: u8) = 127 + d" if "d \<le> 128" using that by (simp add: unat_word_ariths unat_of_nat)
  then show "d \<le> 128 \<Longrightarrow> sample_abs (127 + of_nat d) = d" by (simp add: sample_abs_def)
qed (simp add: sample_abs_def)

lemma maglut_entry_axis: "maglut_entry d 0 = pulse d"
proof -
  have "4 * 360 * 360 * (d * d + 0 * 0) = (720 * d) * (720 * d)" by simp
  then have "isqrt (4 * 360 * 360 * (d * d + 0 * 0)) = 720 * d" by (simp only: isqrt_square)
  moreover have "(720 * d + 1) div 2 = 360 * d" by simp
  ultimately show ?thesis by (simp only: maglut_entry_def pulse_def)
qed

lemma magnitude_iq:
  assumes "d \<le> 128"
  shows "mode_s_compute_magnitude_vector (iq_of d s @ r) = (if s = 0 then 0 else pulse d) # mode_s_compute_magnitude_vector r"
proof -
  have "maglut ! (k * 129) = pulse k" if "k \<le> 128" for k using maglut_nth[of k 0] that by (simp add: maglut_entry_axis)
  from this[of 0] this[OF assms] show ?thesis
    using assms by (simp add: iq_of_def magnitude_append[simplified] sample_abs_values pulse_def)
qed

lemma magnitude_map:
  assumes "d \<le> 128"
  shows "mode_s_compute_magnitude_vector (concat (map (iq_of d) ss) @ r) =
    map (\<lambda>s. if s = 0 then 0 else pulse d) ss @ mode_s_compute_magnitude_vector r"
  by (induction ss) (simp_all add: magnitude_iq[OF assms])

lemma frame_samples_pulses: "map (\<lambda>s. if s = 0 then 0 else A) (frame_samples 1 m) = frame_samples A m"
  by (simp add: frame_samples_def preamble_samples_def bit_samples_def map_concat comp_def if_distrib cong: if_cong)

lemma silence_iq: "silence n = concat (map (iq_of 0) (replicate n 0))"
  by (simp add: silence_def iq_of_def map_replicate_const)

lemma signal_magnitudes:
  assumes "d \<le> 128"
  shows "mode_s_compute_magnitude_vector (silence a @ signal d m @ silence b) =
    replicate a 0 @ frame_samples (pulse d) m @ replicate b 0"
proof -
  have "mode_s_compute_magnitude_vector ([] :: u8 list) = []" by (simp add: mode_s_compute_magnitude_vector_def)
  then show ?thesis
    using magnitude_map[OF assms, of "frame_samples 1 m"] magnitude_map[of 0 "replicate b 0" "[]"] magnitude_map[of 0 "replicate a 0"]
    by (simp add: signal_def silence_iq frame_samples_pulses)
qed

lemma signal_length: "length (silence a @ signal d m @ silence b) = 2 * a + 480 + 2 * b"
proof -
  have l: "length (concat (map (iq_of d) ss)) = 2 * length ss" for d ss by (induction ss) (simp_all add: iq_of_def)
  show ?thesis unfolding signal_def silence_iq by (simp only: length_append l length_frame_samples length_replicate)
qed

section \<open>The row\<close>

definition squitter_icao :: "u8 list \<Rightarrow> u32" where
  "squitter_icao m = push_bit 16 (ucast (m ! 1)) OR push_bit 8 (ucast (m ! 2)) OR ucast (m ! 3)"

lemma squitter_decoded:
  fixes lm :: libm and now :: int and self :: mode_s_t
  assumes "length m = 14" "df_of m = 17" "crc_passes m 112"
  defines "mm \<equiv> snd (mode_s_decode lm now self m)"
  shows "crcok mm" "msgbits mm = 112" "msgtype mm = 17" "msg_icao mm = squitter_icao m"
proof -
  have "patch_df self (take 14 m) = (17, -1, m)" using assms(1,2) by (simp add: patch_none)
  note h = decode_header_fields[OF this]
  have r: "repaired now self m = decode_header self m"
    unfolding repaired_def using h assms(3) by (intro repair_clean(4)) (simp_all add: frame_bits_def MODE_S_LONG_MSG_BITS_def)
  show "crcok mm" "msgbits mm = 112" "msgtype mm = 17" "msg_icao mm = squitter_icao m"
    unfolding mm_def decode_stages msg_icao_def squitter_icao_def
    by (simp_all add: addressed_def r h assms(3) decode_address_def decode_stages)
qed

lemma delivered_fields:
  "crcok (delivered ts a A mm) = crcok mm" "msgtype (delivered ts a A mm) = msgtype mm"
  "msg_icao (delivered ts a A mm) = msg_icao mm"
  by (simp_all add: delivered_def msg_icao_def)

text \<open>A tick within a minute of a row's last message keeps the row.\<close>

lemma tick_keeps_live:
  assumes "tracker_reach g t" "\<exists>!i. i < MAX_TRACKED \<and> ac_active (tr_aircraft t ! i) \<and> ac_icao (tr_aircraft t ! i) = icao"
    "\<exists>i < MAX_TRACKED. ac_icao (tr_aircraft t ! i) = icao \<and> ac_active (tr_aircraft t ! i) \<and> ac_last_seen_us (tr_aircraft t ! i) = seen"
    "now - seen \<le> 60000000"
  shows "\<exists>!i. i < MAX_TRACKED \<and> ac_active (tr_aircraft (tracker_tick now ok bad fixed t) ! i) \<and>
    ac_icao (tr_aircraft (tracker_tick now ok bad fixed t) ! i) = icao"
proof (cases "1000000 \<le> now - tr_tick_us t")
  case True
  note e = contact_expiry[OF assms(1) True]
  from assms(3) obtain i where i: "i < MAX_TRACKED" "ac_icao (tr_aircraft t ! i) = icao" "ac_active (tr_aircraft t ! i)"
    "ac_last_seen_us (tr_aircraft t ! i) = seen" by blast
  show ?thesis
  proof (rule ex1I[of _ i])
    show "i < MAX_TRACKED \<and> ac_active (tr_aircraft (tracker_tick now ok bad fixed t) ! i) \<and>
        ac_icao (tr_aircraft (tracker_tick now ok bad fixed t) ! i) = icao"
      using e[OF i(1), of ok bad fixed] i assms(4) by simp
    fix j assume "j < MAX_TRACKED \<and> ac_active (tr_aircraft (tracker_tick now ok bad fixed t) ! j) \<and>
        ac_icao (tr_aircraft (tracker_tick now ok bad fixed t) ! j) = icao"
    then have "j < MAX_TRACKED \<and> ac_active (tr_aircraft t ! j) \<and> ac_icao (tr_aircraft t ! j) = icao"
      using e[of j ok bad fixed] by simp
    then show "j = i" using assms(2) i by blast
  qed
next
  case False
  then have "tracker_tick now ok bad fixed t = t" by (simp add: tracker_tick_def)
  then show ?thesis using assms(2) by simp
qed

lemma demodulate_signal:
  assumes "length m = 14" "df_of m = 17" "crc_passes m 112" "4 \<le> d" "d \<le> 128" "0 < b" "2 * a + 480 + 2 * b = DEFAULT_BUF_LENGTH"
  shows "\<exists>self' mm. demodulate lm g at_end clock seen (silence a @ signal d m @ silence b) (self, t) =
      Some (self', on_msg g (fst (seen 0)) (snd (seen 0)) mm t) \<and>
    crcok mm \<and> msgtype mm = 17 \<and> msg_icao mm = squitter_icao m"
proof -
  define buf mag ts where "buf = silence a @ signal d m @ silence b" and
    "mag = replicate a 0 @ frame_samples (pulse d) m @ replicate b 0" and "ts = (of_int at_end - of_nat (length mag div 2) :: u64)"
  obtain self1 mm where d: "mode_s_decode lm (clock a) self m = (self1, mm)" by fastforce
  have mm: "crcok mm" "msgbits mm = 112" "msgtype mm = 17" "msg_icao mm = squitter_icao m"
    using squitter_decoded[OF assms(1-3), of lm "clock a" self] by (simp_all add: d)
  have "360 * d < 65536" using assms(5) by simp
  then have "unat (pulse d) = 360 * d" unfolding pulse_def by (simp only: unat_of_nat) simp
  then have "1275 \<le> unat (pulse d)" using assms(4) by simp
  from frame_in_silence[where clock = clock and a = a and ts = ts, OF assms(1) this assms(6) d mm(1,2)] obtain self2 where
    det: "mode_s_detect lm clock self mag ts = Some (self2, mag, [delivered ts a (pulse d) mm])"
    unfolding mag_def by blast
  have "length buf = DEFAULT_BUF_LENGTH" using signal_length[of a d m b] assms(7) by (simp only: buf_def)
  then have "take DEFAULT_BUF_LENGTH buf = buf" "buf \<noteq> []" by (auto simp: DEFAULT_BUF_LENGTH_def)
  moreover have "mode_s_compute_magnitude_vector buf = mag" using signal_magnitudes[OF assms(5)] by (simp only: buf_def mag_def)
  ultimately have "demodulate lm g at_end clock seen buf (self, t) =
      Some (self2, on_msg g (fst (seen 0)) (snd (seen 0)) (delivered ts a (pulse d) mm) t)"
    by (simp add: demodulate_def det ts_def[symmetric] Let_def)
  then show ?thesis using mm unfolding buf_def[symmetric]
    by (intro exI[of _ self2] exI[of _ "delivered ts a (pulse d) mm"]) (simp add: delivered_fields)
qed

text \<open>The requests a turn takes up first touch nothing but the table.\<close>

lemma rx_requests_frame [simp]:
  "rx_stream (rx_requests env x) = rx_stream x" "rx_self (rx_requests env x) = rx_self x"
  "rx_started (rx_requests env x) = rx_started x"
  by (simp_all add: rx_requests_def Let_def)

lemma rx_requests_reach:
  assumes "tracker_reach (re_geo env) (rv_tracker (rx_shared x))"
  shows "tracker_reach (re_geo env) (rv_tracker (rx_shared (rx_requests env x)))"
  using assms by (auto simp: rx_requests_def inject_fake_aircraft_def Let_def split_beta intro: tr_moved tr_inject)

lemma tick_no_row:
  assumes "tracker_reach g t" "find_row icao (tr_aircraft t) = None"
  shows "find_row icao (tr_aircraft (tracker_tick now ok bad fixed t)) = None"
proof (cases "1000000 \<le> now - tr_tick_us t")
  case True
  with assms contact_expiry[OF assms(1) True] show ?thesis by (auto simp: find_row_None)
qed (use assms(2) in \<open>simp add: tracker_tick_def\<close>)

text \<open>The table after a squitter and the tick that follows it.\<close>

lemma squitter_row:
  assumes "tracker_reach g t" "crcok mm" "msgtype mm = 17" "msg_icao mm = icao" "now - seen \<le> 60000000"
  shows "if find_row icao (tr_aircraft t) = None \<and> empty_row (tr_aircraft t) = None
    then find_row icao (tr_aircraft (tracker_tick now ok bad fixed (on_msg g seen ts mm t))) = None
    else \<exists>!i. i < MAX_TRACKED \<and> ac_active (tr_aircraft (tracker_tick now ok bad fixed (on_msg g seen ts mm t)) ! i) \<and>
      ac_icao (tr_aircraft (tracker_tick now ok bad fixed (on_msg g seen ts mm t)) ! i) = icao"
proof (cases "find_row icao (tr_aircraft t) = None \<and> empty_row (tr_aircraft t) = None")
  case True
  then have "tr_aircraft (on_msg g seen ts mm t) = tr_aircraft t" using assms(4) by (intro message_ignored) simp
  then show ?thesis using True tick_no_row[OF tr_msg[OF assms(1)], of icao] by simp
next
  case False
  then have room: "msgtype mm \<noteq> 18" "find_row (msg_icao mm) (tr_aircraft t) \<noteq> None \<or> empty_row (tr_aircraft t) \<noteq> None"
    using assms(3,4) by auto
  have "\<exists>!i. i < MAX_TRACKED \<and> ac_active (tr_aircraft (on_msg g seen ts mm t) ! i) \<and> ac_icao (tr_aircraft (on_msg g seen ts mm t) ! i) = icao"
    using message_row(1)[OF assms(1,2) room] by (simp only: assms(4))
  moreover have "\<exists>i<MAX_TRACKED. ac_icao (tr_aircraft (on_msg g seen ts mm t) ! i) = icao \<and>
      ac_active (tr_aircraft (on_msg g seen ts mm t) ! i) \<and> ac_last_seen_us (tr_aircraft (on_msg g seen ts mm t) ! i) = seen"
    using on_msg_row(2)[OF tracker_reach_table[OF assms(1)] assms(2) room] assms(4) by metis
  ultimately show ?thesis
    unfolding if_not_P[OF False] using assms(5) by (rule tick_keeps_live[OF tr_msg[OF assms(1)]])
qed

text \<open>
  C1: the whole receive path. The sample stream has been started, and its next buffer's worth is the undisturbed signal
  of a valid DF17 squitter, on a carrier of any strength from 4 to 128 steps, at any place in
  the buffer, with silence around it. Then one turn of the receive task takes exactly these bytes from the stream,
  whatever the pump adds in the meantime and whatever requests of other tasks the turn takes up first. If, after
  these requests, the table has a row of the sender or a free one, it ends with exactly one live row for
  the sender's address; if it has neither, the message is dropped, and the table has no row for it.
  The tick that closes the turn is taken to come at most 60 seconds after the message was seen.
\<close>

theorem squitter_reaches_table:
  assumes "ring_content (st_ring (rx_stream x)) = silence a @ signal d m @ silence b @ rest"
    and "2 * a + 480 + 2 * b = DEFAULT_BUF_LENGTH" "0 < b" "4 \<le> d" "d \<le> 128"
    and "length m = 14" "df_of m = 17" "crc_passes m 112"
    and "feeding (re_feed env)" "stream_ok (rx_stream x)" "rx_started x"
    and "tracker_reach (re_geo env) (rv_tracker (rx_shared x))"
    and "re_tick_us env - fst (re_seen env 0) \<le> 60000000"
  shows "\<exists>yield x' added. rx_turn env x = Some (yield, x') \<and> ring_content (st_ring (rx_stream x')) = rest @ added \<and>
    (let before = tr_aircraft (rv_tracker (rx_shared (rx_requests env x))); rows = tr_aircraft (rv_tracker (rx_shared x'))
     in if find_row (squitter_icao m) before = None \<and> empty_row before = None then find_row (squitter_icao m) rows = None
        else \<exists>!i. i < MAX_TRACKED \<and> ac_active (rows ! i) \<and> ac_icao (rows ! i) = squitter_icao m)"
proof -
  let ?buf = "silence a @ signal d m @ silence b" and ?y = "rx_requests env x"
  let ?t = "rv_tracker (rx_shared ?y)"
  obtain buf s where fill: "fill_loop (re_feed env) 0 [] 0 (rx_stream x) = (buf, s)" by fastforce
  have len: "length ?buf = DEFAULT_BUF_LENGTH" using signal_length[of a d m b] assms(2) by simp
  have content: "ring_content (st_ring (rx_stream x)) = ?buf @ rest" using assms(1) by simp
  have "DEFAULT_BUF_LENGTH \<le> length (?buf @ rest)" using len by simp
  then obtain added where added: "(?buf @ rest) @ added = buf @ ring_content (st_ring s)" "length buf = DEFAULT_BUF_LENGTH"
    using fill_loop_order[OF assms(9,10) fill] unfolding content by auto
  have "?buf @ (rest @ added) = buf @ ring_content (st_ring s)" using added(1) by simp
  from append_eq_append_conv[THEN iffD1, OF _ this] have buf: "buf = ?buf" "ring_content (st_ring s) = rest @ added"
    using len added(2) by simp_all
  obtain self mm where dem: "demodulate (re_libm env) (re_geo env) (re_end_us env) (re_clock env) (re_seen env) buf (rx_self x, ?t) =
      Some (self, on_msg (re_geo env) (fst (re_seen env 0)) (snd (re_seen env 0)) mm ?t)"
    and mm: "crcok mm" "msgtype mm = 17" "msg_icao mm = squitter_icao m"
    using demodulate_signal[OF assms(6-8,4,5,3,2)] unfolding buf(1) by blast
  let ?t' = "on_msg (re_geo env) (fst (re_seen env 0)) (snd (re_seen env 0)) mm ?t"
  let ?x = "?y\<lparr>rx_stream := s, rx_self := self, rx_shared := (rx_shared ?y)\<lparr>rv_tracker := ?t'\<rparr>\<rparr>"
  have "rx_samples env ?y = Some ?x"
    using assms(11) fill added(2) dem by (simp add: rx_samples_def)
  then show ?thesis
    using squitter_row[OF rx_requests_reach[OF assms(12)] mm assms(13)] buf(2)
    by (auto simp: rx_turn_def rx_tick_def Let_def simp del: split_paired_Ex)
qed

section \<open>An example\<close>

definition stream_of :: "u8 list \<Rightarrow> stream" where
  "stream_of xs = stream_example\<lparr>st_ring := \<lparr>r_buf = xs @ replicate (1048576 - length xs) 0,
     r_head = of_nat (length xs), r_tail = 0\<rparr>\<rparr>"

lemma stream_of_content:
  assumes "length xs \<le> 1048576"
  shows "stream_ok (stream_of xs)" "ring_content (st_ring (stream_of xs)) = xs"
proof -
  let ?r = "st_ring (stream_of xs)"
  have len: "length (r_buf ?r) = 1048576" using assms by (simp add: stream_of_def)
  have count: "ring_count ?r = length xs" using assms by (simp add: stream_of_def ring_count_def unat_of_nat)
  have "ring_ok ?r" using len count assms unfolding ring_ok_def by (auto simp flip: length_greater_0_conv)
  then show "stream_ok (stream_of xs)" using len by (simp add: stream_ok_def ring_size(1))
  show "ring_content ?r = xs"
  proof (rule nth_equalityI)
    fix k assume "k < length (ring_content ?r)"
    then have k: "k < length xs" using count by simp
    then show "ring_content ?r ! k = xs ! k"
      using ring_content_nth[OF \<open>ring_ok ?r\<close>, of k] count len assms by (simp add: stream_of_def nth_append)
  qed (use count in simp)
qed

definition signal_example :: "u8 list" where
  "signal_example = silence 1000 @ signal 20 sample_frame @ silence 15144"

definition rx_example :: rx where
  "rx_example = \<lparr>rx_shared = receiver_example\<lparr>rv_running := True\<rparr>, rx_stream = stream_of signal_example,
     rx_self = mode_s_init, rx_started = True, rx_last_yield = 0, rx_short = []\<rparr>"

definition rx_env_example :: rx_env where
  "rx_env_example = \<lparr>re_libm = example_libm, re_geo = geo_example, re_sinf = (\<lambda>x. 0), re_feed = (\<lambda>k s. s),
     re_ring_alloc = True, re_queue_alloc = True, re_alloc_ok = (\<lambda>k. True), re_submit_ok = (\<lambda>k. True),
     re_inject_us = 0, re_end_us = 20000, re_clock = (\<lambda>k. 0), re_seen = (\<lambda>k. (20000, 20000)), re_tick_us = 20000\<rparr>"

lemma squitter_reaches_table_witness:
  "\<exists>yield x'. rx_turn rx_env_example rx_example = Some (yield, x') \<and>
    (\<exists>!i. i < MAX_TRACKED \<and> ac_active (tr_aircraft (rv_tracker (rx_shared x')) ! i) \<and>
       ac_icao (tr_aircraft (rv_tracker (rx_shared x')) ! i) = 0x4840D6)"
proof -
  have "length signal_example = 32768" unfolding signal_example_def by (subst signal_length) simp
  then have s: "stream_ok (rx_stream rx_example)" "ring_content (st_ring (rx_stream rx_example)) = silence 1000 @ signal 20 sample_frame @ silence 15144 @ []"
    using stream_of_content[of signal_example] by (simp_all add: rx_example_def signal_example_def)
  have f: "length sample_frame = 14" "df_of sample_frame = 17" "crc_passes sample_frame 112" "squitter_icao sample_frame = 0x4840D6"
    by code_simp+
  have r: "tracker_reach (re_geo rx_env_example) (rv_tracker (rx_shared rx_example))"
    by (simp add: rx_example_def rx_env_example_def receiver_example_def tracker_example_def tr_start)
  have e: "empty_row (tr_aircraft (rv_tracker (rx_shared rx_example))) \<noteq> None"
    by (simp add: rx_example_def receiver_example_def empty_row_def find_upt_None tracker_example_def tracker_start_def
        aircraft_zero_def MAX_TRACKED_def exI[of _ 0])
  have "feeding (re_feed rx_env_example)" by (simp add: feeding_def rx_env_example_def)
  moreover have "2 * 1000 + 480 + 2 * 15144 = DEFAULT_BUF_LENGTH" "(0 :: nat) < 15144" "(4 :: nat) \<le> 20" "(20 :: nat) \<le> 128"
    "rx_started rx_example" "re_tick_us rx_env_example - fst (re_seen rx_env_example 0) \<le> 60000000"
    by (simp_all add: DEFAULT_BUF_LENGTH_def rx_example_def rx_env_example_def)
  ultimately obtain yield x' where turn: "rx_turn rx_env_example rx_example = Some (yield, x')"
    and rows: "let before = tr_aircraft (rv_tracker (rx_shared (rx_requests rx_env_example rx_example)));
        rows = tr_aircraft (rv_tracker (rx_shared x'))
      in if find_row 0x4840D6 before = None \<and> empty_row before = None then find_row 0x4840D6 rows = None
         else \<exists>!i. i < MAX_TRACKED \<and> ac_active (rows ! i) \<and> ac_icao (rows ! i) = 0x4840D6"
    using squitter_reaches_table[OF s(2) _ _ _ _ f(1-3) _ s(1) _ r] unfolding f(4) by blast
  have same: "rx_requests rx_env_example rx_example = rx_example"
    by (simp add: rx_requests_def rx_example_def receiver_example_def Let_def)
  from e rows have "\<exists>!i. i < MAX_TRACKED \<and> ac_active (tr_aircraft (rv_tracker (rx_shared x')) ! i) \<and>
      ac_icao (tr_aircraft (rv_tracker (rx_shared x')) ! i) = 0x4840D6"
    unfolding same Let_def by (simp only: if_False simp_thms)
  with turn show ?thesis by blast
qed

end
