(* ===== verification/UsbClient.thy ===== *)
theory UsbClient
  imports RtlRate NetWifi
begin

text \<open>
  The client of the USB host library (\<open>main/class_driver.c\<close>): its table of devices, the actions asked of a device,
  the task that sets a dongle up for 1090 MHz and 2 million samples a second, and the console's \<open>sdr\<close> command.
\<close>

section \<open>The table of devices\<close>

definition ACTION_OPEN_DEV :: u8 where "ACTION_OPEN_DEV = 1"
definition ACTION_GET_DEV_INFO :: u8 where "ACTION_GET_DEV_INFO = 2"
definition ACTION_GET_DEV_DESC :: u8 where "ACTION_GET_DEV_DESC = 4"
definition ACTION_GET_CONFIG_DESC :: u8 where "ACTION_GET_CONFIG_DESC = 8"
definition ACTION_GET_STR_DESC :: u8 where "ACTION_GET_STR_DESC = 16"
definition ACTION_CLOSE_DEV :: u8 where "ACTION_CLOSE_DEV = 32"

definition DEV_MAX_COUNT :: nat where
  "DEV_MAX_COUNT = 128"

datatype host_call = Device_open u8 | Device_info | Device_desc | Config_desc | Device_close "nat option"

text \<open>A handle is a number, \<open>None\<close> for \<open>NULL\<close>; \<open>ud_calls\<close> lists what the host library was asked for the device.\<close>

record usb_device =
  ud_addr :: u8
  ud_hdl :: "nat option"
  ud_actions :: u8
  ud_calls :: "host_call list"

text \<open>
  \<open>cd_setups\<close> are the addresses set-up tasks were started for, \<open>cd_receivers\<close> counts the receive tasks. A checked
  call that fails aborts the firmware; that is left out.
\<close>

record class_driver =
  cd_unhandled :: bool
  cd_shutdown :: bool
  cd_device :: "usb_device list"
  cd_setups :: "u8 list"
  cd_recover :: bool
  cd_receivers :: nat

definition ud_call :: "host_call \<Rightarrow> usb_device \<Rightarrow> usb_device" where
  "ud_call c d = d\<lparr>ud_calls := ud_calls d @ [c]\<rparr>"

definition request :: "u8 \<Rightarrow> usb_device \<Rightarrow> usb_device" where
  "request a d = d\<lparr>ud_actions := ud_actions d OR a\<rparr>"

definition action_open_dev :: "(u8 \<Rightarrow> nat) \<Rightarrow> usb_device \<Rightarrow> usb_device" where
  "action_open_dev hdl_of d =
     request ACTION_GET_DEV_INFO (ud_call (Device_open (ud_addr d)) (d\<lparr>ud_hdl := Some (hdl_of (ud_addr d))\<rparr>))"

text \<open>\<open>parent\<close>: the device hangs off a hub, whose description is asked for as well.\<close>

definition action_get_info :: "bool \<Rightarrow> usb_device \<Rightarrow> usb_device" where
  "action_get_info parent d =
     request ACTION_GET_DEV_DESC ((if parent then ud_call Device_info else id) (ud_call Device_info d))"

definition action_get_dev_desc :: "usb_device \<Rightarrow> usb_device" where
  "action_get_dev_desc d = request ACTION_GET_CONFIG_DESC (ud_call Device_desc d)"

definition action_get_config_desc :: "usb_device \<Rightarrow> usb_device" where
  "action_get_config_desc d = request ACTION_GET_STR_DESC (ud_call Config_desc d)"

definition action_get_str_desc :: "usb_device \<Rightarrow> usb_device" where
  "action_get_str_desc d = ud_call Device_info d"

definition action_close_dev :: "usb_device \<Rightarrow> usb_device" where
  "action_close_dev d = (ud_call (Device_close (ud_hdl d)) d)\<lparr>ud_hdl := None, ud_addr := 0\<rparr>"

definition device_round :: "(u8 \<Rightarrow> nat) \<Rightarrow> bool \<Rightarrow> usb_device \<Rightarrow> usb_device" where
  "device_round hdl_of parent d =
     (let actions = ud_actions d; d = d\<lparr>ud_actions := 0\<rparr>;
          d = (if actions AND ACTION_OPEN_DEV \<noteq> 0 then action_open_dev hdl_of d else d);
          d = (if actions AND ACTION_GET_DEV_INFO \<noteq> 0 then action_get_info parent d else d);
          d = (if actions AND ACTION_GET_DEV_DESC \<noteq> 0 then action_get_dev_desc d else d);
          d = (if actions AND ACTION_GET_CONFIG_DESC \<noteq> 0 then action_get_config_desc d else d);
          d = (if actions AND ACTION_GET_STR_DESC \<noteq> 0 then action_get_str_desc d else d)
      in if actions AND ACTION_CLOSE_DEV \<noteq> 0 then action_close_dev d else d)"

text \<open>A round asks for nothing but the successors of what it was asked, so the loop ends with the last of them.\<close>

definition successors :: "u8 \<Rightarrow> u8" where
  "successors a = (((if a AND 1 \<noteq> 0 then 2 else 0) OR (if a AND 2 \<noteq> 0 then 4 else 0)) OR
     (if a AND 4 \<noteq> 0 then 8 else 0)) OR (if a AND 8 \<noteq> 0 then 16 else 0)"

definition action_rank :: "u8 \<Rightarrow> nat" where
  "action_rank a = (if a AND 1 \<noteq> 0 then 6 else if a AND 2 \<noteq> 0 then 5 else if a AND 4 \<noteq> 0 then 4
     else if a AND 8 \<noteq> 0 then 3 else if a AND 16 \<noteq> 0 then 2 else if a \<noteq> 0 then 1 else 0)"

lemmas action_bits = ACTION_OPEN_DEV_def ACTION_GET_DEV_INFO_def ACTION_GET_DEV_DESC_def ACTION_GET_CONFIG_DESC_def
  ACTION_GET_STR_DESC_def ACTION_CLOSE_DEV_def

lemmas action_defs = action_open_dev_def action_get_info_def action_get_dev_desc_def action_get_config_desc_def
  action_get_str_desc_def action_close_dev_def request_def ud_call_def

lemma round_actions: "ud_actions (device_round hdl_of parent d) = successors (ud_actions d)"
  by (simp add: device_round_def successors_def action_bits action_defs Let_def)

lemma action_rank_decreases: "a \<noteq> 0 \<Longrightarrow> action_rank (successors a) < action_rank a"
  by (cases "a AND 1 = 0"; cases "a AND 2 = 0"; cases "a AND 4 = 0"; cases "a AND 8 = 0"; cases "a AND 16 = 0")
     (simp_all add: successors_def action_rank_def)

function class_driver_device_handle :: "(u8 \<Rightarrow> nat) \<Rightarrow> bool \<Rightarrow> usb_device \<Rightarrow> usb_device" where
  "class_driver_device_handle hdl_of parent d =
     (if ud_actions d \<noteq> 0 then class_driver_device_handle hdl_of parent (device_round hdl_of parent d) else d)"
  by pat_completeness auto

termination
  by (relation "measure (\<lambda>(hdl_of, parent, d). action_rank (ud_actions d))") (auto simp: round_actions action_rank_decreases)

declare class_driver_device_handle.simps [simp del]

datatype client_event = New_dev u8 | Dev_gone nat

primrec client_event_cb :: "client_event \<Rightarrow> class_driver \<Rightarrow> class_driver" where
  "client_event_cb (New_dev addr) c =
     c\<lparr>cd_device := (cd_device c)[unat addr := (cd_device c ! unat addr)\<lparr>ud_addr := addr\<rparr>], cd_setups := cd_setups c @ [addr]\<rparr>"
| "client_event_cb (Dev_gone hdl) c =
     c\<lparr>cd_device := map (\<lambda>d. if ud_hdl d = Some hdl then d\<lparr>ud_actions := ACTION_CLOSE_DEV\<rparr> else d) (cd_device c),
       cd_unhandled := cd_unhandled c \<or> (\<exists>d\<in>set (cd_device c). ud_hdl d = Some hdl)\<rparr>"

definition class_driver_start :: class_driver where
  "class_driver_start = \<lparr>cd_unhandled = False, cd_shutdown = False,
     cd_device = replicate DEV_MAX_COUNT \<lparr>ud_addr = 0, ud_hdl = None, ud_actions = 0, ud_calls = []\<rparr>,
     cd_setups = [], cd_recover = False, cd_receivers = 0\<rparr>"

text \<open>A turn of the task's loop, with the events it waits for; none when the loop is left.\<close>

definition class_driver_turn :: "(u8 \<Rightarrow> nat) \<Rightarrow> bool \<Rightarrow> client_event list \<Rightarrow> class_driver \<Rightarrow> class_driver option" where
  "class_driver_turn hdl_of parent evs c =
     (if cd_unhandled c
      then Some (c\<lparr>cd_device := map (\<lambda>d. if ud_actions d \<noteq> 0 then class_driver_device_handle hdl_of parent d else d) (cd_device c),
                   cd_unhandled := False\<rparr>)
      else if \<not> cd_shutdown c then Some (fold client_event_cb evs c)
      else None)"

definition class_driver_client_deregister :: "class_driver \<Rightarrow> class_driver" where
  "class_driver_client_deregister c =
     c\<lparr>cd_device := map (\<lambda>d. if ud_hdl d \<noteq> None then request ACTION_CLOSE_DEV d else d) (cd_device c),
       cd_unhandled := cd_unhandled c \<or> (\<exists>d\<in>set (cd_device c). ud_hdl d \<noteq> None), cd_shutdown := True\<rparr>"

section \<open>Setting a dongle up\<close>

text \<open>What the set-up task does with the device.\<close>

definition setup_device :: "int io" where
  "setup_device = do {
     r \<leftarrow> rtlsdr_open;
     if r < 0 then ret r
     else do {
       _ \<leftarrow> rtlsdr_set_center_freq 1090000000;
       _ \<leftarrow> rtlsdr_set_sample_rate 2000000;
       _ \<leftarrow> rtlsdr_set_tuner_gain_mode False;
       _ \<leftarrow> rtlsdr_reset_buffer;
       ret 0
     }
   }"

text \<open>And with the tasks: the one that recovers the pipe is started once, the receive task every time.\<close>

definition rtlsdr_setup_task :: "int \<Rightarrow> class_driver \<Rightarrow> class_driver" where
  "rtlsdr_setup_task r c = (if r < 0 then c else c\<lparr>cd_recover := True, cd_receivers := cd_receivers c + 1\<rparr>)"

text \<open>
  The command: its result and whether the gain is set by hand. \<open>atof\<close> and \<open>strtoul\<close> are the C library's; without
  arguments it only reports.
\<close>

definition cmd_sdr :: "(string \<Rightarrow> rat) \<Rightarrow> (string \<Rightarrow> u32) \<Rightarrow> bool \<Rightarrow> string list \<Rightarrow> bool \<Rightarrow> (int \<times> bool) io" where
  "cmd_sdr atof strtoul opened argv manual =
     (if \<not> opened then ret (ESP_ERR_INVALID_STATE, manual)
      else if length argv = 1 then ret (0, manual)
      else if argv ! 1 = ''gain'' \<and> length argv = 3 then
        if argv ! 2 = ''auto'' then do {
          r \<leftarrow> rtlsdr_set_tuner_gain_mode False;
          ret (if r = 0 then 0 else - 1, if r = 0 then False else manual)
        }
        else do {
          _ \<leftarrow> rtlsdr_set_tuner_gain_mode True;
          r \<leftarrow> rtlsdr_set_tuner_gain (trunc (dbl (atof (argv ! 2) * 10)));
          ret (if r = 0 then 0 else - 1, if r = 0 then True else manual)
        }
      else if argv ! 1 = ''freq'' \<and> length argv = 3 then do {
        r \<leftarrow> rtlsdr_set_center_freq (strtoul (argv ! 2));
        ret (if r = 0 then 0 else - 1, manual)
      }
      else ret (0x102, manual))"

section \<open>Nothing is ever closed\<close>

definition untouched :: "class_driver \<Rightarrow> bool" where
  "untouched c \<longleftrightarrow> \<not> cd_unhandled c \<and> \<not> cd_shutdown c \<and> length (cd_device c) = DEV_MAX_COUNT \<and>
     (\<forall>d\<in>set (cd_device c). ud_hdl d = None \<and> ud_actions d = 0 \<and> ud_calls d = [])"

lemma untouched_start: "untouched class_driver_start"
  by (simp add: untouched_def class_driver_start_def)

lemma untouched_setup [simp]: "untouched (rtlsdr_setup_task r c) = untouched c"
  by (simp add: untouched_def rtlsdr_setup_task_def)

lemma untouched_event:
  assumes "untouched c" "\<forall>a. e = New_dev a \<longrightarrow> unat a < DEV_MAX_COUNT"
  shows "untouched (client_event_cb e c)" "cd_receivers (client_event_cb e c) = cd_receivers c"
proof -
  show "untouched (client_event_cb e c)"
  proof (cases e)
    case (New_dev a)
    then have "cd_device c ! unat a \<in> set (cd_device c)" using assms by (simp add: untouched_def)
    then show ?thesis
      using assms(1) New_dev by (auto simp: untouched_def dest!: set_update_subset_insert[THEN subsetD])
  qed (use assms(1) in \<open>auto simp: untouched_def\<close>)
  show "cd_receivers (client_event_cb e c) = cd_receivers c" by (cases e) simp_all
qed

text \<open>
  No device of the table ever gets a handle, since nothing asks for \<open>ACTION_OPEN_DEV\<close>: the host library is asked
  neither to open nor to close one for it, and each dongle that is set up gets a receive task of its own, also when it is
  the same one plugged in again.
\<close>

lemma untouched_turn:
  assumes "untouched c" "\<forall>a. New_dev a \<in> set evs \<longrightarrow> unat a < DEV_MAX_COUNT"
  shows "\<exists>c'. class_driver_turn hdl_of parent evs c = Some c' \<and> untouched c' \<and> cd_receivers c' = cd_receivers c"
proof -
  have "untouched (fold client_event_cb evs c) \<and> cd_receivers (fold client_event_cb evs c) = cd_receivers c"
    using assms
  proof (induction evs arbitrary: c)
    case (Cons e evs)
    then show ?case using untouched_event[of c e] by simp
  qed simp
  then show ?thesis using assms(1) by (simp add: class_driver_turn_def untouched_def)
qed

lemma replug_second_receiver:
  "\<exists>c1 c2. class_driver_turn hdl_of parent [New_dev 1] class_driver_start = Some c1 \<and>
    class_driver_turn hdl_of parent [Dev_gone h, New_dev 2] (rtlsdr_setup_task 0 c1) = Some c2 \<and>
    cd_receivers (rtlsdr_setup_task 0 c2) = 2 \<and> untouched c2"
proof -
  obtain c1 where c1: "class_driver_turn hdl_of parent [New_dev 1] class_driver_start = Some c1" "untouched c1"
    "cd_receivers c1 = 0"
    using untouched_turn[OF untouched_start, of "[New_dev 1]" hdl_of parent] by (auto simp: DEV_MAX_COUNT_def class_driver_start_def)
  have "untouched (rtlsdr_setup_task 0 c1)" using c1(2) by simp
  from untouched_turn[OF this, of "[Dev_gone h, New_dev 2]" hdl_of parent]
  obtain c2 where c2: "class_driver_turn hdl_of parent [Dev_gone h, New_dev 2] (rtlsdr_setup_task 0 c1) = Some c2"
    "untouched c2" "cd_receivers c2 = 1"
    using c1(3) by (auto simp: DEV_MAX_COUNT_def rtlsdr_setup_task_def)
  show ?thesis using c1 c2 by (intro exI[of _ c1] exI[of _ c2]) (simp add: rtlsdr_setup_task_def)
qed

section \<open>The rate a dongle is set up with\<close>

interpretation xtal_frame: io_frame "\<lambda>s. rt_rtl_xtal s = 28800000"
  by unfold_locales simp_all

interpretation xtal_tuner: tuner_frame "\<lambda>s. rt_rtl_xtal s = 28800000"
  by unfold_locales (auto simp: upd_priv_def upd_cfg_def intro!: moves_modify xtal_frame.keeps_start xtal_frame.keeps_write)

text \<open>From its second step on \<open>rtlsdr_open\<close> leaves the nominal frequency of the crystal alone.\<close>

lemma open_sets_crystal: "moves P rtlsdr_open (\<lambda>s. rt_rtl_xtal s = 28800000)"
proof -
  let ?I = "\<lambda>s. rt_rtl_xtal s = (28800000 :: u32)"
  have rest: "keeps ?I (do {
     rtlsdr_init_baseband;
     modify (\<lambda>s. s\<lparr>rt_dev_lost := False\<rparr>);
     rtlsdr_set_i2c_repeater 1;
     type \<leftarrow> probe_tuner;
     modify (\<lambda>s. s\<lparr>rt_tuner_type := type, rt_tun_xtal := rt_rtl_xtal s, rt_tuner := Some type\<rparr>);
     open_setup type;
     (case tuner_init type of None \<Rightarrow> ret () | Some f \<Rightarrow> do { _ \<leftarrow> f; ret () });
     rtlsdr_set_i2c_repeater 0;
     ret 0
   })"
    unfolding tuner_init_def
    by (intro xtal_tuner.op_baseband xtal_frame.keeps_repeater xtal_tuner.op_probe xtal_tuner.keeps_open_setup moves_modify keeps_intros;
        auto split: if_splits intro: xtal_tuner.tuner_start)
  show ?thesis
    unfolding rtlsdr_open_def
    by (rule ignore_first, rule moves_bind[where Q = ?I], rule moves_modify, simp, rule rest)
qed

lemma moves_bind_value:
  assumes "\<And>s. fst (run_state f s) = x" "moves P f Q" "moves Q (g x) R" shows "moves P (State_Monad.bind f g) R"
  using assms unfolding moves_def by (simp add: split_beta)

lemma open_succeeds: "fst (run_state rtlsdr_open s) = 0"
  by (simp add: rtlsdr_open_def split_beta)

text \<open>
  C17: a dongle that was set up delivers what the demodulator counts on. Whatever state it was found in and whatever
  its transfers answer, after the set-up task the library reports two million samples a second, both
  halves of the resampler's ratio for it went out to the chip, and the rate the chip makes of that ratio
  is within half a hertz.
\<close>

theorem setup_sets_rate:
  "let s' = snd (run_state setup_device s); ratio = rsamp_ratio 28800000 2000000
   in rt_rate s' = 2000000 \<and>
     sent 0x9f20 0x11 (reg_bytes (ucast (drop_bit 16 ratio)) 2) s' \<and>
     sent 0xa120 0x11 (reg_bytes (ucast (ratio AND 0xffff)) 2) s' \<and>
     \<bar>real_rate 28800000 (real_rsamp_ratio ratio) - 2000000\<bar> \<le> 1 / 2"
proof -
  let ?X = "\<lambda>s. rt_rtl_xtal s = (28800000 :: u32)" and ?ratio = "rsamp_ratio 28800000 2000000 :: u32"
  let ?hi = "sent 0x9f20 0x11 (reg_bytes (ucast (drop_bit 16 ?ratio)) 2)"
  let ?lo = "sent 0xa120 0x11 (reg_bytes (ucast (?ratio AND 0xffff)) 2)"
  let ?set = "rtlsdr_set_sample_rate 2000000"
  have ok: "rate_supported 2000000" by (simp add: rate_supported_def)
  have set: "moves ?X ?set (\<lambda>s. rt_rate s = 2000000)" "moves ?X ?set ?hi" "moves ?X ?set ?lo"
    using sample_rate_programmed[of _ 2000000] ok by (simp_all add: moves_def Let_def)
  have task: "moves (\<lambda>_. True) setup_device R"
    if "moves ?X ?set R" "keeps R (rtlsdr_set_tuner_gain_mode False)" "keeps R rtlsdr_reset_buffer" for R
    unfolding setup_device_def
    by (rule moves_bind_value[OF open_succeeds open_sets_crystal], simp, rule moves_bind[OF xtal_frame.keeps_center],
        rule moves_bind[OF that(1)]) (intro that(2,3) keeps_intros)
  have "\<bar>real_rate 28800000 (real_rsamp_ratio ?ratio) - 2000000\<bar> \<le> 1 / 2"
    using sample_rate_programmed[of "(rtl_zero undefined undefined)\<lparr>rt_rtl_xtal := 28800000\<rparr>" 2000000] ok by (simp add: Let_def)
  then show ?thesis
    using task[OF set(1) rate_frame.keeps_mode_gain rate_frame.keeps_buffer_reset]
      task[OF set(2) sent_frame.keeps_mode_gain sent_frame.keeps_buffer_reset]
      task[OF set(3) sent_frame.keeps_mode_gain sent_frame.keeps_buffer_reset]
    by (simp add: moves_def Let_def)
qed

end
