(* ===== verification/ScreenKeys.thy ===== *)
theory ScreenKeys
  imports Screen Fp
begin

text \<open>
  The keys of the two displays: \<open>tui_key\<close> of \<open>main/tui.c\<close> with the escape sequences it folds onto letters,
  the moving of the map, and \<open>top_key\<close> of \<open>main/top.c\<close>.
\<close>

section \<open>What the keys of the aircraft display change\<close>

record tui_view =
  tv_rows :: int
  tv_sort :: nat
  tv_range :: nat
  tv_pan_e :: rat
  tv_pan_n :: rat
  tv_map_rows :: int
  tv_esc :: nat
  tv_muted :: bool
  tv_volume :: int
  tv_injected :: nat

definition RANGES_KM :: "int list" where
  "RANGES_KM = [20, 50, 100, 150]"

definition SORT_COUNT :: nat where
  "SORT_COUNT = 4"

definition MAP_W :: nat where
  "MAP_W = 85"

definition MAP_MIN_ROWS :: int where
  "MAP_MIN_ROWS = 21"

definition MAP_ASPECT :: rat where
  "MAP_ASPECT = flt (22 / 10)"

text \<open>East-west and north-south half of the box the map data covers.\<close>

definition map_extent :: "rat \<times> rat" where
  "map_extent = (450, 300)"

definition adsb_set_volume :: "int \<Rightarrow> tui_view \<Rightarrow> tui_view" where
  "adsb_set_volume pct v = v\<lparr>tv_volume := if pct < 0 then 0 else if 100 < pct then 100 else pct\<rparr>"

definition pan :: "int \<Rightarrow> int \<Rightarrow> tui_view \<Rightarrow> tui_view" where
  "pan dx dy v =
     (let rows = (if tv_map_rows v \<noteq> 0 then tv_map_rows v else MAP_MIN_ROWS);
          km_row = flt (of_int (RANGES_KM ! tv_range v) / of_int (rows div 2));
          km_col = flt (km_row / MAP_ASPECT);
          (ew, ns) = map_extent
      in v\<lparr>tv_pan_e := min ew (max (- ew) (flt (tv_pan_e v + flt (flt (flt (of_int dx * of_nat MAP_W) * km_col) / 8)))),
           tv_pan_n := min ns (max (- ns) (flt (tv_pan_n v + flt (flt (flt (of_int dy * of_int rows) * km_row) / 8))))\<rparr>)"

text \<open>The letter an arrow key stands for, once its two leading bytes have been seen.\<close>

definition arrow_key :: "u8 \<Rightarrow> u8 option" where
  "arrow_key key =
     (if key = 0x41 then Some 0x6b else if key = 0x42 then Some 0x6a else if key = 0x43 then Some 0x6c
      else if key = 0x44 then Some 0x68 else if key = 0x48 then Some 0x63 else None)"

text \<open>The second switch: the new view, and whether the display is to be painted at once.\<close>

definition tui_command :: "u8 \<Rightarrow> tui_view \<Rightarrow> bool \<times> tui_view" where
  "tui_command key v =
     (if key = 0x1b then (False, v\<lparr>tv_esc := 1\<rparr>)
      else if key \<in> {0x73, 0x53} then (True, v\<lparr>tv_sort := (tv_sort v + 1) mod SORT_COUNT\<rparr>)
      else if key \<in> {0x3c, 0x2c, 0x5b} then (True, if 0 < tv_range v then v\<lparr>tv_range := tv_range v - 1\<rparr> else v)
      else if key \<in> {0x3e, 0x2e, 0x5d}
        then (True, if tv_range v < length RANGES_KM - 1 then v\<lparr>tv_range := tv_range v + 1\<rparr> else v)
      else if key \<in> {0x68, 0x48} then (True, pan (- 1) 0 v)
      else if key \<in> {0x6c, 0x4c} then (True, pan 1 0 v)
      else if key \<in> {0x6b, 0x4b} then (True, pan 0 1 v)
      else if key \<in> {0x6a, 0x4a} then (True, pan 0 (- 1) v)
      else if key \<in> {0x63, 0x43} then (True, v\<lparr>tv_pan_e := 0, tv_pan_n := 0\<rparr>)
      else if key \<in> {0x6d, 0x4d} then (True, v\<lparr>tv_muted := \<not> tv_muted v\<rparr>)
      else if key \<in> {0x2b, 0x3d} then (True, adsb_set_volume (tv_volume v + 10) v)
      else if key \<in> {0x2d, 0x5f} then (True, adsb_set_volume (tv_volume v - 10) v)
      else if key \<in> {0x74, 0x54} then (False, v\<lparr>tv_injected := tv_injected v + 1\<rparr>)
      else (False, v))"

definition tui_key :: "u8 \<Rightarrow> tui_view \<Rightarrow> bool \<times> tui_view" where
  "tui_key key v =
     (if tv_esc v = 1 then
        let v = v\<lparr>tv_esc := if key = 0x5b \<or> key = 0x4f then 2 else 0\<rparr>
        in if tv_esc v \<noteq> 0 then (False, v) else tui_command key v
      else if tv_esc v = 2 then
        case arrow_key key of None \<Rightarrow> (False, v\<lparr>tv_esc := 0\<rparr>) | Some k \<Rightarrow> tui_command k (v\<lparr>tv_esc := 0\<rparr>)
      else tui_command key v)"

section \<open>The keys of the monitor\<close>

definition TOP_MIN_S :: u32 where
  "TOP_MIN_S = 1"

definition TOP_MAX_S :: u32 where
  "TOP_MAX_S = 60"

definition top_key :: "u8 \<Rightarrow> display \<Rightarrow> display" where
  "top_key key d =
     (if key \<notin> {0x2b, 0x3d, 0x2d, 0x5f} then d
      else let s = screen_period SCREEN_TOP d div 1000;
               s = (if key \<in> {0x2b, 0x3d} then s + 1 else s - 1);
               s = (if s < TOP_MIN_S then TOP_MIN_S else s);
               s = (if TOP_MAX_S < s then TOP_MAX_S else s)
           in screen_wake SCREEN_TOP (screen_set_period SCREEN_TOP (s * 1000) d))"

text \<open>A key goes to the display it was typed at, if that is registered.\<close>

definition screen_key :: "screen_id \<Rightarrow> u8 \<Rightarrow> tui_view \<times> display \<Rightarrow> tui_view \<times> display" where
  "screen_key i key vd =
     (case vd of (v, d) \<Rightarrow>
        if \<not> valid_screen i \<or> \<not> sn_draw (sc_screens d i) then (v, d)
        else if i = SCREEN_TUI
        then (case tui_key key v of (wake, v) \<Rightarrow> (v, if wake then screen_wake SCREEN_TUI d else d))
        else (v, top_key key d))"

section \<open>The view stays within its tables and the map\<close>

definition view_ok :: "tui_view \<Rightarrow> bool" where
  "view_ok v \<longleftrightarrow> tv_range v < length RANGES_KM \<and> tv_sort v < SORT_COUNT \<and> tv_esc v \<le> 2 \<and>
     0 \<le> tv_volume v \<and> tv_volume v \<le> 100 \<and>
     \<bar>tv_pan_e v\<bar> \<le> fst map_extent \<and> \<bar>tv_pan_n v\<bar> \<le> snd map_extent"

lemma clamped: "0 \<le> b \<Longrightarrow> \<bar>min b (max (- b) x)\<bar> \<le> (b :: rat)"
  by (auto simp: abs_le_iff min_def max_def)

lemma pan_ok [intro]: "view_ok v \<Longrightarrow> view_ok (pan dx dy v)"
  by (simp add: view_ok_def pan_def map_extent_def Let_def clamped)

lemma volume_ok [intro]: "view_ok v \<Longrightarrow> view_ok (adsb_set_volume pct v)"
  by (simp add: view_ok_def adsb_set_volume_def)

lemma tui_command_ok: "view_ok v \<Longrightarrow> view_ok (snd (tui_command key v))"
  unfolding tui_command_def by (simp add: pan_ok volume_ok) (auto simp: view_ok_def SORT_COUNT_def map_extent_def)

lemma tui_key_ok: "view_ok v \<Longrightarrow> view_ok (snd (tui_key key v))"
proof -
  assume v: "view_ok v"
  have "view_ok (v\<lparr>tv_esc := n\<rparr>)" if "n \<le> 2" for n using v that by (simp add: view_ok_def)
  then show ?thesis using v by (auto simp: tui_key_def Let_def split: option.splits intro!: tui_command_ok)
qed

lemma screen_key_frame:
  assumes "screen_key i key (v, d) = (v', d')"
  shows "sc_sinks d' = sc_sinks d" "sc_printed d' = sc_printed d" "sc_stdout d' = sc_stdout d" "sc_sent d' = sc_sent d"
    "view_ok v \<Longrightarrow> view_ok v'"
  using assms tui_key_ok[of v key]
  by (auto simp: screen_key_def top_key_def screen_wake_def screen_set_period_def Let_def split: if_splits prod.splits)

end
