(* ===== verification/Shell.thy ===== *)
theory Shell
  imports ScreenKeys EventLog
begin

text \<open>
  The console of \<open>main/shell.c\<close>: one line buffer and one \<open>stdout\<close>, owned by the serial port or by an SSH session,
  and a display in front of either. The bytes a line edit prints, the commands that move a display or
  the ownership, the task that reads the serial port and the calls of the SSH transport.
\<close>

section \<open>State\<close>

datatype owner = OWNER_NONE | OWNER_UART | OWNER_SSH

definition SHELL_LINE_MAX :: nat where
  "SHELL_LINE_MAX = 160"

text \<open>
  \<open>co_line\<close> is the used part of \<open>s_line\<close>, \<open>co_noted\<close> what was written straight to the serial port, \<open>co_pushed\<close> what
  \<open>net_ssh_write_now\<close> was given, \<open>co_pty\<close> the columns and rows of the session's terminal, \<open>co_log\<close> the event
  log of \<open>main/class_driver.c\<close> with its echo level.
\<close>

record console =
  co_owner :: owner
  co_fg_uart :: screen_id
  co_fg_ssh :: screen_id
  co_ready :: bool
  co_remote_quit :: bool
  co_running :: bool
  co_clear_pending :: bool
  co_line :: "u8 list"
  co_display :: display
  co_view :: tui_view
  co_top_rows :: int
  co_pty :: "int \<times> int"
  co_noted :: "u8 list"
  co_pushed :: "u8 list"
  co_log :: event_log

text \<open>
  What \<open>esp_console_run\<close> makes of a line: no such command, an empty line, a failure of the console itself, or a
  call of the handler registered under the first of the arguments.
\<close>

datatype run_answer = Not_found | Empty_line | Console_error int | Calls "string list"

text \<open>Lines whose text has values formatted into it.\<close>

datatype report = Too_narrow screen_id int int | Entering string | Console_failed int | Returned int

text \<open>
  \<open>ce_other\<close> answers for the handlers that only report, \<open>ce_injected\<close> gives the lines (colour and text) that
  \<open>air_log\<close> is given for the n-th synthetic contact asked for, none when the receive task takes the request over.
\<close>

record console_env =
  ce_run :: "u8 list \<Rightarrow> run_answer"
  ce_other :: "string list \<Rightarrow> int \<times> u8 list"
  ce_text :: "report \<Rightarrow> u8 list"
  ce_injected :: "nat \<Rightarrow> (nat \<times> string) list"

definition ESP_OK :: int where "ESP_OK = 0"
definition ESP_ERR_NO_MEM :: int where "ESP_ERR_NO_MEM = 0x101"
definition ESP_ERR_INVALID_ARG :: int where "ESP_ERR_INVALID_ARG = 0x102"

definition prompt :: "u8 list" where
  "prompt = ascii ''p4> ''"

definition wipe_line :: "u8 list" where
  "wipe_line = [13, 27] @ ascii ''[K''"

definition say :: "u8 list \<Rightarrow> console \<Rightarrow> console" where
  "say t c = c\<lparr>co_display := screen_print t (co_display c)\<rparr>"

definition shell_screen_foreground :: "console \<Rightarrow> bool" where
  "shell_screen_foreground c \<longleftrightarrow>
     (if co_owner c = OWNER_SSH then co_fg_ssh c \<noteq> SCREEN_NONE else co_fg_uart c \<noteq> SCREEN_NONE)"

section \<open>Lines that arrive on their own schedule\<close>

text \<open>\<open>self\<close>: called from the console task; \<open>free\<close>: the lock could be taken at once.\<close>

definition shell_async_print :: "bool \<Rightarrow> bool \<Rightarrow> u8 list \<Rightarrow> console \<Rightarrow> console" where
  "shell_async_print self free line c =
     (if line = [] then c
      else let held = (\<not> self \<and> free);
               at_prompt = ((self \<or> held) \<and> co_ready c \<and> \<not> co_running c \<and> co_owner c \<noteq> OWNER_NONE \<and>
                 \<not> shell_screen_foreground c);
               c = (if at_prompt then say wipe_line c else c);
               c = say (line @ [10]) c
           in if at_prompt then (let c = say prompt c in if co_line c \<noteq> [] then say (co_line c) c else c) else c)"

text \<open>A line of the system log: cut to the buffer, its line end removed.\<close>

definition log_vprintf :: "bool \<Rightarrow> bool \<Rightarrow> u8 list \<Rightarrow> console \<Rightarrow> console" where
  "log_vprintf self free text c =
     (let line = rev (dropWhile (\<lambda>b. b = 10 \<or> b = 13) (rev (take 159 text)))
      in if line \<noteq> [] then shell_async_print self free line c else c)"

text \<open>A line of the event log: kept in the ring, and printed when its echo is wanted and no display is in front.\<close>

definition console_log :: "bool \<Rightarrow> bool \<Rightarrow> facility \<Rightarrow> nat \<Rightarrow> string \<Rightarrow> console \<Rightarrow> console" where
  "console_log self free fac color text c =
     (let front = shell_screen_foreground c;
          c' = c\<lparr>co_log := log_put front fac color text (co_log c)\<rparr>
      in if echo_wanted (lg_echo (co_log c)) fac color \<and> \<not> front
         then shell_async_print self free (ascii (take 79 text)) c' else c')"

definition console_logs :: "bool \<Rightarrow> bool \<Rightarrow> (facility \<times> nat \<times> string) list \<Rightarrow> console \<Rightarrow> console" where
  "console_logs self free ls c = fold (\<lambda>(fac, color, text). console_log self free fac color text) ls c"

section \<open>The commands that move a display or the session\<close>

definition is_digit :: "char \<Rightarrow> bool" where
  "is_digit ch \<longleftrightarrow> (let n = of_char ch :: nat in 48 \<le> n \<and> n \<le> 57)"

definition is_space :: "char \<Rightarrow> bool" where
  "is_space ch \<longleftrightarrow> (let n = of_char ch :: nat in n = 32 \<or> (9 \<le> n \<and> n \<le> 13))"

definition atoi :: "string \<Rightarrow> int" where
  "atoi t =
     (let t = dropWhile is_space t;
          neg = (t \<noteq> [] \<and> hd t = CHR ''-'');
          t = (if t \<noteq> [] \<and> (hd t = CHR ''-'' \<or> hd t = CHR ''+'') then tl t else t);
          n = foldl (\<lambda>n ch. 10 * n + (int (of_char ch :: nat) - 48)) 0 (takeWhile is_digit t)
      in if neg then - n else n)"

definition ssh_pty_cols :: "console \<Rightarrow> int" where
  "ssh_pty_cols c = fst (co_pty c)"

definition ssh_pty_rows :: "console \<Rightarrow> int" where
  "ssh_pty_rows c = snd (co_pty c)"

definition enter_screen :: "console_env \<Rightarrow> screen_id \<Rightarrow> console \<Rightarrow> int \<times> console" where
  "enter_screen env i c =
     (let cols = (if co_owner c = OWNER_SSH then ssh_pty_cols c else 0);
          c = (if 0 < cols \<and> cols < screen_cols i (co_display c)
               then say (ce_text env (Too_narrow i (screen_cols i (co_display c)) cols)) c else c);
          c = say (ce_text env (Entering (screen_name i (co_display c)))) c;
          (done, d) = screen_attach i (if co_owner c = OWNER_SSH then Ssh_sink else Uart_sink) (co_display c);
          c = c\<lparr>co_display := d\<rparr>
      in if \<not> done then (ESP_ERR_NO_MEM, say (ascii ''no free display slot'' @ [10]) c)
         else if co_owner c = OWNER_SSH then (ESP_OK, c\<lparr>co_fg_ssh := i\<rparr>)
         else (ESP_OK, c\<lparr>co_fg_uart := i, co_owner := OWNER_NONE\<rparr>))"

definition cmd_tui :: "console_env \<Rightarrow> string list \<Rightarrow> console \<Rightarrow> int \<times> console" where
  "cmd_tui env argv c =
     (let rows = (if co_owner c = OWNER_SSH then ssh_pty_rows c else 0);
          rows = (if 1 < length argv then atoi (argv ! 1) else rows)
      in if 1 < length argv \<and> (rows < 24 \<or> 200 < rows)
         then (ESP_ERR_INVALID_ARG,
               say (ascii ''usage: tui [rows]   -- terminal height, 24..200 (serial assumes 40)'' @ [10]) c)
         else enter_screen env SCREEN_TUI (c\<lparr>co_view := (co_view c)\<lparr>tv_rows := rows\<rparr>\<rparr>))"

definition cmd_top :: "console_env \<Rightarrow> string list \<Rightarrow> console \<Rightarrow> int \<times> console" where
  "cmd_top env argv c =
     (let secs = atoi (argv ! 1)
      in if 1 < length argv \<and> (secs < 1 \<or> 60 < secs)
         then (ESP_ERR_INVALID_ARG,
               say (ascii ''usage: top [seconds]   -- refresh interval, 1..60 (default 2)'' @ [10]) c)
         else let c = (if 1 < length argv
                       then c\<lparr>co_display := screen_set_period SCREEN_TOP (of_int secs * 1000) (co_display c)\<rparr> else c)
              in enter_screen env SCREEN_TOP (c\<lparr>co_top_rows := if co_owner c = OWNER_SSH then ssh_pty_rows c else 0\<rparr>))"

definition cmd_exit :: "console \<Rightarrow> int \<times> console" where
  "cmd_exit c =
     (if co_owner c = OWNER_SSH then (ESP_OK, c\<lparr>co_remote_quit := True\<rparr>)
      else (ESP_OK, say (ascii ''the serial console is the top level -- 'tui' opens the display,'' @ [10] @
                         ascii '''top' the monitor, 'restart' reboots the board'' @ [10]) c))"

text \<open>\<open>log echo\<close> with a level; the command's other forms report, or set the levels of the system log.\<close>

definition echo_named :: "string \<Rightarrow> echo_level option" where
  "echo_named t =
     (if t = ''off'' then Some ADSB_ECHO_OFF else if t = ''sys'' then Some ADSB_ECHO_SYS
      else if t = ''brief'' then Some ADSB_ECHO_BRIEF else if t = ''all'' then Some ADSB_ECHO_ALL else None)"

definition adsb_log_echo_set :: "echo_level \<Rightarrow> console \<Rightarrow> console" where
  "adsb_log_echo_set level c = c\<lparr>co_log := (co_log c)\<lparr>lg_echo := level\<rparr>\<rparr>"

definition cmd_log :: "console_env \<Rightarrow> string list \<Rightarrow> console \<Rightarrow> int \<times> console" where
  "cmd_log env argv c =
     (case (if length argv = 3 \<and> argv ! 1 = ''echo'' then echo_named (argv ! 2) else None) of
        Some level \<Rightarrow> (ESP_OK, say (ascii (''event echo '' @ argv ! 2) @ [10]) (adsb_log_echo_set level c))
      | None \<Rightarrow> let (ret, out) = ce_other env argv in (ret, say out c))"

text \<open>The handlers \<open>shell_init\<close> registers; the others print and leave the console's own state alone.\<close>

definition call_handler :: "console_env \<Rightarrow> string list \<Rightarrow> console \<Rightarrow> int \<times> console" where
  "call_handler env argv c =
     (if hd argv = ''tui'' then cmd_tui env argv c
      else if hd argv = ''top'' then cmd_top env argv c
      else if hd argv = ''log'' then cmd_log env argv c
      else if hd argv = ''exit'' \<or> hd argv = ''quit'' then cmd_exit c
      else let (ret, out) = ce_other env argv in (ret, say out c))"

section \<open>The line editor\<close>

definition run_line :: "console_env \<Rightarrow> console \<Rightarrow> console" where
  "run_line env c =
     (let c = say [10] c
      in if co_line c = [] then c
         else case ce_run env (co_line c) of
             Not_found \<Rightarrow> say (ascii ''unknown command: '' @ co_line c @ ascii '' (try 'help')'' @ [10]) c
           | Empty_line \<Rightarrow> c
           | Console_error e \<Rightarrow> say (ce_text env (Console_failed e)) c
           | Calls argv \<Rightarrow>
               let (ret, c) = call_handler env argv (c\<lparr>co_running := True\<rparr>);
                   c = c\<lparr>co_running := False\<rparr>
               in if ret \<noteq> ESP_OK then say (ce_text env (Returned ret)) c else c)"

definition rub_out :: "u8 list" where
  "rub_out = [8, 32, 8]"

definition handle_byte :: "console_env \<Rightarrow> u8 \<Rightarrow> console \<Rightarrow> console" where
  "handle_byte env b c =
     (if b = 13 \<or> b = 10 then
        let c = (run_line env c)\<lparr>co_line := []\<rparr>
        in if co_owner c \<noteq> OWNER_NONE \<and> \<not> co_remote_quit c \<and> co_fg_ssh c = SCREEN_NONE then say prompt c else c
      else if b = 0x7f \<or> b = 8 then
        if co_line c \<noteq> [] then say rub_out (c\<lparr>co_line := butlast (co_line c)\<rparr>) else c
      else if b = 3 then (say (ascii ''^C'' @ [10] @ prompt) c)\<lparr>co_line := []\<rparr>
      else if b = 0x15 then ((say rub_out ^^ length (co_line c)) c)\<lparr>co_line := []\<rparr>
      else if b = 4 then
        if co_line c \<noteq> [] then c
        else if co_owner c = OWNER_SSH then say [10] (c\<lparr>co_remote_quit := True\<rparr>)
        else say ([10] @ ascii ''(top level -- 'tui' opens the display, 'top' the monitor)'' @ [10] @ prompt) c
      else if b < 0x20 \<or> 0x7e < b then c
      else if SHELL_LINE_MAX - 1 \<le> length (co_line c) then c
      else say [b] (c\<lparr>co_line := co_line c @ [b]\<rparr>))"

section \<open>The console task\<close>

definition banner :: "u8 list" where
  "banner = [10] @ ascii ''ADS-B console -- 'help' lists commands, 'tui' opens the display, 'top' the monitor.'' @ [10] @ prompt"

definition settle :: "console \<Rightarrow> console" where
  "settle c =
     (if co_owner c \<noteq> OWNER_NONE \<or> \<not> co_ready c \<or> co_fg_uart c \<noteq> SCREEN_NONE then c
      else let c = c\<lparr>co_owner := OWNER_UART, co_line := []\<rparr>;
               c = (if co_clear_pending c then (say CLS c)\<lparr>co_clear_pending := False\<rparr> else c)
           in say banner c)"

definition leave_keys :: "u8 set" where
  "leave_keys = {0x71, 0x51, 0x3a, 3, 4}"

text \<open>
  \<open>self\<close>: on the console task. A contact asked for is made at once when there is no receive task, and its lines are
  logged from here; the task that is here holds the lock.
\<close>

definition screen_hotkey :: "console_env \<Rightarrow> bool \<Rightarrow> screen_id \<Rightarrow> u8 \<Rightarrow> console \<Rightarrow> bool \<times> console" where
  "screen_hotkey env self i b c =
     (if b \<in> leave_keys then (True, c)
      else case screen_key i b (co_view c, co_display c) of (v, d) \<Rightarrow>
        (False, console_logs self False
           (if tv_injected v = tv_injected (co_view c) then []
            else map (Pair LOG_AIR) (ce_injected env (tv_injected v)))
           (c\<lparr>co_view := v, co_display := d\<rparr>)))"

definition held_line :: string where
  "held_line = ''CONSOLE  held by an SSH session -- staying in the display''"

definition leave_screen :: "console \<Rightarrow> console" where
  "leave_screen c =
     (if co_owner c \<noteq> OWNER_NONE then console_log True False LOG_UI 4 held_line c
      else c\<lparr>co_display := screen_detach Uart_sink (co_display c), co_fg_uart := SCREEN_NONE, co_clear_pending := True\<rparr>)"

definition leave_screen_ssh :: "console \<Rightarrow> console" where
  "leave_screen_ssh c =
     c\<lparr>co_display := screen_detach Ssh_sink (co_display c), co_fg_ssh := SCREEN_NONE, co_line := [],
       co_pushed := co_pushed c @ CLS @ prompt\<rparr>"

text \<open>One pass of the task, with the byte it read, if it read one.\<close>

definition console_pass :: "console_env \<Rightarrow> u8 option \<Rightarrow> console \<Rightarrow> console" where
  "console_pass env read c =
     (let c = settle c;
          c = (case read of
                 None \<Rightarrow> c
               | Some b \<Rightarrow>
                   if co_owner c = OWNER_UART then handle_byte env b c
                   else if co_fg_uart c \<noteq> SCREEN_NONE
                   then (let (leave, c) = screen_hotkey env True (co_fg_uart c) b c in if leave then leave_screen c else c)
                   else c)
      in settle c)"

section \<open>Remote sessions\<close>

text \<open>\<open>free\<close>: the lock could be taken before the time limit.\<close>

definition shell_remote_claim :: "bool \<Rightarrow> console \<Rightarrow> bool \<times> console" where
  "shell_remote_claim free c =
     (if co_owner c = OWNER_SSH \<or> \<not> free then (False, c)
      else let c = (if co_owner c = OWNER_UART
                    then c\<lparr>co_noted := co_noted c @ [13, 10] @ ascii ''[console taken by an SSH session]'' @ [13, 10]\<rparr> else c)
           in (True, c\<lparr>co_owner := OWNER_SSH, co_remote_quit := False, co_line := []\<rparr>))"

definition shell_remote_open :: "console \<Rightarrow> console" where
  "shell_remote_open c =
     say (ascii ''ADS-B console. 'help' lists commands, 'exit' closes the session.'' @ [10, 10] @ prompt) c"

definition shell_remote_byte :: "console_env \<Rightarrow> u8 \<Rightarrow> console \<Rightarrow> bool \<times> console" where
  "shell_remote_byte env b c =
     (if co_owner c \<noteq> OWNER_SSH then (False, c)
      else if co_fg_ssh c \<noteq> SCREEN_NONE
      then (let (leave, c) = screen_hotkey env False (co_fg_ssh c) b c in (True, if leave then leave_screen_ssh c else c))
      else let c = handle_byte env b c in (\<not> co_remote_quit c, c))"

definition shell_remote_close :: "console \<Rightarrow> console" where
  "shell_remote_close c =
     (if co_owner c \<noteq> OWNER_SSH then c
      else let c = (if co_fg_ssh c \<noteq> SCREEN_NONE
                    then c\<lparr>co_display := screen_detach Ssh_sink (co_display c), co_fg_ssh := SCREEN_NONE\<rparr> else c)
           in c\<lparr>co_owner := OWNER_NONE, co_remote_quit := False\<rparr>)"

definition shell_console_start :: "console \<Rightarrow> console" where
  "shell_console_start c = (adsb_log_echo_set ADSB_ECHO_SYS c)\<lparr>co_ready := True\<rparr>"

end
