(* ===== verification/ShellProps.thy ===== *)
theory ShellProps
  imports Shell
begin

text \<open>
  The console as a whole: the serial task, the SSH task with its place in \<open>run_shell\<close> of \<open>main/net_ssh.c\<close>, the
  logging of other tasks and the drawing task as steps of one machine; its reachable states and what
  holds of them.
\<close>

section \<open>The machine\<close>

text \<open>Where the SSH task stands in \<open>run_shell\<close>.\<close>

datatype session_phase = No_session | Claimed | Redirected | Serving | Leaving | Restored

definition stdio_redirect :: "console \<Rightarrow> console" where
  "stdio_redirect c = c\<lparr>co_display := (co_display c)\<lparr>sc_stdout := Ssh_sink\<rparr>\<rparr>"

definition stdio_restore :: "console \<Rightarrow> console" where
  "stdio_restore c = c\<lparr>co_display := (co_display c)\<lparr>sc_stdout := Uart_sink\<rparr>\<rparr>"

definition console_boot :: "(nat \<Rightarrow> int) \<Rightarrow> console" where
  "console_boot clock = \<lparr>co_owner = OWNER_NONE, co_fg_uart = SCREEN_NONE, co_fg_ssh = SCREEN_NONE, co_ready = False,
     co_remote_quit = False, co_running = False, co_clear_pending = False, co_line = [],
     co_display = \<lparr>sc_screens = (\<lambda>i. \<lparr>sn_name = [], sn_cols = 0, sn_period_ms = 0, sn_draw = False, sn_last_draw = 0\<rparr>),
       sc_sinks = replicate SCREEN_MAX_SINKS \<lparr>sk_fn = None, sk_screen = SCREEN_NONE\<rparr>, sc_fb = [],
       sc_painting = SCREEN_NONE, sc_sent = [], sc_stdout = Uart_sink, sc_printed = [], sc_clock = clock,
       sc_reads = 0, sc_pf_bytes = 0, sc_pf_out_us = 0,
       sc_probe = \<lparr>sp_fps = 0, sp_bytes = 0, sp_asm_ms = 0, sp_out_ms = 0\<rparr>,
       sc_win = 0, sc_n = 0, sc_sum_bytes = 0, sc_sum_out_us = 0, sc_sum_us = 0\<rparr>,
     co_view = \<lparr>tv_rows = 0, tv_sort = 0, tv_range = 2, tv_pan_e = 0, tv_pan_n = 0, tv_map_rows = 0, tv_esc = 0,
       tv_muted = False, tv_volume = 70, tv_injected = 0\<rparr>,
     co_top_rows = 0, co_pty = (0, 0), co_noted = [], co_pushed = [], co_log = log_start\<rparr>"

text \<open>
  A step is a pass of the serial task, a move of the SSH task along \<open>run_shell\<close>, a line of the system log or of
  the event log from some other task, a frame of the drawing task, the registration of a display or a change of the terminal's size.
\<close>

inductive console_step :: "console_env \<Rightarrow> session_phase \<times> console \<Rightarrow> session_phase \<times> console \<Rightarrow> bool"
  for env where
  pass: "console_step env (ph, c) (ph, console_pass env read c)"
| start: "console_step env (ph, c) (ph, shell_console_start c)"
| log: "console_step env (ph, c) (ph, log_vprintf self free text c)"
| event: "console_step env (ph, c) (ph, console_log self free fac color text c)"
| claim: "shell_remote_claim free c = (True, c') \<Longrightarrow> console_step env (No_session, c) (Claimed, c')"
| busy: "shell_remote_claim free c = (False, c') \<Longrightarrow> console_step env (No_session, c) (No_session, c')"
| redirect: "console_step env (Claimed, c) (Redirected, stdio_redirect c)"
| opened: "console_step env (Redirected, c) (Serving, shell_remote_open c)"
| byte: "shell_remote_byte env b c = (live, c') \<Longrightarrow>
    console_step env (Serving, c) (if live then Serving else Leaving, c')"
| hangup: "console_step env (Serving, c) (Leaving, c)"
| restore: "console_step env (Leaving, c) (Restored, stdio_restore c)"
| closed: "console_step env (Restored, c) (No_session, shell_remote_close c)"
| draw: "console_step env (ph, c) (ph, c\<lparr>co_display := draw_pass draw (co_display c)\<rparr>)"
| register: "console_step env (ph, c) (ph, c\<lparr>co_display := screen_register i name cols period (co_display c)\<rparr>)"
| pty: "console_step env (ph, c) (ph, c\<lparr>co_pty := p\<rparr>)"
| rows: "console_step env (ph, c) (ph, c\<lparr>co_view := (co_view c)\<lparr>tv_map_rows := n\<rparr>\<rparr>)"

inductive console_reach :: "console_env \<Rightarrow> session_phase \<times> console \<Rightarrow> bool" for env where
  boot: "console_reach env (No_session, console_boot clock)"
| step: "console_reach env s \<Longrightarrow> console_step env s s' \<Longrightarrow> console_reach env s'"

section \<open>The invariant\<close>

text \<open>The displays a transport is attached to.\<close>

definition showing :: "sink \<Rightarrow> display \<Rightarrow> screen_id list" where
  "showing k d = map sk_screen (filter (\<lambda>l. sk_fn l = Some k) (sc_sinks d))"

definition in_front :: "screen_id \<Rightarrow> screen_id list" where
  "in_front i = (if i = SCREEN_NONE then [] else [i])"

definition console_inv :: "console \<Rightarrow> bool" where
  "console_inv c \<longleftrightarrow> length (co_line c) < SHELL_LINE_MAX \<and> view_ok (co_view c) \<and>
     (co_owner c = OWNER_UART \<longrightarrow> co_ready c \<and> co_fg_uart c = SCREEN_NONE) \<and>
     (co_owner c \<noteq> OWNER_SSH \<longrightarrow> co_fg_ssh c = SCREEN_NONE \<and> \<not> co_remote_quit c) \<and>
     length (sc_sinks (co_display c)) = SCREEN_MAX_SINKS \<and>
     showing Uart_sink (co_display c) = in_front (co_fg_uart c) \<and>
     showing Ssh_sink (co_display c) = in_front (co_fg_ssh c)"

definition session_inv :: "session_phase \<Rightarrow> console \<Rightarrow> bool" where
  "session_inv ph c \<longleftrightarrow> (co_owner c = OWNER_SSH \<longleftrightarrow> ph \<noteq> No_session) \<and>
     sc_stdout (co_display c) = (if ph \<in> {Redirected, Serving, Leaving} then Ssh_sink else Uart_sink) \<and>
     (co_fg_ssh c \<noteq> SCREEN_NONE \<longrightarrow> ph \<in> {Serving, Leaving, Restored}) \<and>
     (co_remote_quit c \<longrightarrow> ph \<in> {Leaving, Restored}) \<and> \<not> co_running c"

definition console_ok :: "session_phase \<times> console \<Rightarrow> bool" where
  "console_ok s \<longleftrightarrow> console_inv (snd s) \<and> session_inv (fst s) (snd s)"

lemma say_frame [simp]:
  "co_owner (say t c) = co_owner c" "co_fg_uart (say t c) = co_fg_uart c" "co_fg_ssh (say t c) = co_fg_ssh c"
  "co_ready (say t c) = co_ready c" "co_remote_quit (say t c) = co_remote_quit c" "co_running (say t c) = co_running c"
  "co_line (say t c) = co_line c" "co_view (say t c) = co_view c" "co_pty (say t c) = co_pty c" "co_log (say t c) = co_log c"
  "co_clear_pending (say t c) = co_clear_pending c"
  "sc_sinks (co_display (say t c)) = sc_sinks (co_display c)"
  "sc_stdout (co_display (say t c)) = sc_stdout (co_display c)"
  "showing k (co_display (say t c)) = showing k (co_display c)"
  by (simp_all add: say_def screen_print_def showing_def)

lemma showing_cong: "sc_sinks d' = sc_sinks d \<Longrightarrow> showing k d' = showing k d"
  by (simp add: showing_def)

lemma console_inv_say [simp]: "console_inv (say t c) = console_inv c"
  by (simp add: console_inv_def)

lemma console_inv_cong:
  assumes "console_inv c" "co_owner c' = co_owner c" "co_fg_uart c' = co_fg_uart c" "co_fg_ssh c' = co_fg_ssh c"
    "co_ready c' = co_ready c" "co_remote_quit c' = co_remote_quit c" "co_line c' = co_line c"
    "view_ok (co_view c')" "sc_sinks (co_display c') = sc_sinks (co_display c)"
  shows "console_inv c'"
  using assms by (simp add: console_inv_def showing_def)

section \<open>Attaching and detaching\<close>

lemma attach_free:
  assumes "length (sc_sinks d) = SCREEN_MAX_SINKS" "showing k d = []" "length (showing k' d) \<le> 1" "k' \<noteq> k"
  shows "fst (screen_attach i k d)" "showing k (snd (screen_attach i k d)) = [i]"
    "showing k' (snd (screen_attach i k d)) = showing k' d"
    "length (sc_sinks (snd (screen_attach i k d))) = SCREEN_MAX_SINKS"
proof -
  obtain a b where sinks: "sc_sinks d = [a, b]"
    using assms(1) by (auto simp: SCREEN_MAX_SINKS_def numeral_2_eq_2 length_Suc_conv)
  have upt: "[0..<SCREEN_MAX_SINKS] = [0, 1]" by (simp add: SCREEN_MAX_SINKS_def upt_rec)
  have "sk_fn a \<noteq> Some k" "sk_fn b \<noteq> Some k" "sk_fn a = None \<or> sk_fn b = None"
    using assms(2-4) sinks by (cases "sk_fn a"; cases "sk_fn b"; cases k; cases k'; auto simp: showing_def split: if_splits sink.splits; metis sink.exhaust)+
  then show "fst (screen_attach i k d)" "showing k (snd (screen_attach i k d)) = [i]"
    "showing k' (snd (screen_attach i k d)) = showing k' d"
    "length (sc_sinks (snd (screen_attach i k d))) = SCREEN_MAX_SINKS"
    using assms(1,4) by (auto simp: screen_attach_def upt sinks showing_def Let_def screen_wake_def screen_print_def)
qed

lemma attach_frame [simp]: "sc_stdout (snd (screen_attach i k d)) = sc_stdout d"
  by (auto simp: screen_attach_def screen_wake_def screen_print_def Let_def split: option.split)

lemma detach_showing [simp]:
  "showing k (screen_detach k' d) = (if k = k' then [] else showing k d)"
  "length (sc_sinks (screen_detach k' d)) = length (sc_sinks d)" "sc_stdout (screen_detach k' d) = sc_stdout d"
  "sc_printed (screen_detach k' d) = sc_printed d"
proof -
  have "map sk_screen (filter (\<lambda>l. sk_fn l = Some k) (map (\<lambda>l. if sk_fn l = Some k' then l\<lparr>sk_fn := None\<rparr> else l) ls)) =
      (if k = k' then [] else map sk_screen (filter (\<lambda>l. sk_fn l = Some k) ls))" for ls
    by (induction ls) auto
  from this[of "sc_sinks d"] show "showing k (screen_detach k' d) = (if k = k' then [] else showing k d)"
    by (simp add: showing_def screen_detach_def)
qed (simp_all add: screen_detach_def)

section \<open>What an operation prints\<close>

text \<open>An operation that leaves \<open>stdout\<close> where it leads and prints there only.\<close>

definition acts :: "console \<Rightarrow> console \<Rightarrow> bool" where
  "acts c c' \<longleftrightarrow> sc_stdout (co_display c') = sc_stdout (co_display c) \<and> (co_ready c \<longrightarrow> co_ready c') \<and>
     (\<exists>out. sc_printed (co_display c') = sc_printed (co_display c) @ map (Pair (sc_stdout (co_display c))) out)"

lemma ex_map_append: "\<exists>c. map f a @ map f b = map f c"
  by (rule exI[of _ "a @ b"]) simp

lemma ex_map_snoc: "\<exists>c. map (Pair k) a @ [(k, t)] = map (Pair k) c"
  by (rule exI[of _ "a @ [t]"]) simp

lemma acts_trans: "acts c c' \<Longrightarrow> acts c' c'' \<Longrightarrow> acts c c''"
  by (auto simp: acts_def intro: ex_map_append)

lemma acts_same:
  "sc_stdout (co_display c') = sc_stdout (co_display c) \<Longrightarrow> co_ready c' = co_ready c \<Longrightarrow>
   sc_printed (co_display c') = sc_printed (co_display c) \<Longrightarrow> acts c c'"
  by (auto simp: acts_def)

lemma acts_say: "acts c c' \<Longrightarrow> acts c (say t c')"
  by (auto simp: acts_def say_def screen_print_def intro: ex_map_snoc)

lemma acts_update:
  "acts c c' \<Longrightarrow> acts c (c'\<lparr>co_line := l\<rparr>)" "acts c c' \<Longrightarrow> acts c (c'\<lparr>co_running := b\<rparr>)"
  "acts c c' \<Longrightarrow> acts c (c'\<lparr>co_remote_quit := b\<rparr>)" "acts c c' \<Longrightarrow> acts c (c'\<lparr>co_owner := w\<rparr>)"
  "acts c c' \<Longrightarrow> acts c (c'\<lparr>co_fg_uart := i\<rparr>)" "acts c c' \<Longrightarrow> acts c (c'\<lparr>co_fg_ssh := i\<rparr>)"
  "acts c c' \<Longrightarrow> acts c (c'\<lparr>co_view := v\<rparr>)" "acts c c' \<Longrightarrow> acts c (c'\<lparr>co_top_rows := n\<rparr>)"
  "acts c c' \<Longrightarrow> acts c (c'\<lparr>co_clear_pending := b\<rparr>)" "acts c c' \<Longrightarrow> acts c (c'\<lparr>co_log := lg\<rparr>)"
  by (simp_all add: acts_def)

lemma acts_display:
  assumes "acts c c'" "sc_stdout d = sc_stdout (co_display c')" "sc_printed d = sc_printed (co_display c')"
  shows "acts c (c'\<lparr>co_display := d\<rparr>)"
  using assms by (simp add: acts_def)

lemma acts_refl: "acts c c"
  by (simp add: acts_same)

lemmas acts_intros = acts_refl acts_say acts_update acts_display

lemma acts_attach: "acts c c' \<Longrightarrow> acts c (c'\<lparr>co_display := snd (screen_attach i k (co_display c'))\<rparr>)"
proof -
  assume a: "acts c c'"
  have "\<exists>out. sc_printed (snd (screen_attach i k d)) = sc_printed d @ map (Pair (sc_stdout d)) out" for d
    by (auto simp: screen_attach_def screen_wake_def screen_print_def Let_def
        intro: exI[of _ "[]"] exI[of _ "[CLS]"] split: option.split)
  then have "acts c' (c'\<lparr>co_display := snd (screen_attach i k (co_display c'))\<rparr>)" by (simp add: acts_def)
  with a show ?thesis by (rule acts_trans)
qed

section \<open>Lines of the event log\<close>

text \<open>What the echo of a line prints from the console task: above a prompt it is drawn again with the line typed so far.\<close>

definition redrawn :: "console \<Rightarrow> u8 list \<Rightarrow> u8 list list" where
  "redrawn c line =
     (if co_ready c \<and> \<not> co_running c \<and> co_owner c \<noteq> OWNER_NONE
      then [wipe_line, line @ [10], prompt] @ (if co_line c \<noteq> [] then [co_line c] else []) else [line @ [10]])"

definition echoed :: "console \<Rightarrow> facility \<times> nat \<times> string \<Rightarrow> u8 list list" where
  "echoed c l = (case l of (fac, color, text) \<Rightarrow>
     if echo_wanted (lg_echo (co_log c)) fac color \<and> \<not> shell_screen_foreground c \<and> text \<noteq> []
     then redrawn c (ascii (take 79 text)) else [])"

definition same_console :: "console \<Rightarrow> console \<Rightarrow> bool" where
  "same_console c c' \<longleftrightarrow> co_owner c' = co_owner c \<and> co_fg_uart c' = co_fg_uart c \<and> co_fg_ssh c' = co_fg_ssh c \<and>
     co_ready c' = co_ready c \<and> co_remote_quit c' = co_remote_quit c \<and> co_running c' = co_running c \<and>
     co_line c' = co_line c \<and> co_view c' = co_view c \<and> lg_echo (co_log c') = lg_echo (co_log c) \<and>
     sc_sinks (co_display c') = sc_sinks (co_display c) \<and> sc_stdout (co_display c') = sc_stdout (co_display c)"

lemma same_console_cong:
  assumes "same_console c c'"
  shows "console_inv c' = console_inv c" "session_inv ph c' = session_inv ph c" "echoed c' = echoed c"
    "shell_screen_foreground c' = shell_screen_foreground c"
proof -
  show f: "shell_screen_foreground c' = shell_screen_foreground c"
    using assms by (simp add: same_console_def shell_screen_foreground_def)
  show "console_inv c' = console_inv c" "session_inv ph c' = session_inv ph c"
    using assms by (simp_all add: same_console_def console_inv_def session_inv_def showing_def)
  show "echoed c' = echoed c"
    using assms f by (auto simp: fun_eq_iff echoed_def redrawn_def same_console_def)
qed

lemma same_console_trans: "same_console c c' \<Longrightarrow> same_console c' c'' \<Longrightarrow> same_console c c''"
  by (simp add: same_console_def)

lemma same_console_say: "same_console c c' \<Longrightarrow> same_console c (say t c')"
  by (simp add: same_console_def)

lemma log_put_echo: "lg_echo (log_put front fac color text l) = lg_echo l"
  by (simp add: log_put_def Let_def)

lemma console_log_same: "same_console c (console_log self free fac color text c)"
proof -
  have "same_console c (c\<lparr>co_log := log_put front fac color text (co_log c)\<rparr>)" for front
    by (simp add: same_console_def log_put_echo)
  then show ?thesis by (auto simp: console_log_def shell_async_print_def Let_def intro!: same_console_say)
qed

lemma console_logs_same: "same_console c (console_logs self free ls c)"
proof (induction ls arbitrary: c)
  case (Cons l ls)
  obtain fac color t where l: "l = (fac, color, t)" by (rule prod_cases3)
  show ?case using same_console_trans[OF console_log_same Cons] by (simp add: console_logs_def l)
qed (simp add: console_logs_def same_console_def)

lemma console_log_acts: "acts c (console_log self free fac color text c)"
  by (auto simp: console_log_def shell_async_print_def Let_def intro!: acts_intros)

lemma console_logs_acts: "acts c (console_logs self free ls c)"
proof (induction ls arbitrary: c)
  case (Cons l ls)
  obtain fac color t where l: "l = (fac, color, t)" by (rule prod_cases3)
  show ?case using acts_trans[OF console_log_acts Cons] by (simp add: console_logs_def l)
qed (simp add: console_logs_def acts_refl)

text \<open>From the console task exactly the echo is printed; the lock is its own.\<close>

lemma console_log_printed:
  "sc_printed (co_display (console_log True free fac color text c)) =
   sc_printed (co_display c) @ map (Pair (sc_stdout (co_display c))) (echoed c (fac, color, text))"
proof -
  have "ascii t = [] \<longleftrightarrow> t = []" for t by (simp add: ascii_def)
  moreover have "shell_screen_foreground (c\<lparr>co_log := l\<rparr>) = shell_screen_foreground c" for l
    by (simp add: shell_screen_foreground_def)
  ultimately show ?thesis
    by (simp add: console_log_def echoed_def redrawn_def shell_async_print_def Let_def say_def screen_print_def)
qed

lemma console_logs_printed:
  "sc_printed (co_display (console_logs True free ls c)) =
   sc_printed (co_display c) @ map (Pair (sc_stdout (co_display c))) (concat (map (echoed c) ls))"
proof (induction ls arbitrary: c)
  case (Cons l ls)
  obtain fac color t where l: "l = (fac, color, t)" by (rule prod_cases3)
  let ?c = "console_log True free fac color t c"
  have "same_console c ?c" by (rule console_log_same)
  note same = same_console_cong(3)[OF this]
  have "sc_stdout (co_display ?c) = sc_stdout (co_display c)" using console_log_same by (simp add: same_console_def)
  then show ?case using Cons[of ?c] by (simp add: console_logs_def l console_log_printed same)
qed (simp add: console_logs_def)

lemma console_logs_Nil [simp]: "console_logs self free [] c = c"
  by (simp add: console_logs_def)

section \<open>The operations keep the invariant\<close>

text \<open>Who may run a command: an owner with no display in front.\<close>

definition at_prompt :: "console \<Rightarrow> bool" where
  "at_prompt c \<longleftrightarrow> console_inv c \<and> co_owner c \<noteq> OWNER_NONE \<and> co_fg_ssh c = SCREEN_NONE \<and> \<not> co_remote_quit c"

text \<open>What such a command leaves.\<close>

definition handled :: "console \<Rightarrow> console \<Rightarrow> bool" where
  "handled c c' \<longleftrightarrow> console_inv c' \<and> acts c c' \<and> (co_owner c' = OWNER_SSH \<longleftrightarrow> co_owner c = OWNER_SSH)"

lemma handled_update:
  "handled c c' \<Longrightarrow> handled c (say t c')" "handled c c' \<Longrightarrow> handled c (c'\<lparr>co_running := b\<rparr>)"
  "handled c c' \<Longrightarrow> handled c (c'\<lparr>co_line := []\<rparr>)"
  by (auto simp: handled_def acts_intros console_inv_def SHELL_LINE_MAX_def)

lemma at_prompt_handled: "at_prompt c \<Longrightarrow> handled c c"
  by (simp add: handled_def at_prompt_def acts_refl)

lemma enter_screen_ok:
  assumes "at_prompt c" "i \<noteq> SCREEN_NONE"
  shows "fst (enter_screen env i c) = ESP_OK" "handled c (snd (enter_screen env i c))"
    "showing (if co_owner c = OWNER_SSH then Ssh_sink else Uart_sink) (co_display (snd (enter_screen env i c))) = [i]"
proof -
  define cols where "cols = (if co_owner c = OWNER_SSH then ssh_pty_cols c else 0)"
  define d where "d = (if 0 < cols \<and> cols < screen_cols i (co_display c)
    then say (ce_text env (Too_narrow i (screen_cols i (co_display c)) cols)) c else c)"
  define e where "e = say (ce_text env (Entering (screen_name i (co_display d)))) d"
  define k where "k = (if co_owner c = OWNER_SSH then Ssh_sink else Uart_sink)"
  define k' where "k' = (if co_owner c = OWNER_SSH then Uart_sink else Ssh_sink)"
  define a where "a = screen_attach i k (co_display e)"
  have same: "co_owner e = co_owner c" "console_inv e" "co_fg_uart e = co_fg_uart c" "co_fg_ssh e = co_fg_ssh c"
    "co_remote_quit e = co_remote_quit c"
    using assms by (simp_all add: at_prompt_def e_def d_def)
  then have free: "showing k (co_display e) = []" "length (showing k' (co_display e)) \<le> 1"
    "length (sc_sinks (co_display e)) = SCREEN_MAX_SINKS"
    using assms(1) by (auto simp: at_prompt_def console_inv_def in_front_def k_def k'_def; cases "co_owner c"; simp)+
  have a: "fst a" "showing k (snd a) = [i]" "showing k' (snd a) = showing k' (co_display e)"
    "length (sc_sinks (snd a)) = SCREEN_MAX_SINKS"
    unfolding a_def by (rule attach_free[OF free(3,1,2)]; simp add: k_def k'_def)+
  have owner: "co_owner d = co_owner c" by (simp add: d_def)
  have enter: "enter_screen env i c = (ESP_OK, if co_owner c = OWNER_SSH then e\<lparr>co_display := snd a, co_fg_ssh := i\<rparr>
      else e\<lparr>co_display := snd a, co_fg_uart := i, co_owner := OWNER_NONE\<rparr>)"
    using a(1) same(1) owner unfolding a_def k_def
    by (simp add: enter_screen_def Let_def split_beta flip: cols_def d_def e_def)
  show "fst (enter_screen env i c) = ESP_OK" by (simp add: enter)
  show "showing (if co_owner c = OWNER_SSH then Ssh_sink else Uart_sink) (co_display (snd (enter_screen env i c))) = [i]"
    using a(2) by (simp add: enter flip: k_def)
  have "acts c e" unfolding e_def d_def by (auto intro!: acts_intros)
  from acts_attach[OF this, of i k]
  have acts: "acts c (snd (enter_screen env i c))" by (auto simp: enter acts_def a_def)
  show "handled c (snd (enter_screen env i c))"
    using a same assms acts
    by (auto simp: enter handled_def console_inv_def at_prompt_def in_front_def k_def k'_def split: if_splits)
qed

lemma handled_trans: "handled c c' \<Longrightarrow> handled c' c'' \<Longrightarrow> handled c c''"
  by (auto simp: handled_def intro: acts_trans)

lemma prepared:
  assumes "at_prompt c"
  shows "at_prompt (c\<lparr>co_view := (co_view c)\<lparr>tv_rows := n\<rparr>\<rparr>)" "handled c (c\<lparr>co_view := (co_view c)\<lparr>tv_rows := n\<rparr>\<rparr>)"
    "at_prompt (c\<lparr>co_top_rows := n\<rparr>)" "handled c (c\<lparr>co_top_rows := n\<rparr>)"
    "at_prompt (c\<lparr>co_display := screen_set_period i p (co_display c)\<rparr>)"
    "handled c (c\<lparr>co_display := screen_set_period i p (co_display c)\<rparr>)"
    "at_prompt (c\<lparr>co_running := b\<rparr>)" "handled c (c\<lparr>co_running := b\<rparr>)"
    "at_prompt (say t c)" "handled c (say t c)"
  using assms
  by (auto simp: at_prompt_def handled_def console_inv_def view_ok_def screen_set_period_def showing_def intro!: acts_intros)

lemma cmd_tui_ok: "at_prompt c \<Longrightarrow> handled c (snd (cmd_tui env argv c))"
  unfolding cmd_tui_def Let_def
  by (auto intro: handled_trans[OF prepared(2) enter_screen_ok(2)] prepared)

lemma cmd_top_ok: "at_prompt c \<Longrightarrow> handled c (snd (cmd_top env argv c))"
proof -
  assume c: "at_prompt c"
  have enter: "handled d (snd (enter_screen env SCREEN_TOP (d\<lparr>co_top_rows := n\<rparr>)))" if "at_prompt d" for d n
    using that by (intro handled_trans[OF prepared(4) enter_screen_ok(2)] prepared(3)) simp_all
  show ?thesis
    unfolding cmd_top_def Let_def
    using c enter[OF c] handled_trans[OF prepared(6)[OF c] enter[OF prepared(5)[OF c]]]
    by (auto intro: prepared)
qed

lemma cmd_exit_ok: "at_prompt c \<Longrightarrow> handled c (snd (cmd_exit c))"
  unfolding cmd_exit_def
  by (auto simp: at_prompt_def handled_def console_inv_def intro: acts_intros)

lemma cmd_log_ok: "at_prompt c \<Longrightarrow> handled c (snd (cmd_log env argv c))"
proof -
  assume c: "at_prompt c"
  then have "handled c (adsb_log_echo_set level c)" for level
    by (auto simp: adsb_log_echo_set_def at_prompt_def handled_def console_inv_def intro: acts_intros)
  then show ?thesis using c by (auto simp: cmd_log_def split_beta Let_def intro: handled_update(1) prepared split: option.split)
qed

lemma call_handler_ok: "at_prompt c \<Longrightarrow> handled c (snd (call_handler env argv c))"
  by (simp add: call_handler_def cmd_tui_ok cmd_top_ok cmd_log_ok cmd_exit_ok prepared split_beta Let_def)

lemma run_line_ok:
  assumes "at_prompt c"
  shows "handled c (run_line env c)"
proof -
  let ?c = "say [10] c"
  have c: "at_prompt ?c" "handled c ?c" using prepared assms by simp_all
  have "handled c (snd (call_handler env argv (?c\<lparr>co_running := True\<rparr>)))" for argv
    using prepared(7,8)[OF c(1)] call_handler_ok handled_trans c(2) by metis
  then show ?thesis
    using c(2) by (auto simp: run_line_def Let_def split_beta intro: handled_update split: run_answer.split)
qed

lemma run_line_idle: "\<not> co_running c \<Longrightarrow> \<not> co_running (run_line env c)"
  by (simp add: run_line_def Let_def split_beta split: run_answer.split)

lemma rub_out_frame: "handled c c' \<Longrightarrow> handled c ((say rub_out ^^ n) c')" "co_running ((say rub_out ^^ n) c') = co_running c'"
  by (induction n) (auto intro: handled_update)

lemma handled_line: "handled c c' \<Longrightarrow> length l < SHELL_LINE_MAX \<Longrightarrow> handled c (c'\<lparr>co_line := l\<rparr>)"
  by (auto simp: handled_def acts_intros console_inv_def)

lemma handle_byte_ok:
  assumes "at_prompt c" "\<not> co_running c"
  shows "handled c (handle_byte env b c)" "\<not> co_running (handle_byte env b c)"
proof -
  have line: "length (co_line c) < SHELL_LINE_MAX" using assms(1) by (simp add: at_prompt_def console_inv_def)
  have c: "handled c c" by (rule at_prompt_handled[OF assms(1)])
  have quit: "handled c (c\<lparr>co_remote_quit := True\<rparr>)" if "co_owner c = OWNER_SSH"
    using assms(1) that by (auto simp: at_prompt_def handled_def console_inv_def intro: acts_intros)
  show "handled c (handle_byte env b c)"
    unfolding handle_byte_def Let_def using line
    by (auto intro!: handled_update handled_line run_line_ok rub_out_frame c quit assms(1))
  show "\<not> co_running (handle_byte env b c)"
    using assms(2) by (simp add: handle_byte_def Let_def rub_out_frame run_line_idle)
qed

section \<open>Every step keeps it\<close>

lemma settle_ok:
  assumes "console_inv c"
  shows "console_inv (settle c)" "acts c (settle c)" "co_running (settle c) = co_running c"
    "co_owner (settle c) = OWNER_SSH \<longleftrightarrow> co_owner c = OWNER_SSH" "co_owner c \<noteq> OWNER_NONE \<Longrightarrow> settle c = c"
    "co_fg_ssh (settle c) = co_fg_ssh c" "co_remote_quit (settle c) = co_remote_quit c"
  using assms
  by (auto simp: settle_def Let_def console_inv_def SHELL_LINE_MAX_def in_front_def intro!: acts_intros)

text \<open>The lines a key at a display has logged: those of a synthetic contact made at once.\<close>

definition key_logs :: "console_env \<Rightarrow> screen_id \<Rightarrow> u8 \<Rightarrow> console \<Rightarrow> (facility \<times> nat \<times> string) list" where
  "key_logs env i b c =
     (let v = fst (screen_key i b (co_view c, co_display c))
      in if b \<in> leave_keys \<or> tv_injected v = tv_injected (co_view c) then []
         else map (Pair LOG_AIR) (ce_injected env (tv_injected v)))"

lemma screen_hotkey_ok:
  assumes "console_inv c" "screen_hotkey env self i b c = (leave, c')"
  shows "console_inv c'" "acts c c'"
    "sc_stdout (co_display c') = sc_stdout (co_display c)" "co_owner c' = co_owner c" "co_line c' = co_line c"
    "co_running c' = co_running c" "co_fg_ssh c' = co_fg_ssh c" "co_remote_quit c' = co_remote_quit c" "co_ready c' = co_ready c"
    "co_fg_uart c' = co_fg_uart c" "leave \<longleftrightarrow> b \<in> leave_keys" "leave \<Longrightarrow> c' = c"
    "self \<Longrightarrow> sc_printed (co_display c') =
       sc_printed (co_display c) @ map (Pair (sc_stdout (co_display c))) (concat (map (echoed c) (key_logs env i b c)))"
proof -
  obtain v d where vd: "screen_key i b (co_view c, co_display c) = (v, d)" by fastforce
  note k = screen_key_frame[OF vd]
  define m where "m = c\<lparr>co_view := v, co_display := d\<rparr>"
  have c': "c' = (if b \<in> leave_keys then c else console_logs self False (key_logs env i b c) m)" "leave \<longleftrightarrow> b \<in> leave_keys"
    using assms(2) vd by (auto simp: screen_hotkey_def key_logs_def m_def split: if_splits)
  have m: "console_inv m" "acts c m" using k showing_cong[OF k(1)] assms(1) by (auto simp: m_def console_inv_def acts_def)
  have echo: "echoed m = echoed c" by (auto simp: fun_eq_iff echoed_def redrawn_def shell_screen_foreground_def m_def)
  note same = console_logs_same[of m self False "key_logs env i b c"]
  show "console_inv c'" using m(1) same_console_cong(1)[OF same] assms(1) by (simp add: c')
  show "acts c c'" using acts_trans[OF m(2) console_logs_acts] acts_refl by (simp add: c')
  show "sc_stdout (co_display c') = sc_stdout (co_display c)" "co_owner c' = co_owner c" "co_line c' = co_line c"
    "co_running c' = co_running c" "co_fg_ssh c' = co_fg_ssh c" "co_remote_quit c' = co_remote_quit c" "co_ready c' = co_ready c"
    "co_fg_uart c' = co_fg_uart c"
    using same k by (auto simp: c' same_console_def m_def)
  show "leave \<longleftrightarrow> b \<in> leave_keys" "leave \<Longrightarrow> c' = c" using c' by simp_all
  show "sc_printed (co_display c') =
       sc_printed (co_display c) @ map (Pair (sc_stdout (co_display c))) (concat (map (echoed c) (key_logs env i b c)))" if self
  proof (cases "b \<in> leave_keys")
    case False
    have "sc_printed (co_display m) = sc_printed (co_display c)" "sc_stdout (co_display m) = sc_stdout (co_display c)"
      using k by (simp_all add: m_def)
    then show ?thesis using False that by (simp add: c' console_logs_printed echo)
  qed (simp add: c' key_logs_def)
qed

lemma leave_screen_ok:
  assumes "console_inv c"
  shows "console_inv (leave_screen c)" "acts c (leave_screen c)" "co_owner (leave_screen c) = co_owner c"
    "co_running (leave_screen c) = co_running c" "co_fg_ssh (leave_screen c) = co_fg_ssh c"
    "co_remote_quit (leave_screen c) = co_remote_quit c" "co_line (leave_screen c) = co_line c"
    "co_owner c \<noteq> OWNER_NONE \<Longrightarrow> sc_printed (co_display (leave_screen c)) =
       sc_printed (co_display c) @ map (Pair (sc_stdout (co_display c))) (echoed c (LOG_UI, 4, held_line))"
proof -
  have same: "same_console c (console_log True False LOG_UI 4 held_line c)" by (rule console_log_same)
  show "console_inv (leave_screen c)"
    using assms same_console_cong(1)[OF same] by (auto simp: leave_screen_def console_inv_def in_front_def)
  show "acts c (leave_screen c)" using console_log_acts by (auto simp: leave_screen_def acts_def)
  show "co_owner (leave_screen c) = co_owner c"
    "co_running (leave_screen c) = co_running c" "co_fg_ssh (leave_screen c) = co_fg_ssh c"
    "co_remote_quit (leave_screen c) = co_remote_quit c" "co_line (leave_screen c) = co_line c"
    using same by (auto simp: leave_screen_def same_console_def)
  show "co_owner c \<noteq> OWNER_NONE \<Longrightarrow> sc_printed (co_display (leave_screen c)) =
       sc_printed (co_display c) @ map (Pair (sc_stdout (co_display c))) (echoed c (LOG_UI, 4, held_line))"
    by (simp add: leave_screen_def console_log_printed)
qed

text \<open>The lines a byte of the serial port has logged while a session owns the console.\<close>

definition serial_logs :: "console_env \<Rightarrow> u8 option \<Rightarrow> console \<Rightarrow> (facility \<times> nat \<times> string) list" where
  "serial_logs env read c =
     (case read of
        None \<Rightarrow> []
      | Some b \<Rightarrow> if co_fg_uart c = SCREEN_NONE then []
                 else if b \<in> leave_keys then [(LOG_UI, 4, held_line)] else key_logs env (co_fg_uart c) b c)"

lemma serial_key:
  fixes c :: console and b :: u8 and env :: console_env
  assumes "console_inv c" "\<not> co_running c" "co_owner c \<noteq> OWNER_UART" "co_fg_uart c \<noteq> SCREEN_NONE"
  defines "c' \<equiv> (let (leave, d) = screen_hotkey env True (co_fg_uart c) b c in if leave then leave_screen d else d)"
  shows "handled c c'" "\<not> co_running c'" "co_fg_ssh c' = co_fg_ssh c" "co_remote_quit c' = co_remote_quit c"
    "co_line c' = co_line c" "co_owner c' = co_owner c"
    "co_owner c \<noteq> OWNER_NONE \<Longrightarrow> sc_printed (co_display c') =
       sc_printed (co_display c) @ map (Pair (sc_stdout (co_display c))) (concat (map (echoed c) (serial_logs env (Some b) c)))"
proof -
  obtain leave d where h: "screen_hotkey env True (co_fg_uart c) b c = (leave, d)" by fastforce
  note k = screen_hotkey_ok[OF assms(1) h] and l = leave_screen_ok[of d]
  show "handled c c'" using k(1-4) l[OF k(1)] by (auto simp: c'_def h handled_def intro: acts_trans)
  show "\<not> co_running c'" "co_fg_ssh c' = co_fg_ssh c" "co_remote_quit c' = co_remote_quit c"
    "co_line c' = co_line c" "co_owner c' = co_owner c"
    using k l[OF k(1)] assms(2) by (auto simp: c'_def h)
  show "sc_printed (co_display c') =
       sc_printed (co_display c) @ map (Pair (sc_stdout (co_display c))) (concat (map (echoed c) (serial_logs env (Some b) c)))"
    if "co_owner c \<noteq> OWNER_NONE"
    using k(11-13) l(8)[OF k(1)] that assms(4) by (cases leave) (simp_all add: c'_def h serial_logs_def)
qed

text \<open>The pass of the serial task, by who owns the console.\<close>

lemma pass_serial:
  assumes "console_inv c" "\<not> co_running c" "co_owner c \<noteq> OWNER_SSH"
  shows "handled c (console_pass env read c)" "\<not> co_running (console_pass env read c)"
proof -
  let ?s = "settle c"
  have s: "console_inv ?s" "\<not> co_running ?s" "co_owner ?s \<noteq> OWNER_SSH" "handled c ?s"
    using settle_ok[OF assms(1)] assms(2,3) by (simp_all add: handled_def)
  define m where "m = (case read of None \<Rightarrow> ?s | Some b \<Rightarrow> if co_owner ?s = OWNER_UART then handle_byte env b ?s
      else if co_fg_uart ?s \<noteq> SCREEN_NONE
      then (let (leave, c) = screen_hotkey env True (co_fg_uart ?s) b ?s in if leave then leave_screen c else c) else ?s)"
  have "at_prompt ?s" if "co_owner ?s = OWNER_UART" using s that by (auto simp: at_prompt_def console_inv_def)
  then have m: "handled c m" "\<not> co_running m"
    unfolding m_def using s handle_byte_ok serial_key[OF s(1,2)]
    by (auto simp del: split_paired_All split: option.split intro: handled_trans[OF s(4)])
  then have "console_inv m" by (simp add: handled_def)
  from settle_ok[OF this] m have "handled c (settle m)" "\<not> co_running (settle m)"
    by (auto simp: handled_def intro: acts_trans)
  then show "handled c (console_pass env read c)" "\<not> co_running (console_pass env read c)"
    by (simp_all add: console_pass_def m_def Let_def)
qed

lemma pass_remote:
  fixes c :: console and env :: console_env and read :: "u8 option"
  assumes "console_inv c" "\<not> co_running c" "co_owner c = OWNER_SSH"
  defines "c' \<equiv> console_pass env read c"
  shows "console_inv c'" "\<not> co_running c'" "co_owner c' = OWNER_SSH" "co_fg_ssh c' = co_fg_ssh c"
    "co_remote_quit c' = co_remote_quit c" "co_line c' = co_line c"
    "sc_printed (co_display c') = sc_printed (co_display c) @
       map (Pair (sc_stdout (co_display c))) (concat (map (echoed c) (serial_logs env read c)))"
    "sc_stdout (co_display c') = sc_stdout (co_display c)"
proof -
  let ?printed = "sc_printed (co_display c) @ map (Pair (sc_stdout (co_display c))) (concat (map (echoed c) (serial_logs env read c)))"
  define m where "m = (case read of None \<Rightarrow> c | Some b \<Rightarrow> if co_fg_uart c \<noteq> SCREEN_NONE
      then (let (leave, c) = screen_hotkey env True (co_fg_uart c) b c in if leave then leave_screen c else c) else c)"
  have all: "console_inv m \<and> \<not> co_running m \<and> co_owner m = OWNER_SSH \<and> co_fg_ssh m = co_fg_ssh c \<and>
      co_remote_quit m = co_remote_quit c \<and> co_line m = co_line c \<and>
      sc_printed (co_display m) = ?printed \<and> sc_stdout (co_display m) = sc_stdout (co_display c)"
  proof (cases read)
    case None
    then show ?thesis using assms(1-3) by (simp add: m_def serial_logs_def)
  next
    case (Some b)
    have "co_owner c \<noteq> OWNER_UART" "co_owner c \<noteq> OWNER_NONE" using assms(3) by simp_all
    note key = serial_key[OF assms(1,2) this(1), of env b]
    show ?thesis
    proof (cases "co_fg_uart c = SCREEN_NONE")
      case True
      then show ?thesis using assms(1-3) Some by (simp add: m_def serial_logs_def)
    next
      case False
      have "m = (let (leave, c) = screen_hotkey env True (co_fg_uart c) b c in if leave then leave_screen c else c)"
        using False Some by (simp add: m_def)
      then show ?thesis
        using key[OF False] \<open>co_owner c \<noteq> OWNER_NONE\<close> assms(3) Some by (simp add: handled_def acts_def)
    qed
  qed
  then have m: "console_inv m" "\<not> co_running m" "co_owner m = OWNER_SSH" "co_fg_ssh m = co_fg_ssh c"
    "co_remote_quit m = co_remote_quit c" "co_line m = co_line c"
    "sc_printed (co_display m) = ?printed" "sc_stdout (co_display m) = sc_stdout (co_display c)" by blast+
  have "settle c = c" using settle_ok(5)[OF assms(1)] assms(3) by simp
  then have "c' = settle m"
    using assms(3) by (cases read) (simp_all add: c'_def console_pass_def m_def Let_def)
  then have "c' = m" using m settle_ok(5)[OF m(1)] by simp
  with m show "console_inv c'" "\<not> co_running c'" "co_owner c' = OWNER_SSH" "co_fg_ssh c' = co_fg_ssh c"
    "co_remote_quit c' = co_remote_quit c" "co_line c' = co_line c"
    "sc_printed (co_display c') = ?printed" "sc_stdout (co_display c') = sc_stdout (co_display c)"
    by simp_all
qed

text \<open>A byte of the session.\<close>

lemma remote_byte:
  assumes "console_inv c" "\<not> co_running c" "co_owner c = OWNER_SSH" "\<not> co_remote_quit c"
    "shell_remote_byte env b c = (live, c')"
  shows "handled c c'" "\<not> co_running c'" "live \<longleftrightarrow> \<not> co_remote_quit c'"
proof (atomize (full), cases "co_fg_ssh c = SCREEN_NONE")
  case True
  then have "at_prompt c" using assms by (simp add: at_prompt_def)
  from handle_byte_ok[OF this assms(2)] show "handled c c' \<and> \<not> co_running c' \<and> live = (\<not> co_remote_quit c')"
    using True assms(3,5) by (auto simp: shell_remote_byte_def Let_def)
next
  case False
  obtain leave d where h: "screen_hotkey env False (co_fg_ssh c) b c = (leave, d)" by fastforce
  note k = screen_hotkey_ok[OF assms(1) h]
  have "console_inv (leave_screen_ssh d)" "acts d (leave_screen_ssh d)"
    using k(1) by (auto simp: leave_screen_ssh_def console_inv_def in_front_def SHELL_LINE_MAX_def acts_def)
  then show "handled c c' \<and> \<not> co_running c' \<and> live = (\<not> co_remote_quit c')"
    using False k assms h
    by (auto simp: shell_remote_byte_def handled_def leave_screen_ssh_def intro: acts_trans split: if_splits)
qed

lemma async_print_ok:
  "console_inv (shell_async_print self free line c) = console_inv c"
  "session_inv ph (shell_async_print self free line c) = session_inv ph c"
  by (simp_all add: shell_async_print_def Let_def session_inv_def)

lemma log_vprintf_ok:
  "console_ok (ph, log_vprintf self free text c) = console_ok (ph, c)"
  by (simp add: log_vprintf_def Let_def console_ok_def async_print_ok)

lemma console_log_ok: "console_ok (ph, console_log self free fac color text c) = console_ok (ph, c)"
  using same_console_cong(1,2)[OF console_log_same] by (simp add: console_ok_def)

lemma draw_frame:
  "sc_sinks (draw_pass draw d) = sc_sinks d" "sc_stdout (draw_pass draw d) = sc_stdout d"
proof -
  have out: "sc_sinks (fold fb_out rs d) = sc_sinks d \<and> sc_stdout (fold fb_out rs d) = sc_stdout d" for rs d
    by (induction rs arbitrary: d) (simp_all add: fb_out_def)
  have flush: "sc_sinks (fb_flush d) = sc_sinks d \<and> sc_stdout (fb_flush d) = sc_stdout d" for d
    by (simp add: fb_flush_def Let_def read_clock_def out)
  have rep: "sc_sinks (fb_rep_loop m ch n d) = sc_sinks d \<and> sc_stdout (fb_rep_loop m ch n d) = sc_stdout d" for m ch n d
    by (induction m arbitrary: n d) (simp_all add: fb_room_def flush Let_def)
  have "sc_sinks (fb_do call d) = sc_sinks d \<and> sc_stdout (fb_do call d) = sc_stdout d" for call d
    by (cases call) (simp_all add: fb_puts_def fb_putc_def fb_rep_def fb_printf_def fb_room_def flush rep Let_def)
  then have calls: "sc_sinks (fold fb_do cs d) = sc_sinks d \<and> sc_stdout (fold fb_do cs d) = sc_stdout d" for cs d
    by (induction cs arbitrary: d) simp_all
  have "sc_sinks (paint f i now d) = sc_sinks d \<and> sc_stdout (paint f i now d) = sc_stdout d" for f i now d
    by (simp add: paint_def Let_def read_clock_def probe_frame_def flush calls)
  then have due: "sc_sinks (draw_due draw now i d) = sc_sinks d \<and> sc_stdout (draw_due draw now i d) = sc_stdout d" for now i d
    by (simp add: draw_due_def Let_def)
  show "sc_sinks (draw_pass draw d) = sc_sinks d" "sc_stdout (draw_pass draw d) = sc_stdout d"
    by (simp_all add: draw_pass_def read_clock_def due)
qed

lemma console_ok_cong:
  assumes "console_ok (ph, c)" "co_owner c' = co_owner c" "co_fg_uart c' = co_fg_uart c" "co_fg_ssh c' = co_fg_ssh c"
    "co_ready c \<longrightarrow> co_ready c'" "co_remote_quit c' = co_remote_quit c" "co_line c' = co_line c" "co_running c' = co_running c"
    "view_ok (co_view c) \<longrightarrow> view_ok (co_view c')" "sc_sinks (co_display c') = sc_sinks (co_display c)"
    "sc_stdout (co_display c') = sc_stdout (co_display c)"
  shows "console_ok (ph, c')"
  using assms by (auto simp: console_ok_def console_inv_def session_inv_def showing_def)

lemma pass_ok:
  assumes "console_ok (ph, c)"
  shows "console_ok (ph, console_pass env read c)"
proof (cases "co_owner c = OWNER_SSH")
  case True
  then show ?thesis
    using assms pass_remote[of c env read] by (auto simp: console_ok_def session_inv_def)
next
  case False
  then show ?thesis
    using assms pass_serial[of c env read] by (auto simp: console_ok_def session_inv_def handled_def acts_def console_inv_def)
qed

lemma claim_ok:
  assumes "console_ok (No_session, c)" "shell_remote_claim free c = (got, c')"
  shows "console_ok (if got then Claimed else No_session, c')"
  using assms
  by (auto simp: shell_remote_claim_def Let_def console_ok_def console_inv_def session_inv_def SHELL_LINE_MAX_def split: if_splits)

lemma close_ok: "console_ok (Restored, c) \<Longrightarrow> console_ok (No_session, shell_remote_close c)"
  by (auto simp: shell_remote_close_def Let_def console_ok_def console_inv_def session_inv_def in_front_def)

lemma step_ok:
  assumes "console_step env s s'" "console_ok s"
  shows "console_ok s'"
  using assms
proof (cases rule: console_step.cases)
  case (byte b c live c')
  with assms(2) have "console_inv c" "\<not> co_running c" "co_owner c = OWNER_SSH" "\<not> co_remote_quit c"
    "sc_stdout (co_display c) = Ssh_sink"
    by (simp_all add: console_ok_def session_inv_def)
  with remote_byte[OF this(1-4) byte(3)] show ?thesis
    by (auto simp: byte console_ok_def session_inv_def handled_def acts_def console_inv_def)
next
  case (redirect c)
  with assms(2) show ?thesis
    by (auto simp: console_ok_def session_inv_def stdio_redirect_def console_inv_def showing_def)
next
  case (restore c)
  with assms(2) show ?thesis
    by (auto simp: console_ok_def session_inv_def stdio_restore_def console_inv_def showing_def)
next
  case (opened c)
  with assms(2) show ?thesis by (auto simp: console_ok_def session_inv_def shell_remote_open_def)
next
  case (hangup c)
  with assms(2) show ?thesis by (auto simp: console_ok_def session_inv_def)
next
  case (claim free c c')
  with assms(2) claim_ok[of c free True c'] show ?thesis by simp
next
  case (busy free c c')
  with assms(2) claim_ok[of c free False c'] show ?thesis by simp
qed (use assms(2) in \<open>auto simp: log_vprintf_ok console_log_ok pass_ok close_ok shell_console_start_def adsb_log_echo_set_def draw_frame screen_register_def view_ok_def
       elim!: console_ok_cong\<close>)

lemma boot_ok: "console_ok (No_session, console_boot clock)"
  by (simp add: console_ok_def console_inv_def session_inv_def console_boot_def showing_def in_front_def view_ok_def
      SHELL_LINE_MAX_def RANGES_KM_def SORT_COUNT_def map_extent_def)

lemma reach_ok: "console_reach env s \<Longrightarrow> console_ok s"
  by (induction rule: console_reach.induct) (auto intro: boot_ok step_ok)

section \<open>What the console promises\<close>


text \<open>A console with its serial prompt up, and the same one with a session open.\<close>

definition env_example :: console_env where
  "env_example = \<lparr>ce_run = (\<lambda>line. Calls [''tui'']), ce_other = (\<lambda>argv. (0, [])), ce_text = (\<lambda>r. []),
     ce_injected = (\<lambda>n. [])\<rparr>"

definition serial_example :: console where
  "serial_example = console_pass env_example None (shell_console_start (console_boot int))"

definition session_example :: console where
  "session_example = shell_remote_open (stdio_redirect (snd (shell_remote_claim True serial_example)))"

lemma serial_example_prompt:
  "console_reach env_example (No_session, serial_example)" "co_owner serial_example = OWNER_UART"
  "co_fg_ssh serial_example = SCREEN_NONE"
proof -
  have "console_reach env_example (No_session, shell_console_start (console_boot int))"
    by (rule console_reach.step[OF console_reach.boot console_step.start])
  then show "console_reach env_example (No_session, serial_example)"
    unfolding serial_example_def by (rule console_reach.step[OF _ console_step.pass])
  show "co_owner serial_example = OWNER_UART" "co_fg_ssh serial_example = SCREEN_NONE"
    by (simp_all add: serial_example_def console_pass_def settle_def shell_console_start_def adsb_log_echo_set_def console_boot_def
        Let_def say_def)
qed

lemma session_example_open: "console_reach env_example (Serving, session_example)"
proof -
  have "shell_remote_claim True serial_example = (True, snd (shell_remote_claim True serial_example))"
    using serial_example_prompt(2) by (simp add: shell_remote_claim_def Let_def)
  then have "console_reach env_example (Claimed, snd (shell_remote_claim True serial_example))"
    by (rule console_reach.step[OF serial_example_prompt(1) console_step.claim])
  then show ?thesis
    unfolding session_example_def
    by (rule console_reach.step[OF console_reach.step[OF _ console_step.redirect] console_step.opened])
qed

text \<open>
  C7: the state of the console stays well-formed. However the serial task, the SSH task, the log and the drawing
  task take turns, the line fits its buffer; \<open>stdout\<close> leads to the session exactly while it is being
  served and until it is restored; a session owns the console from its claim to its close; each
  transport is attached to the display in front of it and to nothing else; and a display or a request
  to quit on the session's side never outlives the session.
\<close>

theorem console_well_formed:
  assumes "console_reach env (ph, c)"
  shows "length (co_line c) < SHELL_LINE_MAX \<and> view_ok (co_view c) \<and>
    (co_owner c = OWNER_SSH \<longleftrightarrow> ph \<noteq> No_session) \<and>
    sc_stdout (co_display c) = (if ph \<in> {Redirected, Serving, Leaving} then Ssh_sink else Uart_sink) \<and>
    showing Uart_sink (co_display c) = in_front (co_fg_uart c) \<and>
    showing Ssh_sink (co_display c) = in_front (co_fg_ssh c) \<and>
    (co_owner c = OWNER_UART \<longrightarrow> co_fg_uart c = SCREEN_NONE) \<and>
    (co_fg_ssh c \<noteq> SCREEN_NONE \<longrightarrow> co_owner c = OWNER_SSH) \<and> (co_remote_quit c \<longrightarrow> ph \<in> {Leaving, Restored})"
  using reach_ok[OF assms] by (auto simp: console_ok_def console_inv_def session_inv_def)

lemma console_well_formed_witness:
  "length (co_line session_example) < SHELL_LINE_MAX \<and> co_owner session_example = OWNER_SSH \<and>
   sc_stdout (co_display session_example) = Ssh_sink"
  using console_well_formed[OF session_example_open] by simp

lemma sky_and_keys_not_echoed:
  assumes "level \<in> {ADSB_ECHO_SYS, ADSB_ECHO_OFF}" "lg_echo (co_log c) = level"
  shows "concat (map (echoed c) (serial_logs env read c)) = []"
  using assms by (auto simp: serial_logs_def key_logs_def echoed_def echo_wanted_def Let_def split: option.splits if_splits)

text \<open>
  C22: the two transports are kept apart. In any reachable state a byte typed on the serial port prints on the serial
  port only, as long as no session owns the console. While a session does, such a byte leaves the session's
  line alone, and all that it can print are lines of the event log that the echo lets through: the line that says why the
  display is not left, and the lines of a synthetic contact that is made at once. These go to whoever owns the console, which
  is the session from the moment \<open>stdout\<close> leads to it; each is
  drawn above the session's prompt, which is drawn again with the line typed so far, and none is drawn
  while the session has a display in front. At the default echo level of a running console, and with
  the echo off, nothing at all is printed. A byte of a session that is being served prints into the session only.
\<close>

theorem transports_kept_apart:
  assumes "console_reach env (ph, c)"
  shows "(co_owner c \<noteq> OWNER_SSH \<longrightarrow> (\<exists>out. sc_printed (co_display (console_pass env read c)) =
       sc_printed (co_display c) @ map (Pair Uart_sink) out)) \<and>
    (co_owner c = OWNER_SSH \<longrightarrow> co_line (console_pass env read c) = co_line c \<and>
       sc_printed (co_display (console_pass env read c)) = sc_printed (co_display c) @
         map (Pair (sc_stdout (co_display c))) (concat (map (echoed c) (serial_logs env read c))) \<and>
       (lg_echo (co_log c) \<in> {ADSB_ECHO_SYS, ADSB_ECHO_OFF} \<longrightarrow>
         sc_printed (co_display (console_pass env read c)) = sc_printed (co_display c))) \<and>
    (ph = Serving \<longrightarrow> (\<exists>out. sc_printed (co_display (snd (shell_remote_byte env b c))) =
       sc_printed (co_display c) @ map (Pair Ssh_sink) out))"
proof (intro conjI impI)
  have ok: "console_inv c" "session_inv ph c" using reach_ok[OF assms] by (simp_all add: console_ok_def)
  then have idle: "\<not> co_running c" by (simp add: session_inv_def)
  show "\<exists>out. sc_printed (co_display (console_pass env read c)) = sc_printed (co_display c) @ map (Pair Uart_sink) out"
    if "co_owner c \<noteq> OWNER_SSH"
    using ok that pass_serial[of c env read] by (auto simp: session_inv_def handled_def acts_def)
  note remote = pass_remote[OF ok(1) idle, of env read]
  show "co_line (console_pass env read c) = co_line c"
    "sc_printed (co_display (console_pass env read c)) = sc_printed (co_display c) @
         map (Pair (sc_stdout (co_display c))) (concat (map (echoed c) (serial_logs env read c)))" if "co_owner c = OWNER_SSH"
    using remote that by simp_all
  show "sc_printed (co_display (console_pass env read c)) = sc_printed (co_display c)"
    if "co_owner c = OWNER_SSH" "lg_echo (co_log c) \<in> {ADSB_ECHO_SYS, ADSB_ECHO_OFF}"
    using remote(7)[OF that(1)] sky_and_keys_not_echoed[OF that(2) refl, of env read] by simp
  show "\<exists>out. sc_printed (co_display (snd (shell_remote_byte env b c))) = sc_printed (co_display c) @ map (Pair Ssh_sink) out"
    if "ph = Serving"
    using ok that remote_byte(1)[of c env b "fst (shell_remote_byte env b c)" "snd (shell_remote_byte env b c)"]
    by (auto simp: session_inv_def handled_def acts_def)
qed

lemma transports_kept_apart_witness:
  "sc_printed (co_display (console_pass env_example (Some 0x71) session_example)) = sc_printed (co_display session_example)"
proof -
  have "co_owner session_example = OWNER_SSH"
    using reach_ok[OF session_example_open] by (simp add: console_ok_def session_inv_def)
  moreover have "lg_echo (co_log session_example) = ADSB_ECHO_SYS"
    using serial_example_prompt(2)
    by (simp add: session_example_def shell_remote_open_def stdio_redirect_def shell_remote_claim_def Let_def serial_example_def
        console_pass_def settle_def shell_console_start_def adsb_log_echo_set_def console_boot_def)
  ultimately show ?thesis
    using transports_kept_apart[OF session_example_open, where read = "Some 0x71"] by blast
qed

text \<open>
  A display that is asked for is given. Whoever runs a command in a reachable state, with no display in
  front of it, finds a free slot: \<open>tui\<close> and \<open>top\<close> never fail for want of one, and afterwards the
  transport is attached to the display asked for and to no other.
\<close>

theorem display_never_refused:
  assumes "console_reach env (ph, c)" "co_owner c = OWNER_UART \<or> ph = Serving \<and> co_fg_ssh c = SCREEN_NONE" "i \<noteq> SCREEN_NONE"
  shows "fst (enter_screen env i c) = ESP_OK \<and>
    showing (if co_owner c = OWNER_SSH then Ssh_sink else Uart_sink) (co_display (snd (enter_screen env i c))) = [i]"
proof -
  have "at_prompt c"
    using reach_ok[OF assms(1)] assms(2) by (auto simp: at_prompt_def console_ok_def session_inv_def console_inv_def)
  from enter_screen_ok[OF this assms(3)] show ?thesis by simp
qed

lemma display_never_refused_witness:
  "fst (enter_screen env_example SCREEN_TOP serial_example) = ESP_OK \<and>
   showing Uart_sink (co_display (snd (enter_screen env_example SCREEN_TOP serial_example))) = [SCREEN_TOP]"
  using display_never_refused[OF serial_example_prompt(1)] serial_example_prompt(2) by simp

end
