(* ===== verification/Ota.thy ===== *)
theory Ota
  imports Prelude
begin

text \<open>
  Updates over the air (\<open>main/ota.c\<close>): the upload handler over the partition calls of ESP-IDF, with the socket's
  and the flash's answers as arguments, and the confirmation of a new image after boot.
\<close>

section \<open>The upload\<close>

definition OTA_RECV_BUF :: int where
  "OTA_RECV_BUF = 4096"

definition OTA_RECV_IDLE_MAX :: nat where
  "OTA_RECV_IDLE_MAX = 6"

text \<open>What \<open>httpd_req_recv\<close> returns: its timeout, another error, or bytes (none when the peer has closed).\<close>

datatype recv = Recv_timeout | Recv_error | Recv_data "u8 list"

datatype http = Http_ok | Http_bad_request | Http_timeout | Http_server_error

datatype ota_event = Ota_begin | Ota_recv recv | Ota_write "u8 list" int | Ota_abort | Ota_end | Ota_set_boot
  | Ota_reply http | Ota_restart

text \<open>The answers of the system: a result of 0 is \<open>ESP_OK\<close>, and a write's event carries the result it had. \<open>oe_recv\<close> and \<open>oe_write\<close> are indexed by the call.\<close>

record ota_env =
  oe_target :: bool
  oe_begin :: int
  oe_malloc :: bool
  oe_recv :: "nat \<Rightarrow> int \<Rightarrow> recv"
  oe_write :: "nat \<Rightarrow> int"
  oe_end :: int
  oe_set_boot :: int

text \<open>
  The receive loop from the number of bytes that remain, the timeouts in a row and the calls made so far: whether it
  went through, and what it did.
\<close>

function ota_loop :: "ota_env \<Rightarrow> int \<Rightarrow> nat \<Rightarrow> nat \<Rightarrow> nat \<Rightarrow> bool \<times> ota_event list" where
  "ota_loop env remaining idle calls writes =
     (if remaining \<le> 0 then (True, [])
      else let want = (if remaining < OTA_RECV_BUF then remaining else OTA_RECV_BUF); r = oe_recv env calls want
           in case r of
                Recv_timeout \<Rightarrow>
                  if OTA_RECV_IDLE_MAX \<le> idle + 1
                  then (False, [Ota_recv r, Ota_abort, Ota_reply Http_timeout])
                  else (let (ok, tr) = ota_loop env remaining (idle + 1) (calls + 1) writes in (ok, Ota_recv r # tr))
              | Recv_error \<Rightarrow> (False, [Ota_recv r, Ota_abort, Ota_reply Http_bad_request])
              | Recv_data buf \<Rightarrow>
                  if buf = [] then (False, [Ota_recv r, Ota_abort, Ota_reply Http_bad_request])
                  else let result = oe_write env writes
                       in if result \<noteq> 0
                          then (False, [Ota_recv r, Ota_write buf result, Ota_abort, Ota_reply Http_server_error])
                          else (let (ok, tr) = ota_loop env (remaining - int (length buf)) 0 (calls + 1) (writes + 1)
                                in (ok, Ota_recv r # Ota_write buf result # tr)))"
  by pat_completeness auto

termination
  by (relation "measures [\<lambda>(env, remaining, idle, calls, writes). nat remaining,
      \<lambda>(env, remaining, idle, calls, writes). OTA_RECV_IDLE_MAX - idle]") auto

declare ota_loop.simps [simp del]

definition ota_post :: "ota_env \<Rightarrow> int \<Rightarrow> bool \<times> ota_event list" where
  "ota_post env content_len =
     (if \<not> oe_target env then (False, [Ota_reply Http_server_error])
      else if oe_begin env \<noteq> 0 then (False, [Ota_reply Http_server_error])
      else if \<not> oe_malloc env then (False, [Ota_begin, Ota_abort, Ota_reply Http_server_error])
      else let (ok, tr) = ota_loop env content_len 0 0 0
           in if \<not> ok then (False, Ota_begin # tr)
              else if oe_end env \<noteq> 0 then (False, Ota_begin # tr @ [Ota_end, Ota_reply Http_server_error])
              else if oe_set_boot env \<noteq> 0
              then (False, Ota_begin # tr @ [Ota_end, Ota_set_boot, Ota_reply Http_server_error])
              else (True, Ota_begin # tr @ [Ota_end, Ota_set_boot, Ota_reply Http_ok, Ota_restart]))"

text \<open>The confirmation task, with the state of the running image: whether it is confirmed now.\<close>

datatype image_state = Img_new | Img_pending_verify | Img_valid | Img_invalid | Img_aborted | Img_undefined

definition confirm_task :: "image_state option \<Rightarrow> image_state option" where
  "confirm_task st = (if st = Some Img_pending_verify then Some Img_valid else st)"

section \<open>What is booted is what was sent\<close>

text \<open>The trace of a loop that goes through, every write with the result \<open>ESP_OK\<close>, and the bytes it carries over.\<close>

inductive upload :: "ota_event list \<Rightarrow> u8 list \<Rightarrow> bool" where
  finished: "upload [] []"
| idle: "upload tr p \<Longrightarrow> upload (Ota_recv Recv_timeout # tr) p"
| chunk: "upload tr p \<Longrightarrow> buf \<noteq> [] \<Longrightarrow> upload (Ota_recv (Recv_data buf) # Ota_write buf 0 # tr) (buf @ p)"

text \<open>How a loop ends that does not: the handle is given up and the client is told.\<close>

definition gives_up :: "ota_event list \<Rightarrow> bool" where
  "gives_up tr \<longleftrightarrow> (\<exists>r pre h. tr = Ota_recv r # pre @ [Ota_abort, Ota_reply h] \<and> h \<noteq> Http_ok \<and>
     (pre = [] \<or> (\<exists>buf e. r = Recv_data buf \<and> e \<noteq> 0 \<and> pre = [Ota_write buf e])))"

text \<open>\<open>httpd_req_recv\<close> never gives more than it is asked for.\<close>

definition recv_bounded :: "ota_env \<Rightarrow> bool" where
  "recv_bounded env \<longleftrightarrow> (\<forall>n want buf. oe_recv env n want = Recv_data buf \<longrightarrow> int (length buf) \<le> want)"

definition receives :: "ota_event list \<Rightarrow> nat" where
  "receives tr = length (filter (\<lambda>e. \<exists>r. e = Ota_recv r) tr)"

lemma receives_simps [simp]:
  "receives [] = 0" "receives (Ota_recv r # tr) = Suc (receives tr)" "receives (Ota_write b e # tr) = receives tr"
  "receives (Ota_begin # tr) = receives tr" "receives (Ota_abort # tr) = receives tr" "receives (Ota_end # tr) = receives tr"
  "receives (Ota_set_boot # tr) = receives tr" "receives (Ota_reply h # tr) = receives tr"
  "receives (Ota_restart # tr) = receives tr" "receives (tr @ tr') = receives tr + receives tr'"
  by (simp_all add: receives_def)

lemma gives_upI:
  "h \<noteq> Http_ok \<Longrightarrow> gives_up [Ota_recv r, Ota_abort, Ota_reply h]"
  "h \<noteq> Http_ok \<Longrightarrow> e \<noteq> 0 \<Longrightarrow> gives_up [Ota_recv (Recv_data buf), Ota_write buf e, Ota_abort, Ota_reply h]"
  unfolding gives_up_def by (auto intro: exI[of _ "[]"] exI[of _ "[Ota_write buf e]"])

text \<open>One round of the loop: it gives up, waits once more or carries a chunk over.\<close>

lemma ota_loop_round:
  assumes "recv_bounded env" "0 < remaining" "ota_loop env remaining idle calls writes = (ok, tr)"
  obtains (stop) "\<not> ok" "gives_up tr"
  | (idle) tr' where "ota_loop env remaining (idle + 1) (calls + 1) writes = (ok, tr')" "tr = Ota_recv Recv_timeout # tr'"
      "idle + 1 < OTA_RECV_IDLE_MAX"
  | (chunk) buf tr' where "ota_loop env (remaining - int (length buf)) 0 (calls + 1) (writes + 1) = (ok, tr')"
      "tr = Ota_recv (Recv_data buf) # Ota_write buf 0 # tr'" "buf \<noteq> []" "int (length buf) \<le> remaining"
proof -
  define want where "want = (if remaining < OTA_RECV_BUF then remaining else OTA_RECV_BUF)"
  define r where "r = oe_recv env calls want"
  have round: "ota_loop env remaining idle calls writes = (case r of
      Recv_timeout \<Rightarrow> if OTA_RECV_IDLE_MAX \<le> idle + 1 then (False, [Ota_recv r, Ota_abort, Ota_reply Http_timeout])
        else (let (ok, tr) = ota_loop env remaining (idle + 1) (calls + 1) writes in (ok, Ota_recv r # tr))
    | Recv_error \<Rightarrow> (False, [Ota_recv r, Ota_abort, Ota_reply Http_bad_request])
    | Recv_data buf \<Rightarrow> if buf = [] then (False, [Ota_recv r, Ota_abort, Ota_reply Http_bad_request])
        else if oe_write env writes \<noteq> 0
        then (False, [Ota_recv r, Ota_write buf (oe_write env writes), Ota_abort, Ota_reply Http_server_error])
        else (let (ok, tr) = ota_loop env (remaining - int (length buf)) 0 (calls + 1) (writes + 1)
              in (ok, Ota_recv r # Ota_write buf 0 # tr)))"
    using assms(2) by (subst ota_loop.simps, cases r) (simp_all add: Let_def r_def want_def)
  have "int (length buf) \<le> remaining" if "r = Recv_data buf" for buf
    using assms(1) that[unfolded r_def] unfolding recv_bounded_def want_def by (smt (verit))
  then show ?thesis
    using assms(3)[unfolded round] that
    by (cases r) (auto simp: gives_upI split: if_splits prod.splits)
qed

lemma ota_loop_finished: "remaining \<le> 0 \<Longrightarrow> ota_loop env remaining idle calls writes = (True, [])"
  by (subst ota_loop.simps) simp

lemma ota_loop_trace:
  assumes "recv_bounded env" "0 \<le> remaining" "ota_loop env remaining idle calls writes = (ok, tr)"
  shows "(ok \<longrightarrow> (\<exists>p. upload tr p \<and> int (length p) = remaining)) \<and>
    (\<not> ok \<longrightarrow> (\<exists>tr1 p tr2. tr = tr1 @ tr2 \<and> upload tr1 p \<and> gives_up tr2))"
  using assms
proof (induction "7 * nat remaining + (OTA_RECV_IDLE_MAX - idle)" arbitrary: remaining idle calls writes ok tr rule: less_induct)
  case less
  show ?case
  proof (cases "remaining = 0")
    case True
    then show ?thesis using less.prems(3) ota_loop_finished[of remaining] by (auto intro: upload.finished)
  next
    case False
    then have pos: "0 < remaining" using less.prems(2) by simp
    from less.prems(1) pos less.prems(3) show ?thesis
    proof (cases rule: ota_loop_round)
      case stop
      then show ?thesis using upload.finished by (metis append_Nil)
    next
      case (idle tr')
      then have "7 * nat remaining + (OTA_RECV_IDLE_MAX - (idle + 1)) < 7 * nat remaining + (OTA_RECV_IDLE_MAX - idle)" by simp
      from less.hyps[OF this less.prems(1,2) idle(1)] show ?thesis
        unfolding idle(2) by (metis append_Cons upload.idle)
    next
      case (chunk buf tr')
      then have "7 * nat (remaining - int (length buf)) + (OTA_RECV_IDLE_MAX - 0) < 7 * nat remaining + (OTA_RECV_IDLE_MAX - idle)"
        "0 \<le> remaining - int (length buf)"
        using pos by (cases buf; simp add: OTA_RECV_IDLE_MAX_def; linarith)+
      from less.hyps[OF this(1) less.prems(1) this(2) chunk(1)] show ?thesis
        unfolding chunk(2) by (auto; metis append_Cons upload.chunk[OF _ chunk(3)] length_append of_nat_add add_diff_cancel_left' diff_add_cancel add.commute)
    qed
  qed
qed

lemma ota_loop_receives:
  assumes "recv_bounded env" "0 \<le> remaining" "idle < OTA_RECV_IDLE_MAX" "ota_loop env remaining idle calls writes = (ok, tr)"
  shows "receives tr + idle \<le> OTA_RECV_IDLE_MAX * (nat remaining + 1)"
  using assms
proof (induction "7 * nat remaining + (OTA_RECV_IDLE_MAX - idle)" arbitrary: remaining idle calls writes ok tr rule: less_induct)
  case less
  show ?case
  proof (cases "remaining = 0")
    case True
    then show ?thesis using less.prems(3,4) ota_loop_finished[of remaining] by auto
  next
    case False
    then have pos: "0 < remaining" using less.prems(2) by simp
    from less.prems(1) pos less.prems(4) show ?thesis
    proof (cases rule: ota_loop_round)
      case stop
      then have "receives tr = 1" by (auto simp: gives_up_def)
      then show ?thesis using less.prems(3) by simp
    next
      case (idle tr')
      then have "7 * nat remaining + (OTA_RECV_IDLE_MAX - (idle + 1)) < 7 * nat remaining + (OTA_RECV_IDLE_MAX - idle)" by simp
      from less.hyps[OF this less.prems(1,2) idle(3,1)] show ?thesis unfolding idle(2) by simp
    next
      case (chunk buf tr')
      then have a: "7 * nat (remaining - int (length buf)) + (OTA_RECV_IDLE_MAX - 0) < 7 * nat remaining + (OTA_RECV_IDLE_MAX - idle)"
        "0 \<le> remaining - int (length buf)" "nat (remaining - int (length buf)) + 1 \<le> nat remaining" "0 < OTA_RECV_IDLE_MAX"
        using pos by (cases buf; simp add: OTA_RECV_IDLE_MAX_def; linarith)+
      have "receives tr' \<le> OTA_RECV_IDLE_MAX * (nat (remaining - int (length buf)) + 1)"
        using less.hyps[OF a(1) less.prems(1) a(2,4) chunk(1)] by simp
      also have "\<dots> \<le> OTA_RECV_IDLE_MAX * nat remaining" using a(3) by (rule mult_left_mono) simp
      finally show ?thesis unfolding chunk(2) using less.prems(3) by simp
    qed
  qed
qed

lemma upload_events: "upload tr p \<Longrightarrow> e \<in> set tr \<Longrightarrow> (\<exists>r. e = Ota_recv r) \<or> (\<exists>buf. e = Ota_write buf 0)"
  by (induction rule: upload.induct) auto

lemma upload_not:
  assumes "upload tr p"
  shows "Ota_begin \<notin> set tr" "Ota_abort \<notin> set tr" "Ota_end \<notin> set tr" "Ota_set_boot \<notin> set tr" "Ota_restart \<notin> set tr"
    "Ota_reply h \<notin> set tr"
  using upload_events[OF assms] by blast+

lemma gives_up_events:
  assumes "gives_up tr"
  shows "Ota_abort \<in> set tr" "Ota_begin \<notin> set tr" "Ota_end \<notin> set tr" "Ota_set_boot \<notin> set tr" "Ota_restart \<notin> set tr"
    "Ota_reply Http_ok \<notin> set tr"
  using assms by (auto simp: gives_up_def)

text \<open>
  C8: only a whole image is ever booted. If the handler gets as far as selecting the new partition, it has
  begun it, written exactly \<open>content_len\<close> bytes to it, the very bytes the socket delivered and in that
  order, every single write having succeeded, and the image has passed validation; the board restarts and the client is told of success
  only then, and in no other case. Whatever the socket and the flash answer, the handle that was
  begun is either ended or aborted, never both and never left open, and the handler returns after at
  most six receive calls for each byte announced and six more.
\<close>

theorem ota_boots_sent_image:
  assumes "recv_bounded env" "0 \<le> content_len" "ota_post env content_len = (ok, tr)"
  shows "(Ota_set_boot \<in> set tr \<longrightarrow> oe_end env = 0 \<and>
       (\<exists>up p rest. upload up p \<and> int (length p) = content_len \<and> tr = Ota_begin # up @ Ota_end # Ota_set_boot # rest)) \<and>
    (ok \<longleftrightarrow> Ota_restart \<in> set tr) \<and> (ok \<longleftrightarrow> Ota_reply Http_ok \<in> set tr) \<and> (ok \<longrightarrow> Ota_set_boot \<in> set tr) \<and>
    (Ota_begin \<in> set tr \<longrightarrow> (Ota_end \<in> set tr \<longleftrightarrow> Ota_abort \<notin> set tr)) \<and>
    receives tr \<le> OTA_RECV_IDLE_MAX * (nat content_len + 1)"
proof (cases "oe_target env \<and> oe_begin env = 0 \<and> oe_malloc env")
  case False
  then show ?thesis using assms(3) by (auto simp: ota_post_def split: if_splits)
next
  case True
  obtain ok' up where l: "ota_loop env content_len 0 0 0 = (ok', up)" by fastforce
  note trace = ota_loop_trace[OF assms(1,2) l]
  have bound: "receives up \<le> OTA_RECV_IDLE_MAX * (nat content_len + 1)"
    using ota_loop_receives[OF assms(1,2) _ l] by (simp add: OTA_RECV_IDLE_MAX_def)
  show ?thesis
  proof (cases ok')
    case False
    then have post: "ok = False" "tr = Ota_begin # up" using assms(3) True l by (simp_all add: ota_post_def)
    obtain tr1 p tr2 where "up = tr1 @ tr2" "upload tr1 p" "gives_up tr2" using trace False by blast
    then show ?thesis using bound upload_not[of tr1 p] gives_up_events[of tr2] by (simp add: post)
  next
    case go: True
    then obtain p where p: "upload up p" "int (length p) = content_len" using trace by blast
    show ?thesis using assms(3) True l go bound p upload_not[OF p(1)]
      by (auto simp: ota_post_def split: if_splits)
  qed
qed

text \<open>Five bytes in two chunks, the second one late.\<close>

definition ota_example :: ota_env where
  "ota_example = \<lparr>oe_target = True, oe_begin = 0, oe_malloc = True,
     oe_recv = (\<lambda>n want. if n = 0 \<and> 3 \<le> want then Recv_data [0xe9, 1, 2] else if n = 1 then Recv_timeout
       else if 2 \<le> want then Recv_data [3, 4] else Recv_error),
     oe_write = (\<lambda>n. 0), oe_end = 0, oe_set_boot = 0\<rparr>"

lemma ota_boots_sent_image_witness:
  "recv_bounded ota_example \<and> fst (ota_post ota_example 5) \<and> Ota_restart \<in> set (snd (ota_post ota_example 5)) \<and>
   receives (snd (ota_post ota_example 5)) \<le> 36"
proof -
  have bounded: "recv_bounded ota_example" by (auto simp: recv_bounded_def ota_example_def split: if_splits)
  have "fst (ota_post ota_example 5)"
    by (simp add: ota_post_def ota_example_def ota_loop.simps OTA_RECV_BUF_def OTA_RECV_IDLE_MAX_def)
  then obtain tr where tr: "ota_post ota_example 5 = (True, tr)" by (metis prod.collapse)
  from ota_boots_sent_image[OF bounded _ tr] show ?thesis using bounded tr by (simp add: OTA_RECV_IDLE_MAX_def)
qed

end
