(* ===== verification/NetSsh.thy ===== *)
theory NetSsh
  imports Ring
begin

text \<open>
  What an SSH session is sent (\<open>main/net_ssh.c\<close>): the stream \<open>stdout\<close> is pointed at, the ring any task may write to
  and the draining of it by the session's task; the login it asks for.
\<close>

section \<open>The ring\<close>

definition OUT_RING_SZ :: nat where
  "OUT_RING_SZ = 16384"

text \<open>
  \<open>so_ring\<close>, \<open>so_head\<close> and \<open>so_tail\<close> are the ring, \<open>so_prev\<close> is the last byte \<open>out_write\<close> was given, \<open>so_received\<close>
  logs what went into the channel. The count of dropped bytes is not wrapped.
\<close>

record ssh_out =
  so_ring :: "u8 list"
  so_head :: nat
  so_tail :: nat
  so_dropped :: nat
  so_prev :: u8
  so_received :: "u8 list"

text \<open>The size divides the range of \<open>size_t\<close>, so its wrap does not show.\<close>

definition ssh_used :: "ssh_out \<Rightarrow> nat" where
  "ssh_used s = nat ((int (so_head s) - int (so_tail s)) mod int OUT_RING_SZ)"

definition ring_put :: "u8 \<Rightarrow> ssh_out \<Rightarrow> ssh_out" where
  "ring_put b s = s\<lparr>so_ring := (so_ring s)[so_head s := b], so_head := (so_head s + 1) mod OUT_RING_SZ\<rparr>"

text \<open>\<open>free\<close>: the mutex could be taken at once. The result is the number of bytes taken.\<close>

definition ssh_push :: "bool \<Rightarrow> u8 list \<Rightarrow> ssh_out \<Rightarrow> nat \<times> ssh_out" where
  "ssh_push free data s =
     (if \<not> free then (0, s)
      else let space = OUT_RING_SZ - 1 - ssh_used s; n = (if space < length data then space else length data)
           in (n, fold ring_put (take n data) s))"

definition log_push :: "bool \<Rightarrow> u8 list \<Rightarrow> ssh_out \<Rightarrow> ssh_out" where
  "log_push free data s =
     (let (n, s) = ssh_push free data s in s\<lparr>so_dropped := so_dropped s + (length data - n)\<rparr>)"

primrec pop_loop :: "nat \<Rightarrow> ssh_out \<Rightarrow> u8 list \<times> ssh_out" where
  "pop_loop 0 s = ([], s)"
| "pop_loop (Suc n) s =
     (let b = so_ring s ! so_tail s; (bs, s) = pop_loop n (s\<lparr>so_tail := (so_tail s + 1) mod OUT_RING_SZ\<rparr>) in (b # bs, s))"

definition ssh_pop :: "nat \<Rightarrow> ssh_out \<Rightarrow> u8 list \<times> ssh_out" where
  "ssh_pop room s = (let n = ssh_used s in pop_loop (if room < n then room else n) s)"

definition ssh_ring_reset :: "ssh_out \<Rightarrow> ssh_out" where
  "ssh_ring_reset s = s\<lparr>so_head := 0, so_tail := 0, so_dropped := 0\<rparr>"

section \<open>The stream\<close>

text \<open>The pieces \<open>out_write\<close> pushes: the runs between bare line feeds, and CR LF for each of these.\<close>

function out_loop :: "u8 \<Rightarrow> u8 list \<Rightarrow> nat \<Rightarrow> nat \<Rightarrow> u8 list list" where
  "out_loop prev data i start =
     (if length data \<le> i then (if start < length data then [drop start data] else [])
      else if data ! i \<noteq> 10 then out_loop prev data (i + 1) start
      else if (if 0 < i then data ! (i - 1) else prev) = 13 then out_loop prev data (i + 1) start
      else (if start < i then [take (i - start) (drop start data)] else []) @ [13, 10] # out_loop prev data (i + 1) (i + 1))"
  by pat_completeness auto

termination
  by (relation "measure (\<lambda>(prev, data, i, start). length data - i)") auto

declare out_loop.simps [simp del]

text \<open>\<open>frees\<close> says of each piece whether the mutex could be taken for it.\<close>

definition out_write :: "(nat \<Rightarrow> bool) \<Rightarrow> u8 list \<Rightarrow> ssh_out \<Rightarrow> ssh_out" where
  "out_write frees data s =
     (if data = [] then s
      else let ps = out_loop (so_prev s) data 0 0
           in (fold (\<lambda>(k, p). log_push (frees k) p) (enumerate 0 ps) s)\<lparr>so_prev := last data\<rparr>)"

section \<open>Draining, and the writers that wait\<close>

text \<open>How a write into the channel ends: it fails, the time is up after it, or the loop goes on.\<close>

datatype flush_answer = Write_failed | Time_up | Go_on

lemma ssh_used_pop: "0 < ssh_used s \<Longrightarrow> ssh_used (s\<lparr>so_tail := (so_tail s + 1) mod OUT_RING_SZ\<rparr>) = ssh_used s - 1"
proof -
  define d where "d = int (so_head s) - int (so_tail s)"
  assume "0 < ssh_used s"
  then have "0 < d mod 16384" by (simp add: ssh_used_def d_def OUT_RING_SZ_def)
  moreover have "d mod 16384 < 16384" by simp
  ultimately have "(d mod 16384 - 1) mod 16384 = d mod 16384 - 1" by (intro mod_pos_pos_trivial) linarith+
  then have "(d - 1) mod 16384 = d mod 16384 - 1" by (simp only: mod_diff_left_eq)
  moreover have "(int (so_head s) - int ((so_tail s + 1) mod 16384)) mod 16384 = (d - 1) mod 16384"
    by (simp add: d_def of_nat_mod mod_diff_right_eq algebra_simps)
  ultimately show ?thesis by (simp add: ssh_used_def OUT_RING_SZ_def d_def[symmetric] nat_diff_distrib)
qed

lemma ssh_used_pop_loop: "n \<le> ssh_used s \<Longrightarrow> ssh_used (snd (pop_loop n s)) = ssh_used s - n \<and> length (fst (pop_loop n s)) = n"
proof (induction n arbitrary: s)
  case (Suc n)
  let ?s = "s\<lparr>so_tail := (so_tail s + 1) mod OUT_RING_SZ\<rparr>"
  have "ssh_used ?s = ssh_used s - 1" using Suc.prems by (intro ssh_used_pop) simp
  then show ?case using Suc.IH[of ?s] Suc.prems by (simp add: split_beta Let_def)
qed simp

lemma ssh_pop_length: "ssh_pop room s = (buf, s') \<Longrightarrow> length buf = min room (ssh_used s) \<and> ssh_used s' = ssh_used s - length buf"
proof -
  assume "ssh_pop room s = (buf, s')"
  moreover have "(if room < ssh_used s then room else ssh_used s) = min room (ssh_used s)" by simp
  ultimately have "pop_loop (min room (ssh_used s)) s = (buf, s')" by (simp add: ssh_pop_def Let_def)
  then show ?thesis using ssh_used_pop_loop[of "min room (ssh_used s)" s] by simp
qed

lemma ssh_used_frame [simp]:
  "ssh_used (s\<lparr>so_received := r\<rparr>) = ssh_used s" "ssh_used (s\<lparr>so_dropped := n\<rparr>) = ssh_used s"
  "ssh_used (s\<lparr>so_prev := b\<rparr>) = ssh_used s"
  by (simp_all add: ssh_used_def)

text \<open>The loop of \<open>flush_ring\<close>, with the answers to its writes counted from \<open>k\<close>: whether the channel held.\<close>

function flush_ring :: "(nat \<Rightarrow> flush_answer) \<Rightarrow> nat \<Rightarrow> ssh_out \<Rightarrow> bool \<times> ssh_out" where
  "flush_ring answer k s =
     (let (buf, s') = ssh_pop 512 s
      in if buf = [] then (True, s')
         else if answer k = Write_failed then (False, s')
         else let s' = s'\<lparr>so_received := so_received s' @ buf\<rparr>
              in if answer k = Time_up then (True, s') else flush_ring answer (k + 1) s')"
  by pat_completeness auto

termination
proof (relation "measure (\<lambda>(answer, k, s). ssh_used s)", goal_cases)
  case (2 answer k s x buf s' t)
  then show ?case using ssh_pop_length[of 512 s buf s'] by (auto simp flip: length_greater_0_conv)
qed simp

declare flush_ring.simps [simp del]

definition TUI_STALL_MS :: nat where
  "TUI_STALL_MS = 200"

text \<open>
  A frame waits for room: \<open>drain k\<close> is what the session's task does to the ring during the k-th wait, \<open>frees k\<close> whether
  the mutex could be taken for the k-th push. Ten milliseconds are waited between two pushes.
\<close>

function tui_loop :: "(nat \<Rightarrow> bool) \<Rightarrow> (nat \<Rightarrow> ssh_out \<Rightarrow> ssh_out) \<Rightarrow> nat \<Rightarrow> u8 list \<Rightarrow> ssh_out \<Rightarrow> ssh_out" where
  "tui_loop frees drain waited data s =
     (if data = [] then s
      else let (n, s) = ssh_push (frees (waited div 10)) data s; data = drop n data
           in if data = [] then s
              else if TUI_STALL_MS \<le> waited then s\<lparr>so_dropped := so_dropped s + length data\<rparr>
              else tui_loop frees drain (waited + 10) data (drain (waited div 10) s))"
  by pat_completeness auto

termination
  by (relation "measure (\<lambda>(frees, drain, waited, data, s). TUI_STALL_MS - waited)") auto

declare tui_loop.simps [simp del]

definition net_ssh_tui_write :: "(nat \<Rightarrow> bool) \<Rightarrow> (nat \<Rightarrow> ssh_out \<Rightarrow> ssh_out) \<Rightarrow> bool \<Rightarrow> u8 list \<Rightarrow> ssh_out \<Rightarrow> ssh_out" where
  "net_ssh_tui_write frees drain session data s = (if \<not> session then s else tui_loop frees drain 0 data s)"

section \<open>The login\<close>

record login =
  lo_user :: string
  lo_pass :: string

text \<open>
  What is read from flash, where it is there and fits its buffer; the name has a default. \<open>opened\<close> says whether the name
  space could be opened: otherwise both stay empty.
\<close>

definition load_login :: "bool \<Rightarrow> string option \<Rightarrow> string option \<Rightarrow> login" where
  "load_login opened user pass =
     (if \<not> opened then \<lparr>lo_user = [], lo_pass = []\<rparr>
      else let get = (\<lambda>v cap. case v of Some t \<Rightarrow> if length t < cap then t else [] | None \<Rightarrow> []);
          u = get user (32 :: nat); p = get pass 64
      in \<lparr>lo_user = if u = [] then ''p4'' else u, lo_pass = p\<rparr>)"

datatype auth_answer = SSH_AUTH_SUCCESS | SSH_AUTH_DENIED

definition cb_auth_password :: "login \<Rightarrow> string \<Rightarrow> string \<Rightarrow> bool \<times> nat \<Rightarrow> auth_answer \<times> bool \<times> nat" where
  "cb_auth_password l user password s =
     (if lo_pass l \<noteq> [] \<and> user = lo_user l \<and> password = lo_pass l then (SSH_AUTH_SUCCESS, True, snd s)
      else (SSH_AUTH_DENIED, fst s, snd s + 1))"

section \<open>The ring is a queue of bytes\<close>

definition ssh_ok :: "ssh_out \<Rightarrow> bool" where
  "ssh_ok s \<longleftrightarrow> length (so_ring s) = OUT_RING_SZ \<and> so_head s < OUT_RING_SZ \<and> so_tail s < OUT_RING_SZ"

definition ssh_content :: "ssh_out \<Rightarrow> u8 list" where
  "ssh_content s = map (\<lambda>i. so_ring s ! ((so_tail s + i) mod OUT_RING_SZ)) [0..<ssh_used s]"

lemma ring_sz_pos [simp]: "0 < OUT_RING_SZ" "OUT_RING_SZ \<noteq> 0"
  by (simp_all add: OUT_RING_SZ_def)

lemma length_ssh_content [simp]: "length (ssh_content s) = ssh_used s"
  by (simp add: ssh_content_def)

lemma ssh_used_less: "ssh_used s < OUT_RING_SZ"
  by (simp add: ssh_used_def nat_less_iff)

lemma ssh_head_index:
  assumes "ssh_ok s"
  shows "so_head s = (so_tail s + ssh_used s) mod OUT_RING_SZ"
proof -
  have "int ((so_tail s + ssh_used s) mod OUT_RING_SZ) = int (so_head s) mod int OUT_RING_SZ"
    by (simp add: ssh_used_def of_nat_mod mod_add_right_eq)
  moreover have "int (so_head s) mod int OUT_RING_SZ = int (so_head s)" using assms by (simp add: ssh_ok_def)
  ultimately show ?thesis by linarith
qed

lemma ssh_index_inj:
  assumes "i < OUT_RING_SZ" "j < OUT_RING_SZ" "(t + i) mod OUT_RING_SZ = (t + j) mod OUT_RING_SZ"
  shows "i = j"
proof -
  have "(int t + int i) mod int OUT_RING_SZ = (int t + int j) mod int OUT_RING_SZ"
    using assms(3) by (metis of_nat_add of_nat_mod)
  then have "(int t + int i - int t) mod int OUT_RING_SZ = (int t + int j - int t) mod int OUT_RING_SZ"
    by (metis mod_diff_left_eq)
  then have "i mod OUT_RING_SZ = j mod OUT_RING_SZ" by (simp flip: of_nat_mod)
  then show ?thesis using assms(1,2) by simp
qed

lemma ring_put_ok:
  assumes "ssh_ok s" "ssh_used s < OUT_RING_SZ - 1"
  shows "ssh_ok (ring_put b s)" "ssh_used (ring_put b s) = ssh_used s + 1" "ssh_content (ring_put b s) = ssh_content s @ [b]"
proof -
  have head: "so_head s = (so_tail s + ssh_used s) mod OUT_RING_SZ" by (rule ssh_head_index[OF assms(1)])
  show ok: "ssh_ok (ring_put b s)" using assms(1) by (simp add: ssh_ok_def ring_put_def)
  define d where "d = int (so_head s) - int (so_tail s)"
  have "d mod int OUT_RING_SZ = int (ssh_used s)" by (simp add: ssh_used_def d_def)
  then have "(d + 1) mod int OUT_RING_SZ = (int (ssh_used s) + 1) mod int OUT_RING_SZ" by (metis mod_add_left_eq)
  also have "\<dots> = int (ssh_used s + 1)" using assms(2) by simp
  finally have "(d + 1) mod int OUT_RING_SZ = int (ssh_used s + 1)" .
  moreover have "(int ((so_head s + 1) mod OUT_RING_SZ) - int (so_tail s)) mod int OUT_RING_SZ = (d + 1) mod int OUT_RING_SZ"
    by (simp add: d_def of_nat_mod mod_diff_left_eq algebra_simps)
  moreover have "ssh_used (ring_put b s) = nat ((int ((so_head s + 1) mod OUT_RING_SZ) - int (so_tail s)) mod int OUT_RING_SZ)"
    by (simp add: ssh_used_def ring_put_def)
  ultimately have "ssh_used (ring_put b s) = nat (int (ssh_used s + 1))" by (simp only:)
  then show used: "ssh_used (ring_put b s) = ssh_used s + 1" by (simp only: nat_int)
  have cell: "(so_ring s)[so_head s := b] ! ((so_tail s + i) mod OUT_RING_SZ) =
      (if i = ssh_used s then b else so_ring s ! ((so_tail s + i) mod OUT_RING_SZ))" if "i \<le> ssh_used s" for i
    using that assms ssh_index_inj[of i "ssh_used s" "so_tail s"] ssh_used_less[of s] head
    by (auto simp: ssh_ok_def nth_list_update)
  show "ssh_content (ring_put b s) = ssh_content s @ [b]"
    unfolding ssh_content_def used by (simp add: ring_put_def cell)
qed

lemma pop_one:
  assumes "ssh_ok s" "0 < ssh_used s"
  defines "s' \<equiv> s\<lparr>so_tail := (so_tail s + 1) mod OUT_RING_SZ\<rparr>"
  shows "ssh_ok s'" "ssh_content s = so_ring s ! so_tail s # ssh_content s'"
proof -
  show "ssh_ok s'" using assms(1) by (simp add: ssh_ok_def s'_def)
  obtain n where n: "ssh_used s = Suc n" using assms(2) gr0_implies_Suc by blast
  then have "ssh_used s' = n" using ssh_used_pop[OF assms(2)] by (simp add: s'_def)
  moreover have "(so_tail s + Suc i) mod OUT_RING_SZ = ((so_tail s + 1) mod OUT_RING_SZ + i) mod OUT_RING_SZ" for i
    by (simp add: mod_add_left_eq)
  ultimately show "ssh_content s = so_ring s ! so_tail s # ssh_content s'"
    using assms(1) unfolding ssh_content_def n
    by (simp add: s'_def ssh_ok_def upt_conv_Cons flip: map_Suc_upt del: upt_Suc)
qed

lemma pop_loop_content:
  "ssh_ok s \<Longrightarrow> n \<le> ssh_used s \<Longrightarrow> pop_loop n s = (bs, s') \<Longrightarrow> ssh_ok s' \<and> ssh_content s = bs @ ssh_content s'"
proof (induction n arbitrary: s bs)
  case (Suc n)
  let ?s = "s\<lparr>so_tail := (so_tail s + 1) mod OUT_RING_SZ\<rparr>"
  obtain cs where c: "pop_loop n ?s = (cs, s')" "bs = so_ring s ! so_tail s # cs"
    using Suc.prems(3) by (auto simp: Let_def split: prod.splits)
  have "0 < ssh_used s" using Suc.prems(2) by simp
  with Suc.IH[OF pop_one(1)[OF Suc.prems(1)] _ c(1)] pop_one(2)[OF Suc.prems(1)] ssh_used_pop Suc.prems(2) c(2)
  show ?case by simp
qed simp

text \<open>A byte is taken while there is room; so the ring keeps the contract of a channel.\<close>

definition offer_byte :: "u8 \<Rightarrow> ssh_out \<Rightarrow> ssh_out" where
  "offer_byte b s = (if ssh_used s < OUT_RING_SZ - 1 then ring_put b s else s)"

interpretation ssh_channel: channel ssh_ok ssh_content "\<lambda>b s. ssh_used s < OUT_RING_SZ - 1" "\<lambda>b. [b]" offer_byte ssh_pop
proof unfold_locales
  fix s ys s' and d :: nat
  assume "ssh_ok s" "ssh_pop d s = (ys, s')"
  moreover have "(if d < ssh_used s then d else ssh_used s) \<le> ssh_used s" by simp
  ultimately show "ssh_ok s'" "ssh_content s = ys @ ssh_content s'"
    using pop_loop_content unfolding ssh_pop_def Let_def by blast+
qed (simp_all add: offer_byte_def ring_put_ok)

text \<open>A push offers its bytes one by one.\<close>

lemma fold_offer:
  "ssh_ok s \<Longrightarrow> ssh_ok (fold offer_byte data s) \<and>
   ssh_content (fold offer_byte data s) = ssh_content s @ take (OUT_RING_SZ - 1 - ssh_used s) data"
proof (induction data arbitrary: s)
  case (Cons b data)
  from Cons.IH[OF ssh_channel.offer_ok[OF Cons.prems]]
  have IH: "ssh_ok (fold offer_byte (b # data) s) \<and> ssh_content (fold offer_byte (b # data) s) =
      ssh_content (offer_byte b s) @ take (OUT_RING_SZ - 1 - ssh_used (offer_byte b s)) data" by simp
  show ?case
  proof (cases "ssh_used s < OUT_RING_SZ - 1")
    case True
    then have "ssh_used (offer_byte b s) = ssh_used s + 1" using Cons.prems by (simp add: offer_byte_def ring_put_ok)
    moreover have "OUT_RING_SZ - 1 - ssh_used s = Suc (OUT_RING_SZ - 1 - (ssh_used s + 1))" using True by simp
    ultimately show ?thesis using IH True ssh_channel.offer_content[OF Cons.prems] by simp
  next
    case False
    then have "offer_byte b s = s" by (simp add: offer_byte_def)
    then show ?thesis using IH False by simp
  qed
qed simp

lemma fold_put_offer:
  "ssh_ok s \<Longrightarrow> length data \<le> OUT_RING_SZ - 1 - ssh_used s \<Longrightarrow> fold ring_put data s = fold offer_byte data s"
proof (induction data arbitrary: s)
  case (Cons b data)
  then have "ssh_used s < OUT_RING_SZ - 1" by simp
  with Cons show ?case by (simp add: offer_byte_def ring_put_ok)
qed simp

lemma ssh_push_content:
  assumes "ssh_ok s" "ssh_push free data s = (n, s')"
  shows "ssh_ok s'" "ssh_content s' = ssh_content s @ take n data" "n \<le> length data"
proof -
  define m where "m = min (OUT_RING_SZ - 1 - ssh_used s) (length data)"
  have "fold ring_put (take m data) s = fold offer_byte (take m data) s"
    using assms(1) by (intro fold_put_offer) (simp_all add: m_def)
  then have "ssh_ok (fold ring_put (take m data) s) \<and>
      ssh_content (fold ring_put (take m data) s) = ssh_content s @ take m data"
    using fold_offer[OF assms(1), of "take m data"] by (simp add: m_def min.commute)
  moreover have "(n, s') = (if free then (m, fold ring_put (take m data) s) else (0, s))"
    using assms(2) by (auto simp: ssh_push_def m_def min_def Let_def split: if_splits)
  ultimately show "ssh_ok s'" "ssh_content s' = ssh_content s @ take n data" "n \<le> length data"
    using assms(1) by (auto simp: m_def split: if_splits)
qed

section \<open>A session gets all of it, in order\<close>

text \<open>The line ends expanded, where no carriage return is there already.\<close>

fun expand_lf :: "u8 \<Rightarrow> u8 list \<Rightarrow> u8 list" where
  "expand_lf prev [] = []"
| "expand_lf prev (b # bs) = (if b = 10 \<and> prev \<noteq> 13 then [13, 10] else [b]) @ expand_lf b bs"

text \<open>What is ready for the client: what it has received and what waits in the ring.\<close>

definition carried :: "ssh_out \<Rightarrow> u8 list" where
  "carried s = so_received s @ ssh_content s"

definition carries :: "u8 list \<Rightarrow> ssh_out \<Rightarrow> ssh_out \<Rightarrow> bool" where
  "carries p s s' \<longleftrightarrow> ssh_ok s' \<and> so_dropped s \<le> so_dropped s' \<and> so_prev s' = so_prev s \<and>
     (so_dropped s' = so_dropped s \<longrightarrow> carried s' = carried s @ p)"

lemma carries_refl: "ssh_ok s \<Longrightarrow> carries [] s s"
  by (simp add: carries_def)

lemma carries_trans: "carries p s s' \<Longrightarrow> carries q s' s'' \<Longrightarrow> carries (p @ q) s s''"
  by (auto simp: carries_def)

lemma ring_put_frame:
  "so_dropped (fold ring_put bs s) = so_dropped s \<and> so_prev (fold ring_put bs s) = so_prev s \<and>
   so_received (fold ring_put bs s) = so_received s"
  by (induction bs arbitrary: s) (simp_all add: ring_put_def)

lemma ssh_push_frame:
  "ssh_push free data s = (n, s') \<Longrightarrow> so_dropped s' = so_dropped s \<and> so_prev s' = so_prev s \<and> so_received s' = so_received s"
  by (auto simp: ssh_push_def Let_def ring_put_frame split: if_splits)

lemma ssh_fields [simp]:
  "ssh_ok (s\<lparr>so_dropped := n\<rparr>) = ssh_ok s" "ssh_content (s\<lparr>so_dropped := n\<rparr>) = ssh_content s"
  "ssh_ok (s\<lparr>so_received := r\<rparr>) = ssh_ok s" "ssh_content (s\<lparr>so_received := r\<rparr>) = ssh_content s"
  "ssh_ok (s\<lparr>so_prev := b\<rparr>) = ssh_ok s" "ssh_content (s\<lparr>so_prev := b\<rparr>) = ssh_content s"
  by (simp_all add: ssh_ok_def ssh_content_def)

lemma log_push_carries: "ssh_ok s \<Longrightarrow> carries data s (log_push free data s)"
proof -
  assume ok: "ssh_ok s"
  obtain n s' where p: "ssh_push free data s = (n, s')" by fastforce
  from ssh_push_content[OF ok p] ssh_push_frame[OF p] show ?thesis
    by (auto simp: log_push_def p carries_def carried_def)
qed

lemma fold_log_push:
  "ssh_ok s \<Longrightarrow> carries (concat ps) s (fold (\<lambda>(k, p). log_push (frees k) p) (enumerate j ps) s)"
proof (induction ps arbitrary: s j)
  case (Cons p ps)
  have p: "carries p s (log_push (frees j) p s)" by (rule log_push_carries[OF Cons.prems])
  then have "ssh_ok (log_push (frees j) p s)" by (simp add: carries_def)
  from carries_trans[OF p Cons.IH[OF this]] show ?case by simp
qed (simp add: carries_refl)

lemma out_loop_text:
  assumes "start \<le> i" "i \<le> length data"
  shows "concat (out_loop prev data i start) =
    take (i - start) (drop start data) @ expand_lf (if 0 < i then data ! (i - 1) else prev) (drop i data)"
  using assms
proof (induction prev data i start rule: out_loop.induct)
  case (1 prev data i start)
  let ?p = "if 0 < i then data ! (i - 1) else prev"
  show ?case
  proof (cases "i = length data")
    case True
    then show ?thesis using 1(4) by (subst out_loop.simps) auto
  next
    case False
    then have i: "i < length data" using 1(5) by simp
    then have drop: "drop i data = data ! i # drop (i + 1) data" by (simp add: Cons_nth_drop_Suc)
    have take: "take (i + 1 - start) (drop start data) = take (i - start) (drop start data) @ [data ! i]"
      using 1(4) i by (simp add: Suc_diff_le take_Suc_conv_app_nth)
    show ?thesis
    proof (cases "data ! i = 10 \<and> ?p \<noteq> 13")
      case True
      then have "concat (out_loop prev data i start) = take (i - start) (drop start data) @ [13, 10] @
          concat (out_loop prev data (i + 1) (i + 1))"
        using i 1(4) by (subst out_loop.simps) (auto simp: not_less)
      moreover have "concat (out_loop prev data (i + 1) (i + 1)) = expand_lf (data ! i) (drop (i + 1) data)"
        using 1(3)[of] True i by (simp split: if_splits)
      ultimately show ?thesis using True by (simp add: drop)
    next
      case False
      then have "out_loop prev data i start = out_loop prev data (i + 1) start"
        using i by (subst out_loop.simps) (auto split: if_splits)
      moreover have "concat (out_loop prev data (i + 1) start) =
          take (i + 1 - start) (drop start data) @ expand_lf (data ! i) (drop (i + 1) data)"
        using 1(1,2,4) False i by (cases "data ! i = 10") (auto split: if_splits)
      ultimately show ?thesis using False unfolding take drop by auto
    qed
  qed
qed

lemma out_write_carries:
  assumes "ssh_ok s"
  shows "carries (expand_lf (so_prev s) data) s ((out_write frees data s)\<lparr>so_prev := so_prev s\<rparr>)"
    "so_prev (out_write frees data s) = (if data = [] then so_prev s else last data)"
proof -
  have "concat (out_loop (so_prev s) data 0 0) = expand_lf (so_prev s) data"
    using out_loop_text[of 0 0 data "so_prev s"] by simp
  with fold_log_push[OF assms, of "out_loop (so_prev s) data 0 0" frees 0]
  show "carries (expand_lf (so_prev s) data) s ((out_write frees data s)\<lparr>so_prev := so_prev s\<rparr>)"
    using assms by (auto simp: out_write_def Let_def carries_def carried_def)
  show "so_prev (out_write frees data s) = (if data = [] then so_prev s else last data)"
    by (simp add: out_write_def Let_def)
qed

lemma pop_loop_frame:
  "so_dropped (snd (pop_loop n s)) = so_dropped s \<and> so_prev (snd (pop_loop n s)) = so_prev s \<and>
   so_received (snd (pop_loop n s)) = so_received s"
  by (induction n arbitrary: s) (simp_all add: split_beta Let_def)

lemma flush_ring_carries:
  assumes "ssh_ok s" "\<And>k. answer k \<noteq> Write_failed"
  shows "fst (flush_ring answer k s)" "carries [] s (snd (flush_ring answer k s))"
  using assms
proof (atomize (full), induction answer k s rule: flush_ring.induct)
  case (1 answer k s)
  obtain buf s' where p: "ssh_pop 512 s = (buf, s')" by fastforce
  let ?t = "s'\<lparr>so_received := so_received s' @ buf\<rparr>"
  have s': "ssh_ok s'" "ssh_content s = buf @ ssh_content s'"
    using ssh_channel.fetch_ok ssh_channel.fetch_content 1(2) p by blast+
  have "so_dropped s' = so_dropped s" "so_prev s' = so_prev s" "so_received s' = so_received s"
    using p pop_loop_frame[of _ s] by (auto simp: ssh_pop_def Let_def dest!: arg_cong[where f = snd])
  then have t: "carries [] s ?t" "ssh_ok ?t" "buf = [] \<Longrightarrow> carries [] s s'"
    using s' by (simp_all add: carries_def carried_def)
  show ?case
  proof (cases "buf = [] \<or> answer k = Time_up")
    case True
    then show ?thesis using t 1(3)[of k] by (subst (1 2) flush_ring.simps) (auto simp: p)
  next
    case False
    then have "flush_ring answer k s = flush_ring answer (k + 1) ?t"
      using 1(3)[of k] by (subst flush_ring.simps) (simp add: p)
    moreover have "fst (flush_ring answer (k + 1) ?t) \<and> carries [] ?t (snd (flush_ring answer (k + 1) ?t))"
      using 1(1)[OF p[symmetric] refl _ _ refl] False t(2) 1(3) by blast
    ultimately show ?thesis using carries_trans[OF t(1)] by auto
  qed
qed

lemma tui_loop_carries:
  assumes "ssh_ok s" "\<And>k s. ssh_ok s \<Longrightarrow> carries [] s (drain k s)"
  shows "carries data s (tui_loop frees drain waited data s)"
  using assms
proof (induction frees drain waited data s rule: tui_loop.induct)
  case (1 frees drain waited data s)
  show ?case
  proof (cases "data = []")
    case True
    then show ?thesis using carries_refl[OF 1(2)] by (subst tui_loop.simps) simp
  next
    case False
    obtain n s' where p: "ssh_push (frees (waited div 10)) data s = (n, s')" by fastforce
    note push = ssh_push_content[OF 1(2) p] ssh_push_frame[OF p]
    have t: "carries (take n data) s s'" using push by (simp add: carries_def carried_def)
    have loop: "tui_loop frees drain waited data s =
        (if drop n data = [] then s'
         else if TUI_STALL_MS \<le> waited then s'\<lparr>so_dropped := so_dropped s' + length (drop n data)\<rparr>
         else tui_loop frees drain (waited + 10) (drop n data) (drain (waited div 10) s'))"
      using False by (subst tui_loop.simps) (simp add: p)
    consider "drop n data = []" | "drop n data \<noteq> []" "TUI_STALL_MS \<le> waited" | "drop n data \<noteq> []" "\<not> TUI_STALL_MS \<le> waited"
      by blast
    then show ?thesis
    proof cases
      case 1
      then show ?thesis using t loop by simp
    next
      case 2
      then show ?thesis using t loop by (auto simp: carries_def)
    next
      case 3
      have d: "carries [] s' (drain (waited div 10) s')" using "1.prems"(2) push(1) by blast
      then have "ssh_ok (drain (waited div 10) s')" by (simp add: carries_def)
      from 1(1)[OF False refl p[symmetric] refl 3 this "1.prems"(2)]
      have "carries (drop n data) (drain (waited div 10) s')
          (tui_loop frees drain (waited + 10) (drop n data) (drain (waited div 10) s'))" .
      from carries_trans[OF carries_trans[OF t d] this] show ?thesis using 3 by (simp add: loop)
    qed
  qed
qed

text \<open>What happens to the ring of a session: a task prints, the display sends part of a frame, the session's task drains.\<close>

datatype ssh_op = Print "nat \<Rightarrow> bool" "u8 list" | Frame "nat \<Rightarrow> bool" "nat \<Rightarrow> nat \<Rightarrow> flush_answer" "u8 list"
  | Drain "nat \<Rightarrow> flush_answer"

primrec ssh_do :: "ssh_op \<Rightarrow> ssh_out \<Rightarrow> ssh_out" where
  "ssh_do (Print frees data) s = out_write frees data s"
| "ssh_do (Frame frees answers data) s = net_ssh_tui_write frees (\<lambda>k s. snd (flush_ring (answers k) 0 s)) True data s"
| "ssh_do (Drain answer) s = snd (flush_ring answer 0 s)"

primrec channel_holds :: "ssh_op \<Rightarrow> bool" where
  "channel_holds (Print frees data) = True"
| "channel_holds (Frame frees answers data) = (\<forall>j k. answers j k \<noteq> Write_failed)"
| "channel_holds (Drain answer) = (\<forall>k. answer k \<noteq> Write_failed)"

fun sent_text :: "u8 \<Rightarrow> ssh_op list \<Rightarrow> u8 list" where
  "sent_text prev [] = []"
| "sent_text prev (Print frees data # ops) =
     expand_lf prev data @ sent_text (if data = [] then prev else last data) ops"
| "sent_text prev (Frame frees answers data # ops) = data @ sent_text prev ops"
| "sent_text prev (Drain answer # ops) = sent_text prev ops"

lemma ssh_run_carries:
  assumes "ssh_ok s" "\<forall>x\<in>set ops. channel_holds x"
  shows "ssh_ok (fold ssh_do ops s) \<and> so_dropped s \<le> so_dropped (fold ssh_do ops s) \<and>
    (so_dropped (fold ssh_do ops s) = so_dropped s \<longrightarrow> carried (fold ssh_do ops s) = carried s @ sent_text (so_prev s) ops)"
  using assms
proof (induction ops arbitrary: s)
  case (Cons x ops)
  let ?s = "ssh_do x s" and ?p = "if \<exists>frees data. x = Print frees data \<and> data \<noteq> [] then so_prev (ssh_do x s) else so_prev s"
  have "\<exists>p. carries p s (?s\<lparr>so_prev := so_prev s\<rparr>) \<and> sent_text (so_prev s) (x # ops) = p @ sent_text (so_prev ?s) ops"
  proof (cases x)
    case (Print frees data)
    then show ?thesis using out_write_carries[where data = data and frees = frees, OF Cons.prems(1)] by auto
  next
    case (Frame frees answers data)
    have "carries [] t (snd (flush_ring (answers k) 0 t))" if "ssh_ok t" for k t
      using flush_ring_carries(2)[OF that, of "answers k" 0] Cons.prems(2) Frame by simp
    then have c: "carries data s ?s"
      using tui_loop_carries[OF Cons.prems(1)] by (simp add: Frame net_ssh_tui_write_def)
    then have "so_prev ?s = so_prev s" by (simp add: carries_def)
    then show ?thesis using c by (intro exI[of _ data]) (simp add: Frame carries_def carried_def)
  next
    case (Drain answer)
    then have c: "carries [] s ?s" using flush_ring_carries(2)[OF Cons.prems(1), of answer 0] Cons.prems(2) by simp
    then have "so_prev ?s = so_prev s" by (simp add: carries_def)
    then show ?thesis using c by (intro exI[of _ "[]"]) (simp add: Drain carries_def carried_def)
  qed
  then obtain p where p: "ssh_ok ?s" "so_dropped s \<le> so_dropped ?s" "so_dropped ?s = so_dropped s \<longrightarrow> carried ?s = carried s @ p"
    "sent_text (so_prev s) (x # ops) = p @ sent_text (so_prev ?s) ops"
    by (auto simp: carries_def carried_def)
  from Cons.IH[OF p(1)] Cons.prems(2) p show ?case by (auto simp del: sent_text.simps)
qed simp

text \<open>
  C6: a session misses nothing that its drop counter does not show. Take any sequence of prints by any task,
  of pieces of a frame that wait for room while the session's task drains, and of drains, with the
  mutex taken or not at any moment: as long as the channel accepts writes and the counter of dropped
  bytes has not moved, what the client has received and what is still in the ring together are exactly
  what was sent, in order, with every bare line feed of the printed text expanded, however the text
  was cut into calls.
\<close>

theorem ssh_output_complete:
  assumes "length (so_ring s) = OUT_RING_SZ" "\<forall>x\<in>set ops. channel_holds x"
    "so_dropped (fold ssh_do ops (ssh_ring_reset s)) = 0"
  shows "so_received (fold ssh_do ops (ssh_ring_reset s)) @ ssh_content (fold ssh_do ops (ssh_ring_reset s)) =
    so_received s @ sent_text (so_prev s) ops"
proof -
  let ?s = "ssh_ring_reset s"
  have ok: "ssh_ok ?s" using assms(1) by (simp add: ssh_ok_def ssh_ring_reset_def)
  have "carried ?s = so_received s"
    by (simp add: carried_def ssh_content_def ssh_used_def ssh_ring_reset_def)
  then show ?thesis
    using ssh_run_carries[OF ok assms(2)] assms(3) by (simp add: carried_def ssh_ring_reset_def)
qed

text \<open>The same text printed in two calls that part a CR from its LF.\<close>

definition ssh_example :: ssh_out where
  "ssh_example = \<lparr>so_ring = replicate OUT_RING_SZ 0, so_head = 7, so_tail = 3, so_dropped = 9, so_prev = 0, so_received = []\<rparr>"

definition ops_example :: "ssh_op list" where
  "ops_example = [Print (\<lambda>k. True) [65, 13], Print (\<lambda>k. True) [10, 66, 10]]"

lemma ssh_output_complete_witness:
  "ssh_content (fold ssh_do ops_example (ssh_ring_reset ssh_example)) = [65, 13, 10, 66, 13, 10]"
proof -
  have l: "out_loop 0 [65, 13] 0 0 = [[65, 13]]" "out_loop 13 [10, 66, 10] 0 0 = [[10, 66], [13, 10]]"
    by (simp_all add: out_loop.simps)
  have "so_dropped (fold ssh_do ops_example (ssh_ring_reset ssh_example)) = 0"
    "so_received (fold ssh_do ops_example (ssh_ring_reset ssh_example)) = []"
    by (simp_all add: ops_example_def ssh_example_def ssh_ring_reset_def out_write_def l log_push_def ssh_push_def
        ssh_used_def ring_put_def OUT_RING_SZ_def)
  with ssh_output_complete[of ssh_example ops_example]
  show ?thesis by (simp add: ops_example_def ssh_example_def)
qed

end
