(* ===== verification/InsertSort.thy ===== *)
theory InsertSort
  imports Main "HOL-Library.Multiset"
begin

text \<open>
  The insertion sort the firmware writes out in four places: the table and the map of the aircraft
  display, the crossings of a map row and the task list of the monitor. The inner loop moves the
  elements the new one comes before one place up; the locale \<open>insertion_order\<close> says what the
  comparison must satisfy for the result to be in order.
\<close>

section \<open>The loops\<close>

text \<open>
  \<open>while (j > 0 && before(v, a[j - 1])) { a[j] = a[j - 1]; j--; } a[j] = v\<close>
\<close>

fun shift_in :: "('a \<Rightarrow> 'a \<Rightarrow> bool) \<Rightarrow> 'a \<Rightarrow> nat \<Rightarrow> 'a list \<Rightarrow> 'a list" where
  "shift_in bf v 0 a = a[0 := v]"
| "shift_in bf v (Suc j) a = (if bf v (a ! j) then shift_in bf v j (a[Suc j := a ! j]) else a[Suc j := v])"

text \<open>\<open>for (i = 1; i < n; i++)\<close> around it, with \<open>v = a[i]\<close>.\<close>

definition insertion_sort :: "('a \<Rightarrow> 'a \<Rightarrow> bool) \<Rightarrow> 'a list \<Rightarrow> 'a list" where
  "insertion_sort bf a = fold (\<lambda>i a. shift_in bf (a ! i) i a) [1..<length a] a"

section \<open>What the inner loop does, whatever the comparison\<close>

lemma length_shift_in [simp]: "length (shift_in bf v j a) = length a"
  by (induction bf v j a rule: shift_in.induct) auto

lemma shift_in_parts:
  assumes "j < length a"
  shows "\<exists>P Q. take j a = P @ Q \<and> shift_in bf v j a = P @ v # Q @ drop (Suc j) a \<and>
    (\<forall>q \<in> set Q. bf v q) \<and> (P = [] \<or> \<not> bf v (last P))"
  using assms
proof (induction j arbitrary: a)
  case 0
  then show ?case by (cases a) auto
next
  case (Suc j)
  let ?x = "a ! j"
  have tk: "take (Suc j) a = take j a @ [?x]" using Suc.prems by (simp add: take_Suc_conv_app_nth)
  show ?case
  proof (cases "bf v ?x")
    case True
    let ?b = "a[Suc j := ?x]"
    obtain P Q where pq: "take j ?b = P @ Q" "shift_in bf v j ?b = P @ v # Q @ drop (Suc j) ?b"
      "\<forall>q \<in> set Q. bf v q" "P = [] \<or> \<not> bf v (last P)"
      using Suc.IH[of ?b] Suc.prems by auto
    have "drop (Suc j) ?b = ?x # drop (Suc (Suc j)) a"
      using Suc.prems by (simp flip: Cons_nth_drop_Suc add: drop_update_cancel)
    moreover have "take j a = P @ Q" using pq(1) by simp
    ultimately have "take (Suc j) a = P @ Q @ [?x]"
      "shift_in bf v (Suc j) a = P @ v # (Q @ [?x]) @ drop (Suc (Suc j)) a"
      using pq(2) True tk by simp_all
    with pq(3,4) True show ?thesis by (intro exI[of _ P] exI[of _ "Q @ [?x]"]) auto
  next
    case False
    have "shift_in bf v (Suc j) a = take (Suc j) a @ v # drop (Suc (Suc j)) a"
      using Suc.prems False by (simp add: upd_conv_take_nth_drop)
    with False tk show ?thesis by (intro exI[of _ "take (Suc j) a"] exI[of _ "[]"]) simp
  qed
qed

lemma mset_shift_in: "j < length a \<Longrightarrow> mset (shift_in bf (a ! j) j a) = mset a"
proof -
  assume j: "j < length a"
  obtain P Q where pq: "take j a = P @ Q" "shift_in bf (a ! j) j a = P @ a ! j # Q @ drop (Suc j) a"
    using shift_in_parts[OF j] by blast
  have "a = take j a @ a ! j # drop (Suc j) a" using j by (rule id_take_nth_drop)
  then have "mset a = mset (take j a) + {#a ! j#} + mset (drop (Suc j) a)"
    by (metis add_mset_add_single mset.simps(2) mset_append union_mset_add_mset_right union_mset_add_mset_left)
  then show ?thesis unfolding pq by simp
qed

lemma insertion_fold:
  assumes "n \<le> length a"
  shows "length (fold (\<lambda>i a. shift_in bf (a ! i) i a) [m..<n] a) = length a"
    "mset (fold (\<lambda>i a. shift_in bf (a ! i) i a) [m..<n] a) = mset a"
proof -
  have "length (fold (\<lambda>i a. shift_in bf (a ! i) i a) is a) = length a \<and>
      mset (fold (\<lambda>i a. shift_in bf (a ! i) i a) is a) = mset a" if "\<forall>i \<in> set is. i < length a" for "is"
    using that
  proof (induction "is" arbitrary: a)
    case (Cons i "is")
    then have "mset (shift_in bf (a ! i) i a) = mset a" by (intro mset_shift_in) simp
    with Cons.IH[of "shift_in bf (a ! i) i a"] Cons.prems show ?case by simp
  qed simp
  from this[of "[m..<n]"] assms
  show "length (fold (\<lambda>i a. shift_in bf (a ! i) i a) [m..<n] a) = length a"
    "mset (fold (\<lambda>i a. shift_in bf (a ! i) i a) [m..<n] a) = mset a" by simp_all
qed

text \<open>Nothing is lost and nothing appears twice.\<close>

lemma mset_insertion_sort [simp]: "mset (insertion_sort bf a) = mset a"
  by (simp add: insertion_sort_def insertion_fold)

lemma length_insertion_sort [simp]: "length (insertion_sort bf a) = length a"
  by (simp add: insertion_sort_def insertion_fold)

lemma set_insertion_sort [simp]: "set (insertion_sort bf a) = set a"
  by (metis mset_insertion_sort set_mset_mset)

lemma distinct_insertion_sort [simp]: "distinct (insertion_sort bf a) = distinct a"
  by (metis mset_insertion_sort mset_eq_imp_distinct_iff)

section \<open>Order\<close>

definition in_order :: "('a \<Rightarrow> 'a \<Rightarrow> bool) \<Rightarrow> 'a list \<Rightarrow> bool" where
  "in_order bf = sorted_wrt (\<lambda>x y. \<not> bf y x)"

lemma in_order_simps [simp]:
  "in_order bf []" "in_order bf (x # xs) \<longleftrightarrow> (\<forall>y \<in> set xs. \<not> bf y x) \<and> in_order bf xs"
  by (simp_all add: in_order_def)

lemma in_order_append:
  "in_order bf (xs @ ys) \<longleftrightarrow> in_order bf xs \<and> in_order bf ys \<and> (\<forall>x \<in> set xs. \<forall>y \<in> set ys. \<not> bf y x)"
  by (simp add: in_order_def sorted_wrt_append)

lemma in_order_last: "in_order bf xs \<Longrightarrow> v \<in> set xs \<Longrightarrow> v = last xs \<or> \<not> bf (last xs) v"
  by (cases xs rule: rev_cases) (auto simp: in_order_append)

text \<open>
  A strict weak order: of two elements at most one comes before the other, and not coming before
  is transitive.
\<close>

locale insertion_order =
  fixes bf :: "'a \<Rightarrow> 'a \<Rightarrow> bool"
  assumes asym: "bf x y \<Longrightarrow> \<not> bf y x"
    and not_before_trans: "\<not> bf x y \<Longrightarrow> \<not> bf y z \<Longrightarrow> \<not> bf x z"
begin

lemma not_before_last:
  assumes "in_order bf P" "\<not> bf v (last P)" "p \<in> set P"
  shows "\<not> bf v p"
proof (cases P rule: rev_cases)
  case (snoc ys y)
  then show ?thesis
    using assms not_before_trans[of v y p] by (auto simp: in_order_append)
qed (use assms in simp)

lemma shift_in_order:
  assumes "j < length a" "in_order bf (take j a)"
  shows "in_order bf (take (Suc j) (shift_in bf v j a))"
proof -
  obtain P Q where pq: "take j a = P @ Q" "shift_in bf v j a = P @ v # Q @ drop (Suc j) a"
    "\<forall>q \<in> set Q. bf v q" "P = [] \<or> \<not> bf v (last P)"
    using shift_in_parts[OF assms(1)] by blast
  have "length P + length Q = j" using assms(1) pq(1) by (metis length_append length_take min.absorb4)
  then have tk: "take (Suc j) (shift_in bf v j a) = P @ v # Q" unfolding pq(2) by auto
  have ord: "in_order bf P" "in_order bf Q" "\<And>p q. p \<in> set P \<Longrightarrow> q \<in> set Q \<Longrightarrow> \<not> bf q p"
    using assms(2) unfolding pq(1) in_order_append by auto
  have "\<not> bf v p" if "p \<in> set P" for p
    using pq(4) not_before_last[OF ord(1) _ that] that by auto
  then show ?thesis unfolding tk in_order_append using ord pq(3) asym by auto
qed

lemma in_order_fold:
  "1 \<le> n \<Longrightarrow> n \<le> length a \<Longrightarrow> in_order bf (take n (fold (\<lambda>i a. shift_in bf (a ! i) i a) [1..<n] a))"
proof (induction n)
  case (Suc n)
  show ?case
  proof (cases n)
    case 0
    with Suc.prems show ?thesis by (cases a) auto
  next
    case (Suc m)
    let ?b = "fold (\<lambda>i a. shift_in bf (a ! i) i a) [1..<n] a"
    have "in_order bf (take n ?b)" "n < length ?b" using Suc Suc.IH Suc.prems insertion_fold[of n a] by auto
    from shift_in_order[OF this(2,1)] show ?thesis using Suc by simp
  qed
qed simp

lemma insertion_sort_in_order: "in_order bf (insertion_sort bf a)"
proof (cases a)
  case (Cons x xs)
  then have "in_order bf (take (length a) (insertion_sort bf a))"
    unfolding insertion_sort_def by (intro in_order_fold) auto
  then show ?thesis by simp
qed (simp add: insertion_sort_def)

text \<open>Who stands later never comes before who stands earlier.\<close>

lemma insertion_sort_nth:
  "i < j \<Longrightarrow> j < length a \<Longrightarrow> \<not> bf (insertion_sort bf a ! j) (insertion_sort bf a ! i)"
  using insertion_sort_in_order[of a] by (simp add: in_order_def sorted_wrt_iff_nth_less)

end

end
