(* ===== verification/TuiTable.thy ===== *)
theory TuiTable
  imports InsertSort AircraftJson ScreenKeys
begin

text \<open>
  The table of the aircraft display (\<open>main/tui.c\<close>): the order of its rows, the split of the terminal
  between table and map, and the text of a row in its plain and in its coloured form.
\<close>

section \<open>The order of the rows\<close>

definition SORT_DIST :: nat where "SORT_DIST = 0"

definition SORT_ALT :: nat where "SORT_ALT = 1"

definition SORT_MSGS :: nat where "SORT_MSGS = 2"

definition before :: "nat \<Rightarrow> aircraft \<Rightarrow> aircraft \<Rightarrow> bool" where
  "before srt a b =
     (if srt = SORT_DIST \<and> ac_rng_valid a \<noteq> ac_rng_valid b then ac_rng_valid a
      else if srt = SORT_DIST \<and> ac_rng_valid a \<and> ac_dist_km a \<noteq> ac_dist_km b then ac_dist_km a < ac_dist_km b
      else if srt = SORT_ALT \<and> ac_altitude a \<noteq> ac_altitude b then ac_altitude a > ac_altitude b
      else if srt = SORT_MSGS \<and> ac_msg_count a \<noteq> ac_msg_count b then ac_msg_count a > ac_msg_count b
      else ac_last_seen_us a > ac_last_seen_us b)"

definition sort_idx :: "nat \<Rightarrow> aircraft list \<Rightarrow> nat list \<Rightarrow> nat list" where
  "sort_idx srt ac idx = insertion_sort (\<lambda>v w. before srt (ac ! v) (ac ! w)) idx"

definition active_idx :: "aircraft list \<Rightarrow> nat list" where
  "active_idx ac = filter (\<lambda>i. ac_active (ac ! i)) [0..<MAX_TRACKED]"

section \<open>Layout\<close>

definition DEFAULT_ROWS :: int where "DEFAULT_ROWS = 40"

definition CHROME_ROWS :: int where "CHROME_ROWS = 6"

definition MAP_MAX_ROWS :: int where "MAP_MAX_ROWS = 39"

definition TABLE_MIN_ROWS :: int where "TABLE_MIN_ROWS = 5"

text \<open>Rows of the table and rows of the map, for \<open>n\<close> aircraft on a terminal of \<open>rows\<close> rows.\<close>

definition layout :: "int \<Rightarrow> int \<Rightarrow> int \<times> int" where
  "layout rows n =
     (let avail = (if 0 < rows then rows else DEFAULT_ROWS) - CHROME_ROWS;
          t = (n + 4) div 5 * 5;
          t = (if t < TABLE_MIN_ROWS then TABLE_MIN_ROWS else t);
          r = avail - t;
          r = (if r < MAP_MIN_ROWS then MAP_MIN_ROWS else r);
          r = (if MAP_MAX_ROWS < r then MAP_MAX_ROWS else r);
          r = (if avail - r < TABLE_MIN_ROWS then avail - TABLE_MIN_ROWS else r);
          r = (if even r then r - 1 else r);
          r = (if r < 3 then 3 else r);
          t = avail - r
      in (if t < 0 then 0 else t, r))"

text \<open>The rows of the table \<open>tui_draw\<close> fills, from the top: indices into the aircraft table.\<close>

definition table_shown :: "nat \<Rightarrow> int \<Rightarrow> aircraft list \<Rightarrow> nat list" where
  "table_shown srt rows ac =
     (let idx = sort_idx srt ac (active_idx ac); n = length idx
      in concat (map (\<lambda>r. if r < n then [idx ! r] else []) [0..<nat (fst (layout rows (int n)))]))"

section \<open>The text of a row\<close>

definition STALE_S :: int where "STALE_S = 15"

definition ac_emerg :: "aircraft \<Rightarrow> bool" where
  "ac_emerg a \<longleftrightarrow> ac_emergency a \<noteq> 0 \<or> ac_ra_active a \<or>
     ac_squawk a = 7500 \<or> ac_squawk a = 7600 \<or> ac_squawk a = 7700"

text \<open>\<open>%Ns\<close>, \<open>%-Ns\<close>, \<open>%0Nd\<close> and \<open>%+d\<close>; \<open>snprintf\<close> into a buffer of \<open>n\<close> bytes.\<close>

definition pad_left :: "nat \<Rightarrow> string \<Rightarrow> string" where
  "pad_left w s = replicate (w - length s) CHR '' '' @ s"

definition pad_right :: "nat \<Rightarrow> string \<Rightarrow> string" where
  "pad_right w s = s @ replicate (w - length s) CHR '' ''"

definition fmt_0d :: "nat \<Rightarrow> int \<Rightarrow> string" where
  "fmt_0d w i = (if i < 0 then ''-'' @ digits 10 (w - 1) (nat (- i)) else digits 10 w (nat i))"

definition fmt_plus_d :: "int \<Rightarrow> string" where
  "fmt_plus_d i = (if i < 0 then fmt_d i else ''+'' @ fmt_d i)"

definition sprint :: "nat \<Rightarrow> string \<Rightarrow> string" where
  "sprint n s = take (n - 1) s"

definition fmt_06X :: "u32 \<Rightarrow> string" where
  "fmt_06X w = map toupper (fmt_06x w)"

definition clamp_vs :: "int \<Rightarrow> int" where
  "clamp_vs v = (if 9999 < v then 9999 else if v < - 9999 then - 9999 else v)"

text \<open>The strings a row is made of, in the order of the columns.\<close>

definition row_fields :: "aircraft \<Rightarrow> int \<Rightarrow> string list" where
  "row_fields a now =
     (let vr = clamp_vs (ac_vert_rate a) in
      [fmt_06X (ac_icao a),
       (if ac_callsign a \<noteq> [] then ac_callsign a else ''--------''),
       plane_cat_label (ac_category a),
       (if ac_emitter a \<noteq> 0 then plane_emitter_label (ac_emitter a) else ''--''),
       (if ac_squawk a \<noteq> 0 then sprint 6 (fmt_0d 4 (ac_squawk a)) else ''----''),
       (if ac_on_ground a then ''GND'' else if ac_altitude a \<noteq> 0 then sprint 8 (fmt_d (ac_altitude a)) else ''--''),
       (if ac_velocity a \<noteq> 0 then sprint 6 (fmt_d (ac_velocity a)) else ''--''),
       (if ac_velocity a \<noteq> 0 then sprint 5 (fmt_0d 3 (ac_heading a)) else ''---''),
       (if 200 < vr \<or> vr < - 200 then sprint 12 (fmt_plus_d vr) else ''--''),
       (if fresh_at (o_us (ac_nav_alt_mcp a)) now then sprint 8 (fmt_f 0 (o_v (ac_nav_alt_mcp a)))
        else if fresh_at (o_us (ac_nav_alt_fms a)) now then sprint 8 (fmt_f 0 (o_v (ac_nav_alt_fms a)))
        else ''--''),
       (if fresh_at (o_us (ac_nav_qnh a)) now then sprint 8 (fmt_f 1 (o_v (ac_nav_qnh a))) else ''--''),
       (if ac_rng_valid a then sprint 6 (fmt_f 0 (if 9999 < ac_dist_km a then 9999 else ac_dist_km a)) else ''--''),
       (if ac_rng_valid a then sprint 5 (fmt_0d 3 (rne (ac_brg_deg a))) else ''---''),
       fmt_u (unat (ac_sig a)),
       fmt_d (if 99999 < ac_msg_count a then 99999 else ac_msg_count a),
       fmt_d ((now - ac_last_seen_us a) div 1000000)])"

text \<open>\<open>ROW_FMT\<close>: the gap before each column, its width, and whether it is flush left.\<close>

definition ROW_FMT :: "(nat \<times> bool) list" where
  "ROW_FMT = [(6, True), (8, True), (3, True), (4, True), (4, False), (6, False), (4, False), (3, False),
     (5, False), (6, False), (6, False), (4, False), (3, False), (3, False), (5, False), (4, False)]"

definition row_cell :: "nat \<times> bool \<Rightarrow> string \<Rightarrow> string" where
  "row_cell f s = (case f of (w, left) \<Rightarrow> ''  '' @ (if left then pad_right w s else pad_left w s))"

definition row_plain :: "aircraft \<Rightarrow> int \<Rightarrow> string" where
  "row_plain a now = concat (map2 row_cell ROW_FMT (row_fields a now)) @ '' ''"

datatype ink = PH_HI | PH_MID | PH_DIM | AC_AMBER | AC_RED | AC_CYAN | BOLD | RESET

datatype piece = Paint ink | Txt string

text \<open>\<open>draw_row\<close>: one colour for a stale or alarming row, else the format with a colour per column.\<close>

definition draw_row :: "aircraft \<Rightarrow> int \<Rightarrow> piece list" where
  "draw_row a now =
     (let seen = (now - ac_last_seen_us a) div 1000000;
          vr = clamp_vs (ac_vert_rate a);
          f = row_fields a now
      in if STALE_S < seen \<or> ac_emerg a
         then (if ac_emerg a then [Paint AC_RED, Paint BOLD] else [Paint PH_DIM]) @
              [Txt (row_plain a now), Paint RESET]
         else
           let cat_col = (case ac_category a of PLANE_MILITARY \<Rightarrow> AC_RED | PLANE_COMMERCIAL \<Rightarrow> PH_MID
                            | PLANE_GA \<Rightarrow> AC_CYAN | _ \<Rightarrow> PH_DIM);
               alt_col = (if 200 < vr then PH_HI else if vr < - 200 then AC_AMBER else PH_MID);
               vs_col = (if 200 < vr then PH_HI else if vr < - 200 then AC_AMBER else PH_DIM)
           in [Txt ''  '', Paint AC_CYAN, Txt (pad_right 6 (f ! 0)),
               Txt ''  '', Paint (if ac_callsign a \<noteq> [] then PH_HI else PH_DIM), Txt (pad_right 8 (f ! 1)),
               Txt ''  '', Paint cat_col, Txt (pad_right 3 (f ! 2)),
               Txt ''  '', Paint PH_MID, Txt (pad_right 4 (f ! 3)), Txt (''  '' @ pad_left 4 (f ! 4)),
               Txt ''  '', Paint alt_col, Txt (pad_left 6 (f ! 5)),
               Txt ''  '', Paint PH_MID, Txt (pad_left 4 (f ! 6)), Txt (''  '' @ pad_left 3 (f ! 7)),
               Txt ''  '', Paint vs_col, Txt (pad_left 5 (f ! 8)),
               Txt ''  '', Paint PH_MID, Txt (pad_left 6 (f ! 9)), Txt (''  '' @ pad_left 6 (f ! 10)),
               Txt (''  '' @ pad_left 4 (f ! 11)), Txt (''  '' @ pad_left 3 (f ! 12)), Txt (''  '' @ pad_left 3 (f ! 13)),
               Txt ''  '', Paint PH_DIM, Txt (pad_left 5 (f ! 14)), Txt (''  '' @ pad_left 4 (f ! 15)), Txt '' '',
               Paint RESET])"

section \<open>Best first\<close>

lemma before_order: "insertion_order (\<lambda>v w. before srt (ac ! v) (ac ! w))"
  by unfold_locales (auto simp: before_def SORT_DIST_def SORT_ALT_def SORT_MSGS_def split: if_splits)

interpretation rows: insertion_order "\<lambda>v w. before srt (ac ! v) (ac ! w)" for srt ac
  by (rule before_order)

lemma take_by_index: "concat (map (\<lambda>r. if r < length xs then [xs ! r] else []) [0..<n]) = take n xs"
  by (induction n) (auto simp: take_Suc_conv_app_nth)

lemma table_shown_take:
  "table_shown srt rows ac =
     take (nat (fst (layout rows (int (length (active_idx ac)))))) (sort_idx srt ac (active_idx ac))"
  by (simp add: table_shown_def Let_def take_by_index sort_idx_def)

text \<open>The map's share before it is made odd and at least three.\<close>

lemma layout_share:
  obtains r where
    "layout rows n = (let r = (if even r then r - 1 else r); r = (if r < 3 then 3 else r);
                          t = (if 0 < rows then rows else DEFAULT_ROWS) - CHROME_ROWS - r
                      in (if t < 0 then 0 else t, r))"
    "r \<le> (if 0 < rows then rows else DEFAULT_ROWS) - CHROME_ROWS - TABLE_MIN_ROWS" "r \<le> MAP_MAX_ROWS"
    "r = (if 0 < rows then rows else DEFAULT_ROWS) - CHROME_ROWS - TABLE_MIN_ROWS \<or> MAP_MIN_ROWS \<le> r"
proof -
  define avail where "avail = (if 0 < rows then rows else DEFAULT_ROWS) - CHROME_ROWS"
  define t where "t = (if (n + 4) div 5 * 5 < TABLE_MIN_ROWS then TABLE_MIN_ROWS else (n + 4) div 5 * 5)"
  define q where "q = (let r = avail - t; r = (if r < MAP_MIN_ROWS then MAP_MIN_ROWS else r)
                       in if MAP_MAX_ROWS < r then MAP_MAX_ROWS else r)"
  define r where "r = (if avail - q < TABLE_MIN_ROWS then avail - TABLE_MIN_ROWS else q)"
  have q: "MAP_MIN_ROWS \<le> q" "q \<le> MAP_MAX_ROWS"
    by (simp_all add: q_def Let_def MAP_MIN_ROWS_def MAP_MAX_ROWS_def)
  have "layout rows n = (let r = (if even r then r - 1 else r); r = (if r < 3 then 3 else r); t = avail - r
                         in (if t < 0 then 0 else t, r))"
    by (simp only: layout_def Let_def avail_def t_def q_def r_def)
  moreover have "r \<le> avail - TABLE_MIN_ROWS" "r \<le> MAP_MAX_ROWS" "r = avail - TABLE_MIN_ROWS \<or> MAP_MIN_ROWS \<le> r"
    using q by (simp_all add: r_def)
  ultimately show ?thesis unfolding avail_def by (rule that)
qed

lemma layout_bounds:
  "0 \<le> fst (layout rows n)" "odd (snd (layout rows n))" "3 \<le> snd (layout rows n)" "snd (layout rows n) \<le> MAP_MAX_ROWS"
proof -
  obtain r where r: "layout rows n = (let r = (if even r then r - 1 else r); r = (if r < 3 then 3 else r);
      t = (if 0 < rows then rows else DEFAULT_ROWS) - CHROME_ROWS - r in (if t < 0 then 0 else t, r))"
    and "r \<le> MAP_MAX_ROWS" by (rule layout_share)
  then show "0 \<le> fst (layout rows n)" "odd (snd (layout rows n))" "3 \<le> snd (layout rows n)"
    "snd (layout rows n) \<le> MAP_MAX_ROWS"
    unfolding r Let_def by (simp_all add: MAP_MAX_ROWS_def)
qed

text \<open>
  On a terminal of at least nine rows table, map and the six lines around them fill it exactly; from
  fourteen rows on the table has its minimum, from 32 on the map has.
\<close>

lemma layout_fills:
  assumes "9 \<le> rows"
  shows "fst (layout rows n) + snd (layout rows n) + CHROME_ROWS = rows"
    "14 \<le> rows \<Longrightarrow> TABLE_MIN_ROWS \<le> fst (layout rows n)"
    "32 \<le> rows \<Longrightarrow> MAP_MIN_ROWS \<le> snd (layout rows n)"
proof -
  obtain r where r: "layout rows n = (let r = (if even r then r - 1 else r); r = (if r < 3 then 3 else r);
      t = (if 0 < rows then rows else DEFAULT_ROWS) - CHROME_ROWS - r in (if t < 0 then 0 else t, r))"
    and b: "r \<le> (if 0 < rows then rows else DEFAULT_ROWS) - CHROME_ROWS - TABLE_MIN_ROWS"
      "r = (if 0 < rows then rows else DEFAULT_ROWS) - CHROME_ROWS - TABLE_MIN_ROWS \<or> MAP_MIN_ROWS \<le> r"
    by (rule layout_share)
  define o' where "o' = (if even r then r - 1 else r)"
  have o': "o' \<le> r" "r - 1 \<le> o'" "odd o'" by (simp_all add: o'_def)
  have lay: "layout rows n = (if rows - 6 - (if o' < 3 then 3 else o') < 0 then 0 else rows - 6 - (if o' < 3 then 3 else o'),
      if o' < 3 then 3 else o')"
    using assms unfolding r o'_def by (simp add: Let_def CHROME_ROWS_def)
  have le: "r \<le> rows - 11" using b(1) assms by (simp add: CHROME_ROWS_def TABLE_MIN_ROWS_def)
  show "fst (layout rows n) + snd (layout rows n) + CHROME_ROWS = rows"
    using o'(1) le assms unfolding lay by (simp add: CHROME_ROWS_def)
  show "TABLE_MIN_ROWS \<le> fst (layout rows n)" if "14 \<le> rows"
    using o'(1) le that unfolding lay by (simp add: TABLE_MIN_ROWS_def)
  show "MAP_MIN_ROWS \<le> snd (layout rows n)" if "32 \<le> rows"
  proof -
    have "21 \<le> r" using b(2) that by (auto simp: CHROME_ROWS_def TABLE_MIN_ROWS_def MAP_MIN_ROWS_def)
    then have "21 \<le> o'" using o' by (cases "r = 21") (auto simp: o'_def)
    then show ?thesis unfolding lay by (simp add: MAP_MIN_ROWS_def)
  qed
qed

text \<open>
  C38: the table lists live aircraft only, none twice, in the order chosen; what does not fit is never
  before what is shown. With enough rows every live aircraft is in it.
\<close>

theorem table_best_first:
  "let shown = table_shown srt rows ac; live = {i. i < MAX_TRACKED \<and> ac_active (ac ! i)} in
     distinct shown \<and> set shown \<subseteq> live \<and>
     in_order (\<lambda>v w. before srt (ac ! v) (ac ! w)) shown \<and>
     (\<forall>v \<in> set shown. \<forall>w \<in> live - set shown. \<not> before srt (ac ! w) (ac ! v)) \<and>
     int (length shown) = min (int (card live)) (fst (layout rows (int (card live))))"
proof -
  let ?idx = "sort_idx srt ac (active_idx ac)" and ?live = "{i. i < MAX_TRACKED \<and> ac_active (ac ! i)}"
  let ?n = "nat (fst (layout rows (int (length (active_idx ac)))))"
  have set: "set ?idx = ?live" by (auto simp: sort_idx_def active_idx_def)
  have dist: "distinct ?idx" by (simp add: sort_idx_def active_idx_def)
  have len: "length (active_idx ac) = card ?live"
    using distinct_card[OF dist] set by (simp add: sort_idx_def)
  have ord: "in_order (\<lambda>v w. before srt (ac ! v) (ac ! w)) (take ?n ?idx @ drop ?n ?idx)"
    unfolding append_take_drop_id sort_idx_def by (rule rows.insertion_sort_in_order)
  have rest: "?live - set (take ?n ?idx) \<subseteq> set (drop ?n ?idx)"
    unfolding set[symmetric] by (metis Diff_subset_conv append_take_drop_id set_append subset_refl)
  have "int (length (take ?n ?idx)) = min (int (card ?live)) (fst (layout rows (int (card ?live))))"
    using layout_bounds(1)[of rows "int (card ?live)"] len by (simp add: sort_idx_def)
  then show ?thesis
    unfolding Let_def table_shown_take
    using dist ord rest set_take_subset[of ?n ?idx] set unfolding in_order_append by (auto dest: in_set_takeD)
qed

text \<open>Two aircraft, the nearer one heard less: it leads by distance, the other by messages.\<close>

definition sky_example :: "aircraft list" where
  "sky_example = [aircraft_zero\<lparr>ac_active := True, ac_rng_valid := True, ac_dist_km := 80, ac_msg_count := 9\<rparr>,
     aircraft_zero\<lparr>ac_active := True, ac_rng_valid := True, ac_dist_km := 20, ac_msg_count := 3\<rparr>] @
     replicate 62 aircraft_zero"

lemma sky_live: "{i. i < MAX_TRACKED \<and> ac_active (sky_example ! i)} = {0, 1}"
proof -
  have "filter (\<lambda>i. ac_active (sky_example ! i)) [0..<MAX_TRACKED] = [0, 1]" by code_simp
  then have "set (filter (\<lambda>i. ac_active (sky_example ! i)) [0..<MAX_TRACKED]) = {0, 1}" by simp
  then show ?thesis by simp
qed

lemma table_best_first_witness:
  "table_shown SORT_DIST 40 sky_example = [1, 0] \<and> length (table_shown SORT_DIST 40 sky_example) = card {0, 1 :: nat} \<and>
    in_order (\<lambda>v w. before SORT_DIST (sky_example ! v) (sky_example ! w)) (table_shown SORT_DIST 40 sky_example)"
proof -
  have c: "card {i. i < MAX_TRACKED \<and> ac_active (sky_example ! i)} = 2" by (simp add: sky_live)
  have lay: "fst (layout 40 2) = 5"
    by (simp add: layout_def Let_def MAP_MAX_ROWS_def MAP_MIN_ROWS_def TABLE_MIN_ROWS_def CHROME_ROWS_def)
  have "table_shown SORT_DIST 40 sky_example = [1, 0]" by code_simp
  then show ?thesis using table_best_first[of SORT_DIST 40 sky_example] by (simp add: Let_def c lay)
qed

section \<open>A row on the terminal\<close>

text \<open>The text a row leaves on the terminal, without its colours.\<close>

fun row_text :: "piece list \<Rightarrow> string" where
  "row_text [] = []"
| "row_text (Txt s # ps) = s @ row_text ps"
| "row_text (Paint c # ps) = row_text ps"

lemma row_text_append [simp]: "row_text (xs @ ys) = row_text xs @ row_text ys"
  by (induction xs rule: row_text.induct) auto

text \<open>The two formats write the same columns.\<close>

lemma row_text_plain: "row_text (draw_row a now) = row_plain a now"
  by (simp add: draw_row_def row_plain_def row_fields_def ROW_FMT_def row_cell_def Let_def)

lemma length_digits:
  "n < b ^ k \<Longrightarrow> length (digits b w n) \<le> max w k"
proof (induction b w n arbitrary: k rule: digits.induct)
  case (1 b w n)
  show ?case
  proof (cases "w = 0 \<and> n = 0 \<or> b < 2")
    case False
    show ?thesis
    proof (cases k)
      case 0
      with 1(1)[of 0] 1(2) False show ?thesis by (subst digits.simps) auto
    next
      case (Suc j)
      then have "n div b < b ^ j" using 1(2) False by (simp add: div_less_iff_less_mult mult.commute)
      with 1(1)[of j] False Suc show ?thesis by (subst digits.simps) auto
    qed
  qed (auto simp: digits.simps)
qed

lemma fmt_u_width: "n < 10 ^ k \<Longrightarrow> 1 \<le> k \<Longrightarrow> length (fmt_u n) \<le> k"
  using length_digits[of n 10 k 1] by (simp add: fmt_u_def)

lemma fmt_d_width:
  assumes "\<bar>i\<bar> < 10 ^ k" "1 \<le> k"
  shows "length (fmt_d i) \<le> (if i < 0 then Suc k else k)"
proof -
  have "nat \<bar>i\<bar> < 10 ^ k" using assms(1) by (simp add: nat_less_iff)
  from fmt_u_width[OF this assms(2)] show ?thesis by (auto simp: fmt_d_def)
qed

lemma fmt_0d_width: "0 \<le> i \<Longrightarrow> i < 10 ^ w \<Longrightarrow> length (fmt_0d w i) \<le> w"
  using length_digits[of "nat i" 10 w w] by (simp add: fmt_0d_def nat_less_iff)

lemma rne_le_int: "x \<le> of_int k \<Longrightarrow> rne x \<le> k"
  using rne_mono[of x "of_int k"] by simp

lemma rne_ge_int: "of_int k \<le> x \<Longrightarrow> k \<le> rne x"
  using rne_mono[of "of_int k" x] by simp

lemma fmt_f0_width:
  assumes "\<bar>x\<bar> \<le> 10 ^ k - 1" "1 \<le> k"
  shows "length (fmt_f 0 x) \<le> (if x < 0 then Suc k else k)"
proof -
  have "rne \<bar>x\<bar> \<le> 10 ^ k - 1" using assms(1) by (intro rne_le_int) simp
  then have "nat (rne \<bar>x\<bar>) < 10 ^ k" by (simp add: nat_less_iff)
  from fmt_u_width[OF this assms(2)] show ?thesis by (auto simp: fmt_f_def Let_def)
qed

lemma length_sprint: "length s \<le> w \<Longrightarrow> length (sprint n s) \<le> w"
  by (simp add: sprint_def)

lemma fmt_f1_width:
  assumes "0 \<le> x" "x < 9999"
  shows "length (fmt_f 1 x) \<le> 6"
proof -
  have "rne (\<bar>x\<bar> * 10) \<le> 99990" using assms by (intro rne_le_int) simp
  then have m: "nat (rne (\<bar>x\<bar> * 10)) div 10 < 10 ^ 4" by simp
  have "length (digits 10 1 (nat (rne (\<bar>x\<bar> * 10)) mod 10)) \<le> 1" using length_digits[of _ 10 1 1] by simp
  with fmt_u_width[OF m] assms(1) show ?thesis by (auto simp: fmt_f_def Let_def)
qed

text \<open>What the decoder keeps of every aircraft, as far as the columns need it.\<close>

definition row_fits :: "aircraft \<Rightarrow> int \<Rightarrow> bool" where
  "row_fits a now \<longleftrightarrow> unat (ac_icao a) < 2 ^ 24 \<and> length (ac_callsign a) \<le> 8 \<and>
     0 \<le> ac_squawk a \<and> ac_squawk a < 10000 \<and> - 100000 < ac_altitude a \<and> ac_altitude a < 1000000 \<and>
     0 \<le> ac_velocity a \<and> ac_velocity a < 10000 \<and> 0 \<le> ac_heading a \<and> ac_heading a < 1000 \<and>
     \<bar>o_v (ac_nav_alt_mcp a)\<bar> < 99999 \<and> \<bar>o_v (ac_nav_alt_fms a)\<bar> < 99999 \<and>
     0 \<le> o_v (ac_nav_qnh a) \<and> o_v (ac_nav_qnh a) < 9999 \<and> 0 \<le> ac_dist_km a \<and>
     0 \<le> ac_brg_deg a \<and> ac_brg_deg a \<le> 360 \<and> 0 \<le> ac_msg_count a \<and>
     0 \<le> (now - ac_last_seen_us a) div 1000000 \<and> (now - ac_last_seen_us a) div 1000000 < 10000"

lemma row_fields_fit:
  assumes "row_fits a now"
  shows "list_all2 (\<lambda>f s. length s \<le> fst f) ROW_FMT (row_fields a now)"
proof -
  note fits = assms[unfolded row_fits_def]
  have icao: "length (fmt_06X (ac_icao a)) \<le> 6"
    using length_digits[of "unat (ac_icao a)" 16 6 6] fits by (simp add: fmt_06X_def fmt_06x_def)
  have sqk: "length (sprint 6 (fmt_0d 4 (ac_squawk a))) \<le> 4"
    using fits by (intro length_sprint fmt_0d_width) auto
  have alt: "length (sprint 8 (fmt_d (ac_altitude a))) \<le> 6"
  proof (cases "ac_altitude a < 0")
    case True
    then show ?thesis using fits fmt_d_width[of "ac_altitude a" 5] by (intro length_sprint) simp
  next
    case False
    then show ?thesis using fits fmt_d_width[of "ac_altitude a" 6] by (intro length_sprint) simp
  qed
  have spd: "length (sprint 6 (fmt_d (ac_velocity a))) \<le> 4"
    using fits fmt_d_width[of "ac_velocity a" 4] by (intro length_sprint) auto
  have hdg: "length (sprint 5 (fmt_0d 3 (ac_heading a))) \<le> 3"
    using fits by (intro length_sprint fmt_0d_width) auto
  have vs: "length (sprint 12 (fmt_plus_d (clamp_vs (ac_vert_rate a)))) \<le> 5"
    using fmt_d_width[of "clamp_vs (ac_vert_rate a)" 4]
    by (intro length_sprint) (auto simp: fmt_plus_d_def clamp_vs_def split: if_splits)
  have sel: "length (sprint 8 (fmt_f 0 (o_v (ac_nav_alt_mcp a)))) \<le> 6" "length (sprint 8 (fmt_f 0 (o_v (ac_nav_alt_fms a)))) \<le> 6"
    using fits fmt_f0_width[of "o_v (ac_nav_alt_mcp a)" 5] fmt_f0_width[of "o_v (ac_nav_alt_fms a)" 5]
    by (auto intro!: length_sprint split: if_splits)
  have qnh: "length (sprint 8 (fmt_f 1 (o_v (ac_nav_qnh a)))) \<le> 6"
    using fits by (intro length_sprint fmt_f1_width) auto
  have dist: "length (sprint 6 (fmt_f 0 (if 9999 < ac_dist_km a then 9999 else ac_dist_km a))) \<le> 4"
    using fits fmt_f0_width[of "if 9999 < ac_dist_km a then 9999 else ac_dist_km a" 4]
    by (intro length_sprint) (auto split: if_splits)
  have brg: "length (sprint 5 (fmt_0d 3 (rne (ac_brg_deg a)))) \<le> 3"
    using fits rne_le_int[of "ac_brg_deg a" 360] rne_ge_int[of 0 "ac_brg_deg a"]
    by (intro length_sprint fmt_0d_width) auto
  have sig: "length (fmt_u (unat (ac_sig a))) \<le> 3"
    by (intro fmt_u_width less_le_trans[OF unsigned_less]) simp_all
  have msgs: "length (fmt_d (if 99999 < ac_msg_count a then 99999 else ac_msg_count a)) \<le> 5"
    using fits fmt_d_width[of "if 99999 < ac_msg_count a then 99999 else ac_msg_count a" 5] by (auto split: if_splits)
  have seen: "length (fmt_d ((now - ac_last_seen_us a) div 1000000)) \<le> 4"
    using fits fmt_d_width[of "(now - ac_last_seen_us a) div 1000000" 4] by (auto split: if_splits)
  show ?thesis
    unfolding ROW_FMT_def row_fields_def Let_def list_all2_Cons list_all2_Nil fst_conv
    using icao sqk alt spd hdg vs sel qnh dist brg sig msgs seen fits
    by (simp add: plane_emitter_label_def plane_cat_label_def split: plane_cat_t.split)
qed

lemma length_row_cells:
  "list_all2 (\<lambda>f s. length s \<le> fst f) cols ss \<Longrightarrow>
    length (concat (map2 row_cell cols ss)) = sum_list (map (\<lambda>f. 2 + fst f) cols)"
  by (induction rule: list_all2_induct)
    (auto simp: row_cell_def pad_left_def pad_right_def)

text \<open>
  A row of the table takes exactly 107 columns of its terminal, whichever of the two formats
  paints it, and both write the same characters; it ends with the colours switched off. So the columns
  of all rows stand under each other and no row runs over into the next line.
\<close>

lemma table_row_columns:
  assumes "row_fits a now"
  shows "row_text (draw_row a now) = row_plain a now \<and> length (row_text (draw_row a now)) = 107 \<and>
    last (draw_row a now) = Paint RESET"
proof -
  have "length (row_plain a now) = 107"
    unfolding row_plain_def length_append length_row_cells[OF row_fields_fit[OF assms]] by (simp add: ROW_FMT_def)
  moreover have "last (draw_row a now) = Paint RESET" by (simp add: draw_row_def Let_def)
  ultimately show ?thesis by (simp add: row_text_plain)
qed

lemma table_row_columns_witness:
  "length (row_text (draw_row (aircraft_zero\<lparr>ac_icao := 0x4CA123, ac_callsign := ''RYR12AB''\<rparr>) 0)) = 107"
proof -
  have "row_fits (aircraft_zero\<lparr>ac_icao := 0x4CA123, ac_callsign := ''RYR12AB''\<rparr>) 0"
    by (simp add: row_fits_def aircraft_zero_def opt_none_def)
  from table_row_columns[OF this] show ?thesis by blast
qed

end
