(* ===== verification/MapLand.thy ===== *)
theory MapLand
  imports InsertSort Fp
begin

text \<open>
  The map under the aircraft display (\<open>main/map.c\<close>): land by the even-odd rule on one scan line per row
  of cells, and the airports in view. The table of \<open>map_data.h\<close> is an argument, so what is proved
  holds whatever coast the generator bakes.
\<close>

section \<open>The baked data\<close>

type_synonym map_pt = "int \<times> int"

record map_apt =
  ap_x :: int
  ap_y :: int
  ap_code :: string

record map_data =
  md_poly_start :: "nat list"
  md_pts :: "map_pt list"
  md_apts :: "map_apt list"

definition MAP_UNIT_KM :: rat where
  "MAP_UNIT_KM = flt (1 / 10)"

definition MAP_LAT :: rat where
  "MAP_LAT = flt (29879221 / 1000000)"

definition MAP_LON :: rat where
  "MAP_LON = flt (121649690 / 1000000)"

definition MAX_CROSS :: nat where
  "MAX_CROSS = 128"

definition map_matches :: "rat \<Rightarrow> rat \<Rightarrow> bool" where
  "map_matches lat lon \<longleftrightarrow> \<bar>flt (lat - MAP_LAT)\<bar> < flt (1 / 100) \<and> \<bar>flt (lon - MAP_LON)\<bar> < flt (1 / 100)"

section \<open>Land\<close>

text \<open>Ring \<open>p\<close>, and its edges in the order of the loop: \<open>for (i = 0, j = cnt - 1; i < cnt; j = i++)\<close>.\<close>

definition map_poly :: "map_data \<Rightarrow> nat \<Rightarrow> map_pt list" where
  "map_poly d p = (let start = md_poly_start d ! p; cnt = md_poly_start d ! (p + 1) - start
                   in take cnt (drop start (md_pts d)))"

definition poly_edges :: "map_pt list \<Rightarrow> (map_pt \<times> map_pt) list" where
  "poly_edges pt = map (\<lambda>i. (pt ! i, pt ! (if i = 0 then length pt - 1 else i - 1))) [0..<length pt]"

definition edge_crosses :: "rat \<Rightarrow> map_pt \<times> map_pt \<Rightarrow> bool" where
  "edge_crosses ny e = ((of_int (snd (fst e)) \<le> ny) \<noteq> (of_int (snd (snd e)) \<le> ny))"

definition edge_x :: "rat \<Rightarrow> map_pt \<times> map_pt \<Rightarrow> rat" where
  "edge_x ny e = (case e of ((ix, iy), (jx, jy)) \<Rightarrow>
     flt (of_int ix + flt (flt (of_int (jx - ix) * flt (ny - of_int iy)) / flt (of_int jy - of_int iy))))"

text \<open>
  One edge: nothing once the array is full, else its crossing is inserted in order. Both loops end
  with the array full, which is the same as passing over the edges left.
\<close>

definition add_edge :: "rat \<Rightarrow> map_pt \<times> map_pt \<Rightarrow> rat list \<Rightarrow> rat list" where
  "add_edge ny e xs =
     (if \<not> length xs < MAX_CROSS \<or> \<not> edge_crosses ny e then xs
      else let x = edge_x ny e in shift_in (\<lambda>v w. w > v) x (length xs) (xs @ [x]))"

definition row_crossings :: "map_data \<Rightarrow> rat \<Rightarrow> rat list" where
  "row_crossings d ny =
     fold (\<lambda>p. fold (add_edge ny) (poly_edges (map_poly d p))) [0..<length (md_poly_start d) - 1] []"

definition land_col :: "rat \<Rightarrow> rat \<Rightarrow> rat \<Rightarrow> int" where
  "land_col sx cx a = \<lceil>flt (flt (a * sx) + cx)\<rceil>"

fun land_row :: "int \<Rightarrow> rat \<Rightarrow> rat \<Rightarrow> rat list \<Rightarrow> int list" where
  "land_row cols sx cx (a # b # xs) =
     (let xa = land_col sx cx a; xb = land_col sx cx b;
          xa = (if xa < 0 then 0 else xa); xb = (if xb > cols then cols else xb)
      in [xa..xb - 1] @ land_row cols sx cx xs)"
| "land_row cols sx cx _ = []"

definition row_north :: "rat \<Rightarrow> rat \<Rightarrow> int \<Rightarrow> rat" where
  "row_north cy km_per_row y = flt (flt (flt (cy - of_int y) * km_per_row) / MAP_UNIT_KM)"

text \<open>The calls of \<open>land(y, x)\<close>, in their order.\<close>

definition map_land :: "map_data \<Rightarrow> int \<Rightarrow> int \<Rightarrow> rat \<Rightarrow> rat \<Rightarrow> rat \<Rightarrow> rat \<Rightarrow> (int \<times> int) list" where
  "map_land d rows cols cy cx km_per_row km_per_col =
     (let sx = flt (MAP_UNIT_KM / km_per_col)
      in concat (map (\<lambda>y. map (Pair y) (land_row cols sx cx (row_crossings d (row_north cy km_per_row y)))) [0..rows - 1]))"

text \<open>The calls of \<open>airport(y, x, code)\<close>.\<close>

definition map_airports ::
  "map_data \<Rightarrow> int \<Rightarrow> int \<Rightarrow> rat \<Rightarrow> rat \<Rightarrow> rat \<Rightarrow> rat \<Rightarrow> (int \<times> int \<times> string) list" where
  "map_airports d rows cols cy cx km_per_row km_per_col =
     concat (map (\<lambda>a.
       let px = lround (flt (cx + flt (flt (of_int (ap_x a) * MAP_UNIT_KM) / km_per_col)));
           py = lround (flt (cy - flt (flt (of_int (ap_y a) * MAP_UNIT_KM) / km_per_row)))
       in if 0 \<le> py \<and> py < rows \<and> 0 \<le> px \<and> px < cols then [(py, px, ap_code a)] else []) (md_apts d))"

section \<open>The crossings of a row\<close>

interpretation ascending: insertion_order "\<lambda>v w :: rat. w > v"
  by unfold_locales auto

text \<open>Every edge of every ring, and where those that cross the row do so.\<close>

definition map_edges :: "map_data \<Rightarrow> (map_pt \<times> map_pt) list" where
  "map_edges d = concat (map (\<lambda>p. poly_edges (map_poly d p)) [0..<length (md_poly_start d) - 1])"

definition coast :: "map_data \<Rightarrow> rat \<Rightarrow> rat list" where
  "coast d ny = map (edge_x ny) (filter (edge_crosses ny) (map_edges d))"

lemma fold_nested: "fold (\<lambda>p. fold f (g p)) ps s = fold f (concat (map g ps)) s"
  by (induction ps arbitrary: s) auto

lemma in_order_ascending: "in_order (\<lambda>v w :: rat. w > v) xs = sorted xs"
  by (simp add: in_order_def not_less)

lemma insert_crossing:
  assumes "sorted xs"
  shows "sorted (shift_in (\<lambda>v w :: rat. w > v) x (length xs) (xs @ [x]))"
    "mset (shift_in (\<lambda>v w :: rat. w > v) x (length xs) (xs @ [x])) = add_mset x (mset xs)"
  using ascending.shift_in_order[of "length xs" "xs @ [x]" x] mset_shift_in[of "length xs" "xs @ [x]" "\<lambda>v w :: rat. w > v"] assms
  by (simp_all add: in_order_ascending)

lemma fold_add_edge:
  assumes "sorted xs" "length xs \<le> MAX_CROSS"
  shows "sorted (fold (add_edge ny) es xs) \<and> mset (fold (add_edge ny) es xs) =
    mset xs + mset (take (MAX_CROSS - length xs) (map (edge_x ny) (filter (edge_crosses ny) es)))"
  using assms
proof (induction es arbitrary: xs)
  case (Cons e es)
  show ?case
  proof (cases "length xs < MAX_CROSS \<and> edge_crosses ny e")
    case True
    let ?x = "edge_x ny e"
    let ?xs = "shift_in (\<lambda>v w :: rat. w > v) ?x (length xs) (xs @ [?x])"
    obtain k where k: "MAX_CROSS - length xs = Suc k" "MAX_CROSS - length ?xs = k"
      using True by (cases "MAX_CROSS - length xs") auto
    show ?thesis
      using Cons.IH[of ?xs] insert_crossing[OF Cons.prems(1), of ?x] Cons.prems True k
      by (simp add: add_edge_def Let_def)
  qed (use Cons in \<open>auto simp: add_edge_def\<close>)
qed simp

lemma row_crossings_spec:
  "sorted (row_crossings d ny) \<and> mset (row_crossings d ny) = mset (take MAX_CROSS (coast d ny))"
  using fold_add_edge[of "[]" ny "map_edges d"] by (simp add: row_crossings_def fold_nested map_edges_def coast_def)

text \<open>A closed ring crosses a line an even number of times.\<close>

lemma changes_parity: "odd (length (filter (\<lambda>i. b i \<noteq> b (i - 1)) [1..<Suc n])) \<longleftrightarrow> b n \<noteq> (b 0 :: bool)"
  by (induction n) auto

lemma ring_crosses_even: "even (length (filter (edge_crosses ny) (poly_edges pt)))"
proof (cases "length pt")
  case 0
  then show ?thesis by (simp add: poly_edges_def)
next
  case (Suc n)
  let ?b = "\<lambda>i. of_int (snd (pt ! i)) \<le> ny"
  have split: "[0..<length pt] = 0 # [1..<Suc n]" unfolding Suc by (subst upt_conv_Cons) auto
  have cong: "filter (edge_crosses ny \<circ> (\<lambda>i. (pt ! i, pt ! (if i = 0 then length pt - 1 else i - 1)))) [1..<Suc n] =
      filter (\<lambda>i. ?b i \<noteq> ?b (i - 1)) [1..<Suc n]"
    by (rule filter_cong) (auto simp: edge_crosses_def)
  have "length (filter (edge_crosses ny) (poly_edges pt)) =
      (if ?b 0 \<noteq> ?b n then 1 else 0) + length (filter (\<lambda>i. ?b i \<noteq> ?b (i - 1)) [1..<Suc n])"
    unfolding poly_edges_def split filter_map length_map list.map filter.simps
    using cong Suc by (simp add: edge_crosses_def del: upt_Suc)
  with changes_parity[of ?b n] show ?thesis by (auto simp del: upt_Suc)
qed

lemma coast_even: "even (length (coast d ny))"
proof -
  have "even (length (filter (edge_crosses ny) (concat (map poly_edges pts))))" for pts
    by (induction pts) (auto simp: ring_crosses_even)
  from this[of "map (map_poly d) [0..<length (md_poly_start d) - 1]"] show ?thesis
    by (simp add: coast_def map_edges_def comp_def)
qed

lemma row_crossings_even: "even (length (row_crossings d ny))"
proof -
  have "length (row_crossings d ny) = min (length (coast d ny)) MAX_CROSS"
    using row_crossings_spec[of d ny] by (metis length_take size_mset)
  then show ?thesis using coast_even[of d ny] by (simp add: min_def MAX_CROSS_def)
qed

section \<open>Filling between them\<close>

lemma land_col_mono: "0 \<le> sx \<Longrightarrow> a \<le> b \<Longrightarrow> land_col sx cx a \<le> land_col sx cx b"
  unfolding land_col_def by (intro ceiling_mono fp_round_mono add_right_mono mult_right_mono) auto

lemma land_row_even_odd:
  assumes "sorted xs" "even (length xs)" "0 \<le> sx"
  shows "x \<in> set (land_row cols sx cx xs) \<longleftrightarrow>
    0 \<le> x \<and> x < cols \<and> odd (length (filter (\<lambda>a. land_col sx cx a \<le> x) xs))"
  using assms
proof (induction cols sx cx xs rule: land_row.induct)
  case (1 cols sx cx a b xs)
  have ab: "land_col sx cx a \<le> land_col sx cx b" using 1 by (auto intro: land_col_mono)
  have rest: "filter (\<lambda>a. land_col sx cx a \<le> x) xs = []" if "x < land_col sx cx b"
  proof -
    have "x < land_col sx cx c" if c: "c \<in> set xs" for c
      using 1(2,4) c \<open>x < land_col sx cx b\<close> land_col_mono[of sx b c cx] by (auto intro: less_le_trans)
    then show ?thesis by (auto simp: filter_empty_conv not_le)
  qed
  have IH: "x \<in> set (land_row cols sx cx xs) \<longleftrightarrow>
      0 \<le> x \<and> x < cols \<and> odd (length (filter (\<lambda>a. land_col sx cx a \<le> x) xs))"
    using 1 by (intro "1.IH") auto
  consider "x < land_col sx cx a" | "land_col sx cx a \<le> x" "x < land_col sx cx b" | "land_col sx cx b \<le> x"
    by linarith
  then show ?case using IH rest ab by cases (auto simp: Let_def)
qed auto

lemma mem_map_land:
  assumes "0 < km_per_col"
  shows "(y, x) \<in> set (map_land d rows cols cy cx km_per_row km_per_col) \<longleftrightarrow>
    0 \<le> y \<and> y < rows \<and> 0 \<le> x \<and> x < cols \<and>
    odd (length (filter (\<lambda>a. land_col (flt (MAP_UNIT_KM / km_per_col)) cx a \<le> x)
      (take MAX_CROSS (coast d (row_north cy km_per_row y)))))"
proof -
  let ?sx = "flt (MAP_UNIT_KM / km_per_col)" and ?ny = "row_north cy km_per_row y"
  have "0 \<le> ?sx" using assms by (auto simp: MAP_UNIT_KM_def intro!: fp_round_nonneg divide_nonneg_pos)
  then have "x \<in> set (land_row cols ?sx cx (row_crossings d ?ny)) \<longleftrightarrow>
      0 \<le> x \<and> x < cols \<and> odd (length (filter (\<lambda>a. land_col ?sx cx a \<le> x) (row_crossings d ?ny)))"
    using row_crossings_spec row_crossings_even by (intro land_row_even_odd) auto
  moreover have "length (filter (\<lambda>a. land_col ?sx cx a \<le> x) (row_crossings d ?ny)) =
      length (filter (\<lambda>a. land_col ?sx cx a \<le> x) (take MAX_CROSS (coast d ?ny)))"
    using row_crossings_spec[of d ?ny] by (metis mset_filter size_mset)
  ultimately show ?thesis by (auto simp: map_land_def Let_def)
qed

text \<open>Every marked cell is on the grid.\<close>

lemma map_land_in_grid:
  "0 < km_per_col \<Longrightarrow> (y, x) \<in> set (map_land d rows cols cy cx km_per_row km_per_col) \<Longrightarrow>
    0 \<le> y \<and> y < rows \<and> 0 \<le> x \<and> x < cols"
  by (simp add: mem_map_land)

lemma map_airports_in_grid:
  "(y, x, c) \<in> set (map_airports d rows cols cy cx km_per_row km_per_col) \<Longrightarrow>
    0 \<le> y \<and> y < rows \<and> 0 \<le> x \<and> x < cols"
  by (auto simp: map_airports_def Let_def split: if_splits)

section \<open>The even-odd rule\<close>

text \<open>
  C19: a cell of the map is land exactly when the scan line of its row meets an odd number of coast
  edges at or to the left of the cell: the sorted array, the pairing of its entries and the clipping
  of the runs compute the even-odd rule over the crossings the array holds, whatever the rings are. Those are all of
  the row's crossings as long as it has no more than \<open>MAX_CROSS\<close> (128) of them, and the first 128 in the order of the
  data when it has more.
\<close>

theorem map_land_even_odd:
  assumes "0 < km_per_col"
  shows "let crossings = coast d (row_north cy km_per_row y);
      held = (if length crossings \<le> MAX_CROSS then crossings else take MAX_CROSS crossings)
    in (y, x) \<in> set (map_land d rows cols cy cx km_per_row km_per_col) \<longleftrightarrow>
      0 \<le> y \<and> y < rows \<and> 0 \<le> x \<and> x < cols \<and>
      odd (length (filter (\<lambda>a. land_col (flt (MAP_UNIT_KM / km_per_col)) cx a \<le> x) held))"
  using mem_map_land[OF assms] by (auto simp: Let_def)

text \<open>A square island four data units wide, with cells of one data unit: its middle is land, its far side is not.\<close>

definition island :: map_data where
  "island = \<lparr>md_poly_start = [0, 4], md_pts = [(- 2, - 2), (2, - 2), (2, 2), (- 2, 2)], md_apts = []\<rparr>"

lemma MAP_UNIT_KM_pos: "0 < MAP_UNIT_KM"
  unfolding MAP_UNIT_KM_def
  using fp_round_pos_bounds(1)[of "1 / 10" 24] two_powi_pos[of "ilog2 (1 / 10)"] by linarith

lemma flt_small [simp]: "flt 1 = 1" "flt 2 = 2" "flt 4 = 4" "flt (- 2) = - 2"
  using fp_round_int[of 1 24] fp_round_int[of 2 24] fp_round_int[of 4 24] fp_round_int[of "- 2" 24] by simp_all

lemma island_coast: "coast island (row_north 2 1 2) = [- 2, 2]"
  by (simp add: coast_def map_edges_def island_def map_poly_def poly_edges_def row_north_def edge_crosses_def
    edge_x_def upt_rec)

lemma map_land_even_odd_witness:
  "(2, 2) \<in> set (map_land island 5 5 2 2 1 MAP_UNIT_KM) \<and> (2, 4) \<notin> set (map_land island 5 5 2 2 1 MAP_UNIT_KM)"
proof -
  have len: "length (coast island (row_north 2 1 2)) \<le> MAX_CROSS"
    by (simp add: island_coast MAX_CROSS_def)
  have nz: "MAP_UNIT_KM \<noteq> 0" using MAP_UNIT_KM_pos by simp
  show ?thesis
    using map_land_even_odd[OF MAP_UNIT_KM_pos, of island 2 1 2 2 5 5 2] map_land_even_odd[OF MAP_UNIT_KM_pos, of island 2 1 2 4 5 5 2] len
    by (simp add: island_coast nz land_col_def Let_def)
qed

end
