(* ===== verification/TuiMap.thy ===== *)
theory TuiMap
  imports TuiTable MapLand
begin

text \<open>
  The map of the aircraft display (\<open>main/tui.c\<close>): the grid of characters, the runs of cells taken by
  blips, labels and airports, and \<open>render_map\<close> in its order of drawing. A cell of the grid is a pair
  of row and column; an array of cells is a function on them.
\<close>

section \<open>The grid\<close>

datatype map_colour = C_NONE | C_GRID | C_DIM | C_MID | C_HI | C_RED | C_CYAN | C_SCAN | C_LAND

type_synonym cell = "int \<times> int"

record map_grid =
  mg_rows :: int
  mg_ch :: "cell \<Rightarrow> u8"
  mg_col :: "cell \<Rightarrow> map_colour"
  mg_land :: "cell \<Rightarrow> u8"
  mg_stack :: "cell \<Rightarrow> nat"
  mg_occ :: "cell \<Rightarrow> bool"

definition G_N :: u8 where "G_N = 1"

definition G_DOT :: u8 where "G_DOT = 9"

definition G_APT :: u8 where "G_APT = 10"

definition G_BAR_L :: u8 where "G_BAR_L = 11"

definition G_BAR :: u8 where "G_BAR = 12"

definition G_BAR_R :: u8 where "G_BAR_R = 13"

abbreviation MAP_COLS :: int where "MAP_COLS \<equiv> int MAP_W"

definition mput :: "int \<Rightarrow> int \<Rightarrow> u8 \<Rightarrow> map_colour \<Rightarrow> map_grid \<Rightarrow> map_grid" where
  "mput y x ch col g =
     (if y < 0 \<or> mg_rows g \<le> y \<or> x < 0 \<or> MAP_COLS \<le> x then g
      else g\<lparr>mg_ch := (mg_ch g)((y, x) := ch), mg_col := (mg_col g)((y, x) := col)\<rparr>)"

definition free_run :: "int \<Rightarrow> int \<Rightarrow> int \<Rightarrow> map_grid \<Rightarrow> bool" where
  "free_run y x0 n g =
     (if x0 < 0 \<or> MAP_COLS < x0 + n then False else list_all (\<lambda>x. \<not> mg_occ g (y, x)) [x0..x0 + n - 1])"

definition take_run :: "int \<Rightarrow> int \<Rightarrow> int \<Rightarrow> map_grid \<Rightarrow> map_grid" where
  "take_run y x0 n g = fold (\<lambda>x g. g\<lparr>mg_occ := (mg_occ g)((y, x) := True)\<rparr>) [x0..x0 + n - 1] g"

text \<open>\<open>for (i = 0; i < n; i++) mput(y, x + i, s[i], col)\<close>\<close>

definition mputs :: "int \<Rightarrow> int \<Rightarrow> u8 list \<Rightarrow> map_colour \<Rightarrow> map_grid \<Rightarrow> map_grid" where
  "mputs y x s col g = fold (\<lambda>i. mput y (x + int i) (s ! i) col) [0..<length s] g"

definition map_land_cell :: "int \<times> int \<Rightarrow> map_grid \<Rightarrow> map_grid" where
  "map_land_cell yx g =
     (case yx of (y, x) \<Rightarrow>
        let p = (y div 2, x div 2)
        in g\<lparr>mg_land := (mg_land g)(p := mg_land g p OR push_bit (nat (y mod 2 * 2 + x mod 2)) 1)\<rparr>)"

definition map_airport :: "int \<times> int \<times> string \<Rightarrow> map_grid \<Rightarrow> map_grid" where
  "map_airport a g =
     (case a of (y, x, code) \<Rightarrow>
        let n = 1 + int (length code);
            n = (if MAP_COLS < x + n then MAP_COLS - x else n)
        in if \<not> free_run y x n g then g
           else take_run y x n (mputs y (x + 1) (take (nat (n - 1)) (map of_char code)) C_DIM (mput y x G_APT C_DIM g)))"

section \<open>What an aircraft looks like\<close>

definition cat_colour :: "plane_cat_t \<Rightarrow> map_colour" where
  "cat_colour c =
     (case c of PLANE_MILITARY \<Rightarrow> C_RED | PLANE_COMMERCIAL \<Rightarrow> C_HI | PLANE_GA \<Rightarrow> C_CYAN | PLANE_UNKNOWN \<Rightarrow> C_MID)"

definition map_priority :: "aircraft \<Rightarrow> nat" where
  "map_priority a =
     (if ac_emerg a then 0
      else case ac_category a of PLANE_MILITARY \<Rightarrow> 1 | PLANE_COMMERCIAL \<Rightarrow> 2 | PLANE_GA \<Rightarrow> 3 | PLANE_UNKNOWN \<Rightarrow> 4)"

definition map_colour_of :: "aircraft \<Rightarrow> map_colour" where
  "map_colour_of a = (if ac_emerg a then C_RED else cat_colour (ac_category a))"

text \<open>Least important first, farther first among equals.\<close>

definition map_before :: "aircraft \<Rightarrow> aircraft \<Rightarrow> bool" where
  "map_before a b =
     (let pa = map_priority a; pb = map_priority b
      in if pa \<noteq> pb then pa > pb else ac_dist_km a > ac_dist_km b)"

definition sort_map_cand :: "aircraft list \<Rightarrow> nat list \<Rightarrow> nat list" where
  "sort_map_cand ac cand = insertion_sort (\<lambda>v w. map_before (ac ! v) (ac ! w)) cand"

text \<open>The heading is between 0 and 359.\<close>

definition heading_glyph :: "aircraft \<Rightarrow> u8" where
  "heading_glyph a =
     (if ac_velocity a = 0 then G_DOT else G_N + of_int ((ac_heading a + 22) div 45 mod 8))"

section \<open>Where it is drawn\<close>

text \<open>The antenna's cell, fractional, and the size of a cell; sine and cosine of the C library.\<close>

record map_view =
  mv_rows :: int
  mv_cy :: rat
  mv_cx :: rat
  mv_km_row :: rat
  mv_km_col :: rat

record trig =
  sinf_fn :: "rat \<Rightarrow> rat"
  cosf_of :: "rat \<Rightarrow> rat"

definition MAP_CX :: int where "MAP_CX = MAP_COLS div 2"

definition BAR_KM :: "int list" where "BAR_KM = [5, 20, 50, 50]"

definition map_view_of :: "tui_view \<Rightarrow> int \<Rightarrow> map_view" where
  "map_view_of v rows =
     (let cy = rows div 2;
          km_row = flt (of_int (RANGES_KM ! tv_range v) / of_int cy);
          km_col = flt (km_row / MAP_ASPECT)
      in \<lparr>mv_rows = rows, mv_cy = flt (of_int cy + flt (tv_pan_n v / km_row)),
          mv_cx = flt (of_int MAP_CX - flt (tv_pan_e v / km_col)), mv_km_row = km_row, mv_km_col = km_col\<rparr>)"

definition on_map :: "map_view \<Rightarrow> cell \<Rightarrow> bool" where
  "on_map m p = (case p of (y, x) \<Rightarrow> 0 \<le> y \<and> y < mv_rows m \<and> 0 \<le> x \<and> x < MAP_COLS)"

text \<open>The cell of a blip, \<open>None\<close> where the code notes \<open>px[k] = -1\<close>.\<close>

definition blip_cell :: "trig \<Rightarrow> map_view \<Rightarrow> aircraft \<Rightarrow> cell option" where
  "blip_cell tr m a =
     (let b = flt (flt (ac_brg_deg a * flt M_PI) / 180);
          px = lround (flt (mv_cx m + flt (flt (ac_dist_km a * sinf_fn tr b) / mv_km_col m)));
          py = lround (flt (mv_cy m - flt (flt (ac_dist_km a * cosf_of tr b) / mv_km_row m)))
      in if on_map m (py, px) then Some (py, px) else None)"

text \<open>An arrow for a single aircraft, then the headcount.\<close>

definition blip_char :: "nat \<Rightarrow> aircraft \<Rightarrow> u8" where
  "blip_char cnt a = (if cnt = 1 then heading_glyph a else if cnt \<le> 9 then 0x30 + of_nat cnt else 0x2b)"

definition draw_blip :: "trig \<Rightarrow> map_view \<Rightarrow> aircraft \<Rightarrow> map_grid \<Rightarrow> map_grid" where
  "draw_blip tr m a g =
     (case blip_cell tr m a of
        None \<Rightarrow> g
      | Some (y, x) \<Rightarrow>
          let cnt = mg_stack g (y, x) + 1;
              g = g\<lparr>mg_stack := (mg_stack g)((y, x) := cnt)\<rparr>;
              g = mput y x (blip_char cnt a) (map_colour_of a) g
          in g\<lparr>mg_occ := (mg_occ g)((y, x) := True)\<rparr>)"

definition draw_label :: "trig \<Rightarrow> map_view \<Rightarrow> aircraft \<Rightarrow> map_grid \<Rightarrow> map_grid" where
  "draw_label tr m a g =
     (case blip_cell tr m a of
        None \<Rightarrow> g
      | Some (y, x) \<Rightarrow>
          if 1 < mg_stack g (y, x) \<or> ac_callsign a = [] then g
          else let s = map of_char (take 3 (ac_callsign a)); len = int (length s)
               in if free_run y (x + 1) len g
                  then take_run y (x + 1) len (mputs y (x + 1) s (map_colour_of a) g)
                  else if free_run y (x - len) len g
                  then take_run y (x - len) len (mputs y (x - len) s (map_colour_of a) g)
                  else g)"

section \<open>The whole map\<close>

definition map_clear :: "int \<Rightarrow> map_grid" where
  "map_clear rows = \<lparr>mg_rows = rows, mg_ch = \<lambda>p. 0x20, mg_col = \<lambda>p. C_NONE, mg_land = \<lambda>p. 0,
     mg_stack = \<lambda>p. 0, mg_occ = \<lambda>p. False\<rparr>"

text \<open>Without a map baked for this antenna (\<open>None\<close>) neither land nor airports are drawn.\<close>

definition draw_land :: "map_data option \<Rightarrow> map_view \<Rightarrow> map_grid \<Rightarrow> map_grid" where
  "draw_land data m g =
     (case data of
        None \<Rightarrow> g
      | Some d \<Rightarrow> fold map_land_cell
          (map_land d (mv_rows m * 2) (MAP_COLS * 2) (flt (flt (mv_cy m * 2) + 1 / 2)) (flt (flt (mv_cx m * 2) + 1 / 2))
             (flt (mv_km_row m / 2)) (flt (mv_km_col m / 2))) g)"

definition bar_width :: "int \<Rightarrow> map_view \<Rightarrow> int" where
  "bar_width bar_km m = lround (flt (of_int bar_km / mv_km_col m))"

definition draw_bar :: "int \<Rightarrow> map_view \<Rightarrow> map_grid \<Rightarrow> map_grid" where
  "draw_bar bar_km m g =
     (let y = mv_rows m - 1;
          bar = bar_width bar_km m;
          bar_txt = '' '' @ fmt_d bar_km @ '' km'';
          g = mput y 1 G_BAR_L C_DIM g;
          g = fold (\<lambda>x. mput y x G_BAR C_DIM) [2..bar - 1] g;
          g = mput y bar G_BAR_R C_DIM g;
          g = mputs y (bar + 1) (map of_char bar_txt) C_DIM g
      in take_run y 1 (bar + int (length bar_txt)) g)"

definition antenna_cell :: "map_view \<Rightarrow> cell option" where
  "antenna_cell m = (let p = (lround (mv_cy m), lround (mv_cx m)) in if on_map m p then Some p else None)"

definition map_cand :: "aircraft list \<Rightarrow> nat list \<Rightarrow> nat list" where
  "map_cand ac idx = sort_map_cand ac (filter (\<lambda>i. ac_rng_valid (ac ! i)) idx)"

definition map_ground :: "map_data option \<Rightarrow> int \<Rightarrow> map_view \<Rightarrow> map_grid" where
  "map_ground data bar_km m =
     (let g = draw_bar bar_km m (draw_land data m (map_clear (mv_rows m)))
      in case antenna_cell m of None \<Rightarrow> g | Some p \<Rightarrow> g\<lparr>mg_occ := (mg_occ g)(p := True)\<rparr>)"

definition draw_airports :: "map_data option \<Rightarrow> map_view \<Rightarrow> map_grid \<Rightarrow> map_grid" where
  "draw_airports data m g =
     (case data of
        None \<Rightarrow> g
      | Some d \<Rightarrow> fold map_airport
          (map_airports d (mv_rows m) MAP_COLS (mv_cy m) (mv_cx m) (mv_km_row m) (mv_km_col m)) g)"

definition draw_antenna :: "map_view \<Rightarrow> map_grid \<Rightarrow> map_grid" where
  "draw_antenna m g =
     (case antenna_cell m of
        None \<Rightarrow> g
      | Some (y, x) \<Rightarrow> if mg_stack g (y, x) = 0 then mput y x 0x2b C_SCAN g else g)"

definition map_folded :: "map_grid \<Rightarrow> nat" where
  "map_folded g =
     sum_list (map (\<lambda>y. sum_list (map (\<lambda>x. if 2 \<le> mg_stack g (y, x) then mg_stack g (y, x) else 0) [0..MAP_COLS - 1]))
       [0..mg_rows g - 1])"

definition render_view :: "map_data option \<Rightarrow> trig \<Rightarrow> int \<Rightarrow> map_view \<Rightarrow> aircraft list \<Rightarrow> nat list \<Rightarrow> map_grid" where
  "render_view data tr bar_km m ac idx =
     (let cand = map_cand ac idx;
          g = map_ground data bar_km m;
          g = fold (\<lambda>i. draw_blip tr m (ac ! i)) cand g;
          g = fold (\<lambda>i. draw_label tr m (ac ! i)) (rev cand) g
      in draw_antenna m (draw_airports data m g))"

text \<open>The grid of a frame, and the number of aircraft folded into a headcount.\<close>

definition render_map :: "map_data option \<Rightarrow> trig \<Rightarrow> tui_view \<Rightarrow> aircraft list \<Rightarrow> nat list \<Rightarrow> int \<Rightarrow> map_grid \<times> nat" where
  "render_map data tr v ac idx rows =
     (let g = render_view data tr (BAR_KM ! tv_range v) (map_view_of v rows) ac idx in (g, map_folded g))"

section \<open>A row of the map on its way to the terminal\<close>

text \<open>
  One constructor per call of \<open>fb_puts\<close> and \<open>fb_putc\<close>: a background, a foreground, a block of
  quarters, a glyph of the table, a character, the end of all colours.
\<close>

datatype row_out = Bg bool | Fg map_colour | Quad u8 | Glyph u8 | Char u8 | Colours_off

definition QUAD_N :: "nat list" where
  "QUAD_N = [0, 1, 1, 2, 1, 2, 2, 3, 1, 2, 2, 3, 2, 3, 3, 4]"

text \<open>One turn of the loop, on the foreground and the background in force.\<close>

definition emit_cell :: "map_grid \<Rightarrow> cell \<Rightarrow> map_colour \<times> bool \<Rightarrow> row_out list \<times> map_colour \<times> bool" where
  "emit_cell g p st =
     (let (cur, land) = st;
          ch = mg_ch g p; m = mg_land g p;
          (c, l, q) = (if ch \<noteq> 0x20 \<or> mg_occ g p
                       then (if ch \<noteq> 0x20 then mg_col g p else cur, 2 \<le> QUAD_N ! unat m, False)
                       else if m = 0 \<or> m = 15 then (cur, m \<noteq> 0, False)
                       else (C_LAND, False, True))
      in ((if l \<noteq> land then [Bg l] else []) @ (if c \<noteq> cur then [Fg c] else []) @
          [if q then Quad m else if ch < 0x10 then Glyph ch else Char ch], c, l))"

fun emit_cells :: "map_grid \<Rightarrow> int \<Rightarrow> int list \<Rightarrow> map_colour \<times> bool \<Rightarrow> row_out list" where
  "emit_cells g y [] st = (if fst st \<noteq> C_NONE \<or> snd st then [Colours_off] else [])"
| "emit_cells g y (x # xs) st = (case emit_cell g (y, x) st of (out, st) \<Rightarrow> out @ emit_cells g y xs st)"

definition emit_map_row :: "map_grid \<Rightarrow> int \<Rightarrow> row_out list" where
  "emit_map_row g y = emit_cells g y [0..MAP_COLS - 1] (C_NONE, False)"

section \<open>A frame\<close>

text \<open>
  What \<open>tui_draw\<close> puts between its title and its footer, with the numbers it reports: the lines of the
  table and of the map, the aircraft alive, folded into headcounts, and without a position.
\<close>

record tui_frame =
  tf_table :: "piece list list"
  tf_map :: "row_out list list"
  tf_live :: nat
  tf_folded :: nat
  tf_nofix :: nat

definition tui_draw :: "map_data \<Rightarrow> rx_pos \<Rightarrow> trig \<Rightarrow> tui_view \<Rightarrow> aircraft list \<Rightarrow> int \<Rightarrow> tui_frame" where
  "tui_draw data pos tr v ac now =
     (let map_ok = rp_valid pos \<and> map_matches (rp_lat pos) (rp_lon pos);
          idx = sort_idx (tv_sort v) ac (active_idx ac);
          n = length idx;
          (table_rows, map_rows) = layout (tv_rows v) (int n);
          (g, folded) = render_map (if map_ok then Some data else None) tr v ac idx map_rows
      in \<lparr>tf_table = map (\<lambda>r. if r < n then draw_row (ac ! (idx ! r)) now else []) [0..<nat table_rows],
          tf_map = map (emit_map_row g) [0..map_rows - 1], tf_live = n, tf_folded = folded,
          tf_nofix = length (filter (\<lambda>i. \<not> ac_pos_valid (ac ! i)) idx)\<rparr>)"

end
