(* ===== verification/TuiMapProps.thy ===== *)
theory TuiMapProps
  imports TuiMap
begin

text \<open>
  The map shows every aircraft it has room for: what is drawn after the blips stays off the cells they
  took, a cell two aircraft share counts both and carries the colour of the more important one, and
  the number of aircraft folded into headcounts is reported. The row of the grid reaches the terminal
  cell by cell in the colours noted for it.
\<close>

section \<open>Runs of cells\<close>

lemma mput_frame [simp]:
  "mg_rows (mput y x c k g) = mg_rows g" "mg_land (mput y x c k g) = mg_land g"
  "mg_stack (mput y x c k g) = mg_stack g" "mg_occ (mput y x c k g) = mg_occ g"
  by (simp_all add: mput_def)

lemma mput_other:
  "p \<noteq> (y, x) \<Longrightarrow> mg_ch (mput y x c k g) p = mg_ch g p" "p \<noteq> (y, x) \<Longrightarrow> mg_col (mput y x c k g) p = mg_col g p"
  by (simp_all add: mput_def)

lemma fold_mput_frame [simp]:
  "mg_rows (fold (\<lambda>i. mput y (f i) (c i) k) is g) = mg_rows g"
  "mg_land (fold (\<lambda>i. mput y (f i) (c i) k) is g) = mg_land g"
  "mg_stack (fold (\<lambda>i. mput y (f i) (c i) k) is g) = mg_stack g"
  "mg_occ (fold (\<lambda>i. mput y (f i) (c i) k) is g) = mg_occ g"
  by (induction "is" arbitrary: g) simp_all

lemma fold_mput_other:
  "\<forall>i \<in> set is. p \<noteq> (y, f i) \<Longrightarrow> mg_ch (fold (\<lambda>i. mput y (f i) (c i) k) is g) p = mg_ch g p \<and>
    mg_col (fold (\<lambda>i. mput y (f i) (c i) k) is g) p = mg_col g p"
  by (induction "is" arbitrary: g) (simp_all add: mput_other)

lemma mputs_frame [simp]:
  "mg_rows (mputs y x s k g) = mg_rows g" "mg_land (mputs y x s k g) = mg_land g"
  "mg_stack (mputs y x s k g) = mg_stack g" "mg_occ (mputs y x s k g) = mg_occ g"
  by (simp_all add: mputs_def)

lemma mputs_other:
  "\<not> (fst p = y \<and> x \<le> snd p \<and> snd p < x + int (length s)) \<Longrightarrow>
    mg_ch (mputs y x s k g) p = mg_ch g p \<and> mg_col (mputs y x s k g) p = mg_col g p"
  unfolding mputs_def by (rule fold_mput_other) auto

lemma take_run_eq:
  "take_run y x n g = g\<lparr>mg_occ := \<lambda>p. mg_occ g p \<or> fst p = y \<and> x \<le> snd p \<and> snd p < x + n\<rparr>"
proof -
  have "fold (\<lambda>x g. g\<lparr>mg_occ := (mg_occ g)((y, x) := True)\<rparr>) xs g =
      g\<lparr>mg_occ := \<lambda>p. mg_occ g p \<or> fst p = y \<and> snd p \<in> set xs\<rparr>" for xs
  proof (induction xs arbitrary: g)
    case (Cons a xs)
    have "(\<lambda>p. ((mg_occ g)((y, a) := True)) p \<or> fst p = y \<and> snd p \<in> set xs) =
        (\<lambda>p. mg_occ g p \<or> fst p = y \<and> snd p \<in> set (a # xs))" by (rule ext) auto
    then show ?case by (simp only: fold.simps comp_apply Cons.IH) simp
  qed simp
  from this[of "[x..x + n - 1]"] show ?thesis by (simp add: take_run_def)
qed

lemma take_run_simps [simp]:
  "mg_rows (take_run y x n g) = mg_rows g" "mg_land (take_run y x n g) = mg_land g"
  "mg_stack (take_run y x n g) = mg_stack g" "mg_ch (take_run y x n g) = mg_ch g"
  "mg_col (take_run y x n g) = mg_col g"
  "mg_occ (take_run y x n g) p \<longleftrightarrow> mg_occ g p \<or> fst p = y \<and> x \<le> snd p \<and> snd p < x + n"
  by (simp_all add: take_run_eq)

lemma free_run_iff:
  "free_run y x0 n g \<longleftrightarrow> 0 \<le> x0 \<and> x0 + n \<le> MAP_COLS \<and> (\<forall>x. x0 \<le> x \<and> x < x0 + n \<longrightarrow> \<not> mg_occ g (y, x))"
  by (auto simp: free_run_def list_all_iff)

section \<open>Drawing beside what is there\<close>

text \<open>Cells that were taken keep what they show.\<close>

definition keeps :: "map_grid \<Rightarrow> map_grid \<Rightarrow> bool" where
  "keeps g g' \<longleftrightarrow> mg_rows g' = mg_rows g \<and> mg_stack g' = mg_stack g \<and> mg_land g' = mg_land g \<and>
     (\<forall>p. mg_occ g p \<longrightarrow> mg_occ g' p \<and> mg_ch g' p = mg_ch g p \<and> mg_col g' p = mg_col g p)"

lemma keeps_refl [simp]: "keeps g g"
  by (simp add: keeps_def)

lemma keeps_trans: "keeps g h \<Longrightarrow> keeps h k \<Longrightarrow> keeps g k"
  by (simp add: keeps_def)

lemma free_run_off: "free_run y x n g \<Longrightarrow> mg_occ g p \<Longrightarrow> \<not> (fst p = y \<and> x \<le> snd p \<and> snd p < x + n)"
  unfolding free_run_iff by (metis prod.collapse)

lemma keeps_free_text:
  assumes "free_run y x (int (length s)) g"
  shows "keeps g (take_run y x (int (length s)) (mputs y x s k g))"
proof -
  have "mg_ch (mputs y x s k g) p = mg_ch g p \<and> mg_col (mputs y x s k g) p = mg_col g p" if "mg_occ g p" for p
    by (rule mputs_other [OF free_run_off [OF assms that]])
  then show ?thesis by (simp add: keeps_def)
qed

text \<open>An operation that draws only on free cells; any number of them keeps the cells taken before.\<close>

locale overlay =
  fixes draw :: "'a \<Rightarrow> map_grid \<Rightarrow> map_grid"
  assumes draw_keeps: "keeps g (draw a g)"
begin

lemma fold_keeps: "keeps g (fold draw as g)"
  by (induction as arbitrary: g) (auto intro: keeps_trans draw_keeps)

end

interpretation labels: overlay "draw_label tr m" for tr m
proof
  show "keeps g (draw_label tr m a g)" for a g
    using keeps_free_text[of _ _ "map of_char (take 3 (ac_callsign a))" g "map_colour_of a"]
    by (auto simp: draw_label_def Let_def split: option.split)
qed

lemma keeps_marked_text:
  assumes "free_run y x n g" "0 < n" "int (length s) \<le> n - 1"
  shows "keeps g (take_run y x n (mputs y (x + 1) s k (mput y x c k g)))"
proof -
  have "mg_ch (mputs y (x + 1) s k (mput y x c k g)) p = mg_ch g p \<and> mg_col (mputs y (x + 1) s k (mput y x c k g)) p = mg_col g p"
    if "mg_occ g p" for p
  proof -
    have out: "\<not> (fst p = y \<and> x \<le> snd p \<and> snd p < x + n)" by (rule free_run_off [OF assms(1) that])
    then have "p \<noteq> (y, x)" "\<not> (fst p = y \<and> x + 1 \<le> snd p \<and> snd p < x + 1 + int (length s))" using assms(2,3) by auto
    then show ?thesis by (simp add: mputs_other mput_other)
  qed
  then show ?thesis by (simp add: keeps_def)
qed

lemma map_airport_keeps: "keeps g (map_airport (y, x, code) g)"
proof -
  define n where "n = (if MAP_COLS < x + (1 + int (length code)) then MAP_COLS - x else 1 + int (length code))"
  define s where "s = (take (nat (n - 1)) (map of_char code) :: u8 list)"
  have g: "map_airport (y, x, code) g =
      (if \<not> free_run y x n g then g else take_run y x n (mputs y (x + 1) s C_DIM (mput y x G_APT C_DIM g)))"
    by (simp only: map_airport_def Let_def n_def s_def prod.case)
  show ?thesis
  proof (cases "0 < n")
    case True
    then have "int (length s) \<le> n - 1" by (simp add: s_def)
    with True show ?thesis unfolding g using keeps_marked_text[of y x n g s] by simp
  next
    case False
    then have "MAP_COLS \<le> x" by (auto simp: n_def split: if_splits)
    then have "mput y x G_APT C_DIM g = g" "s = []" using False by (auto simp: mput_def s_def)
    then show ?thesis unfolding g using False by (simp add: mputs_def keeps_def)
  qed
qed

interpretation airports: overlay map_airport
  by unfold_locales (metis map_airport_keeps prod_cases3)

lemma draw_airports_keeps: "keeps g (draw_airports data m g)"
  by (simp add: draw_airports_def airports.fold_keeps split: option.split)

section \<open>The blips\<close>

lemma map_before_order: "insertion_order (\<lambda>v w. map_before (ac ! v) (ac ! w))"
  by unfold_locales (auto simp: map_before_def Let_def split: if_splits)

interpretation blips: insertion_order "\<lambda>v w. map_before (ac ! v) (ac ! w)" for ac
  by (rule map_before_order)

text \<open>The aircraft of a list that fall in a cell.\<close>

abbreviation in_cell :: "trig \<Rightarrow> map_view \<Rightarrow> aircraft list \<Rightarrow> cell \<Rightarrow> nat list \<Rightarrow> nat list" where
  "in_cell tr m ac p is \<equiv> filter (\<lambda>i. blip_cell tr m (ac ! i) = Some p) is"

lemma blip_cell_on_map: "blip_cell tr m a = Some p \<Longrightarrow> on_map m p"
  by (auto simp: blip_cell_def Let_def split: if_splits)

lemma draw_blip_at:
  assumes "blip_cell tr m a = Some p" "mg_rows g = mv_rows m"
  shows "draw_blip tr m a g = g\<lparr>mg_stack := (mg_stack g)(p := mg_stack g p + 1),
    mg_ch := (mg_ch g)(p := blip_char (mg_stack g p + 1) a), mg_col := (mg_col g)(p := map_colour_of a),
    mg_occ := (mg_occ g)(p := True)\<rparr>"
  using assms blip_cell_on_map[OF assms(1)]
  by (cases p) (simp add: draw_blip_def Let_def mput_def on_map_def)

lemma draw_blip_off: "blip_cell tr m a = None \<Longrightarrow> draw_blip tr m a g = g"
  by (simp add: draw_blip_def)

lemma blips_drawn:
  fixes tr :: trig and ac :: "aircraft list"
  assumes "mg_rows g = mv_rows m" "mg_stack g p = 0"
  defines "h \<equiv> \<lambda>ks. fold (\<lambda>i. draw_blip tr m (ac ! i)) ks g"
  shows "mg_rows (h ks) = mv_rows m \<and> mg_stack (h ks) p = length (in_cell tr m ac p ks) \<and>
    (in_cell tr m ac p ks \<noteq> [] \<longrightarrow> mg_occ (h ks) p \<and>
      mg_ch (h ks) p = blip_char (length (in_cell tr m ac p ks)) (ac ! last (in_cell tr m ac p ks)) \<and>
      mg_col (h ks) p = map_colour_of (ac ! last (in_cell tr m ac p ks)))"
proof (induction ks rule: rev_induct)
  case Nil
  show ?case using assms by (simp add: h_def)
next
  case (snoc i ks)
  have step: "h (ks @ [i]) = draw_blip tr m (ac ! i) (h ks)" by (simp add: h_def)
  show ?case
  proof (cases "blip_cell tr m (ac ! i)")
    case None
    then show ?thesis using snoc unfolding step by (simp add: draw_blip_off)
  next
    case (Some q)
    then show ?thesis using snoc unfolding step by (cases "p = q") (simp_all add: draw_blip_at)
  qed
qed

section \<open>What every stage leaves alone\<close>

lemma land_frame: "mg_rows (fold map_land_cell ps g) = mg_rows g \<and> mg_stack (fold map_land_cell ps g) = mg_stack g"
  by (induction ps arbitrary: g) (simp_all add: map_land_cell_def Let_def split: prod.split)

lemma ground_frame: "mg_rows (map_ground data bar_km m) = mv_rows m" "mg_stack (map_ground data bar_km m) p = 0"
  by (simp_all add: map_ground_def draw_bar_def draw_land_def Let_def map_clear_def land_frame split: option.split)

text \<open>From the blips to the finished grid.\<close>

lemma render_view_blips:
  assumes "in_cell tr m ac p (map_cand ac idx) \<noteq> []"
  shows "mg_ch (render_view data tr bar_km m ac idx) p =
      blip_char (length (in_cell tr m ac p (map_cand ac idx))) (ac ! last (in_cell tr m ac p (map_cand ac idx)))"
    "mg_col (render_view data tr bar_km m ac idx) p = map_colour_of (ac ! last (in_cell tr m ac p (map_cand ac idx)))"
proof -
  let ?b = "fold (\<lambda>i. draw_blip tr m (ac ! i)) (map_cand ac idx) (map_ground data bar_km m)"
  let ?l = "fold (\<lambda>i. draw_label tr m (ac ! i)) (rev (map_cand ac idx)) ?b"
  let ?a = "draw_airports data m ?l"
  have "overlay (\<lambda>i. draw_label tr m (ac ! i))" by unfold_locales (rule labels.draw_keeps)
  then have "keeps ?b ?l" by (rule overlay.fold_keeps)
  then have k: "keeps ?b ?a" using draw_airports_keeps by (rule keeps_trans)
  note b = blips_drawn[OF ground_frame, where tr = tr and ac = ac and ks = "map_cand ac idx"]
  have ka: "mg_stack ?a = mg_stack ?b" "mg_occ ?b p \<Longrightarrow> mg_ch ?a p = mg_ch ?b p \<and> mg_col ?a p = mg_col ?b p"
    using k unfolding keeps_def by blast+
  have st: "mg_stack ?a p \<noteq> 0" unfolding ka(1) using b assms by simp
  have ant: "mg_ch (draw_antenna m ?a) p = mg_ch ?a p" "mg_col (draw_antenna m ?a) p = mg_col ?a p"
    using st by (auto simp: draw_antenna_def mput_def split: option.split)
  have occ: "mg_occ ?b p"
    and ch: "mg_ch ?b p = blip_char (length (in_cell tr m ac p (map_cand ac idx))) (ac ! last (in_cell tr m ac p (map_cand ac idx)))"
    and col: "mg_col ?b p = map_colour_of (ac ! last (in_cell tr m ac p (map_cand ac idx)))"
    using b assms by blast+
  show "mg_ch (render_view data tr bar_km m ac idx) p =
      blip_char (length (in_cell tr m ac p (map_cand ac idx))) (ac ! last (in_cell tr m ac p (map_cand ac idx)))"
    unfolding render_view_def Let_def ant(1) using ka(2)[OF occ] ch by simp
  show "mg_col (render_view data tr bar_km m ac idx) p = map_colour_of (ac ! last (in_cell tr m ac p (map_cand ac idx)))"
    unfolding render_view_def Let_def ant(2) using ka(2)[OF occ] col by simp
qed

lemma render_view_stack:
  "mg_rows (render_view data tr bar_km m ac idx) = mv_rows m"
  "mg_stack (render_view data tr bar_km m ac idx) p = length (in_cell tr m ac p (map_cand ac idx))"
proof -
  let ?b = "fold (\<lambda>i. draw_blip tr m (ac ! i)) (map_cand ac idx) (map_ground data bar_km m)"
  let ?l = "fold (\<lambda>i. draw_label tr m (ac ! i)) (rev (map_cand ac idx)) ?b"
  have "overlay (\<lambda>i. draw_label tr m (ac ! i))" by unfold_locales (rule labels.draw_keeps)
  then have "keeps ?b (draw_airports data m ?l)" by (metis overlay.fold_keeps draw_airports_keeps keeps_trans)
  moreover note b = blips_drawn[OF ground_frame, where tr = tr and ac = ac and ks = "map_cand ac idx"]
  moreover have "mg_rows (draw_antenna m g) = mg_rows g \<and> mg_stack (draw_antenna m g) = mg_stack g" for g
    by (simp add: draw_antenna_def split: option.split)
  ultimately show "mg_rows (render_view data tr bar_km m ac idx) = mv_rows m"
    "mg_stack (render_view data tr bar_km m ac idx) p = length (in_cell tr m ac p (map_cand ac idx))"
    by (simp_all add: render_view_def Let_def keeps_def)
qed

section \<open>Nobody is left out\<close>

lemma in_cell_count:
  "length (in_cell tr m ac p (map_cand ac idx)) =
    length (filter (\<lambda>i. ac_rng_valid (ac ! i) \<and> blip_cell tr m (ac ! i) = Some p) idx)"
proof -
  have "mset (map_cand ac idx) = mset (filter (\<lambda>i. ac_rng_valid (ac ! i)) idx)"
    by (simp only: map_cand_def sort_map_cand_def mset_insertion_sort)
  then have "mset (in_cell tr m ac p (map_cand ac idx)) = mset (in_cell tr m ac p (filter (\<lambda>i. ac_rng_valid (ac ! i)) idx))"
    by (simp only: mset_filter)
  then have "length (in_cell tr m ac p (map_cand ac idx)) = length (in_cell tr m ac p (filter (\<lambda>i. ac_rng_valid (ac ! i)) idx))"
    by (rule mset_eq_length)
  then show ?thesis by (simp add: conj_commute)
qed

lemma last_most_important:
  assumes "v \<in> set (in_cell tr m ac p (map_cand ac idx))"
  shows "map_priority (ac ! last (in_cell tr m ac p (map_cand ac idx))) \<le> map_priority (ac ! v)"
proof -
  let ?h = "in_cell tr m ac p (map_cand ac idx)"
  have "in_order (\<lambda>v w. map_before (ac ! v) (ac ! w)) ?h"
    using blips.insertion_sort_in_order unfolding map_cand_def sort_map_cand_def in_order_def
    by (intro sorted_wrt_filter)
  then have "v = last ?h \<or> \<not> map_before (ac ! last ?h) (ac ! v)" using assms by (rule in_order_last)
  then show ?thesis by (auto simp: map_before_def Let_def split: if_splits)
qed

text \<open>
  C11: every aircraft with a position inside the map is on it. Its cell shows the arrow of its heading,
  or, shared, the number of aircraft there (a plus sign from ten on), in the colour of one that is at least as important; so
  the cell of an aircraft in distress is always red. No label, airport, scale bar or antenna mark
  drawn in the same frame hides it.
\<close>

theorem map_shows_every_aircraft:
  assumes "i \<in> set idx" "ac_rng_valid (ac ! i)" "blip_cell tr (map_view_of v rows) (ac ! i) = Some p"
  shows "(\<exists>w \<in> set idx. blip_cell tr (map_view_of v rows) (ac ! w) = Some p \<and>
      map_priority (ac ! w) \<le> map_priority (ac ! i) \<and>
      mg_ch (fst (render_map data tr v ac idx rows)) p =
        blip_char (length (filter (\<lambda>j. ac_rng_valid (ac ! j) \<and> blip_cell tr (map_view_of v rows) (ac ! j) = Some p) idx))
          (ac ! w) \<and>
      mg_col (fst (render_map data tr v ac idx rows)) p = map_colour_of (ac ! w)) \<and>
    (ac_emerg (ac ! i) \<longrightarrow> mg_col (fst (render_map data tr v ac idx rows)) p = C_RED)"
proof -
  let ?m = "map_view_of v rows"
  let ?h = "in_cell tr ?m ac p (map_cand ac idx)"
  have i: "i \<in> set ?h" using assms by (simp add: map_cand_def sort_map_cand_def)
  then have ne: "?h \<noteq> []" by (metis empty_iff list.set(1))
  then have "last ?h \<in> set ?h" by (rule last_in_set)
  then have w: "last ?h \<in> set idx" "blip_cell tr ?m (ac ! last ?h) = Some p" by (simp_all add: map_cand_def sort_map_cand_def)
  note look = render_view_blips[OF ne, of data "BAR_KM ! tv_range v"]
  have pr: "map_priority (ac ! last ?h) \<le> map_priority (ac ! i)" by (rule last_most_important[OF i])
  have "ac_emerg (ac ! last ?h)" if "ac_emerg (ac ! i)"
    using pr that by (auto simp: map_priority_def split: if_splits plane_cat_t.splits)
  then have "ac_emerg (ac ! i) \<longrightarrow> mg_col (fst (render_map data tr v ac idx rows)) p = C_RED"
    using look by (simp add: render_map_def Let_def map_colour_of_def)
  moreover have "mg_ch (fst (render_map data tr v ac idx rows)) p =
      blip_char (length (filter (\<lambda>j. ac_rng_valid (ac ! j) \<and> blip_cell tr ?m (ac ! j) = Some p) idx)) (ac ! last ?h)"
    using look(1) by (simp add: render_map_def Let_def in_cell_count)
  moreover have "mg_col (fst (render_map data tr v ac idx rows)) p = map_colour_of (ac ! last ?h)"
    using look(2) by (simp add: render_map_def Let_def)
  ultimately show ?thesis using w pr by blast
qed

text \<open>Two aircraft over the antenna, the second with an emergency squawk.\<close>

definition view_example :: tui_view where
  "view_example = \<lparr>tv_rows = 40, tv_sort = 0, tv_range = 2, tv_pan_e = 0, tv_pan_n = 0, tv_map_rows = 21, tv_esc = 0,
     tv_muted = False, tv_volume = 50, tv_injected = 0\<rparr>"

definition overhead :: "aircraft list" where
  "overhead = [aircraft_zero\<lparr>ac_rng_valid := True\<rparr>, aircraft_zero\<lparr>ac_rng_valid := True, ac_squawk := 7700\<rparr>]"

definition trig_example :: trig where
  "trig_example = \<lparr>sinf_fn = \<lambda>x. 0, cosf_of = \<lambda>x. 1\<rparr>"

lemma overhead_cell: "i < 2 \<Longrightarrow> blip_cell trig_example (map_view_of view_example 21) (overhead ! i) = Some (10, 42)"
proof -
  assume "i < 2"
  then have d: "ac_dist_km (overhead ! i) = 0" by (auto simp: overhead_def aircraft_zero_def less_2_cases_iff)
  have "flt 10 = 10" "flt 42 = 42" using fp_round_int[of 10 24] fp_round_int[of 42 24] by simp_all
  moreover have "\<lfloor>21 / 2 :: rat\<rfloor> = 10" "\<lfloor>85 / 2 :: rat\<rfloor> = 42" by (rule floor_unique; simp)+
  ultimately show ?thesis
    by (simp add: blip_cell_def d map_view_of_def view_example_def Let_def on_map_def MAP_CX_def MAP_W_def lround_def)
qed

lemma map_shows_every_aircraft_witness:
  "mg_col (fst (render_map None trig_example view_example overhead [0, 1] 21)) (10, 42) = C_RED"
proof -
  have v: "ac_rng_valid (overhead ! 1)" and e: "ac_emerg (overhead ! 1)"
    by (simp_all add: overhead_def aircraft_zero_def ac_emerg_def)
  have i: "1 \<in> set [0 :: nat, 1]" by simp
  show ?thesis using map_shows_every_aircraft[OF i v overhead_cell] e by simp
qed

section \<open>Every one is counted\<close>

lemma sum_cells:
  assumes "finite G"
  shows "(\<Sum>p\<in>G. if P p then length (filter (\<lambda>i. f i = Some p) xs) else 0) =
    length (filter (\<lambda>i. \<exists>p\<in>G. f i = Some p \<and> P p) xs)"
proof (induction xs)
  case (Cons x xs)
  have "(\<Sum>p\<in>G. if P p then length (filter (\<lambda>i. f i = Some p) (x # xs)) else 0) =
      (\<Sum>p\<in>G. (if P p \<and> f x = Some p then 1 else 0) + (if P p then length (filter (\<lambda>i. f i = Some p) xs) else 0))"
    by (intro sum.cong) auto
  also have "\<dots> = (\<Sum>p\<in>G. if P p \<and> f x = Some p then 1 else 0) +
      length (filter (\<lambda>i. \<exists>p\<in>G. f i = Some p \<and> P p) xs)"
    unfolding sum.distrib Cons.IH ..
  also have "(\<Sum>p\<in>G. if P p \<and> f x = Some p then 1 else 0) = (if \<exists>p\<in>G. f x = Some p \<and> P p then 1 else 0 :: nat)"
  proof (cases "f x")
    case (Some q)
    have "(\<Sum>p\<in>G. if P p \<and> f x = Some p then 1 else 0) = (\<Sum>p\<in>G. if p = q then (if P q then 1 else 0) else 0 :: nat)"
      using Some by (intro sum.cong) auto
    also have "\<dots> = (if q \<in> G \<and> P q then 1 else 0)" using assms by (simp add: sum.delta)
    finally show ?thesis using Some by auto
  qed simp
  finally show ?case by simp
qed (simp cong: if_cong)

text \<open>
  The number on the map's title is the number of aircraft in view that share their cell with another;
  all the others in view stand alone under their own arrow.
\<close>

lemma map_folded_counts:
  "snd (render_map data tr v ac idx rows) = length (filter (\<lambda>i. ac_rng_valid (ac ! i) \<and>
     (\<exists>p. blip_cell tr (map_view_of v rows) (ac ! i) = Some p \<and>
        2 \<le> length (filter (\<lambda>j. ac_rng_valid (ac ! j) \<and> blip_cell tr (map_view_of v rows) (ac ! j) = Some p) idx))) idx)"
proof -
  let ?m = "map_view_of v rows"
  let ?g = "render_view data tr (BAR_KM ! tv_range v) ?m ac idx"
  let ?c = "\<lambda>p. length (filter (\<lambda>j. ac_rng_valid (ac ! j) \<and> blip_cell tr ?m (ac ! j) = Some p) idx)"
  let ?G = "{0..rows - 1} \<times> {0..MAP_COLS - 1}"
  let ?v = "filter (\<lambda>i. ac_rng_valid (ac ! i)) idx"
  have st: "mg_stack ?g p = length (filter (\<lambda>i. blip_cell tr ?m (ac ! i) = Some p) ?v)" for p
    by (simp add: render_view_stack in_cell_count conj_commute)
  have c: "length (filter (\<lambda>i. blip_cell tr ?m (ac ! i) = Some p) ?v) = ?c p" for p by (simp add: conj_commute)
  have rows: "mg_rows ?g = rows" by (simp add: Let_def render_view_stack map_view_of_def)
  have "snd (render_map data tr v ac idx rows) =
      (\<Sum>y\<in>{0..rows - 1}. \<Sum>x\<in>{0..MAP_COLS - 1}. if 2 \<le> mg_stack ?g (y, x) then mg_stack ?g (y, x) else 0)"
    by (simp only: render_map_def Let_def map_folded_def rows interv_sum_list_conv_sum_set_int snd_conv set_upto)
  also have "\<dots> = (\<Sum>p\<in>?G. if 2 \<le> ?c p then length (filter (\<lambda>i. blip_cell tr ?m (ac ! i) = Some p) ?v) else 0)"
    unfolding sum.cartesian_product st c by (intro sum.cong) auto
  also have "\<dots> = length (filter (\<lambda>i. \<exists>p\<in>?G. blip_cell tr ?m (ac ! i) = Some p \<and> 2 \<le> ?c p) ?v)"
    by (rule sum_cells) simp
  also have "\<dots> = length (filter (\<lambda>i. ac_rng_valid (ac ! i) \<and>
      (\<exists>p. blip_cell tr ?m (ac ! i) = Some p \<and> 2 \<le> ?c p)) idx)"
  proof -
    have "p \<in> ?G" if "blip_cell tr ?m a = Some p" for a p
      using blip_cell_on_map[OF that] by (cases p) (simp add: on_map_def map_view_of_def Let_def)
    then show ?thesis by (intro arg_cong[where f = length]) (auto intro!: filter_cong)
  qed
  finally show ?thesis .
qed

section \<open>A row on the terminal\<close>

text \<open>
  What a terminal makes of it: each cell printed with the foreground and the background in force,
  and the colours in force at the end.
\<close>

fun row_cells :: "row_out list \<Rightarrow> map_colour \<times> bool \<Rightarrow> (map_colour \<times> bool \<times> row_out) list" where
  "row_cells [] st = []"
| "row_cells (Bg l # os) st = row_cells os (fst st, l)"
| "row_cells (Fg c # os) st = row_cells os (c, snd st)"
| "row_cells (Colours_off # os) st = row_cells os (C_NONE, False)"
| "row_cells (out # os) st = (fst st, snd st, out) # row_cells os st"

fun row_end :: "row_out list \<Rightarrow> map_colour \<times> bool \<Rightarrow> map_colour \<times> bool" where
  "row_end [] st = st"
| "row_end (Bg l # os) st = row_end os (fst st, l)"
| "row_end (Fg c # os) st = row_end os (c, snd st)"
| "row_end (Colours_off # os) st = row_end os (C_NONE, False)"
| "row_end (out # os) st = row_end os st"

text \<open>
  How a cell is to look: text in its colour, on land if two of its quarters are; an empty cell as its
  quarters, and a blank is a blank in any foreground.
\<close>

definition cell_looks :: "map_grid \<Rightarrow> cell \<Rightarrow> map_colour \<times> bool \<times> row_out \<Rightarrow> bool" where
  "cell_looks g p look =
     (case look of (c, l, out) \<Rightarrow>
        if mg_ch g p \<noteq> 0x20
        then c = mg_col g p \<and> l = (2 \<le> QUAD_N ! unat (mg_land g p)) \<and>
          out = (if mg_ch g p < 0x10 then Glyph (mg_ch g p) else Char (mg_ch g p))
        else if mg_occ g p then l = (2 \<le> QUAD_N ! unat (mg_land g p)) \<and> out = Char 0x20
        else if mg_land g p = 0 \<or> mg_land g p = 15 then l = (mg_land g p = 15) \<and> out = Char 0x20
        else c = C_LAND \<and> \<not> l \<and> out = Quad (mg_land g p))"

lemma emit_cell_read:
  assumes "emit_cell g p st = (out, st')"
  shows "\<exists>o'. row_cells (out @ os) st = (fst st', snd st', o') # row_cells os st' \<and>
      cell_looks g p (fst st', snd st', o') \<and> row_end (out @ os) st = row_end os st'"
  using assms by (cases st) (auto simp: emit_cell_def Let_def cell_looks_def split: if_splits)

lemma emit_cells_read:
  "list_all2 (\<lambda>look x. cell_looks g (y, x) look) (row_cells (emit_cells g y xs st) st) xs \<and>
    row_end (emit_cells g y xs st) st = (C_NONE, False)"
proof (induction xs arbitrary: st)
  case Nil
  then show ?case by (cases st) auto
next
  case (Cons x xs)
  obtain out st' where e: "emit_cell g (y, x) st = (out, st')" by (rule prod.exhaust)
  from emit_cell_read[OF e, of "emit_cells g y xs st'"] Cons.IH[of st'] show ?case by (auto simp: e)
qed

text \<open>
  C39: whatever the grid holds, the terminal shows a row of the map cell by cell as the grid has it, 85
  columns wide, although an escape is sent only where a colour changes; and the colours are off at its
  end, so nothing of the map's leaks into the log column beside it.
\<close>

theorem map_row_rendered:
  "list_all2 (\<lambda>look x. cell_looks g (y, x) look) (row_cells (emit_map_row g y) (C_NONE, False)) [0..MAP_COLS - 1] \<and>
    length (row_cells (emit_map_row g y) (C_NONE, False)) = MAP_W \<and>
    row_end (emit_map_row g y) (C_NONE, False) = (C_NONE, False)"
proof -
  note r = emit_cells_read[of g y "[0..MAP_COLS - 1]" "(C_NONE, False)"]
  then have "length (row_cells (emit_cells g y [0..MAP_COLS - 1] (C_NONE, False)) (C_NONE, False)) = MAP_W"
    by (auto dest: list_all2_lengthD)
  with r show ?thesis by (simp add: emit_map_row_def)
qed

section \<open>The frame on its terminal\<close>

text \<open>
  On a terminal of at least nine rows a frame has exactly as many lines as the terminal, its six lines of
  title, rules, headers and footer counted, so it neither scrolls nor leaves old lines standing.
\<close>

lemma tui_frame_fits:
  assumes "9 \<le> tv_rows v"
  shows "int (length (tf_table (tui_draw data pos tr v ac now)) + length (tf_map (tui_draw data pos tr v ac now))) +
    CHROME_ROWS = tv_rows v"
proof -
  let ?n = "int (length (sort_idx (tv_sort v) ac (active_idx ac)))"
  obtain t m where l: "layout (tv_rows v) ?n = (t, m)" by (rule prod.exhaust)
  have "0 \<le> t" "3 \<le> m" using layout_bounds[of "tv_rows v" ?n] unfolding l by simp_all
  moreover have "t + m + CHROME_ROWS = tv_rows v" using layout_fills(1)[OF assms, of ?n] unfolding l by simp
  ultimately show ?thesis by (simp add: tui_draw_def Let_def l split: prod.split)
qed

end
