(* ===== verification/Top.thy ===== *)
theory Top
  imports InsertSort Prelude
begin

text \<open>
  The sampler of the system monitor, \<open>top_stats_sample\<close> of \<open>main/top.c\<close>: the share of each interval a
  core was busy and a task ran, from the 64-bit run-time counters the kernel keeps. The task list, the
  idle tasks and the heap figures of the kernel are arguments.
\<close>

definition TOP_MAX_TASKS :: nat where "TOP_MAX_TASKS = 32"

datatype task_state = eRunning | eReady | eBlocked | eSuspended | eDeleted | eInvalid

record task_status =
  ts_handle :: nat
  ts_name :: string
  ts_core :: "int option"
  ts_prio :: u8
  ts_state :: task_state
  ts_hwm :: u32
  ts_rt :: u64

record top_task =
  tt_name :: string
  tt_core :: int
  tt_prio :: u8
  tt_state :: char
  tt_pct10 :: u16
  tt_hwm :: u32
  tt_time_us :: u64

record top_stats =
  st_cpu_busy :: "int list"
  st_span_ms :: nat
  st_heap :: "nat list"
  st_task :: "top_task list"

record hist =
  h_hdl :: nat
  h_rt :: u64
  h_time_us :: u64

record sampler =
  sp_stats :: top_stats
  sp_hist :: "hist list"
  sp_idle_hdl :: "(nat \<times> nat) option"
  sp_last_idle :: "u64 \<times> u64"
  sp_last_us :: int

text \<open>What the kernel answers: the idle tasks, the task list and the figures of the heap.\<close>

record kernel =
  kn_idle :: "nat \<times> nat"
  kn_tasks :: "task_status list"
  kn_heap :: "nat list"

definition sampler_start :: sampler where
  "sampler_start = \<lparr>sp_stats = \<lparr>st_cpu_busy = [- 1, - 1], st_span_ms = 0, st_heap = [0, 0, 0, 0, 0, 0], st_task = []\<rparr>,
     sp_hist = [], sp_idle_hdl = None, sp_last_idle = (0, 0), sp_last_us = 0\<rparr>"

definition state_char :: "task_state \<Rightarrow> char" where
  "state_char st =
     (case st of eRunning \<Rightarrow> CHR ''R'' | eReady \<Rightarrow> CHR ''r'' | eBlocked \<Rightarrow> CHR ''B'' | eSuspended \<Rightarrow> CHR ''S''
        | eDeleted \<Rightarrow> CHR ''D'' | eInvalid \<Rightarrow> CHR ''?'')"

text \<open>The last task of that handle in the list; zero if there is none.\<close>

definition idle_counter :: "nat \<Rightarrow> task_status list \<Rightarrow> u64" where
  "idle_counter h ts = fold (\<lambda>t idle. if ts_handle t = h then ts_rt t else idle) ts 0"

definition core_busy :: "int \<Rightarrow> u64 \<Rightarrow> u64 \<Rightarrow> int" where
  "core_busy dt idle prev =
     (let busy = dt - sint (idle - prev);
          busy = (if busy < 0 then 0 else busy);
          busy = (if dt < busy then dt else busy)
      in busy * 100 div dt)"

definition task_pct10 :: "int \<Rightarrow> u64 \<Rightarrow> u16" where
  "task_pct10 dt d =
     (if 0 < dt
      then let pct10 = (ucast (d * 1000 div word_of_int dt) :: u32)
           in if 1000 < pct10 then 1000 else ucast pct10
      else 0)"

text \<open>One turn of the loop over the tasks: the line of the report and the entry of the new history.\<close>

definition sample_task :: "int \<Rightarrow> hist list \<Rightarrow> task_status \<Rightarrow> top_task \<times> hist" where
  "sample_task dt prev st =
     (let t = \<lparr>tt_name = take 15 (ts_name st), tt_core = (case ts_core st of None \<Rightarrow> - 1 | Some c \<Rightarrow> c),
               tt_prio = ts_prio st, tt_state = state_char (ts_state st), tt_pct10 = 0, tt_hwm = ts_hwm st,
               tt_time_us = ts_rt st\<rparr>;
          t = (case find (\<lambda>h. h_hdl h = ts_handle st) prev of
                 None \<Rightarrow> t
               | Some h \<Rightarrow> let d = ts_rt st - h_rt h
                           in t\<lparr>tt_pct10 := task_pct10 dt d, tt_time_us := h_time_us h + d\<rparr>)
      in (t, \<lparr>h_hdl = ts_handle st, h_rt = ts_rt st, h_time_us = tt_time_us t\<rparr>))"

definition busier :: "top_task \<Rightarrow> top_task \<Rightarrow> bool" where
  "busier k t \<longleftrightarrow> tt_pct10 t < tt_pct10 k"

text \<open>
  \<open>uxTaskGetSystemState\<close> answers zero when the array is too small. The lock is taken between the two
  readings of the gate; without another caller in between they agree.
\<close>

definition top_stats_sample :: "kernel \<Rightarrow> int \<Rightarrow> sampler \<Rightarrow> sampler" where
  "top_stats_sample k now s =
     (if sp_last_us s \<noteq> 0 \<and> now - sp_last_us s < 1000000 then s
      else let hdl = (case sp_idle_hdl s of None \<Rightarrow> kn_idle k | Some h \<Rightarrow> h);
               s = s\<lparr>sp_idle_hdl := Some hdl\<rparr>;
               ts = (if length (kn_tasks k) \<le> TOP_MAX_TASKS then kn_tasks k else [])
           in if ts = [] then s
              else let dt = (if sp_last_us s \<noteq> 0 then now - sp_last_us s else 0);
                       idle = (idle_counter (fst hdl) ts, idle_counter (snd hdl) ts);
                       busy = (if 0 < dt
                               then [core_busy dt (fst idle) (fst (sp_last_idle s)),
                                     core_busy dt (snd idle) (snd (sp_last_idle s))]
                               else st_cpu_busy (sp_stats s));
                       lines = map (sample_task dt (sp_hist s)) ts
                   in s\<lparr>sp_stats := \<lparr>st_cpu_busy = busy, st_span_ms = nat (dt div 1000), st_heap = kn_heap k,
                          st_task = insertion_sort busier (map fst lines)\<rparr>,
                        sp_hist := map snd lines, sp_last_idle := idle, sp_last_us := now\<rparr>)"

section \<open>What a report says\<close>

interpretation busiest: insertion_order busier
  by unfold_locales (auto simp: busier_def)

inductive sampled :: "sampler \<Rightarrow> bool" where
  sampled_start: "sampled sampler_start"
| sampled_step: "sampled s \<Longrightarrow> sampled (top_stats_sample k now s)"

inductive_cases sampled_cases: "sampled s"

lemma core_busy_range: "0 < dt \<Longrightarrow> 0 \<le> core_busy dt i l \<and> core_busy dt i l \<le> 100"
proof -
  assume dt: "0 < dt"
  have "0 \<le> b \<Longrightarrow> b \<le> dt \<Longrightarrow> 0 \<le> b * 100 div dt \<and> b * 100 div dt \<le> 100" for b :: int
    using dt by (simp add: pos_imp_zdiv_nonneg_iff) (metis mult.commute nonzero_mult_div_cancel_right zdiv_mono1 mult_right_mono less_irrefl zero_le_numeral)
  then show ?thesis using dt by (simp add: core_busy_def Let_def)
qed

lemma task_pct10_range: "task_pct10 dt d \<le> 1000"
proof -
  have "unat (ucast p :: u16) \<le> unat p" for p :: u32
    by (simp add: unsigned_ucast_eq take_bit_nat_less_eq_self)
  then have "\<not> 1000 < p \<Longrightarrow> (ucast p :: u16) \<le> 1000" for p :: u32
    by (simp add: word_le_nat_alt word_less_nat_alt not_less) (metis le_trans)
  then show ?thesis by (simp add: task_pct10_def Let_def)
qed

text \<open>The history holds every counter twice: what TIME+ shows has never left the counter.\<close>

definition hist_exact :: "hist list \<Rightarrow> bool" where
  "hist_exact hs \<longleftrightarrow> list_all (\<lambda>h. h_time_us h = h_rt h) hs"

lemma sample_task_time:
  assumes "hist_exact prev"
  shows "tt_time_us (fst (sample_task dt prev t)) = ts_rt t \<and> h_time_us (snd (sample_task dt prev t)) = ts_rt t \<and>
    h_rt (snd (sample_task dt prev t)) = ts_rt t \<and> tt_name (fst (sample_task dt prev t)) = take 15 (ts_name t)"
proof -
  have "h_time_us h = h_rt h" if "find (\<lambda>h. h_hdl h = ts_handle t) prev = Some h" for h
    using that assms by (auto simp: hist_exact_def list_all_iff find_Some_iff)
  then show ?thesis by (auto simp: sample_task_def Let_def split: option.split)
qed

lemma sample_task_pct: "tt_pct10 (fst (sample_task dt prev t)) \<le> 1000"
  by (auto simp: sample_task_def Let_def task_pct10_range split: option.split)

lemma sampled_exact: "sampled s \<Longrightarrow> hist_exact (sp_hist s)"
proof (induction rule: sampled.induct)
  case sampled_start
  show ?case by (simp add: sampler_start_def hist_exact_def)
next
  case (sampled_step s k now)
  then show ?case using sample_task_time[OF sampled_step.IH]
    by (auto simp: top_stats_sample_def Let_def hist_exact_def list_all_iff)
qed

lemma sample_taken:
  assumes "sp_last_us s = 0 \<or> 1000000 \<le> now - sp_last_us s" "kn_tasks k \<noteq> []" "length (kn_tasks k) \<le> TOP_MAX_TASKS"
  shows "st_task (sp_stats (top_stats_sample k now s)) =
      insertion_sort busier (map (\<lambda>t. fst (sample_task (if sp_last_us s \<noteq> 0 then now - sp_last_us s else 0) (sp_hist s) t))
        (kn_tasks k))"
  using assms by (auto simp: top_stats_sample_def Let_def comp_def)

text \<open>The percentages of the cores, once known, stay percentages.\<close>

lemma cpu_busy_range:
  "sampled s \<Longrightarrow> length (st_cpu_busy (sp_stats s)) = 2 \<and> (\<forall>c \<in> set (st_cpu_busy (sp_stats s)). - 1 \<le> c \<and> c \<le> 100)"
proof (induction rule: sampled.induct)
  case sampled_start
  show ?case by (simp add: sampler_start_def)
next
  case (sampled_step s k now)
  have "- 1 \<le> core_busy dt i l \<and> core_busy dt i l \<le> 100" if "0 < dt" for dt i l
    using core_busy_range[OF that, of i l] by simp
  then show ?case using sampled_step.IH by (auto simp: top_stats_sample_def Let_def)
qed

text \<open>
  C40: a report lists every task the kernel named once, the busiest first, no task above 100.0 percent
  of a core and no core outside 0 to 100 (or -1, not yet known); and the run time it shows for a task is
  the kernel's own counter, although it is summed up from differences since the task was first seen.
\<close>

theorem top_report:
  assumes "sampled s" "sp_last_us s = 0 \<or> 1000000 \<le> now - sp_last_us s" "kn_tasks k \<noteq> []"
    "length (kn_tasks k) \<le> TOP_MAX_TASKS"
  shows "let r = sp_stats (top_stats_sample k now s) in
    mset (map (\<lambda>t. (tt_name t, tt_time_us t)) (st_task r)) = mset (map (\<lambda>t. (take 15 (ts_name t), ts_rt t)) (kn_tasks k)) \<and>
    sorted_wrt (\<lambda>t u. tt_pct10 u \<le> tt_pct10 t) (st_task r) \<and>
    (\<forall>t \<in> set (st_task r). tt_pct10 t \<le> 1000) \<and> (\<forall>c \<in> set (st_cpu_busy r). - 1 \<le> c \<and> c \<le> 100)"
proof -
  define prev where "prev = sp_hist s"
  define dt where "dt = (if sp_last_us s \<noteq> 0 then now - sp_last_us s else 0)"
  let ?line = "\<lambda>t. fst (sample_task dt prev t)"
  have r: "st_task (sp_stats (top_stats_sample k now s)) = insertion_sort busier (map ?line (kn_tasks k))"
    unfolding dt_def prev_def by (rule sample_taken[OF assms(2-4)])
  have ex: "hist_exact prev" unfolding prev_def by (rule sampled_exact[OF assms(1)])
  have "mset (map (\<lambda>t. (tt_name t, tt_time_us t)) (insertion_sort busier (map ?line (kn_tasks k)))) =
      mset (map (\<lambda>t. (tt_name t, tt_time_us t)) (map ?line (kn_tasks k)))"
    by (simp only: mset_map mset_insertion_sort)
  also have "map (\<lambda>t. (tt_name t, tt_time_us t)) (map ?line (kn_tasks k)) =
      map (\<lambda>t. (take 15 (ts_name t), ts_rt t)) (kn_tasks k)"
    using sample_task_time[OF ex, of dt] by simp
  finally have m: "mset (map (\<lambda>t. (tt_name t, tt_time_us t)) (insertion_sort busier (map ?line (kn_tasks k)))) =
      mset (map (\<lambda>t. (take 15 (ts_name t), ts_rt t)) (kn_tasks k))" .
  have o: "sorted_wrt (\<lambda>t u. tt_pct10 u \<le> tt_pct10 t) (insertion_sort busier (map ?line (kn_tasks k)))"
    using busiest.insertion_sort_in_order[of "map ?line (kn_tasks k)"] by (simp add: in_order_def busier_def not_less)
  have p: "\<forall>t \<in> set (insertion_sort busier (map ?line (kn_tasks k))). tt_pct10 t \<le> 1000"
    using sample_task_pct by auto
  show ?thesis
    unfolding Let_def r using m o p cpu_busy_range[OF sampled_step[OF assms(1), of k now]] by blast
qed

definition kernel_example :: "u64 \<Rightarrow> u64 \<Rightarrow> kernel" where
  "kernel_example a b = \<lparr>kn_idle = (1, 2),
     kn_tasks = [\<lparr>ts_handle = 1, ts_name = ''IDLE0'', ts_core = Some 0, ts_prio = 0, ts_state = eReady, ts_hwm = 600, ts_rt = a\<rparr>,
       \<lparr>ts_handle = 3, ts_name = ''adsb'', ts_core = None, ts_prio = 3, ts_state = eRunning, ts_hwm = 900, ts_rt = b\<rparr>], kn_heap = []\<rparr>"

lemma top_report_witness:
  "let r = sp_stats (top_stats_sample (kernel_example 500000 2000000) 3000000
      (top_stats_sample (kernel_example 100000 1000000) 1000000 sampler_start)) in
    mset (map (\<lambda>t. (tt_name t, tt_time_us t)) (st_task r)) = {#(''IDLE0'', 500000), (''adsb'', 2000000)#} \<and>
    (\<forall>c \<in> set (st_cpu_busy r). - 1 \<le> c \<and> c \<le> 100)"
proof -
  let ?s = "top_stats_sample (kernel_example 100000 1000000) 1000000 sampler_start"
  have s: "sampled ?s" by (intro sampled_step sampled_start)
  have us: "sp_last_us ?s = 0 \<or> 1000000 \<le> 3000000 - sp_last_us ?s"
    by (simp add: top_stats_sample_def sampler_start_def kernel_example_def Let_def TOP_MAX_TASKS_def)
  have t: "kn_tasks (kernel_example 500000 2000000) \<noteq> []" "length (kn_tasks (kernel_example 500000 2000000)) \<le> TOP_MAX_TASKS"
    by (simp_all add: kernel_example_def TOP_MAX_TASKS_def)
  show ?thesis using top_report[OF s us t] by (simp add: Let_def) (simp add: kernel_example_def)
qed

text \<open>
  A task that ran no longer than the interval gets its exact share in tenths of a percent, for any
  interval up to a day.
\<close>

lemma task_pct10_exact:
  assumes "0 < dt" "dt \<le> 86400000000" "unat d \<le> nat dt"
  shows "unat (task_pct10 dt d) = unat d * 1000 div nat dt"
proof -
  have dt: "unat (word_of_int dt :: u64) = nat dt"
    using assms by (simp add: unsigned_of_int take_bit_int_eq_self)
  have "unat d * 1000 \<le> nat dt * 1000" using assms(3) by simp
  also have "\<dots> < 2 ^ 64" using assms(2) by simp
  finally have m: "unat (d * 1000) = unat d * 1000" by (simp add: unat_word_ariths)
  have q: "unat d * 1000 div nat dt \<le> 1000"
    using assms by (metis div_le_mono mult_le_mono1 nonzero_mult_div_cancel_left zero_less_nat_eq neq0_conv)
  define w :: u32 where "w = ucast (d * 1000 div word_of_int dt)"
  have w: "unat w = unat d * 1000 div nat dt"
    using q by (simp add: w_def unsigned_ucast_eq unat_div dt m take_bit_nat_eq_self)
  then have "\<not> 1000 < w" "unat (ucast w :: u16) = unat w"
    using q by (simp_all add: word_less_nat_alt unsigned_ucast_eq take_bit_nat_eq_self)
  then have "task_pct10 dt d = ucast w" "unat (ucast w :: u16) = unat w"
    using assms(1) by (simp_all add: task_pct10_def Let_def flip: w_def)
  then show ?thesis using w by simp
qed

end
