(* ===== verification/Spec2Isabelle.thy ===== *)
theory Spec2Isabelle
  imports CrcErrors IcaoCache MsgFieldProps CommB DecodeRepair CprProps PlaneCat FeedAvr FeedBeast FeedJson UsbTransfer TrackerProps AircraftJson EventLog RtlRate R82xxPll RtlBracket Screen ReceiverProps UsbClient ShellProps Ota NetConfig NetSsh TuiMapProps Top
begin

text \<open>
  ADS-B receiver firmware for the ESP32-P4 with an RTL-SDR dongle, modelled from \<open>src/main\<close>.

  \<^bold>\<open>The program.\<close> A USB dongle streams I/Q samples into a byte ring (\<open>esp_libusb.c\<close>); the receive task of
  \<open>class_driver.c\<close> turns them into magnitudes and the demodulator of \<open>mode-s.c\<close> finds Mode S frames in
  them. Each frame goes through the decoder of the same file, which checks and repairs its parity,
  recovers the sender's address with the help of a cache of addresses heard, and decodes the fields.
  Accepted messages reach \<open>on_msg\<close> of \<open>class_driver.c\<close>: it hands the frame to the AVR and the Beast feed
  (\<open>feed_avr.c\<close>, \<open>feed_beast.c\<close>), keeps the table of aircraft, resolves CPR positions with \<open>cpr.c\<close>,
  guesses a category with \<open>plane_cat.c\<close> and logs events. The JSON feed (\<open>feed_json.c\<close>) sends a snapshot
  of the table once a second.
  Before all that the library \<open>librtlsdr.c\<close> finds the tuner behind the RTL2832U of the dongle and
  programs both, the tuner through \<open>tuner_r82xx.c\<close>; it does so over the control transfers of
  \<open>esp_libusb.c\<close>.
  The board is operated through a console (\<open>shell.c\<close>) on the serial port, or in a session over SSH
  (\<open>net_ssh.c\<close>), one at a time; two full-screen displays (\<open>tui.c\<close>, \<open>top.c\<close>) are painted by \<open>screen.c\<close> into the
  transports they were opened on. The board is an access point and a station at once (\<open>net_wifi.c\<close>)
  beside its cable (\<open>net_eth.c\<close>), is configured through a web page (\<open>web_config.c\<close>) or the console, and takes
  new firmware over the air (\<open>ota.c\<close>).

  \<^bold>\<open>The theories.\<close>
  \<^item> \<open>Prelude\<close>: machine types, bits of a message, lists and exclusive-or sums. \<open>Fp\<close>: IEEE 754 rounding on
    rationals, its monotonicity and error bounds.
  \<^item> \<open>Crc\<close>, \<open>CrcErrors\<close>: the parity table, the checksum, the two correctors of \<open>mode-s.c\<close>. The checksum is
    the CRC of the generator polynomial; it detects bursts and up to five flipped bits, and the
    correctors find exactly the errors they are meant to.
  \<^item> \<open>IcaoCache\<close>: \<open>mode_s_t\<close> and its address cache; the locale \<open>addr_cache\<close> states what a cache of
    addresses promises its client \<open>brute_force_ap\<close>, and is interpreted on the hash table of the code.
  \<^item> \<open>MsgRec\<close>, \<open>MsgFields\<close>, \<open>MsgFieldProps\<close>: the decoded message and the field decoders, against encoders.
  \<^item> \<open>CommB\<close>: the Comm-B registers, target state and operational status. \<open>Decode\<close>: \<open>mode_s_decode\<close>, stage by
    stage in the order of its body. \<open>DecodeProps\<close> shows which fields each stage may write, \<open>DecodeRepair\<close>
    what is repaired, what enters the cache and whose address an accepted message carries.
  \<^item> \<open>Demod\<close>, \<open>DemodProps\<close>: magnitudes, preamble, slicing, phase correction and the detection loop.
  \<^item> \<open>Cpr\<close>, \<open>CprProps\<close>: position decoding, the range of its results and the recovery of an encoded
    latitude, from either frame, within the rounding of the encoding. \<open>PlaneCat\<close>: the category guess.
  \<^item> \<open>Ring\<close>: rings of a power of two cells under free-running 32-bit counters; the locale \<open>channel\<close> is the
    contract of a queue that refuses what it has no room for, interpreted on both feeds and on the
    sample stream. \<open>Spsc\<close>: the same ring at the grain of single memory accesses of two tasks.
  \<^item> \<open>TcpFeed\<close>: the connection table the three feeds share. The locale \<open>slot_handler\<close> says what a handler of
    one slot may do to the table, \<open>stalling\<close> what it does to a client that does not read; every poll and
    send of the feeds interprets them. \<open>FeedRing\<close>, \<open>FeedAvr\<close>, \<open>FeedBeast\<close>, \<open>FeedJson\<close>: the feeds, with
    one pass of each task as a step relation and the invariant of its reachable states.
  \<^item> \<open>UsbStream\<close>, \<open>UsbTransfer\<close>: the streaming and the synchronous half of \<open>esp_libusb.c\<close>.
  \<^item> \<open>RtlDev\<close>: the device handle of \<open>librtlsdr.c\<close> as the state of a monad, its register accesses over the
    transfers of \<open>UsbTransfer\<close>, GPIO, repeater, filter, base band and EEPROM. \<open>R82xx\<close>, \<open>R82xxSetup\<close>: the
    registers and the synthesiser of the tuner, then its set-up, gain, bandwidth and tuning.
    \<open>Librtlsdr\<close>: the operations of the library. \<open>R82xxPll\<close>: within the range of the chip the
    synthesiser is programmed with the frequency asked for, up to its resolution.
  \<^item> \<open>RtlGate\<close>: rules that carry a predicate on the device through a computation, and the proof that every
    operation brackets its accesses to the tuner; \<open>RtlBracket\<close> states it over the histories of a device, up to the
    first write of the repeater's register that fails. \<open>RtlFrame\<close>: the locales \<open>chip_frame\<close>, \<open>io_frame\<close> and
    \<open>device_frame\<close> say what a predicate must satisfy to survive the calls of the tuner, of the transfers
    and of the whole library (\<open>tuner_frame\<close>: without those that change the crystal's frequency). \<open>RtlRate\<close> interprets them on the predicates the sample rate needs,
    \<open>R82xxShadow\<close> on those that tie the driver's copy of the tuner's registers to the chip.
  \<^item> \<open>Tracker\<close>, \<open>TrackerProps\<close>: the aircraft table, \<open>on_msg\<close>, the synthetic contacts and the tick. \<open>AircraftJson\<close>: the snapshot.
    \<open>EventLog\<close>: the ring of log lines.
  \<^item> \<open>Antenna\<close>: the antenna's position between flash, receive task, web form and console. \<open>Receiver\<close>: the receive
    task, from the sample stream through demodulator and table to the tick. \<open>ReceiverProps\<close> puts the parts
    together: the bytes of a squitter in the stream become the row of its aircraft.
  \<^item> \<open>UsbClient\<close>: the client's table of devices and the set-up of a dongle over \<open>Librtlsdr\<close>, with the sample
    rate it leaves.
  \<^item> \<open>Screen\<close>: the display service, from the calls that draw a frame to the bytes each terminal gets.
    \<open>ScreenKeys\<close>: what a key does to a display.
  \<^item> \<open>InsertSort\<close>: the insertion sort the displays share; the locale \<open>insertion_order\<close> says what a comparison must
    satisfy, and is interpreted on the orders of the table, of the map, of a row's crossings and of the task list.
    \<open>MapLand\<close>: the scan lines of \<open>map.c\<close>, which compute the even-odd rule. \<open>TuiTable\<close>: order, layout and
    text of the table in \<open>tui.c\<close>. \<open>TuiMap\<close>, \<open>TuiMapProps\<close>: the grid of the map in its order of drawing; the locale
    \<open>overlay\<close> is the contract of what is drawn on free cells only, interpreted on labels and airports.
    \<open>Top\<close>: the sampler of the monitor, \<open>top.c\<close>.
  \<^item> \<open>Shell\<close>: the console, with its owner, its line, its screens and the echo of the event log (\<open>EventLog\<close>), and one
    definition per function of \<open>shell.c\<close>. \<open>ShellProps\<close>: the serial task, the SSH task at its place in \<open>run_shell\<close> and the drawing task as
    one step relation, the invariant of its reachable states, and where output may go.
  \<^item> \<open>NetSsh\<close>: the output ring of a session, its stream and its waiting writers, which interpret the
    locale \<open>channel\<close> once more; the login.
  \<^item> \<open>NetWifi\<close>: credentials, switches, events, bring-up and the join task with its backoff. \<open>NetConfig\<close>:
    the web forms and the command that configure it, the cable, and the texts of forms and pages.
  \<^item> \<open>Ota\<close>: the upload of a new image as the list of what it does to socket and flash.

  \<^bold>\<open>Conventions.\<close> An integer is kept at its width (\<open>u8\<close>, \<open>u16\<close>, \<open>u32\<close>) where the code wraps it, and is an \<open>int\<close>
  or \<open>nat\<close> where its range keeps it from wrapping; times in microseconds are \<open>int\<close>. A \<open>float\<close> or
  \<open>double\<close> is the rational it holds and every operation is rounded on its own, without contraction into
  fused operations; infinities, NaN and the sign of zero do not arise in the expressions modelled.
  The trigonometric and root functions of the C library are arguments (\<open>libm\<close>, \<open>geo\<close>, \<open>trig\<close>). The results of
  socket calls, of USB submissions and of the clocks are arguments as well, so a theorem holds for
  whatever the environment answers. Undefined behaviour of a shift or an index is excluded by the
  hypotheses that name the range. Calls that only report (\<open>ESP_LOG\<close>, \<open>air_log\<close>) leave an event, without
  its text. The device handle carries the log of its control transfers and the environment's answer
  to each of them; the handle is never \<open>NULL\<close>, and delays are left out.
  A call of the flash or of the radio that may fail takes its result from an argument, by the number
  of the call. Text printed on the console is the bytes of the code's literals; a line with numbers
  formatted into it is an argument, as are the handlers of the commands that only report. A task runs
  its pass of a step relation without another task between its steps; where a lock may be refused the
  refusal is an argument of the step.

  \<^bold>\<open>Bounds and termination.\<close> No definition uses fuel: \<open>detect_mode_s\<close>, the drain loops, the reader of the
  log, the digit loop of the conversions, the receive loop of an upload (bytes left, then timeouts in a
  row), the waiting writer of a session, the loop that fills the sample buffer and the rounds of a
  device's actions each have a measure. The send loop of the JSON feed is a
  partial function, since it polls a clock: \<open>json_send_frame_returns\<close> proves that it returns once the
  clock has passed its deadline.

  \<^bold>\<open>Not modelled.\<close> The drivers of the other tuners: \<open>rtlsdr_open\<close> has its probes for them commented out, so
  none of them can be selected. The start-up in \<open>app_main\<close>, the audio output and the recovery task; the key
  exchange, the host key and the event loop of SSH sessions and the write that bypasses their ring;
  the set-up of the network interfaces and the layout of the web page; the commands
  of the console that only report; the title, the rules and the log column around the table and the map, and the
  lines the monitor prints. Most of these consist of calls to ESP-IDF,
  lwIP or libssh, whose sources are not part of the repository, or of formatted text.
\<close>

end
